(* ===== verification/Prelude.thy ===== *)
theory Prelude
  imports Main "HOL-Library.List_Lexorder" "HOL-Library.Char_ord"
begin

text \<open>
  What every component shares: the collections of simplification rules, the option, list and
  association-list lemmas, and the part of Go's standard library the modelled code calls on
  strings (\<^verbatim>\<open>strings\<close>, \<^verbatim>\<open>strconv\<close>, \<^verbatim>\<open>cmp\<close>, \<^verbatim>\<open>slices\<close>, \<^verbatim>\<open>sort\<close>).

  A Go string is a byte sequence; it is a \<^typ>\<open>string\<close> here, a list of bytes. \<open>TrimSpace\<close>,
  \<open>ToLower\<close> and \<open>ToUpper\<close> are written out for the ASCII range: a byte of 128 or more is neither
  space nor letter. Strings are ordered bytewise (\<^verbatim>\<open>HOL-Library.List_Lexorder\<close>), as Go orders them.
\<close>

named_theorems str_simps \<open>evaluation rules of the string functions\<close>
named_theorems err_simps \<open>evaluation rules of the error taxonomy\<close>
named_theorems slot_simps \<open>definitions of the slot operations\<close>
named_theorems inv_intros \<open>preservation of the components' invariants\<close>

section \<open>Byte classes\<close>

definition is_space :: "char \<Rightarrow> bool" where
  "is_space c \<longleftrightarrow> c \<in> {CHR 0x09, CHR 0x0A, CHR 0x0B, CHR 0x0C, CHR 0x0D, CHR 0x20}"

definition newline :: char where
  "newline = CHR 0x0A"

definition ch_lower :: "char \<Rightarrow> char" where
  "ch_lower c = (let n = of_char c :: nat in if 65 \<le> n \<and> n \<le> 90 then char_of (n + 32) else c)"

definition ch_upper :: "char \<Rightarrow> char" where
  "ch_upper c = (let n = of_char c :: nat in if 97 \<le> n \<and> n \<le> 122 then char_of (n - 32) else c)"

section \<open>Go's string functions\<close>

definition to_lower :: "string \<Rightarrow> string" where
  "to_lower s = map ch_lower s"

definition to_upper :: "string \<Rightarrow> string" where
  "to_upper s = map ch_upper s"

definition trim_left :: "(char \<Rightarrow> bool) \<Rightarrow> string \<Rightarrow> string" where
  "trim_left p s = dropWhile p s"

definition trim_right :: "(char \<Rightarrow> bool) \<Rightarrow> string \<Rightarrow> string" where
  "trim_right p s = rev (dropWhile p (rev s))"

definition trim_space :: "string \<Rightarrow> string" where
  "trim_space s = trim_right is_space (trim_left is_space s)"

fun has_prefix :: "string \<Rightarrow> string \<Rightarrow> bool" where
  "has_prefix s [] = True"
| "has_prefix [] (p # ps) = False"
| "has_prefix (c # cs) (p # ps) = (c = p \<and> has_prefix cs ps)"

definition has_suffix :: "string \<Rightarrow> string \<Rightarrow> bool" where
  "has_suffix s suf = has_prefix (rev s) (rev suf)"

fun contains_str :: "string \<Rightarrow> string \<Rightarrow> bool" where
  "contains_str [] sub = (sub = [])"
| "contains_str (c # cs) sub = (has_prefix (c # cs) sub \<or> contains_str cs sub)"

definition contains_any :: "string \<Rightarrow> string \<Rightarrow> bool" where
  "contains_any s chars = list_ex (\<lambda>c. c \<in> set chars) s"

definition trim_prefix :: "string \<Rightarrow> string \<Rightarrow> string" where
  "trim_prefix s p = (if has_prefix s p then drop (length p) s else s)"

text \<open>\<open>strings.Cut\<close> at a one-byte separator: what precedes it, what follows it, whether it occurs.\<close>

fun cut :: "char \<Rightarrow> string \<Rightarrow> string \<times> string \<times> bool" where
  "cut sep [] = ([], [], False)"
| "cut sep (c # cs) =
     (if c = sep then ([], cs, True)
      else (case cut sep cs of (a, b, found) \<Rightarrow> (c # a, b, found)))"

text \<open>\<open>strings.Split\<close> at a one-byte separator; there is always at least one part.\<close>

fun split_on :: "char \<Rightarrow> string \<Rightarrow> string list" where
  "split_on sep [] = [[]]"
| "split_on sep (c # cs) =
     (if c = sep then [] # split_on sep cs
      else (case split_on sep cs of [] \<Rightarrow> [[c]] | p # ps \<Rightarrow> (c # p) # ps))"

fun join_with :: "string \<Rightarrow> string list \<Rightarrow> string" where
  "join_with sep [] = []"
| "join_with sep [x] = x"
| "join_with sep (x # y # zs) = x @ sep @ join_with sep (y # zs)"

text \<open>\<open>cmp.Or\<close> on two strings: the first non-empty one.\<close>

definition cmp_or :: "string \<Rightarrow> string \<Rightarrow> string" where
  "cmp_or a b = (if a \<noteq> [] then a else b)"

section \<open>Decimal numbers\<close>

fun itoa :: "nat \<Rightarrow> string" where
  "itoa n = (if n < 10 then [char_of (48 + n)] else itoa (n div 10) @ [char_of (48 + n mod 10)])"

declare itoa.simps [simp del]

definition itoa_int :: "int \<Rightarrow> string" where
  "itoa_int i = (if i < 0 then CHR ''-'' # itoa (nat (- i)) else itoa (nat i))"

text \<open>The same digits over the binary integers, for evaluation.\<close>

function int_digits :: "int \<Rightarrow> string" where
  "int_digits i =
     (if i < 10 then [char_of (48 + nat i)] else int_digits (i div 10) @ [char_of (48 + nat (i mod 10))])"
  by auto
termination by (relation "measure nat") auto

declare int_digits.simps [simp del]

lemma int_digits_itoa: "0 \<le> i \<Longrightarrow> int_digits i = itoa (nat i)"
proof (induction i rule: int_digits.induct)
  case (1 i)
  show ?case
  proof (cases "i < 10")
    case False
    with 1 have "int_digits (i div 10) = itoa (nat i div 10)" by (simp add: nat_div_distrib)
    moreover have "\<not> nat i < 10" using False by simp
    ultimately show ?thesis using False 1(2)
      by (simp add: int_digits.simps [of i] itoa.simps [of "nat i"] nat_mod_distrib)
  next
    case True
    then have "nat i < 10" by simp
    with True show ?thesis by (simp add: int_digits.simps [of i] itoa.simps [of "nat i"])
  qed
qed

lemma itoa_int_code [code]:
  "itoa_int i = (if i < 0 then CHR ''-'' # int_digits (- i) else int_digits i)"
  by (simp add: itoa_int_def int_digits_itoa)

definition digit_of :: "char \<Rightarrow> nat option" where
  "digit_of c = (let n = of_char c :: nat in if 48 \<le> n \<and> n \<le> 57 then Some (n - 48) else None)"

fun digits_value :: "nat \<Rightarrow> string \<Rightarrow> nat option" where
  "digits_value acc [] = Some acc"
| "digits_value acc (c # cs) =
     (case digit_of c of None \<Rightarrow> None | Some d \<Rightarrow> digits_value (10 * acc + d) cs)"

text \<open>\<open>strconv.Atoi\<close> on a 64-bit platform: an optional sign, at least one digit, in range.\<close>

definition atoi :: "string \<Rightarrow> int option" where
  "atoi s =
     (let (neg, ds) = (case s of
          [] \<Rightarrow> (False, [])
        | c # cs \<Rightarrow> if c = CHR ''-'' then (True, cs) else if c = CHR ''+'' then (False, cs) else (False, s))
      in if ds = [] then None
         else case digits_value 0 ds of
             None \<Rightarrow> None
           | Some n \<Rightarrow>
               (let v = (if neg then - int n else int n)
                in if - (2 ^ 63) \<le> v \<and> v < 2 ^ 63 then Some v else None))"

section \<open>Association lists standing for Go maps\<close>

text \<open>
  A Go map is an association list with distinct keys; the list's order is the (unspecified) order
  in which \<^verbatim>\<open>range\<close> would visit it.
\<close>

fun al_put :: "'k \<Rightarrow> 'v \<Rightarrow> ('k \<times> 'v) list \<Rightarrow> ('k \<times> 'v) list" where
  "al_put k v [] = [(k, v)]"
| "al_put k v (p # ps) = (if fst p = k then (k, v) # ps else p # al_put k v ps)"

definition al_del :: "'k \<Rightarrow> ('k \<times> 'v) list \<Rightarrow> ('k \<times> 'v) list" where
  "al_del k ps = filter (\<lambda>p. fst p \<noteq> k) ps"

definition al_keys :: "('k \<times> 'v) list \<Rightarrow> 'k list" where
  "al_keys ps = map fst ps"

section \<open>Transition systems\<close>

text \<open>The states a step relation reaches, and the contract under which a predicate holds in all of them.\<close>

inductive reach :: "('s \<Rightarrow> bool) \<Rightarrow> ('s \<Rightarrow> 's \<Rightarrow> bool) \<Rightarrow> 's \<Rightarrow> bool" for ini stp where
  reach_init: "ini s \<Longrightarrow> reach ini stp s"
| reach_step: "reach ini stp s \<Longrightarrow> stp s t \<Longrightarrow> reach ini stp t"

locale inv_system =
  fixes ini :: "'s \<Rightarrow> bool"
    and stp :: "'s \<Rightarrow> 's \<Rightarrow> bool"
    and inv :: "'s \<Rightarrow> bool"
  assumes init_inv: "ini s \<Longrightarrow> inv s"
    and step_inv: "stp s t \<Longrightarrow> inv s \<Longrightarrow> inv t"
begin

lemma reach_inv: "reach ini stp s \<Longrightarrow> inv s"
  by (induction rule: reach.induct) (auto intro: init_inv step_inv)

lemma steps_inv: "stp\<^sup>*\<^sup>* s t \<Longrightarrow> inv s \<Longrightarrow> inv t"
  by (induction rule: rtranclp_induct) (auto intro: step_inv)

lemma reach_steps: "stp\<^sup>*\<^sup>* s t \<Longrightarrow> reach ini stp s \<Longrightarrow> reach ini stp t"
  by (induction rule: rtranclp_induct) (auto intro: reach_step)

end

text \<open>
  Refinement by simulation: while the concrete state satisfies \<open>rest\<close>, a concrete step is an abstract
  step between the abstractions. What the abstract steps keep then holds of every concrete run.
\<close>

locale simulation =
  fixes absf :: "'c \<Rightarrow> 'a" and rest :: "'c \<Rightarrow> bool"
    and spec :: "'a \<Rightarrow> 'a \<Rightarrow> bool" and impl :: "'c \<Rightarrow> 'c \<Rightarrow> bool"
  assumes impl_rest: "rest c \<Longrightarrow> impl c c' \<Longrightarrow> rest c'"
    and impl_refines: "rest c \<Longrightarrow> impl c c' \<Longrightarrow> spec\<^sup>*\<^sup>* (absf c) (absf c')"
begin

lemma runs_refine: "impl\<^sup>*\<^sup>* c c' \<Longrightarrow> rest c \<Longrightarrow> rest c' \<and> spec\<^sup>*\<^sup>* (absf c) (absf c')"
  by (induction rule: rtranclp_induct) (auto intro: impl_rest rtranclp_trans impl_refines)

lemma runs_keep:
  assumes "impl\<^sup>*\<^sup>* c c'" and "rest c" and "\<And>a a'. P a \<Longrightarrow> spec a a' \<Longrightarrow> P a'" and "P (absf c)"
  shows "P (absf c')"
proof -
  have "spec\<^sup>*\<^sup>* (absf c) (absf c')" using runs_refine [OF assms(1,2)] by blast
  then show ?thesis using assms(3,4) by (induction rule: rtranclp_induct) blast+
qed

end

section \<open>Lemmas\<close>

lemma has_prefix_iff: "has_prefix s p \<longleftrightarrow> (\<exists>r. s = p @ r)"
  by (induction s p rule: has_prefix.induct) auto

lemma has_prefix_append [simp]: "has_prefix (p @ r) p"
  by (auto simp: has_prefix_iff)

lemma has_suffix_iff: "has_suffix s suf \<longleftrightarrow> (\<exists>r. s = r @ suf)"
  unfolding has_suffix_def has_prefix_iff
  by (metis rev_append rev_rev_ident)

lemma contains_str_iff: "contains_str s sub \<longleftrightarrow> (\<exists>a b. s = a @ sub @ b)"
proof (induction s)
  case Nil
  then show ?case by auto
next
  case (Cons c cs)
  have "(\<exists>a b. c # cs = a @ sub @ b) \<longleftrightarrow>
        (\<exists>b. c # cs = sub @ b) \<or> (\<exists>a b. cs = a @ sub @ b)" (is "?L \<longleftrightarrow> ?R")
  proof
    assume ?L
    then obtain a b where e: "c # cs = a @ sub @ b" by blast
    then show ?R by (cases a) auto
  next
    assume ?R
    then show ?L by (metis append_Cons append_Nil)
  qed
  then show ?case using Cons.IH by (simp add: has_prefix_iff)
qed

lemma contains_any_iff: "contains_any s cs \<longleftrightarrow> set s \<inter> set cs \<noteq> {}"
  by (auto simp: contains_any_def list_ex_iff)

lemma cut_append: "cut sep (a @ sep # b) = (a, b, True)" if "sep \<notin> set a"
  using that by (induction a) auto

lemma cut_none: "sep \<notin> set s \<Longrightarrow> cut sep s = (s, [], False)"
  by (induction s) auto

lemma cut_found: "cut sep s = (a, b, True) \<Longrightarrow> s = a @ sep # b \<and> sep \<notin> set a"
  by (induction s arbitrary: a) (auto split: if_splits prod.splits)

lemma split_on_nonempty [simp]: "split_on sep s \<noteq> []"
  by (induction s) (auto split: list.splits)

lemma split_on_clean: "p \<in> set (split_on sep s) \<Longrightarrow> sep \<notin> set p"
  by (induction s arbitrary: p) (auto split: if_splits list.splits)

lemma split_on_none: "sep \<notin> set s \<Longrightarrow> split_on sep s = [s]"
  by (induction s) auto

lemma split_on_append:
  "sep \<notin> set a \<Longrightarrow> split_on sep (a @ sep # b) = a # split_on sep b"
  by (induction a) auto

lemma join_with_Cons: "xs \<noteq> [] \<Longrightarrow> join_with sep (x # xs) = x @ sep @ join_with sep xs"
  by (cases xs) auto

lemma split_on_join:
  "xs \<noteq> [] \<Longrightarrow> \<forall>x\<in>set xs. sep \<notin> set x \<Longrightarrow> split_on sep (join_with [sep] xs) = xs"
proof (induction xs)
  case (Cons x xs)
  show ?case
  proof (cases xs)
    case Nil
    then show ?thesis using Cons.prems by (simp add: split_on_none)
  next
    case (Cons y ys)
    then have "split_on sep (join_with [sep] xs) = xs" using Cons.IH Cons.prems by simp
    moreover have "join_with [sep] (x # xs) = x @ sep # join_with [sep] xs"
      using Cons by (simp add: join_with_Cons)
    ultimately show ?thesis using Cons.prems by (simp add: split_on_append)
  qed
qed simp

lemma trim_right_id: "s = [] \<or> \<not> p (last s) \<Longrightarrow> trim_right p s = s"
  by (cases s rule: rev_cases) (auto simp: trim_right_def)

lemma trim_left_id: "s = [] \<or> \<not> p (hd s) \<Longrightarrow> trim_left p s = s"
  by (cases s) (auto simp: trim_left_def)

lemma dropWhile_hd: "dropWhile p xs \<noteq> [] \<Longrightarrow> \<not> p (hd (dropWhile p xs))"
  by (rule hd_dropWhile)

definition trimmed :: "string \<Rightarrow> bool" where
  "trimmed s \<longleftrightarrow> s = [] \<or> (\<not> is_space (hd s) \<and> \<not> is_space (last s))"

lemma trim_space_trimmed: "trimmed s \<Longrightarrow> trim_space s = s"
  by (auto simp: trimmed_def trim_space_def trim_left_id trim_right_id)

lemma set_trim_left: "set (trim_left p s) \<subseteq> set s"
  by (auto simp: trim_left_def dest: set_dropWhileD)

lemma set_trim_right: "set (trim_right p s) \<subseteq> set s"
  by (auto simp: trim_right_def dest: set_dropWhileD)

lemma set_trim_space: "set (trim_space s) \<subseteq> set s"
  unfolding trim_space_def using set_trim_left set_trim_right by (meson subset_trans)

lemma trimmed_trim_space: "trimmed (trim_space s)"
proof -
  let ?l = "trim_left is_space s"
  show ?thesis
  proof (cases "trim_space s = []")
    case True
    then show ?thesis by (simp add: trimmed_def)
  next
    case False
    then have r: "dropWhile is_space (rev ?l) \<noteq> []" by (simp add: trim_space_def trim_right_def)
    then have last: "\<not> is_space (last (trim_space s))"
      unfolding trim_space_def trim_right_def by (simp add: last_rev hd_dropWhile)
    have l: "?l \<noteq> []" using r by auto
    then have hdl: "\<not> is_space (hd ?l)" unfolding trim_left_def by (rule hd_dropWhile)
    obtain pre where "rev ?l = pre @ dropWhile is_space (rev ?l)"
      by (metis takeWhile_dropWhile_id)
    then have "?l = trim_space s @ rev pre"
      unfolding trim_space_def trim_right_def by (metis rev_append rev_rev_ident)
    then have "hd ?l = hd (trim_space s)" using False by (simp add: hd_append)
    with hdl last show ?thesis by (simp add: trimmed_def)
  qed
qed

lemma trim_space_idem [simp]: "trim_space (trim_space s) = trim_space s"
  by (rule trim_space_trimmed) (rule trimmed_trim_space)

lemma trim_space_pad_left: "is_space c \<Longrightarrow> trim_space (c # s) = trim_space s"
  by (simp add: trim_space_def trim_left_def)

lemma of_char_char_of_digit: "d < 10 \<Longrightarrow> (of_char (char_of (48 + d :: nat)) :: nat) = 48 + d"
  by simp

lemma digit_of_char_of [simp]: "d < 10 \<Longrightarrow> digit_of (char_of (48 + d)) = Some d"
  by (simp add: digit_of_def)

lemma digits_value_append:
  "digits_value acc (xs @ ys) =
     (case digits_value acc xs of None \<Rightarrow> None | Some v \<Rightarrow> digits_value v ys)"
  by (induction acc xs rule: digits_value.induct) (auto split: option.splits)

lemma digits_value_itoa: "digits_value 0 (itoa n) = Some n"
proof (induction n rule: itoa.induct)
  case (1 n)
  show ?case
  proof (cases "n < 10")
    case True
    then show ?thesis by (simp add: itoa.simps [of n])
  next
    case False
    with 1 have "digits_value 0 (itoa (n div 10)) = Some (n div 10)" by simp
    with False show ?thesis by (simp add: itoa.simps [of n] digits_value_append)
  qed
qed

lemma itoa_inject [simp]: "itoa m = itoa n \<longleftrightarrow> m = n"
  using digits_value_itoa by (metis option.inject)

lemma itoa_nonempty [simp]: "itoa n \<noteq> []"
  by (subst itoa.simps) simp

lemma itoa_hd_digit: "digit_of (hd (itoa n)) \<noteq> None"
proof (induction n rule: itoa.induct)
  case (1 n)
  show ?case
  proof (cases "n < 10")
    case True
    then show ?thesis by (simp add: itoa.simps [of n])
  next
    case False
    then show ?thesis using 1 by (simp add: itoa.simps [of n] hd_append)
  qed
qed

lemma atoi_itoa: "int n < 2 ^ 63 \<Longrightarrow> atoi (itoa n) = Some (int n)"
proof -
  assume b: "int n < 2 ^ 63"
  obtain c cs where cc: "itoa n = c # cs" by (cases "itoa n") auto
  have "digit_of c \<noteq> None" using itoa_hd_digit [of n] cc by simp
  then have "c \<noteq> CHR ''-''" "c \<noteq> CHR ''+''" by (auto simp: digit_of_def)
  moreover have "digits_value 0 (c # cs) = Some n" using digits_value_itoa [of n] cc by simp
  ultimately show ?thesis using b cc by (simp add: atoi_def Let_def)
qed

lemma al_put_lookup [simp]: "map_of (al_put k v ps) = (map_of ps)(k \<mapsto> v)"
  by (induction k v ps rule: al_put.induct) (auto simp: fun_upd_def)

lemma al_put_keys: "set (al_keys (al_put k v ps)) = insert k (set (al_keys ps))"
  by (induction k v ps rule: al_put.induct) (auto simp: al_keys_def)

lemma al_put_distinct [simp]: "distinct (al_keys ps) \<Longrightarrow> distinct (al_keys (al_put k v ps))"
proof (induction k v ps rule: al_put.induct)
  case (2 k v p ps)
  then show ?case using al_put_keys [of k v ps] by (auto simp: al_keys_def)
qed (simp add: al_keys_def)

lemma al_del_lookup [simp]: "map_of (al_del k ps) = (map_of ps)(k := None)"
  by (induction ps) (auto simp: al_del_def fun_upd_def)

lemma al_del_distinct [simp]: "distinct (al_keys ps) \<Longrightarrow> distinct (al_keys (al_del k ps))"
  by (induction ps) (auto simp: al_del_def al_keys_def)

lemma filter_neq_Nil_single:
  assumes "distinct xs" and "xs \<noteq> []" and "filter (\<lambda>p. p \<noteq> a) xs = []"
  shows "xs = [a]"
proof -
  have "\<forall>x\<in>set xs. x = a" using assms(3) by (simp add: filter_empty_conv)
  with assms(2) have "set xs = {a}" by (cases xs) auto
  moreover have "length xs = card (set xs)" using assms(1) by (simp add: distinct_card)
  ultimately have "length xs = 1" by simp
  with \<open>set xs = {a}\<close> show ?thesis by (cases xs) auto
qed

lemma map_of_filter_keys: "map_of (filter (\<lambda>p. P (fst p)) ps) k = (if P k then map_of ps k else None)"
  by (induction ps) auto

end
