(* ===== verification/GoPath.thy ===== *)
theory GoPath
  imports Prelude
begin

text \<open>
  The Unix half of Go's \<^verbatim>\<open>path/filepath\<close>, which the program calls wherever it builds a path or checks
  that one stays below a directory, with its containment checks \<^verbatim>\<open>PathContains\<close>
  (\<^verbatim>\<open>core/modelcatalog/local.go\<close>).

  A cleaned path is \<open>mk_path\<close> of its elements: rooted or not, no empty or dot element, and dot-dots
  only at the front of an unrooted path. \<open>Clean\<close> computes that form, so statements about cleaned
  paths are statements about lists of elements.
\<close>

definition slash :: char where
  "slash = CHR ''/''"

definition dotdot :: string where
  "dotdot = ''..''"

definition rooted :: "string \<Rightarrow> bool" where
  "rooted p = has_prefix p ''/''"

section \<open>Cleaning\<close>

text \<open>The stack is kept reversed: \<open>Clean\<close> pushes elements and pops one at each dot-dot.\<close>

fun clean_elems :: "bool \<Rightarrow> string list \<Rightarrow> string list \<Rightarrow> string list" where
  "clean_elems r st [] = rev st"
| "clean_elems r st (c # cs) =
     (if c = [] \<or> c = ''.'' then clean_elems r st cs
      else if c = dotdot then
        (case st of
           [] \<Rightarrow> clean_elems r (if r then [] else [dotdot]) cs
         | t # ts \<Rightarrow> if t = dotdot then clean_elems r (dotdot # st) cs else clean_elems r ts cs)
      else clean_elems r (c # st) cs)"

definition mk_path :: "bool \<Rightarrow> string list \<Rightarrow> string" where
  "mk_path r cs =
     (if r then slash # join_with [slash] cs
      else if cs = [] then ''.'' else join_with [slash] cs)"

definition elems :: "string \<Rightarrow> string list" where
  "elems p = clean_elems (rooted p) [] (split_on slash p)"

definition Clean :: "string \<Rightarrow> string" where
  "Clean p = mk_path (rooted p) (elems p)"

definition IsAbs :: "string \<Rightarrow> bool" where
  "IsAbs p = rooted p"

definition Join :: "string list \<Rightarrow> string" where
  "Join ps = (case filter (\<lambda>p. p \<noteq> []) ps of [] \<Rightarrow> [] | qs \<Rightarrow> Clean (join_with [slash] qs))"

text \<open>\<^verbatim>\<open>Dir\<close> cleans everything up to the last slash; \<^verbatim>\<open>Base\<close> is what follows it, trailing slashes aside.\<close>

definition Dir :: "string \<Rightarrow> string" where
  "Dir p = Clean (rev (dropWhile (\<lambda>c. c \<noteq> slash) (rev p)))"

definition Base :: "string \<Rightarrow> string" where
  "Base p =
     (if p = [] then ''.''
      else let q = rev (dropWhile (\<lambda>c. c = slash) (rev p))
           in if q = [] then ''/'' else rev (takeWhile (\<lambda>c. c \<noteq> slash) (rev q)))"

section \<open>Relative paths\<close>

fun strip_common :: "string list \<Rightarrow> string list \<Rightarrow> string list \<times> string list" where
  "strip_common (b # bs) (t # ts) = (if b = t then strip_common bs ts else (b # bs, t # ts))"
| "strip_common bs ts = (bs, ts)"

text \<open>\<^const>\<open>None\<close> is the error. A relative base of dot is the empty list; a relative target of dot is not.\<close>

definition Rel :: "string \<Rightarrow> string \<Rightarrow> string option" where
  "Rel base targ =
     (if Clean base = Clean targ then Some ''.''
      else if rooted base \<noteq> rooted targ then None
      else (let ts = (if elems targ = [] \<and> \<not> rooted targ then [''.''] else elems targ);
                (bs', ts') = strip_common (elems base) ts
            in if bs' \<noteq> [] \<and> ts' \<noteq> [] \<and> hd bs' = dotdot then None
               else Some (join_with [slash] (replicate (length bs') dotdot @ ts'))))"

definition PathContains :: "string \<Rightarrow> string \<Rightarrow> bool" where
  "PathContains dir path =
     (case Rel dir path of
        None \<Rightarrow> False
      | Some rel \<Rightarrow> rel \<noteq> dotdot \<and> \<not> has_prefix rel (dotdot @ ''/''))"

section \<open>The elements of a cleaned path\<close>

definition plain_elem :: "string \<Rightarrow> bool" where
  "plain_elem c \<longleftrightarrow> c \<noteq> [] \<and> c \<noteq> ''.'' \<and> c \<noteq> dotdot \<and> slash \<notin> set c"

text \<open>A cleaned element list: dot-dots first (none below the root), then plain elements.\<close>

definition clean_list :: "bool \<Rightarrow> string list \<Rightarrow> bool" where
  "clean_list r cs \<longleftrightarrow>
     (\<exists>n ps. cs = replicate n dotdot @ ps \<and> (\<forall>p\<in>set ps. plain_elem p) \<and> (r \<longrightarrow> n = 0))"

lemma plain_not_dotdot [simp]: "\<not> plain_elem dotdot"
  by (simp add: plain_elem_def)

lemma dotdot_elem [simp]: "dotdot \<noteq> []" "dotdot \<noteq> ''.''" "slash \<notin> set dotdot"
  by (simp_all add: dotdot_def slash_def)

lemma clean_list_Nil [simp]: "clean_list r []"
  by (auto simp: clean_list_def intro: exI [of _ 0])

lemma clean_list_plain: "\<forall>p\<in>set ps. plain_elem p \<Longrightarrow> clean_list r ps"
  by (auto simp: clean_list_def intro: exI [of _ 0])

lemma clean_list_snoc: "clean_list r cs \<Longrightarrow> plain_elem c \<Longrightarrow> clean_list r (cs @ [c])"
proof -
  assume "clean_list r cs" and c: "plain_elem c"
  then obtain n ps where "cs = replicate n dotdot @ ps" "\<forall>p\<in>set ps. plain_elem p" "r \<longrightarrow> n = 0"
    by (auto simp: clean_list_def)
  with c show ?thesis unfolding clean_list_def
    by (intro exI [of _ n] exI [of _ "ps @ [c]"]) auto
qed

lemma clean_list_butlast:
  assumes "clean_list r (cs @ [c])"
  shows "clean_list r cs \<and> (c \<noteq> dotdot \<or> (\<exists>n. cs = replicate n dotdot \<and> \<not> r))"
proof -
  from assms obtain n ps where ps: "cs @ [c] = replicate n dotdot @ ps" "\<forall>p\<in>set ps. plain_elem p"
    "r \<longrightarrow> n = 0" by (auto simp: clean_list_def)
  show ?thesis
  proof (cases ps rule: rev_cases)
    case Nil
    with ps obtain m where m: "n = Suc m" "cs @ [c] = replicate m dotdot @ [dotdot]"
      by (cases n) (auto simp: replicate_append_same)
    then have "cs = replicate m dotdot" "c = dotdot" by auto
    moreover have "\<not> r" using m ps(3) by auto
    ultimately show ?thesis
      by (auto simp: clean_list_def intro!: exI [of _ m] exI [of _ "[]"])
  next
    case (snoc qs q)
    with ps have "cs = replicate n dotdot @ qs" "c = q" by auto
    with snoc ps show ?thesis by (auto simp: clean_list_def)
  qed
qed

lemma clean_list_push_dotdot: "clean_list r (cs @ [dotdot]) \<Longrightarrow> clean_list r (cs @ [dotdot, dotdot])"
proof -
  assume "clean_list r (cs @ [dotdot])"
  then obtain n where "cs = replicate n dotdot" "\<not> r" using clean_list_butlast by blast
  then have "cs @ [dotdot, dotdot] = replicate (n + 2) dotdot @ []"
    by (simp add: replicate_app_Cons_same)
  with \<open>\<not> r\<close> show ?thesis unfolding clean_list_def by (intro exI [of _ "n + 2"] exI [of _ "[]"]) simp
qed

lemma clean_list_dotdot: "clean_list False [dotdot]"
  by (auto simp: clean_list_def intro!: exI [of _ "Suc 0"])

lemma clean_elems_clean:
  "clean_list r (rev st) \<Longrightarrow> \<forall>c\<in>set cs. slash \<notin> set c \<Longrightarrow> clean_list r (clean_elems r st cs)"
proof (induction r st cs rule: clean_elems.induct)
  case (2 r st c cs)
  have cs: "\<forall>c\<in>set cs. slash \<notin> set c" and c: "slash \<notin> set c" using "2.prems"(2) by auto
  show ?case
  proof (cases "c = [] \<or> c = ''.''")
    case True
    then show ?thesis using "2.IH"(1) [OF True "2.prems"(1) cs] by simp
  next
    case skip: False
    show ?thesis
    proof (cases "c = dotdot")
      case up: True
      show ?thesis
      proof (cases st)
        case Nil
        have "clean_list r (rev (if r then [] else [dotdot]))" by (simp add: clean_list_dotdot)
        from "2.IH"(2) [OF skip up Nil this cs] show ?thesis using up Nil by simp
      next
        case (Cons t ts)
        show ?thesis
        proof (cases "t = dotdot")
          case True
          have "clean_list r (rev (dotdot # st))"
            using clean_list_push_dotdot [of r "rev ts"] "2.prems"(1) True Cons by simp
          from "2.IH"(3) [OF skip up Cons True this cs] show ?thesis using up Cons True by simp
        next
          case False
          have "clean_list r (rev ts)"
            using clean_list_butlast [of r "rev ts" t] "2.prems"(1) Cons by simp
          from "2.IH"(4) [OF skip up Cons False this cs] show ?thesis using up Cons False by simp
        qed
      qed
    next
      case False
      have "clean_list r (rev (c # st))"
        using clean_list_snoc [of r "rev st" c] "2.prems"(1) skip False c by (simp add: plain_elem_def)
      from "2.IH"(5) [OF skip False this cs] show ?thesis using skip False by simp
    qed
  qed
qed simp

lemma elems_clean [intro, simp]: "clean_list (rooted p) (elems p)"
  unfolding elems_def by (rule clean_elems_clean) (auto dest: split_on_clean)

text \<open>Cleaning a cleaned list changes nothing.\<close>

lemma clean_elems_plain:
  "\<forall>p\<in>set ps. plain_elem p \<Longrightarrow> clean_elems r st ps = rev st @ ps"
  by (induction ps arbitrary: st) (auto simp: plain_elem_def)

lemma clean_elems_dotdots:
  "clean_elems False (replicate m dotdot) (replicate n dotdot @ ps) =
     clean_elems False (replicate (m + n) dotdot) ps"
proof (induction n arbitrary: m)
  case (Suc n)
  then show ?case using Suc [of "Suc m"] by (cases m) simp_all
qed simp

lemma clean_elems_id:
  assumes "clean_list r cs"
  shows "clean_elems r [] cs = cs"
proof -
  obtain n ps where ps: "cs = replicate n dotdot @ ps" "\<forall>p\<in>set ps. plain_elem p" "r \<longrightarrow> n = 0"
    using assms by (auto simp: clean_list_def)
  show ?thesis
  proof (cases n)
    case 0
    with ps show ?thesis by (simp add: clean_elems_plain)
  next
    case (Suc m)
    with ps have "\<not> r" by auto
    then show ?thesis
      using clean_elems_dotdots [of 0 n ps] ps by (simp add: clean_elems_plain)
  qed
qed

lemma plain_elemD: "plain_elem p \<Longrightarrow> p \<noteq> [] \<and> slash \<notin> set p"
  by (simp add: plain_elem_def)

lemma clean_list_elem:
  assumes "clean_list r cs" and "c \<in> set cs"
  shows "c \<noteq> [] \<and> slash \<notin> set c"
proof -
  obtain n ps where "cs = replicate n dotdot @ ps" "\<forall>p\<in>set ps. plain_elem p"
    using assms(1) by (auto simp: clean_list_def)
  with assms(2) have "c = dotdot \<or> plain_elem c" by auto
  then show ?thesis using plain_elemD by auto
qed

text \<open>What a cleaned path is made of: its root and its elements can be read back.\<close>

lemma rooted_mk [simp]: "clean_list r cs \<Longrightarrow> rooted (mk_path r cs) = r"
proof -
  assume c: "clean_list r cs"
  have "\<not> has_prefix (join_with [slash] cs) ''/''" if "cs \<noteq> []"
  proof -
    obtain x xs where xs: "cs = x # xs" using \<open>cs \<noteq> []\<close> by (cases cs) auto
    with clean_list_elem [OF c, of x] obtain a b where ab: "x = a # b" "a \<noteq> slash" by (cases x) auto
    then have "\<exists>b'. join_with [slash] cs = a # b'" using xs by (cases xs) auto
    with ab(2) show ?thesis by (auto simp: slash_def)
  qed
  then show ?thesis by (auto simp: mk_path_def rooted_def slash_def)
qed

lemma split_join_elems:
  "clean_list r cs \<Longrightarrow> cs \<noteq> [] \<Longrightarrow> split_on slash (join_with [slash] cs) = cs"
  by (intro split_on_join) (auto dest: clean_list_elem)

lemma clean_elems_mk: "clean_list r cs \<Longrightarrow> clean_elems r [] (split_on slash (mk_path r cs)) = cs"
proof -
  assume c: "clean_list r cs"
  have dot: "split_on slash ''.'' = [''.'']" by (simp add: slash_def)
  show ?thesis
    using split_join_elems [OF c] clean_elems_id [OF c]
    by (cases r; cases "cs = []") (simp_all add: mk_path_def dot)
qed

lemma elems_mk [simp]: "clean_list r cs \<Longrightarrow> elems (mk_path r cs) = cs"
  by (simp add: elems_def clean_elems_mk)

lemma Clean_mk [simp]: "clean_list r cs \<Longrightarrow> Clean (mk_path r cs) = mk_path r cs"
  by (simp add: Clean_def)

lemma Clean_idem [simp]: "Clean (Clean p) = Clean p"
  using Clean_mk [OF elems_clean [of p]] by (simp add: Clean_def)

lemma rooted_Clean [simp]: "rooted (Clean p) = rooted p"
  by (simp add: Clean_def)

lemma elems_Clean [simp]: "elems (Clean p) = elems p"
  by (simp add: Clean_def)

lemma mk_path_inject:
  assumes c: "clean_list r cs" and d: "clean_list r' ds"
  shows "mk_path r cs = mk_path r' ds \<longleftrightarrow> r = r' \<and> cs = ds"
proof
  assume eq: "mk_path r cs = mk_path r' ds"
  have "r = r'" using rooted_mk [OF c] rooted_mk [OF d] eq by simp
  moreover have "cs = ds" using elems_mk [OF c] elems_mk [OF d] eq by simp
  ultimately show "r = r' \<and> cs = ds" ..
qed simp

lemma Clean_eq_iff: "Clean p = Clean q \<longleftrightarrow> rooted p = rooted q \<and> elems p = elems q"
  unfolding Clean_def by (simp add: mk_path_inject)

section \<open>Joining below a directory\<close>

text \<open>Joining one plain element to a directory goes exactly one level down.\<close>

lemma split_on_snoc_sep: "slash \<notin> set b \<Longrightarrow> split_on slash (a @ slash # b) = split_on slash a @ [b]"
proof (induction a)
  case (Cons c a)
  then show ?case by (cases "split_on slash a") auto
qed (simp add: split_on_none)

lemma clean_elems_append:
  "clean_elems r st (cs @ ds) = clean_elems r (rev (clean_elems r st cs)) ds"
  by (induction r st cs rule: clean_elems.induct) (auto split: list.splits)

lemma rooted_append: "p \<noteq> [] \<Longrightarrow> rooted (p @ q) = rooted p"
  by (cases p) (auto simp: rooted_def)

lemma Join_plain:
  assumes "root \<noteq> []" and "plain_elem c"
  shows "Join [root, c] = mk_path (rooted root) (elems root @ [c])"
proof -
  have c: "c \<noteq> []" "slash \<notin> set c" using assms(2) plain_elemD by auto
  have "elems (root @ slash # c) = elems root @ [c]"
    using assms c
    by (simp add: elems_def rooted_append split_on_snoc_sep clean_elems_append plain_elem_def)
  then show ?thesis
    using assms(1) c by (simp add: Join_def Clean_def rooted_append)
qed

lemma clean_list_append_plain:
  "clean_list r cs \<Longrightarrow> \<forall>p\<in>set ps. plain_elem p \<Longrightarrow> clean_list r (cs @ ps)"
proof (induction ps arbitrary: cs)
  case (Cons p ps)
  then show ?case using Cons.IH [of "cs @ [p]"] clean_list_snoc by simp
qed simp

lemma elems_Join_plain: "root \<noteq> [] \<Longrightarrow> plain_elem c \<Longrightarrow> elems (Join [root, c]) = elems root @ [c]"
  by (simp add: Join_plain clean_list_snoc)

lemma Join_plain_inject:
  assumes "root \<noteq> []" "plain_elem c" "plain_elem d"
  shows "Join [root, c] = Join [root, d] \<longleftrightarrow> c = d"
  using assms by (auto simp: Join_plain mk_path_inject clean_list_snoc)

lemma Clean_Join [simp]: "ps \<noteq> [] \<Longrightarrow> \<forall>p\<in>set ps. p \<noteq> [] \<Longrightarrow> Clean (Join ps) = Join ps"
  by (cases ps) (simp_all add: Join_def)

section \<open>Containment\<close>

lemma strip_common_append [simp]: "strip_common bs (bs @ ts) = ([], ts)"
  by (induction bs) (cases ts; simp)+

lemma strip_common_eq:
  "strip_common bs ts = (bs', ts') \<Longrightarrow>
     \<exists>cs. bs = cs @ bs' \<and> ts = cs @ ts' \<and> (bs' = [] \<or> ts' = [] \<or> hd bs' \<noteq> hd ts')"
proof (induction bs ts rule: strip_common.induct)
  case (1 b bs t ts)
  show ?case
  proof (cases "b = t")
    case True
    with 1 obtain cs where "bs = cs @ bs'" "ts = cs @ ts'" "bs' = [] \<or> ts' = [] \<or> hd bs' \<noteq> hd ts'"
      by auto
    with True show ?thesis by (intro exI [of _ "b # cs"]) simp
  qed (use 1 in auto)
qed auto

lemma has_prefix_join_up:
  "has_prefix (join_with [slash] (dotdot # cs)) (dotdot @ ''/'') \<longleftrightarrow> cs \<noteq> []"
  by (cases cs) (simp_all add: dotdot_def slash_def)

lemma join_plain_not_up:
  assumes "plain_elem c"
  shows "join_with [slash] (c # cs) \<noteq> dotdot \<and> \<not> has_prefix (join_with [slash] (c # cs)) (dotdot @ ''/'')"
proof -
  obtain t where t: "join_with [slash] (c # cs) = c @ t \<and> (t = [] \<or> hd t = slash)"
    by (cases cs) auto
  have c: "c \<noteq> []" "c \<noteq> dotdot" "slash \<notin> set c" using assms by (auto simp: plain_elem_def)
  show ?thesis
  proof (rule ccontr)
    assume "\<not> ?thesis"
    then obtain u where u: "c @ t = dotdot @ u" "u = [] \<or> hd u = slash"
      using t by (auto simp: has_prefix_iff slash_def)
    then show False
      using c t by (cases c; cases "tl c"; cases "tl (tl c)"; cases t) (auto simp: dotdot_def slash_def)
  qed
qed

lemma clean_list_rooted: "clean_list True cs \<longleftrightarrow> (\<forall>c\<in>set cs. plain_elem c)"
  by (auto simp: clean_list_def)

lemma rooted_elems_plain: "rooted p \<Longrightarrow> c \<in> set (elems p) \<Longrightarrow> plain_elem c"
  using elems_clean [of p] by (auto simp: clean_list_rooted)

lemma PathContains_rel:
  assumes "\<forall>c\<in>set ts. plain_elem c" and "ups \<noteq> [] \<or> ts \<noteq> []"
  shows "(join_with [slash] (replicate (length ups) dotdot @ ts) \<noteq> dotdot \<and>
          \<not> has_prefix (join_with [slash] (replicate (length ups) dotdot @ ts)) (dotdot @ ''/'')) \<longleftrightarrow> ups = []"
proof (cases ups)
  case Nil
  with assms obtain c cs where "ts = c # cs" "plain_elem c" by (cases ts) auto
  with join_plain_not_up [of c cs] Nil show ?thesis by simp
next
  case (Cons u us)
  then show ?thesis
    using has_prefix_join_up [of "replicate (length us) dotdot @ ts"]
    by (cases "replicate (length us) dotdot @ ts = []") auto
qed

text \<open>
  For absolute paths the check is exactly that the elements of the directory are a prefix of the
  elements of the path.
\<close>

lemma PathContains_iff:
  assumes "rooted dir" and "rooted path"
  shows "PathContains dir path \<longleftrightarrow> (\<exists>ts. elems path = elems dir @ ts)"
proof (cases "Clean dir = Clean path")
  case True
  then have "elems path = elems dir" by (simp add: Clean_eq_iff)
  moreover have "PathContains dir path"
    using True by (simp add: PathContains_def Rel_def dotdot_def)
  ultimately show ?thesis by auto
next
  case False
  then have ne: "elems dir \<noteq> elems path" using assms by (simp add: Clean_eq_iff)
  obtain bs ts where st: "strip_common (elems dir) (elems path) = (bs, ts)" by (cases "strip_common (elems dir) (elems path)")
  obtain cs where cs: "elems dir = cs @ bs" "elems path = cs @ ts" "bs = [] \<or> ts = [] \<or> hd bs \<noteq> hd ts"
    using strip_common_eq [OF st] by auto
  have pb: "\<forall>c\<in>set bs. plain_elem c" and pt: "\<forall>c\<in>set ts. plain_elem c"
    using rooted_elems_plain assms cs by auto
  have hd: "bs \<noteq> [] \<Longrightarrow> hd bs \<noteq> dotdot" using pb by (cases bs) auto
  have "Rel dir path = Some (join_with [slash] (replicate (length bs) dotdot @ ts))"
    using False assms st hd by (cases "bs = []") (simp_all add: Rel_def)
  then have "PathContains dir path \<longleftrightarrow> bs = []"
    using PathContains_rel [OF pt, of bs] cs ne by (auto simp: PathContains_def)
  also have "\<dots> \<longleftrightarrow> (\<exists>ts. elems path = elems dir @ ts)"
    using cs by (cases bs) (auto simp: append_eq_append_conv2)
  finally show ?thesis .
qed

section \<open>Directory and base of a joined path\<close>

text \<open>An absolute cleaned directory other than the root: the paths stores and scanners are built on.\<close>

definition base_dir :: "string \<Rightarrow> bool" where
  "base_dir d \<longleftrightarrow> rooted d \<and> Clean d = d \<and> elems d \<noteq> []"

lemma base_dir_ne [simp]: "base_dir d \<Longrightarrow> d \<noteq> []"
  by (auto simp: base_dir_def rooted_def)

lemma join_with_snoc: "xs \<noteq> [] \<Longrightarrow> join_with sep (xs @ [x]) = join_with sep xs @ sep @ x"
  by (induction sep xs rule: join_with.induct) auto

lemma Join_base:
  assumes "base_dir d" and "plain_elem c"
  shows "Join [d, c] = d @ slash # c"
proof -
  have d: "d = slash # join_with [slash] (elems d)"
    using assms(1) by (metis base_dir_def Clean_def mk_path_def)
  have "Join [d, c] = slash # join_with [slash] (elems d @ [c])"
    using assms by (simp add: Join_plain base_dir_def mk_path_def)
  also have "\<dots> = (slash # join_with [slash] (elems d)) @ slash # c"
    using assms(1) by (simp add: join_with_snoc base_dir_def)
  finally show ?thesis using d by simp
qed

lemma base_dir_Join:
  assumes "base_dir d" and "plain_elem c"
  shows "base_dir (Join [d, c])" and "elems (Join [d, c]) = elems d @ [c]"
proof -
  show e: "elems (Join [d, c]) = elems d @ [c]" using assms by (simp add: elems_Join_plain)
  have "Join [d, c] = mk_path True (elems d @ [c])"
    using assms by (simp add: Join_plain base_dir_def)
  moreover have "clean_list True (elems d @ [c])"
    using clean_list_snoc [OF elems_clean assms(2), of d] assms(1) by (simp add: base_dir_def)
  ultimately show "base_dir (Join [d, c])" by (simp add: base_dir_def)
qed

lemma Dir_base:
  assumes "base_dir d" and "slash \<notin> set c"
  shows "Dir (d @ slash # c) = d"
proof -
  have "dropWhile (\<lambda>x. x \<noteq> slash) (rev c @ slash # rev d) = slash # rev d"
    using assms(2) by (subst dropWhile_append2) auto
  then have "Dir (d @ slash # c) = Clean (d @ [slash])" by (simp add: Dir_def)
  also have "\<dots> = Clean d"
    using assms(1) by (simp add: Clean_eq_iff elems_def rooted_append split_on_snoc_sep
        clean_elems_append)
  finally show ?thesis using assms(1) by (simp add: base_dir_def)
qed

lemma Base_base:
  assumes "c \<noteq> []" and "slash \<notin> set c"
  shows "Base (d @ slash # c) = c"
proof -
  have c: "last c \<noteq> slash" using last_in_set [OF assms(1)] assms(2) by auto
  then have "dropWhile (\<lambda>x. x = slash) (rev c @ slash # rev d) = rev c @ slash # rev d"
    using assms(1) by (cases c rule: rev_cases) auto
  moreover have "takeWhile (\<lambda>x. x \<noteq> slash) (rev c @ slash # rev d) = rev c"
    using assms(2) by (subst takeWhile_append2) auto
  ultimately show ?thesis using assms(1) by (simp add: Base_def Let_def)
qed

lemma Base_plain:
  assumes "c \<noteq> []" "slash \<notin> set c"
  shows "Base c = c"
proof -
  have "takeWhile (\<lambda>x. x \<noteq> slash) (rev c) = rev c" using assms(2) by (subst takeWhile_eq_all_conv) auto
  moreover have "dropWhile (\<lambda>x. x = slash) (rev c) = rev c" using assms by (cases c rule: rev_cases) auto
  ultimately show ?thesis using assms(1) by (simp add: Base_def del: takeWhile_eq_all_conv)
qed

lemma Join_two:
  assumes "base_dir h" "plain_elem a" "plain_elem b"
  shows "Join [h, a, b] = Join [Join [h, a], b]" "Join [h, a, b] = h @ slash # a @ slash # b" "base_dir (Join [h, a, b])"
proof -
  have e: "a \<noteq> []" "b \<noteq> []" "h \<noteq> []" using assms by (auto simp: plain_elem_def)
  have 1: "Join [h, a] = h @ slash # a" using assms by (simp add: Join_base)
  have "base_dir (h @ slash # a)" using base_dir_Join(1) [OF assms(1,2)] 1 by simp
  then have 2: "Join [Join [h, a], b] = h @ slash # a @ slash # b"
    using Join_base [OF _ assms(3)] by (simp add: 1)
  show "Join [h, a, b] = Join [Join [h, a], b]" using e by (simp add: Join_def [of "[_, _, _]"] Join_def [of "[h @ _, _]"] 1)
  then show "Join [h, a, b] = h @ slash # a @ slash # b" using 2 by simp
  show "base_dir (Join [h, a, b])"
    using \<open>Join [h, a, b] = Join [Join [h, a], b]\<close> assms by (simp add: base_dir_Join)
qed

section \<open>Joining a relative path\<close>

lemma dotdot_stays: "dotdot \<in> set st \<Longrightarrow> dotdot \<in> set (clean_elems False st cs)"
  by (induction False st cs rule: clean_elems.induct) (auto split: list.splits)

lemma clean_elems_above:
  assumes "dotdot \<notin> set (clean_elems False s cs)"
  shows "clean_elems r (s @ t) cs = rev t @ clean_elems False s cs"
  using assms
proof (induction False s cs rule: clean_elems.induct)
  case (2 st c cs)
  consider "c = [] \<or> c = ''.''" | "c = dotdot" | "c \<noteq> []" "c \<noteq> ''.''" "c \<noteq> dotdot" by blast
  then show ?case
  proof cases
    case 2
    show ?thesis
    proof (cases st)
      case Nil
      then show ?thesis using "2.prems" \<open>c = dotdot\<close> dotdot_stays [of "[dotdot]" cs] by simp
    next
      case (Cons a as')
      show ?thesis
      proof (cases "a = dotdot")
        case True
        then have "dotdot \<in> set (clean_elems False st (c # cs))" using Cons dotdot_stays by simp
        then show ?thesis using "2.prems" by simp
      next
        case False
        then show ?thesis using "2.hyps" "2.prems" Cons \<open>c = dotdot\<close> by simp
      qed
    qed
  qed (use "2.hyps" "2.prems" in auto)
qed simp

lemma split_on_join_slash: "split_on slash (a @ slash # b) = split_on slash a @ split_on slash b"
proof (induction a)
  case (Cons c a)
  then show ?case by (cases "split_on slash a") auto
qed simp

text \<open>A relative path that does not lead up adds its elements to those of the directory.\<close>

lemma elems_relative:
  assumes "d \<noteq> []" and "\<not> rooted v" and "dotdot \<notin> set (elems v)"
  shows "elems (d @ slash # v) = elems d @ elems v"
proof -
  have v: "clean_elems False [] (split_on slash v) = elems v" using assms(2) by (simp add: elems_def)
  have "elems (d @ slash # v) = clean_elems (rooted d) (rev (elems d)) (split_on slash v)"
    using assms(1) by (simp add: elems_def rooted_append split_on_join_slash clean_elems_append)
  also have "\<dots> = elems d @ elems v"
    using clean_elems_above [of "[]" "split_on slash v" "rooted d" "rev (elems d)"] assms(3) v by simp
  finally show ?thesis .
qed

end
