(* ===== verification/Errors.thy ===== *)
theory Errors
  imports Prelude
begin

text \<open>
  The error values of the control plane: \<^verbatim>\<open>core/control/errors.go\<close> (the typed errors every
  front end sees), the error part of \<^verbatim>\<open>core/runtime/types.go\<close> (the supervisor's errors), and the
  tables of \<^verbatim>\<open>core/control/manager.go\<close> that map one to the other.

  A Go \<^verbatim>\<open>error\<close> is a \<open>gerr\<close>; \<open>nil\<close> is \<^const>\<open>None\<close> in \<open>gerr option\<close>. A message is kept as the
  format string with its arguments (\<open>Fmt\<close>) instead of the formatted text: no modelled code looks
  inside a message. \<open>Errorw\<close> is \<^verbatim>\<open>fmt.Errorf\<close> with the errors its \<^verbatim>\<open>%w\<close> verbs wrap; an error of
  the operating system is an \<open>Errorw\<close> that wraps the sentinel \<^verbatim>\<open>errors.Is\<close> finds in it.
\<close>

section \<open>Error values\<close>

datatype msg = Str string | Fmt string "msg list"

datatype error_kind =
    ErrorInvalidInput
  | ErrorNotFound
  | ErrorConflict
  | ErrorRuntime
  | ErrorTimeout
  | ErrorPermission
  | ErrorInternal

datatype rt_error_kind = RtErrorInvalidInput | RtErrorRuntime | RtErrorTimeout

datatype recovery_class =
    RecoveryStalePIDFile
  | RecoveryMismatchedExecutable
  | RecoveryOccupiedPort
  | RecoveryUnhealthySurvivor
  | RecoveryValidAdoptee

datatype sentinel =
    ErrNotExist
  | ErrProfileInvalid
  | ErrProfileTooLarge
  | ErrProfileExists
  | ErrDownloadInvalidInput
  | ErrDownloadNotFound
  | ErrDownloadConflict
  | ErrSymlink
  | ErrConfigEmpty
  | ErrConfigTooLarge
  | ErrConfigMalformed
  | ErrExposedWithoutAuth
  | ErrNoPreviousInstall
  | ErrNoDigest
  | ErrInvalidINI
  | CtxCanceled
  | OtherSentinel string

datatype gerr =
    CoreError error_kind msg "gerr option"
  | RtError rt_error_kind msg "gerr option"
  | RecoveryError recovery_class msg "gerr option"
  | Sentinel sentinel
  | Errorw msg "gerr list"

text \<open>\<open>err.Error()\<close>.\<close>

fun error_text :: "gerr \<Rightarrow> msg" where
  "error_text (CoreError k m w) = m"
| "error_text (RtError k m w) = m"
| "error_text (RecoveryError c m w) = m"
| "error_text (Sentinel s) = Fmt ''sentinel'' []"
| "error_text (Errorw m es) = m"

text \<open>\<^verbatim>\<open>errors.Is\<close> and \<^verbatim>\<open>errors.AsType\<close> walk the wrapped errors depth first, the error itself first.\<close>

fun errors_is :: "gerr \<Rightarrow> sentinel \<Rightarrow> bool" where
  "errors_is (CoreError k m w) t = (case w of None \<Rightarrow> False | Some e \<Rightarrow> errors_is e t)"
| "errors_is (RtError k m w) t = (case w of None \<Rightarrow> False | Some e \<Rightarrow> errors_is e t)"
| "errors_is (RecoveryError c m w) t = (case w of None \<Rightarrow> False | Some e \<Rightarrow> errors_is e t)"
| "errors_is (Sentinel s) t = (s = t)"
| "errors_is (Errorw m es) t = list_ex (\<lambda>e. errors_is e t) es"

fun first_some :: "'a option list \<Rightarrow> 'a option" where
  "first_some [] = None"
| "first_some (x # xs) = (case x of None \<Rightarrow> first_some xs | Some a \<Rightarrow> Some a)"

fun as_core :: "gerr \<Rightarrow> error_kind option" where
  "as_core (CoreError k m w) = Some k"
| "as_core (RtError k m w) = (case w of None \<Rightarrow> None | Some e \<Rightarrow> as_core e)"
| "as_core (RecoveryError c m w) = (case w of None \<Rightarrow> None | Some e \<Rightarrow> as_core e)"
| "as_core (Sentinel s) = None"
| "as_core (Errorw m es) = first_some (map as_core es)"

fun as_rt :: "gerr \<Rightarrow> rt_error_kind option" where
  "as_rt (CoreError k m w) = (case w of None \<Rightarrow> None | Some e \<Rightarrow> as_rt e)"
| "as_rt (RtError k m w) = Some k"
| "as_rt (RecoveryError c m w) = (case w of None \<Rightarrow> None | Some e \<Rightarrow> as_rt e)"
| "as_rt (Sentinel s) = None"
| "as_rt (Errorw m es) = first_some (map as_rt es)"

fun as_recovery :: "gerr \<Rightarrow> recovery_class option" where
  "as_recovery (CoreError k m w) = (case w of None \<Rightarrow> None | Some e \<Rightarrow> as_recovery e)"
| "as_recovery (RtError k m w) = (case w of None \<Rightarrow> None | Some e \<Rightarrow> as_recovery e)"
| "as_recovery (RecoveryError c m w) = Some c"
| "as_recovery (Sentinel s) = None"
| "as_recovery (Errorw m es) = first_some (map as_recovery es)"

section \<open>Kinds\<close>

text \<open>\<^verbatim>\<open>control.Kind\<close>, \<^verbatim>\<open>runtime.Kind\<close>, \<^verbatim>\<open>runtime.RecoveryClass\<close>; the empty string is \<^const>\<open>None\<close>.\<close>

definition Kind :: "gerr option \<Rightarrow> error_kind option" where
  "Kind err =
     (case err of
        None \<Rightarrow> None
      | Some e \<Rightarrow> (case as_core e of Some k \<Rightarrow> Some k | None \<Rightarrow> Some ErrorInternal))"

definition RtKind :: "gerr option \<Rightarrow> rt_error_kind option" where
  "RtKind err = (case err of None \<Rightarrow> None | Some e \<Rightarrow> as_rt e)"

definition RecoveryClass :: "gerr option \<Rightarrow> recovery_class option" where
  "RecoveryClass err = (case err of None \<Rightarrow> None | Some e \<Rightarrow> as_recovery e)"

text \<open>\<^verbatim>\<open>control.Errorf\<close>: a typed error with a formatted message that wraps nothing.\<close>

definition Errorf :: "error_kind \<Rightarrow> string \<Rightarrow> msg list \<Rightarrow> gerr" where
  "Errorf k f args = CoreError k (Fmt f args) None"

section \<open>Mapping errors\<close>

fun map_sentinel :: "gerr \<Rightarrow> (sentinel \<times> error_kind) list \<Rightarrow> gerr" where
  "map_sentinel e [] = e"
| "map_sentinel e ((target, k) # table) =
     (if errors_is e target then CoreError k (error_text e) (Some e) else map_sentinel e table)"

definition MapSentinel :: "gerr option \<Rightarrow> (sentinel \<times> error_kind) list \<Rightarrow> gerr option" where
  "MapSentinel err table = (case err of None \<Rightarrow> None | Some e \<Rightarrow> Some (map_sentinel e table))"

definition profileErrorKinds :: "(sentinel \<times> error_kind) list" where
  "profileErrorKinds =
     [(ErrProfileInvalid, ErrorInvalidInput), (ErrProfileTooLarge, ErrorInvalidInput),
      (ErrProfileExists, ErrorConflict), (ErrNotExist, ErrorNotFound)]"

definition mapProfileError :: "gerr \<Rightarrow> gerr" where
  "mapProfileError e = map_sentinel e profileErrorKinds"

definition downloadErrorKinds :: "(sentinel \<times> error_kind) list" where
  "downloadErrorKinds =
     [(ErrDownloadInvalidInput, ErrorInvalidInput), (ErrDownloadNotFound, ErrorNotFound),
      (ErrDownloadConflict, ErrorConflict)]"

definition mapDownloadError :: "gerr \<Rightarrow> gerr" where
  "mapDownloadError e = map_sentinel e downloadErrorKinds"

definition mapRuntimeError :: "gerr \<Rightarrow> gerr" where
  "mapRuntimeError e =
     (case as_rt e of
        Some RtErrorInvalidInput \<Rightarrow> CoreError ErrorInvalidInput (error_text e) (Some e)
      | Some RtErrorTimeout \<Rightarrow> CoreError ErrorTimeout (error_text e) (Some e)
      | _ \<Rightarrow> CoreError ErrorRuntime (error_text e) (Some e))"

definition mapConfigError :: "gerr \<Rightarrow> gerr" where
  "mapConfigError e = CoreError ErrorInvalidInput (error_text e) (Some e)"

definition errNoDownloads :: gerr where
  "errNoDownloads = Errorf ErrorInvalidInput ''downloads are not configured'' []"

section \<open>Lemmas\<close>

lemma Kind_None [simp]: "Kind None = None"
  by (simp add: Kind_def)

lemma Kind_CoreError [simp]: "Kind (Some (CoreError k m w)) = Some k"
  by (simp add: Kind_def)

lemma Kind_Errorf [simp]: "Kind (Some (Errorf k f args)) = Some k"
  by (simp add: Errorf_def)

lemma Kind_Some [simp]: "Kind (Some e) \<noteq> None"
  by (simp add: Kind_def split: option.splits)

lemma Kind_eq_None [simp]: "Kind err = None \<longleftrightarrow> err = None"
  by (cases err) auto

lemma first_some_None: "first_some xs = None \<longleftrightarrow> (\<forall>x\<in>set xs. x = None)"
  by (induction xs) (auto split: option.splits)

lemma map_sentinel_hit:
  "errors_is e t \<Longrightarrow> map_sentinel e ((t, k) # table) = CoreError k (error_text e) (Some e)"
  by simp

lemma map_sentinel_miss: "\<forall>(t, k)\<in>set table. \<not> errors_is e t \<Longrightarrow> map_sentinel e table = e"
  by (induction e table rule: map_sentinel.induct) auto

lemma error_text_map_sentinel [simp]: "error_text (map_sentinel e table) = error_text e"
  by (induction e table rule: map_sentinel.induct) auto

lemma errors_is_map_sentinel [simp]: "errors_is (map_sentinel e table) t = errors_is e t"
  by (induction e table rule: map_sentinel.induct) auto

lemma Kind_map_sentinel:
  "Kind (Some (map_sentinel e table)) =
     (case find (\<lambda>p. errors_is e (fst p)) table of
        Some p \<Rightarrow> Some (snd p) | None \<Rightarrow> Kind (Some e))"
  by (induction e table rule: map_sentinel.induct) auto

text \<open>Mapping twice is mapping once: the kind is decided by the wrapped sentinel.\<close>

lemma Kind_map_sentinel_twice:
  "Kind (Some (map_sentinel (map_sentinel e table) table)) = Kind (Some (map_sentinel e table))"
  by (simp add: Kind_map_sentinel split: option.splits)

lemma mapRuntimeError_core: "\<exists>k w. mapRuntimeError e = CoreError k (error_text e) w"
  by (auto simp: mapRuntimeError_def split: option.splits rt_error_kind.splits)

lemma Kind_mapRuntimeError:
  "Kind (Some (mapRuntimeError e)) =
     Some (case as_rt e of
             Some RtErrorInvalidInput \<Rightarrow> ErrorInvalidInput
           | Some RtErrorTimeout \<Rightarrow> ErrorTimeout
           | _ \<Rightarrow> ErrorRuntime)"
  by (auto simp: mapRuntimeError_def split: option.splits rt_error_kind.splits)

end
