(* ===== verification/Files.thy ===== *)
theory Files
  imports GoPath Errors
begin

text \<open>
  The file system as the program sees it, and \<^verbatim>\<open>platform/filedoc/filedoc.go\<close>: symlink rejection, the
  atomic replacement of a file, and the backup taken before it.

  A file system maps cleaned absolute paths to what is there. Any system call may also fail for a
  reason the model does not see (a full disk, a permission): \<open>io_fail\<close> says which calls do, so
  a statement for every environment covers every failure. Only a symlink at the end of a path is
  followed; directories on the way are taken as they are named. \<open>io_sha\<close> is SHA-256 in hex,
  \<open>io_stamp\<close> the timestamp with its random suffix, \<open>io_temp\<close> the random part \<^verbatim>\<open>os.CreateTemp\<close> chose.
\<close>

section \<open>The file system\<close>

datatype node = NDir | NFile string nat | NLink string

type_synonym fs = "(string \<times> node) list"

datatype io_op =
    OpLstat string
  | OpStat string
  | OpOpen string
  | OpRead string
  | OpReadDir string
  | OpMkdir string
  | OpChmod string
  | OpCreateTemp string
  | OpWrite string
  | OpWriteFile string
  | OpSync string
  | OpClose string
  | OpRename string
  | OpSyncDir string
  | OpRemove string

record io_env =
  io_fail :: "io_op \<Rightarrow> gerr option"
  io_sha :: "string \<Rightarrow> string"
  io_stamp :: string
  io_temp :: string

definition not_exist :: "string \<Rightarrow> gerr" where
  "not_exist p = Errorw (Fmt ''%s: no such file or directory'' [Str p]) [Sentinel ErrNotExist]"

definition wrong_kind :: "string \<Rightarrow> gerr" where
  "wrong_kind p = Errorw (Fmt ''%s: not the kind of file expected'' [Str p]) []"

text \<open>Linux follows at most 40 links.\<close>

fun follow :: "nat \<Rightarrow> fs \<Rightarrow> string \<Rightarrow> node option" where
  "follow fuel fs p =
     (case map_of fs p of
        Some (NLink q) \<Rightarrow> (case fuel of 0 \<Rightarrow> None | Suc n \<Rightarrow> follow n fs q)
      | r \<Rightarrow> r)"

definition Lstat :: "io_env \<Rightarrow> string \<Rightarrow> fs \<Rightarrow> gerr + node" where
  "Lstat io p fs =
     (case io_fail io (OpLstat p) of
        Some e \<Rightarrow> Inl e
      | None \<Rightarrow> (case map_of fs p of None \<Rightarrow> Inl (not_exist p) | Some n \<Rightarrow> Inr n))"

definition Stat :: "io_env \<Rightarrow> string \<Rightarrow> fs \<Rightarrow> gerr + node" where
  "Stat io p fs =
     (case io_fail io (OpStat p) of
        Some e \<Rightarrow> Inl e
      | None \<Rightarrow> (case follow 40 fs p of None \<Rightarrow> Inl (not_exist p) | Some n \<Rightarrow> Inr n))"

definition ReadFile :: "io_env \<Rightarrow> string \<Rightarrow> fs \<Rightarrow> gerr + string" where
  "ReadFile io p fs =
     (case io_fail io (OpOpen p) of
        Some e \<Rightarrow> Inl e
      | None \<Rightarrow>
          (case follow 40 fs p of
             None \<Rightarrow> Inl (not_exist p)
           | Some (NFile data _) \<Rightarrow>
               (case io_fail io (OpRead p) of Some e \<Rightarrow> Inl e | None \<Rightarrow> Inr data)
           | Some _ \<Rightarrow> Inl (wrong_kind p)))"

text \<open>The names directly below a directory, sorted, with what each is.\<close>

definition below :: "string \<Rightarrow> string \<Rightarrow> string option" where
  "below p q =
     (if has_prefix q (p @ ''/'') \<and> drop (length p + 1) q \<noteq> [] \<and> slash \<notin> set (drop (length p + 1) q)
      then Some (drop (length p + 1) q) else None)"

definition dir_entries :: "string \<Rightarrow> fs \<Rightarrow> (string \<times> node) list" where
  "dir_entries p fs =
     sort_key fst (List.map_filter (\<lambda>(q, n). map_option (\<lambda>name. (name, n)) (below p q)) fs)"

definition ReadDir :: "io_env \<Rightarrow> string \<Rightarrow> fs \<Rightarrow> gerr + (string \<times> node) list" where
  "ReadDir io p fs =
     (case io_fail io (OpReadDir p) of
        Some e \<Rightarrow> Inl e
      | None \<Rightarrow>
          (case follow 40 fs p of
             None \<Rightarrow> Inl (not_exist p)
           | Some NDir \<Rightarrow> Inr (dir_entries p fs)
           | Some _ \<Rightarrow> Inl (wrong_kind p)))"

definition ancestors :: "string \<Rightarrow> string list" where
  "ancestors p = map (\<lambda>i. mk_path (rooted p) (take i (elems p))) [1..<Suc (length (elems p))]"

fun mkdirs :: "io_env \<Rightarrow> string list \<Rightarrow> fs \<Rightarrow> (gerr option) \<times> fs" where
  "mkdirs io [] fs = (None, fs)"
| "mkdirs io (p # ps) fs =
     (case follow 40 fs p of
        Some NDir \<Rightarrow> mkdirs io ps fs
      | Some _ \<Rightarrow> (Some (wrong_kind p), fs)
      | None \<Rightarrow>
          if map_of fs p \<noteq> None then (Some (wrong_kind p), fs)
          else (case io_fail io (OpMkdir p) of
             Some e \<Rightarrow> (Some e, fs)
           | None \<Rightarrow> mkdirs io ps (al_put p NDir fs)))"

definition MkdirAll :: "io_env \<Rightarrow> string \<Rightarrow> fs \<Rightarrow> gerr option \<times> fs" where
  "MkdirAll io p fs = mkdirs io (ancestors p) fs"

definition under :: "string \<Rightarrow> string \<Rightarrow> bool" where
  "under p q \<longleftrightarrow> q = p \<or> has_prefix q (p @ ''/'')"

definition RemoveAll :: "io_env \<Rightarrow> string \<Rightarrow> fs \<Rightarrow> gerr option \<times> fs" where
  "RemoveAll io p fs =
     (case io_fail io (OpRemove p) of
        Some e \<Rightarrow> (Some e, fs)
      | None \<Rightarrow> (None, filter (\<lambda>e. \<not> under p (fst e)) fs))"

text \<open>\<^verbatim>\<open>os.Remove\<close> of a file or link; a directory must be empty.\<close>

definition Remove :: "io_env \<Rightarrow> string \<Rightarrow> fs \<Rightarrow> gerr option \<times> fs" where
  "Remove io p fs =
     (case io_fail io (OpRemove p) of
        Some e \<Rightarrow> (Some e, fs)
      | None \<Rightarrow>
          if map_of fs p = None then (Some (not_exist p), fs)
          else if map_of fs p = Some NDir \<and> list_ex (\<lambda>e. has_prefix (fst e) (p @ ''/'')) fs
          then (Some (wrong_kind p), fs)
          else (None, al_del p fs))"

definition Mkdir :: "io_env \<Rightarrow> string \<Rightarrow> fs \<Rightarrow> gerr option \<times> fs" where
  "Mkdir io p fs =
     (case io_fail io (OpMkdir p) of
        Some e \<Rightarrow> (Some e, fs)
      | None \<Rightarrow> if map_of fs p \<noteq> None then (Some (wrong_kind p), fs) else (None, al_put p NDir fs))"

text \<open>
  \<^verbatim>\<open>os.Rename\<close> within one directory: a file replaces a file, a directory an empty one.
\<close>

definition move_tree :: "string \<Rightarrow> string \<Rightarrow> fs \<Rightarrow> fs" where
  "move_tree p q fs =
     map (\<lambda>(r, n). (if under p r then q @ drop (length p) r else r, n)) (filter (\<lambda>e. \<not> under q (fst e)) fs)"

definition Rename :: "io_env \<Rightarrow> string \<Rightarrow> string \<Rightarrow> fs \<Rightarrow> gerr option \<times> fs" where
  "Rename io p q fs =
     (case io_fail io (OpRename q) of
        Some e \<Rightarrow> (Some e, fs)
      | None \<Rightarrow>
          (case map_of fs p of
             None \<Rightarrow> (Some (not_exist p), fs)
           | Some NDir \<Rightarrow>
               if map_of fs q = None \<or> map_of fs q = Some NDir \<and> \<not> list_ex (\<lambda>e. has_prefix (fst e) (q @ ''/'')) fs
               then (None, move_tree p q fs) else (Some (wrong_kind q), fs)
           | Some n \<Rightarrow>
               if map_of fs q = Some NDir then (Some (wrong_kind q), fs) else (None, al_put q n (al_del p fs))))"

text \<open>The stores end every document with exactly one newline.\<close>

definition normalize :: "string \<Rightarrow> string" where
  "normalize s = trim_right (\<lambda>c. c = newline) s @ [newline]"

section \<open>Symlinks\<close>

definition RejectSymlink :: "io_env \<Rightarrow> string \<Rightarrow> fs \<Rightarrow> gerr option" where
  "RejectSymlink io p fs =
     (case Lstat io p fs of
        Inl e \<Rightarrow> Some e
      | Inr (NLink q) \<Rightarrow> Some (Errorw (Fmt ''%w: %s'' [Str p]) [Sentinel ErrSymlink])
      | Inr _ \<Rightarrow> None)"

fun reject_each :: "io_env \<Rightarrow> string list \<Rightarrow> fs \<Rightarrow> gerr option" where
  "reject_each io [] fs = None"
| "reject_each io (p # ps) fs =
     (case RejectSymlink io p fs of Some e \<Rightarrow> Some e | None \<Rightarrow> reject_each io ps fs)"

text \<open>The path is absolute: \<^verbatim>\<open>filepath.Abs\<close> only cleans it.\<close>

definition RejectSymlinkAncestors :: "io_env \<Rightarrow> string \<Rightarrow> fs \<Rightarrow> gerr option" where
  "RejectSymlinkAncestors io p fs = reject_each io (ancestors p) fs"

section \<open>Atomic replacement\<close>

record write_result =
  wr_path :: string
  wr_backup :: string
  wr_size :: nat
  wr_sha :: string

definition temp_path :: "io_env \<Rightarrow> string \<Rightarrow> string" where
  "temp_path io path = Dir path @ ''/.'' @ Base path @ ''-'' @ io_temp io"

definition wrap :: "string \<Rightarrow> gerr \<Rightarrow> gerr" where
  "wrap f e = Errorw (Fmt f [error_text e]) [e]"

text \<open>
  The calls of \<^verbatim>\<open>writeReplacement\<close> on the open temporary file, in order, each with the message of
  its failure and its effect. The first that fails ends the write; the deferred removal then runs.
\<close>

definition temp_calls :: "string \<Rightarrow> string \<Rightarrow> nat \<Rightarrow> (io_op \<times> string \<times> (fs \<Rightarrow> fs)) list" where
  "temp_calls tmp data perm =
     [(OpWrite tmp, ''write temp file: %w'', al_put tmp (NFile data 384)),
      (OpChmod tmp, ''chmod temp file: %w'', al_put tmp (NFile data perm)),
      (OpSync tmp, ''sync temp file: %w'', id),
      (OpClose tmp, ''close temp file: %w'', id)]"

fun run_calls ::
    "io_env \<Rightarrow> (io_op \<times> string \<times> (fs \<Rightarrow> fs)) list \<Rightarrow> fs \<Rightarrow> gerr option \<times> fs" where
  "run_calls io [] fs = (None, fs)"
| "run_calls io ((op, m, f) # cs) fs =
     (case io_fail io op of Some e \<Rightarrow> (Some (wrap m e), fs) | None \<Rightarrow> run_calls io cs (f fs))"

definition writeReplacement ::
    "io_env \<Rightarrow> string \<Rightarrow> string \<Rightarrow> nat \<Rightarrow> string \<Rightarrow> fs \<Rightarrow> (gerr + write_result) \<times> fs" where
  "writeReplacement io path data perm backup fs =
     (let dir = Dir path; tmp = temp_path io path;
          cleanup = (\<lambda>f. snd (Remove io tmp f))
      in case io_fail io (OpCreateTemp dir) of
           Some e \<Rightarrow> (Inl (wrap ''create temp file: %w'' e), fs)
         | None \<Rightarrow>
             if follow 40 fs dir \<noteq> Some NDir
             then (Inl (wrap ''create temp file: %w'' (not_exist dir)), fs)
             else
               (case run_calls io (temp_calls tmp data perm) (al_put tmp (NFile [] 384) fs) of
                  (Some e, f) \<Rightarrow> (Inl e, cleanup f)
                | (None, f) \<Rightarrow>
                    (case io_fail io (OpRename path) of
                       Some e \<Rightarrow> (Inl (wrap ''replace file: %w'' e), cleanup f)
                     | None \<Rightarrow>
                         if map_of f path = Some NDir
                         then (Inl (wrap ''replace file: %w'' (wrong_kind path)), cleanup f)
                         else
                           (let f' = al_put path (NFile data perm) (al_del tmp f)
                            in case io_fail io (OpSyncDir dir) of
                                 Some e \<Rightarrow> (Inl (wrap ''sync directory: %w'' e), cleanup f')
                               | None \<Rightarrow>
                                   (Inr \<lparr>wr_path = path, wr_backup = backup, wr_size = length data,
                                         wr_sha = io_sha io data\<rparr>, cleanup f')))))"

text \<open>The backup: the file's bytes and permission bits under a new name.\<close>

definition backup_path :: "io_env \<Rightarrow> string \<Rightarrow> string" where
  "backup_path io path = path @ ''.backup-'' @ io_stamp io"

definition writeBackup :: "io_env \<Rightarrow> string \<Rightarrow> fs \<Rightarrow> (gerr + (string \<times> nat)) \<times> fs" where
  "writeBackup io path fs =
     (case Stat io path fs of
        Inl e \<Rightarrow> (Inl e, fs)
      | Inr info \<Rightarrow>
          (let perm = (case info of NFile _ m \<Rightarrow> m | _ \<Rightarrow> 448);
               backup = backup_path io path
           in case ReadFile io path fs of
                Inl e \<Rightarrow> (Inl (wrap ''read backup source: %w'' e), fs)
              | Inr current \<Rightarrow>
                  (case io_fail io (OpWriteFile backup) of
                     Some e \<Rightarrow> (Inl (wrap ''write backup: %w'' e), fs)
                   | None \<Rightarrow>
                       (let fs' = al_put backup (NFile current perm) fs
                        in case io_fail io (OpSync backup) of
                             Some e \<Rightarrow> (Inl (wrap ''sync backup: %w'' e), fs')
                           | None \<Rightarrow> (Inr (backup, perm), fs')))))"

record write_options =
  wo_perm :: nat
  wo_backup :: bool
  wo_normalize :: "string \<Rightarrow> string"

definition filedoc_writeFile ::
    "io_env \<Rightarrow> string \<Rightarrow> string \<Rightarrow> write_options \<Rightarrow> fs \<Rightarrow> (gerr + write_result) \<times> fs" where
  "filedoc_writeFile io path data opts fs =
     (let perm = (if wo_perm opts = 0 then 384 else wo_perm opts)
      in if wo_backup opts then
           (case writeBackup io path fs of
              (Inl e, fs') \<Rightarrow> (Inl e, fs')
            | (Inr (backup, bperm), fs') \<Rightarrow> writeReplacement io path data bperm backup fs')
         else writeReplacement io path data perm [] fs)"

definition WriteFile ::
    "io_env \<Rightarrow> string \<Rightarrow> string \<Rightarrow> write_options \<Rightarrow> fs \<Rightarrow> (gerr + write_result) \<times> fs" where
  "WriteFile io path content opts fs =
     filedoc_writeFile io path (wo_normalize opts content) opts fs"

definition AtomicCreate :: "io_env \<Rightarrow> string \<Rightarrow> string \<Rightarrow> nat \<Rightarrow> fs \<Rightarrow> gerr option \<times> fs" where
  "AtomicCreate io path data perm fs =
     (case filedoc_writeFile io path data \<lparr>wo_perm = perm, wo_backup = False, wo_normalize = id\<rparr> fs of
        (Inl e, fs') \<Rightarrow> (Some e, fs') | (Inr _, fs') \<Rightarrow> (None, fs'))"

section \<open>Lemmas\<close>

text \<open>An environment in which no call fails.\<close>

definition calm :: "io_env \<Rightarrow> bool" where
  "calm io \<longleftrightarrow> (\<forall>op. io_fail io op = None)"

lemma calm_fail [simp]: "calm io \<Longrightarrow> io_fail io op = None"
  by (simp add: calm_def)

lemma Lstat_calm: "calm io \<Longrightarrow> Lstat io p fs = (case map_of fs p of None \<Rightarrow> Inl (not_exist p) | Some n \<Rightarrow> Inr n)"
  by (simp add: Lstat_def)

lemma follow_plain:
  "map_of fs p = Some NDir \<Longrightarrow> follow k fs p = Some NDir"
  "map_of fs p = Some (NFile c m) \<Longrightarrow> follow k fs p = Some (NFile c m)"
  by (simp_all add: follow.simps)

lemma follow_absent: "map_of fs p = None \<Longrightarrow> follow k fs p = None"
  by (simp add: follow.simps)

declare follow.simps [simp del]

lemma run_calls_temp_file:
  assumes "run_calls io (temp_calls tmp data perm) (al_put tmp (NFile [] 384) fs) = (r, f)"
  obtains c m where "map_of f = (map_of fs)(tmp \<mapsto> NFile c m)"
  using assms by (auto simp: temp_calls_def split: option.splits)

lemma Remove_file:
  "map_of fs p = Some (NFile c m) \<Longrightarrow>
     map_of (snd (Remove io p fs)) = (if io_fail io (OpRemove p) = None then (map_of fs)(p := None) else map_of fs)"
  by (simp add: Remove_def split: option.splits)

lemma Remove_absent: "map_of fs p = None \<Longrightarrow> snd (Remove io p fs) = fs"
  by (simp add: Remove_def split: option.splits)

lemma mkdirs_frame:
  "mkdirs io ps fs = (r, fs') \<Longrightarrow> map_of fs' q = map_of fs q \<or> (q \<in> set ps \<and> map_of fs q = None \<and> map_of fs' q = Some NDir)"
proof (induction io ps fs arbitrary: fs' rule: mkdirs.induct)
  case (2 io p ps fs)
  consider "follow 40 fs p = Some NDir" "mkdirs io ps fs = (r, fs')"
    | "follow 40 fs p = None" "map_of fs p = None" "io_fail io (OpMkdir p) = None"
      "mkdirs io ps (al_put p NDir fs) = (r, fs')"
    | "fs' = fs"
    using "2.prems" by (auto split: option.splits node.splits if_splits)
  then show ?case
  proof cases
    case 1
    then show ?thesis using "2.IH"(2) [OF 1(1) refl 1(2)] by auto
  next
    case 2
    then show ?thesis using "2.IH"(1) [OF 2(1) _ 2(3,4)] by (auto split: if_splits)
  qed simp
qed simp

lemma normalize_idem [simp]: "normalize (normalize s) = normalize s"
  by (simp add: normalize_def trim_right_def)

text \<open>The three ways a replacement can end.\<close>

definition abandoned :: "io_env \<Rightarrow> string \<Rightarrow> fs \<Rightarrow> fs \<Rightarrow> bool" where
  "abandoned io tmp fs fs' \<longleftrightarrow>
     (\<exists>c m. map_of fs' = (if io_fail io (OpRemove tmp) = None then (map_of fs)(tmp := None)
                          else (map_of fs)(tmp \<mapsto> NFile c m)))"

definition replaced :: "string \<Rightarrow> string \<Rightarrow> string \<Rightarrow> nat \<Rightarrow> fs \<Rightarrow> fs \<Rightarrow> bool" where
  "replaced tmp path data perm fs fs' \<longleftrightarrow>
     map_of fs' = (map_of fs)(tmp := None, path \<mapsto> NFile data perm)"

lemma abandoned_cleanup:
  "map_of f = (map_of fs)(tmp \<mapsto> NFile c m) \<Longrightarrow> abandoned io tmp fs (snd (Remove io tmp f))"
  unfolding abandoned_def by (intro exI [of _ c] exI [of _ m]) (simp add: Remove_file)

lemma replaced_cleanup:
  assumes "map_of f = (map_of fs)(tmp \<mapsto> NFile c m)" and "tmp \<noteq> path"
  shows "replaced tmp path data perm fs (snd (Remove io tmp (al_put path (NFile data perm) (al_del tmp f))))"
  unfolding replaced_def using assms by (simp add: Remove_absent)

lemma writeReplacement_cases:
  assumes w: "writeReplacement io path data perm backup fs = (r, fs')" and tmp: "temp_path io path \<noteq> path"
  shows "(\<exists>e. r = Inl e) \<and> (fs' = fs \<or> abandoned io (temp_path io path) fs fs') \<or>
    ((\<exists>e. r = Inl e) \<or> r = Inr \<lparr>wr_path = path, wr_backup = backup, wr_size = length data, wr_sha = io_sha io data\<rparr>)
      \<and> replaced (temp_path io path) path data perm fs fs'"
proof -
  let ?tmp = "temp_path io path"
  obtain rc f where rc: "run_calls io (temp_calls ?tmp data perm) (al_put ?tmp (NFile [] 384) fs) = (rc, f)"
    by (cases "run_calls io (temp_calls ?tmp data perm) (al_put ?tmp (NFile [] 384) fs)")
  obtain c m where f: "map_of f = (map_of fs)(?tmp \<mapsto> NFile c m)"
    by (rule run_calls_temp_file [OF rc])
  note ab = abandoned_cleanup [OF f] and re = replaced_cleanup [OF f tmp]
  consider e where "io_fail io (OpCreateTemp (Dir path)) = Some e"
    | "io_fail io (OpCreateTemp (Dir path)) = None" "follow 40 fs (Dir path) \<noteq> Some NDir"
    | "io_fail io (OpCreateTemp (Dir path)) = None" "follow 40 fs (Dir path) = Some NDir"
    by (cases "io_fail io (OpCreateTemp (Dir path))") auto
  then show ?thesis
  proof cases
    case 3
    then show ?thesis
      using w rc ab [of io] re [of data perm io]
      by (cases rc; cases "io_fail io (OpRename path)"; cases "map_of f path = Some NDir";
          cases "io_fail io (OpSyncDir (Dir path))")
        (auto simp: writeReplacement_def Let_def)
  qed (use w in \<open>auto simp: writeReplacement_def Let_def\<close>)
qed

lemma backup_path_neq [simp]: "backup_path io p \<noteq> p" "p \<noteq> backup_path io p"
  by (simp_all add: backup_path_def)

lemma writeBackup_cases:
  assumes "writeBackup io path fs = (r, fs')"
  shows "(\<exists>e. r = Inl e) \<and> fs' = fs \<or>
    (\<exists>c m. ReadFile io path fs = Inr c \<and> fs' = al_put (backup_path io path) (NFile c m) fs \<and>
       (r = Inr (backup_path io path, m) \<or> (\<exists>e. r = Inl e)) \<and>
       (\<forall>old k. map_of fs path = Some (NFile old k) \<longrightarrow> c = old \<and> m = k))"
proof -
  have "follow 40 fs path = Some (NFile old k)" if "map_of fs path = Some (NFile old k)" for old k
    using that by (rule follow_plain)
  with assms show ?thesis
    by (auto simp: writeBackup_def Let_def Stat_def ReadFile_def split: sum.splits option.splits node.splits)
qed

lemma WriteFile_backup_cases:
  assumes "WriteFile io path content \<lparr>wo_perm = p, wo_backup = True, wo_normalize = f\<rparr> fs = (r, fs')"
    and "map_of fs path = Some (NFile old m)"
    and "temp_path io path \<noteq> path" and "temp_path io path \<noteq> backup_path io path"
  shows "(isl r \<and> map_of fs' path = Some (NFile old m)) \<or>
    (map_of fs' path = Some (NFile (f content) m) \<and>
     map_of fs' (backup_path io path) = Some (NFile old m))"
proof -
  let ?b = "backup_path io path"
  obtain rb fb where wb: "writeBackup io path fs = (rb, fb)" by (cases "writeBackup io path fs")
  from writeBackup_cases [OF wb] assms(2)
  consider e where "rb = Inl e" "map_of fb path = Some (NFile old m)"
    | "rb = Inr (?b, m)" "map_of fb = (map_of fs)(?b \<mapsto> NFile old m)"
    by force
  then show ?thesis
  proof cases
    case 1
    with assms(1) wb show ?thesis by (auto simp: WriteFile_def filedoc_writeFile_def Let_def)
  next
    case 2
    then have w: "writeReplacement io path (f content) m ?b fb = (r, fs')"
      using assms(1) wb by (simp add: WriteFile_def filedoc_writeFile_def Let_def)
    have old: "map_of fb path = Some (NFile old m)" using 2(2) assms(2) by simp
    from writeReplacement_cases [OF w assms(3)] show ?thesis
      using old 2(2) assms(3,4) by (auto simp: abandoned_def replaced_def split: if_splits)
  qed
qed


definition calm_env :: io_env where
  "calm_env = \<lparr>io_fail = (\<lambda>op. None), io_sha = (\<lambda>s. ''digest''), io_stamp = ''20260101'', io_temp = ''1''\<rparr>"

lemma calm_calm_env [simp]: "calm calm_env"
  by (simp add: calm_def calm_env_def)

definition ex_fs :: fs where
  "ex_fs = [(''/etc'', NDir), (''/etc/a'', NFile ''old'' 420)]"

definition rename_fails :: io_env where
  "rename_fails = calm_env\<lparr>io_fail := (\<lambda>op. if op = OpRename ''/etc/a'' then Some (not_exist []) else None)\<rparr>"

lemma ex_temp: "temp_path rename_fails ''/etc/a'' = ''/etc/.a-1''"
  by code_simp


end
