(* ===== verification/Backend.thy ===== *)
theory Backend
  imports Files
begin

text \<open>
  The data the control plane exchanges with its backends, and the backend registry:
  \<^verbatim>\<open>core/profiles/profile.go\<close>, \<^verbatim>\<open>core/profiles/types.go\<close>, \<^verbatim>\<open>backends/types.go\<close>,
  \<^verbatim>\<open>backends/contract.go\<close>, \<^verbatim>\<open>backends/registry.go\<close>, and the launch specification of
  \<^verbatim>\<open>core/runtime/supervisor.go\<close>.

  A \<open>backend\<close> is the record of its methods, each a function to an error or a result. The neutral
  core is stated for every such record; the optional facets (\<^verbatim>\<open>RuntimeActivator\<close>,
  \<^verbatim>\<open>ProfileImporter\<close>, \<^verbatim>\<open>batchMaterializer\<close>) are options, \<^const>\<open>None\<close> when the type assertion fails.
\<close>

section \<open>Profiles\<close>

text \<open>A decoded YAML value as \<^verbatim>\<open>any\<close> holds it. \<open>YInt\<close> is an \<^verbatim>\<open>int\<close>, or a \<^verbatim>\<open>uint64\<close> when it is too large
  for one; \<open>YFloat\<close> carries the shortest text that prints the number; \<open>YOther\<close> is a mapping.\<close>

datatype yval = YNull | YBool bool | YInt int | YFloat string | YStr string | YList "yval list" | YOther string

record model_spec =
  ms_source :: string
  ms_reference :: string

record listen_spec =
  ls_host :: string
  ls_port :: int

record profile =
  p_version :: yval
  p_name :: string
  p_backend :: string
  p_model :: model_spec
  p_listen :: listen_spec
  p_engine_args :: "(string \<times> yval) list"

record profile_doc =
  d_name :: string
  d_dir :: string
  d_path :: string
  d_yaml :: string
  d_parsed :: profile
  d_effective :: profile

section \<open>Launching and materializing\<close>

record launch_spec =
  sp_name :: string
  sp_executable :: string
  sp_argv :: "string list"
  sp_host :: string
  sp_port :: int
  sp_readiness_path :: string
  sp_pid_dir :: string
  sp_log_name :: string
  sp_env :: "(string \<times> string) list"
  sp_readiness_timeout :: int
  sp_build_err :: "gerr option"

record generated_file =
  gf_path :: string
  gf_content :: string
  gf_mode :: nat

record materialization =
  mat_files :: "generated_file list"
  mat_summary :: msg

section \<open>Artifacts\<close>

record artifact_ref =
  ar_name :: string
  ar_uri :: string
  ar_size :: int
  ar_sha256 :: string

record resolved_model =
  rm_source :: string
  rm_reference :: string
  rm_multi_file :: bool
  rm_artifacts :: "artifact_ref list"
  rm_metadata :: "(string \<times> string) list"

record artifact_item =
  ai_uri :: string
  ai_filename :: string
  ai_target_path :: string
  ai_size :: int
  ai_sha256 :: string

record artifact_plan =
  ap_multi_file :: bool
  ap_target_root :: string
  ap_items :: "artifact_item list"
  ap_total_bytes :: int
  ap_revision :: string

record local_model =
  lm_path :: string
  lm_filename :: string
  lm_size :: nat

record remote_file =
  rf_name :: string
  rf_size :: int

record variant =
  vr_name :: string
  vr_reference :: string
  vr_size :: int
  vr_multi_file :: bool

section \<open>Capabilities and the backend contract\<close>

datatype parameter_type = ParameterString | ParameterInt | ParameterBool | ParameterList

record parameter =
  pr_name :: string
  pr_description :: string
  pr_required :: bool
  pr_aliases :: "string list"
  pr_hint :: string
  pr_default :: string
  pr_type :: parameter_type

text \<open>What a backend is told of the host, and its verdict on whether a model fits (\<^verbatim>\<open>backends/types.go\<close>).\<close>

record host_resources =
  hs_total_ram :: int
  hs_available_ram :: int
  hs_has_gpu :: bool
  hs_vram :: int
  hs_vram_used :: int
  hs_unified :: bool
  hs_budget :: int
  hs_accelerator :: string

datatype fit_level = FitUnknown | FitFits | FitMarginal | FitTooLarge

record fit_estimate =
  fe_level :: fit_level
  fe_reason :: msg
  fe_required :: int
  fe_available :: int

definition no_host :: host_resources where
  "no_host = \<lparr>hs_total_ram = 0, hs_available_ram = 0, hs_has_gpu = False, hs_vram = 0, hs_vram_used = 0,
     hs_unified = False, hs_budget = 0, hs_accelerator = []\<rparr>"

definition no_estimate :: fit_estimate where
  "no_estimate = \<lparr>fe_level = FitUnknown, fe_reason = Str [], fe_required = 0, fe_available = 0\<rparr>"

record capabilities =
  cap_single_file :: bool
  cap_multi_file :: bool
  cap_discrete_vram :: bool
  cap_unified_memory :: bool
  cap_managed_install :: bool
  cap_single_active :: bool
  cap_parameter_introspection :: bool

record backend =
  b_name :: string
  b_caps :: capabilities
  b_validate :: "profile \<Rightarrow> gerr + profile"
  b_materialize :: "profile \<Rightarrow> gerr + materialization"
  b_batch :: "(profile list \<Rightarrow> gerr + materialization) option"
  b_launch :: "profile \<Rightarrow> materialization \<Rightarrow> gerr + launch_spec"
  b_resolve :: "profile \<Rightarrow> gerr + resolved_model"
  b_plan :: "resolved_model \<Rightarrow> gerr + artifact_plan"
  b_activate :: "(profile \<Rightarrow> gerr option) option"
  b_import :: "(io_env \<Rightarrow> fs \<Rightarrow> profile_doc list \<Rightarrow> gerr + ((string \<times> string) list \<times> string list)) option"
  b_list_local :: "io_env \<Rightarrow> fs \<Rightarrow> gerr + local_model list"
  b_delete_local :: "io_env \<Rightarrow> string \<Rightarrow> fs \<Rightarrow> gerr option \<times> fs"
  b_params :: "(gerr + parameter list) option"
  b_fit :: "profile \<Rightarrow> int \<Rightarrow> host_resources \<Rightarrow> gerr + fit_estimate"
  b_host :: "(host_resources \<times> msg list) option"

definition single_active :: "backend \<Rightarrow> bool" where
  "single_active b = cap_single_active (b_caps b)"

section \<open>The registry\<close>

type_synonym registry = "(string \<times> backend) list"

definition NewRegistry :: registry where
  "NewRegistry = []"

definition Register :: "backend \<Rightarrow> registry \<Rightarrow> gerr option \<times> registry" where
  "Register b r =
     (if b_name b = [] then (Some (Errorw (Fmt ''backend has empty name'' []) []), r)
      else if \<not> cap_single_active (b_caps b) \<and> b_activate b = None then
        (Some (Errorw (Fmt ''backend %q serves several profiles but implements no RuntimeActivator''
           [Str (b_name b)]) []), r)
      else if map_of r (b_name b) \<noteq> None then
        (Some (Errorw (Fmt ''backend %q already registered'' [Str (b_name b)]) []), r)
      else (None, al_put (b_name b) b r))"

definition Lookup :: "registry \<Rightarrow> string \<Rightarrow> backend option" where
  "Lookup r name = map_of r name"

definition Names :: "registry \<Rightarrow> string list" where
  "Names r = sort (al_keys r)"

text \<open>The manager's \<^verbatim>\<open>Backend\<close>: a lookup with a typed error.\<close>

definition mgr_Backend :: "registry \<Rightarrow> string \<Rightarrow> gerr + backend" where
  "mgr_Backend r name =
     (case Lookup r name of
        None \<Rightarrow> Inl (Errorf ErrorNotFound ''backend %q not found'' [Str name])
      | Some b \<Rightarrow> Inr b)"

text \<open>What registration guarantees of every registered backend.\<close>

definition registry_ok :: "registry \<Rightarrow> bool" where
  "registry_ok r \<longleftrightarrow>
     distinct (al_keys r) \<and>
     (\<forall>(k, b)\<in>set r. k \<noteq> [] \<and> b_name b = k \<and> (single_active b \<or> b_activate b \<noteq> None))"

lemma registry_ok_new [inv_intros]: "registry_ok NewRegistry"
  by (simp add: registry_ok_def NewRegistry_def al_keys_def)

lemma set_al_put: "set (al_put k v ps) \<subseteq> insert (k, v) (set ps)"
  by (induction k v ps rule: al_put.induct) auto

lemma registry_ok_register [inv_intros]:
  assumes "registry_ok r"
  shows "registry_ok (snd (Register b r))"
  using assms set_al_put [of "b_name b" b r]
  by (auto simp: Register_def registry_ok_def single_active_def)

lemma Lookup_ok:
  "registry_ok r \<Longrightarrow> Lookup r name = Some b \<Longrightarrow>
     b_name b = name \<and> name \<noteq> [] \<and> (single_active b \<or> b_activate b \<noteq> None)"
  unfolding registry_ok_def Lookup_def by (fastforce dest: map_of_SomeD)

lemma Lookup_register:
  "fst (Register b r) = None \<Longrightarrow> Lookup (snd (Register b r)) = (Lookup r)(b_name b \<mapsto> b)"
  by (auto simp: Register_def Lookup_def fun_eq_iff split: if_splits)

lemma Register_rejected: "fst (Register b r) \<noteq> None \<Longrightarrow> snd (Register b r) = r"
  by (auto simp: Register_def split: if_splits)

lemma mgr_Backend_Inr: "mgr_Backend r name = Inr b \<longleftrightarrow> Lookup r name = Some b"
  by (simp add: mgr_Backend_def split: option.splits)

section \<open>A small backend for examples\<close>

definition demo_caps :: "bool \<Rightarrow> capabilities" where
  "demo_caps single =
     \<lparr>cap_single_file = True, cap_multi_file = False, cap_discrete_vram = True,
      cap_unified_memory = False, cap_managed_install = False, cap_single_active = single,
      cap_parameter_introspection = False\<rparr>"

text \<open>One generated file holds the names of all its profiles; every profile launches on its own port.\<close>

definition demo_materialize :: "profile list \<Rightarrow> gerr + materialization" where
  "demo_materialize ps =
     Inr \<lparr>mat_files = [\<lparr>gf_path = ''/gen/models.ini'', gf_content = concat (map p_name ps), gf_mode = 0\<rparr>],
          mat_summary = Str []\<rparr>"

definition demo_launch :: "profile \<Rightarrow> materialization \<Rightarrow> gerr + launch_spec" where
  "demo_launch p mat =
     Inr \<lparr>sp_name = ''demo'', sp_executable = ''/bin/demo'', sp_argv = [], sp_host = ls_host (p_listen p),
          sp_port = ls_port (p_listen p), sp_readiness_path = [], sp_pid_dir = ''/run'',
          sp_log_name = [], sp_env = [], sp_readiness_timeout = 0, sp_build_err = None\<rparr>"

definition demo_backend :: "bool \<Rightarrow> backend" where
  "demo_backend single =
     \<lparr>b_name = ''demo'', b_caps = demo_caps single, b_validate = Inr,
      b_materialize = (\<lambda>p. demo_materialize [p]),
      b_batch = (if single then None else Some demo_materialize), b_launch = demo_launch,
      b_resolve = (\<lambda>p. Inl (Errorw (Str ''none'') [])), b_plan = (\<lambda>r. Inl (Errorw (Str ''none'') [])),
      b_activate = (if single then None else Some (\<lambda>p. None)), b_import = None,
      b_list_local = (\<lambda>io fs. Inr []), b_delete_local = Remove, b_params = None,
      b_fit = (\<lambda>p s h. Inr no_estimate), b_host = None\<rparr>"

lemmas demo_defs = demo_backend_def demo_caps_def

section \<open>Properties\<close>

lemma registry_ok_fold: "registry_ok r \<Longrightarrow> registry_ok (fold (\<lambda>b r. snd (Register b r)) bs r)"
  by (induction bs arbitrary: r) (simp_all add: registry_ok_register)

text \<open>
  Every backend the daemon can look up is fit for the slot. Whatever is registered, in whatever
  order, a lookup by name returns the backend of that name, the name is not empty, and a backend
  that serves several profiles at once can activate a profile in a running engine.
\<close>

theorem looked_up_backend_ok:
  assumes "Lookup (fold (\<lambda>b r. snd (Register b r)) bs NewRegistry) name = Some b"
  shows "b_name b = name \<and> name \<noteq> [] \<and> (single_active b \<or> b_activate b \<noteq> None)"
  using Lookup_ok [OF registry_ok_fold [OF registry_ok_new] assms] .

theorem looked_up_backend_ok_witness:
  "b_name (demo_backend False) = ''demo'' \<and> b_activate (demo_backend False) \<noteq> None"
  using looked_up_backend_ok [of "[demo_backend False, demo_backend True]" "''demo''" "demo_backend False"]
  by (simp add: Register_def Lookup_def NewRegistry_def single_active_def demo_defs)

end
