(* ===== verification/Events.thy ===== *)
theory Events
  imports Errors
begin

text \<open>
  The observers of the control plane: the audit event of \<^verbatim>\<open>core/control/audit.go\<close>, the in-memory
  event store of \<^verbatim>\<open>core/control/events.go\<close> with its subscriptions, and the failure journal of
  \<^verbatim>\<open>core/control/journal.go\<close>. Both are bounded logs; \<open>bounded_log\<close> states that contract once and
  is interpreted on each.

  Times and durations are left out (they are the clock's); everything else an event carries is kept.
\<close>

section \<open>Runtime states and audit events\<close>

datatype rt_state =
    Running | Stopped | Starting | Stopping | Failed | Reconciling | Activating | Orphaned

fun rt_state_text :: "rt_state \<Rightarrow> string" where
  "rt_state_text Running = ''running''"
| "rt_state_text Stopped = ''stopped''"
| "rt_state_text Starting = ''starting''"
| "rt_state_text Stopping = ''stopping''"
| "rt_state_text Failed = ''failed''"
| "rt_state_text Reconciling = ''reconciling''"
| "rt_state_text Activating = ''activating''"
| "rt_state_text Orphaned = ''orphaned''"

record audit_event =
  ae_protocol :: string
  ae_action :: string
  ae_success :: bool
  ae_error_kind :: "error_kind option"
  ae_detail :: msg
  ae_operation_id :: string
  ae_profile :: string
  ae_backend :: string
  ae_state :: "rt_state option"
  ae_recovery :: "recovery_class option"

section \<open>Bounded logs\<close>

definition last_n :: "nat \<Rightarrow> 'a list \<Rightarrow> 'a list" where
  "last_n n xs = drop (length xs - n) xs"

lemma length_last_n [simp]: "length (last_n n xs) = min n (length xs)"
  by (simp add: last_n_def)

lemma last_n_short: "length xs \<le> n \<Longrightarrow> last_n n xs = xs"
  by (simp add: last_n_def)

lemma last_n_last_n_append: "last_n n (last_n n xs @ ys) = last_n n (xs @ ys)"
proof (cases "length xs \<le> n")
  case True
  then show ?thesis by (simp add: last_n_short)
next
  case False
  then have "length ys + length xs - n = length xs - n + length ys" by simp
  with False show ?thesis by (simp add: last_n_def add.commute [of "length ys"])
qed

lemma last_n_snoc_drop:
  "length xs = n \<Longrightarrow> last_n n (xs @ [x]) = tl (xs @ [x])"
  by (cases xs) (auto simp: last_n_def)

lemma set_last_n: "set (last_n n xs) \<subseteq> set xs"
  by (simp add: last_n_def set_drop_subset)

text \<open>
  A bounded log keeps, of everything recorded, the newest \<open>lim\<close> entries of those it accepts. The
  contract is per operation; the lemmas inside the locale are about whole histories.
\<close>

locale bounded_log =
  fixes rec :: "'e \<Rightarrow> 's \<Rightarrow> 's"
    and entries :: "'s \<Rightarrow> 'v list"
    and lim :: "'s \<Rightarrow> nat"
    and accepts :: "'e \<Rightarrow> bool"
    and view :: "'s \<Rightarrow> 'e \<Rightarrow> 'v"
    and wf :: "'s \<Rightarrow> bool"
    and key :: "'v \<Rightarrow> 'k"
    and ekey :: "'e \<Rightarrow> 'k"
  assumes rec_entries:
    "wf s \<Longrightarrow> entries (rec e s) =
       (if accepts e then last_n (lim s) (entries s @ [view s e]) else entries s)"
    and rec_lim: "lim (rec e s) = lim s"
    and rec_wf: "wf s \<Longrightarrow> wf (rec e s)"
    and wf_bound: "wf s \<Longrightarrow> length (entries s) \<le> lim s"
    and view_key: "key (view s e) = ekey e"
begin

definition rec_all :: "'e list \<Rightarrow> 's \<Rightarrow> 's" where
  "rec_all es s = fold rec es s"

lemma rec_all_simps [simp]:
  "rec_all [] s = s"
  "rec_all (e # es) s = rec_all es (rec e s)"
  by (simp_all add: rec_all_def)

lemma rec_all_lim [simp]: "lim (rec_all es s) = lim s"
  by (induction es arbitrary: s) (simp_all add: rec_lim)

lemma rec_all_wf: "wf s \<Longrightarrow> wf (rec_all es s)"
  by (induction es arbitrary: s) (simp_all add: rec_wf)

lemma rec_all_bound: "wf s \<Longrightarrow> length (entries (rec_all es s)) \<le> lim s"
  using wf_bound [OF rec_all_wf, of s es] by simp

text \<open>After any history the log holds exactly the newest accepted entries, in order.\<close>

lemma last_n_map: "map f (last_n n xs) = last_n n (map f xs)"
  by (simp add: last_n_def drop_map)

lemma rec_all_entries:
  "wf s \<Longrightarrow>
     map key (entries (rec_all es s)) =
       last_n (lim s) (map key (entries s) @ map ekey (filter accepts es))"
proof (induction es arbitrary: s)
  case Nil
  then show ?case by (simp add: last_n_short wf_bound)
next
  case (Cons e es)
  have "map key (entries (rec_all es (rec e s))) =
      last_n (lim s) (map key (entries (rec e s)) @ map ekey (filter accepts es))"
    using Cons.IH [OF rec_wf [OF Cons.prems]] by (simp add: rec_lim)
  moreover have "map key (entries (rec e s)) =
      (if accepts e then last_n (lim s) (map key (entries s) @ [ekey e]) else map key (entries s))"
    using rec_entries [OF Cons.prems, of e] view_key by (simp add: last_n_map)
  ultimately show ?case
    by (simp add: last_n_last_n_append)
qed

end

section \<open>The event store\<close>

record event =
  ev_id :: string
  ev_action :: string
  ev_success :: bool
  ev_error_kind :: "error_kind option"
  ev_detail :: msg
  ev_operation_id :: string
  ev_profile :: string
  ev_backend :: string
  ev_state :: "rt_state option"
  ev_recovery :: "recovery_class option"

text \<open>
  A subscriber is a channel of capacity 100: the events it holds that its reader has not taken
  yet. \<open>es_subs\<close> lists the open ones under the channel's identity.
\<close>

definition sub_capacity :: nat where
  "sub_capacity = 100"

record event_store =
  es_events :: "event list"
  es_limit :: nat
  es_subs :: "(nat \<times> event list) list"
  es_next :: nat

definition DefaultEventLimit :: int where
  "DefaultEventLimit = 200"

definition NewEventStore :: "int \<Rightarrow> event_store" where
  "NewEventStore limit =
     \<lparr>es_events = [],
      es_limit = nat (if limit \<le> 0 then DefaultEventLimit else limit),
      es_subs = [], es_next = 0\<rparr>"

text \<open>The recorded form of an event; \<^verbatim>\<open>nextID\<close> is a \<^verbatim>\<open>uint64\<close>.\<close>

definition next_id :: "nat \<Rightarrow> nat" where
  "next_id n = (n + 1) mod 2 ^ 64"

definition recorded :: "nat \<Rightarrow> audit_event \<Rightarrow> event" where
  "recorded n e =
     \<lparr>ev_id = itoa n, ev_action = ae_action e, ev_success = ae_success e,
      ev_error_kind = ae_error_kind e, ev_detail = ae_detail e,
      ev_operation_id = ae_operation_id e, ev_profile = ae_profile e,
      ev_backend = ae_backend e, ev_state = ae_state e, ev_recovery = ae_recovery e\<rparr>"

text \<open>A send that would block is dropped (\<^verbatim>\<open>select\<close> with \<^verbatim>\<open>default\<close>).\<close>

definition offer :: "event \<Rightarrow> event list \<Rightarrow> event list" where
  "offer ev q = (if length q < sub_capacity then q @ [ev] else q)"

definition EventStore_Record :: "audit_event \<Rightarrow> event_store \<Rightarrow> event_store" where
  "EventStore_Record e s =
     (let n = next_id (es_next s);
          ev = recorded n e;
          evs = es_events s @ [ev];
          kept = (if length evs > es_limit s then tl evs else evs)
      in s\<lparr>es_next := n, es_events := kept,
           es_subs := map (\<lambda>(ch, q). (ch, offer ev q)) (es_subs s)\<rparr>)"

definition EventStore_List :: "event_store \<Rightarrow> event list" where
  "EventStore_List s = rev (es_events s)"

text \<open>
  \<^verbatim>\<open>SubscribeAndList\<close> opens the channel and copies the backlog in one critical section; \<open>ch\<close> is
  the identity of the new channel. Unsubscribing twice is harmless.
\<close>

definition SubscribeAndList :: "nat \<Rightarrow> event_store \<Rightarrow> event list \<times> event_store" where
  "SubscribeAndList ch s = (es_events s, s\<lparr>es_subs := (ch, []) # es_subs s\<rparr>)"

definition Unsubscribe :: "nat \<Rightarrow> event_store \<Rightarrow> event_store" where
  "Unsubscribe ch s = s\<lparr>es_subs := al_del ch (es_subs s)\<rparr>"

definition es_wf :: "event_store \<Rightarrow> bool" where
  "es_wf s \<longleftrightarrow> 0 < es_limit s \<and> length (es_events s) \<le> es_limit s"

lemma es_wf_new [inv_intros]: "es_wf (NewEventStore limit)"
  by (simp add: es_wf_def NewEventStore_def DefaultEventLimit_def)

lemma es_limit_record [simp]: "es_limit (EventStore_Record e s) = es_limit s"
  by (simp add: EventStore_Record_def Let_def)

lemma es_events_record:
  assumes "es_wf s"
  shows "es_events (EventStore_Record e s) =
           last_n (es_limit s) (es_events s @ [recorded (next_id (es_next s)) e])"
proof (cases "length (es_events s) = es_limit s")
  case True
  then show ?thesis by (simp add: EventStore_Record_def Let_def last_n_snoc_drop)
next
  case False
  with assms have "length (es_events s @ [recorded (next_id (es_next s)) e]) \<le> es_limit s"
    by (simp add: es_wf_def)
  then show ?thesis by (simp add: EventStore_Record_def Let_def last_n_short)
qed

lemma es_wf_record [inv_intros]: "es_wf s \<Longrightarrow> es_wf (EventStore_Record e s)"
  using es_events_record [of s e] by (simp add: es_wf_def)

lemma es_wf_subscribe [inv_intros]: "es_wf s \<Longrightarrow> es_wf (snd (SubscribeAndList ch s))"
  by (simp add: es_wf_def SubscribeAndList_def)

lemma es_wf_unsubscribe [inv_intros]: "es_wf s \<Longrightarrow> es_wf (Unsubscribe ch s)"
  by (simp add: es_wf_def Unsubscribe_def)

text \<open>The event without its number: what the observer learns.\<close>

definition ev_view :: "event \<Rightarrow> event" where
  "ev_view v = v\<lparr>ev_id := []\<rparr>"

interpretation elog: bounded_log
  EventStore_Record es_events es_limit "\<lambda>e. True" "\<lambda>s e. recorded (next_id (es_next s)) e" es_wf
  ev_view "\<lambda>e. ev_view (recorded 0 e)"
  by unfold_locales
    (auto simp: es_events_record es_wf_record es_wf_def ev_view_def recorded_def)

section \<open>The failure journal\<close>

text \<open>
  The file as its lines: an entry that decodes, or a line that does not (a write the daemon did not
  finish). Only the content matters here, not the JSON encoding, which the journal never inspects.
\<close>

record journal_entry =
  je_action :: string
  je_protocol :: string
  je_error_kind :: "error_kind option"
  je_detail :: msg
  je_operation_id :: string
  je_profile :: string
  je_backend :: string
  je_state :: "rt_state option"
  je_recovery :: "recovery_class option"

datatype jline = JEntry journal_entry | JBad

record journal =
  j_lines :: "jline list"
  j_limit :: nat

definition DefaultJournalLimit :: int where
  "DefaultJournalLimit = 200"

definition NewFileJournal :: "jline list \<Rightarrow> int \<Rightarrow> journal" where
  "NewFileJournal lines limit =
     \<lparr>j_lines = lines, j_limit = nat (if limit \<le> 0 then DefaultJournalLimit else limit)\<rparr>"

definition journal_entry_of :: "audit_event \<Rightarrow> journal_entry" where
  "journal_entry_of e =
     \<lparr>je_action = ae_action e, je_protocol = ae_protocol e, je_error_kind = ae_error_kind e,
      je_detail = ae_detail e, je_operation_id = ae_operation_id e, je_profile = ae_profile e,
      je_backend = ae_backend e, je_state = ae_state e, je_recovery = ae_recovery e\<rparr>"

fun read_lines :: "jline list \<Rightarrow> journal_entry list" where
  "read_lines [] = []"
| "read_lines (JEntry e # ls) = e # read_lines ls"
| "read_lines (JBad # ls) = read_lines ls"

definition compactLocked :: "journal \<Rightarrow> journal" where
  "compactLocked j =
     (let es = read_lines (j_lines j)
      in if length es \<le> j_limit j then j
         else j\<lparr>j_lines := map JEntry (drop (length es - j_limit j) es)\<rparr>)"

definition Journal_Record :: "audit_event \<Rightarrow> journal \<Rightarrow> journal" where
  "Journal_Record e j =
     (if ae_success e then j
      else compactLocked (j\<lparr>j_lines := j_lines j @ [JEntry (journal_entry_of e)]\<rparr>))"

definition Journal_Recent :: "int \<Rightarrow> journal \<Rightarrow> journal_entry list" where
  "Journal_Recent limit j =
     (let es = read_lines (j_lines j)
      in if limit \<le> 0 \<or> int (length es) \<le> limit then es else drop (length es - nat limit) es)"

definition j_entries :: "journal \<Rightarrow> journal_entry list" where
  "j_entries j = read_lines (j_lines j)"

definition j_wf :: "journal \<Rightarrow> bool" where
  "j_wf j \<longleftrightarrow> 0 < j_limit j \<and> length (j_entries j) \<le> j_limit j"

lemma read_lines_append [simp]: "read_lines (xs @ ys) = read_lines xs @ read_lines ys"
  by (induction xs rule: read_lines.induct) auto

lemma read_lines_map [simp]: "read_lines (map JEntry es) = es"
  by (induction es) auto

lemma j_entries_compact: "j_entries (compactLocked j) = last_n (j_limit j) (j_entries j)"
  by (simp add: compactLocked_def j_entries_def last_n_def Let_def)

lemma j_limit_compact [simp]: "j_limit (compactLocked j) = j_limit j"
  by (simp add: compactLocked_def Let_def)

lemma j_limit_record [simp]: "j_limit (Journal_Record e j) = j_limit j"
  by (simp add: Journal_Record_def)

lemma j_entries_record:
  "j_entries (Journal_Record e j) =
     (if \<not> ae_success e then last_n (j_limit j) (j_entries j @ [journal_entry_of e])
      else j_entries j)"
  by (simp add: Journal_Record_def j_entries_compact) (simp add: j_entries_def)

lemma j_wf_record [inv_intros]: "j_wf j \<Longrightarrow> j_wf (Journal_Record e j)"
  by (simp add: j_wf_def j_entries_record)

lemma Journal_Recent_last_n:
  "Journal_Recent limit j = (if limit \<le> 0 then j_entries j else last_n (nat limit) (j_entries j))"
  by (auto simp: Journal_Recent_def j_entries_def Let_def last_n_def)

interpretation jlog: bounded_log
  Journal_Record j_entries j_limit "\<lambda>e. \<not> ae_success e" "\<lambda>j e. journal_entry_of e" j_wf
  "\<lambda>v. v" journal_entry_of
  by unfold_locales (auto simp: j_entries_record j_wf_record j_wf_def)

section \<open>Subscriptions lose nothing and repeat nothing\<close>

text \<open>What a subscriber's channel holds, if it is open.\<close>

definition pending :: "nat \<Rightarrow> event_store \<Rightarrow> event list option" where
  "pending ch s = map_of (es_subs s) ch"

lemma pending_record:
  "pending ch (EventStore_Record e s) =
     map_option (offer (recorded (next_id (es_next s)) e)) (pending ch s)"
proof -
  have "map_of (map (\<lambda>(c, q). (c, offer ev q)) subs) ch = map_option (offer ev) (map_of subs ch)"
    for ev subs
    by (induction subs) auto
  then show ?thesis by (simp add: pending_def EventStore_Record_def Let_def)
qed

definition record_list :: "audit_event list \<Rightarrow> event_store \<Rightarrow> event_store" where
  "record_list es s = fold EventStore_Record es s"

lemma record_list_simps [simp]:
  "record_list [] s = s"
  "record_list (e # es) s = record_list es (EventStore_Record e s)"
  by (simp_all add: record_list_def)

fun stamped :: "nat \<Rightarrow> audit_event list \<Rightarrow> event list" where
  "stamped n [] = []"
| "stamped n (e # es) = recorded (next_id n) e # stamped (next_id n) es"

lemma length_stamped [simp]: "length (stamped n es) = length es"
  by (induction n es rule: stamped.induct) auto

lemma es_next_record [simp]: "es_next (EventStore_Record e s) = next_id (es_next s)"
  by (simp add: EventStore_Record_def Let_def)

lemma pending_record_list:
  assumes "pending ch s = Some q" and "length q + length es \<le> sub_capacity"
  shows "pending ch (record_list es s) = Some (q @ stamped (es_next s) es)"
  using assms
proof (induction es arbitrary: s q)
  case (Cons e es)
  let ?ev = "recorded (next_id (es_next s)) e"
  have "pending ch (EventStore_Record e s) = Some (q @ [?ev])"
    using Cons.prems by (simp add: pending_record offer_def)
  from Cons.IH [OF this] Cons.prems show ?case by simp
qed simp

lemma events_record_list:
  "es_wf s \<Longrightarrow>
     es_events (record_list es s) = last_n (es_limit s) (es_events s @ stamped (es_next s) es)"
proof (induction es arbitrary: s)
  case Nil
  then show ?case by (simp add: last_n_short es_wf_def)
next
  case (Cons e es)
  then show ?case
    using Cons.IH [OF es_wf_record [OF Cons.prems]]
    by (simp add: es_events_record last_n_last_n_append)
qed

section \<open>Properties\<close>

lemma j_wf_new [inv_intros]: "j_wf (NewFileJournal [] limit)"
  by (simp add: j_wf_def NewFileJournal_def j_entries_def DefaultJournalLimit_def)

lemma j_entries_fold:
  "j_wf j \<Longrightarrow>
     j_entries (fold Journal_Record es j) =
       last_n (j_limit j) (j_entries j @ map journal_entry_of (filter (\<lambda>e. \<not> ae_success e) es))"
  using jlog.rec_all_entries [of j es] by (simp add: jlog.rec_all_def)

text \<open>
  the failure journal remembers exactly the newest failures. A journal that starts empty and
  records any sequence of events holds, in order, the last \<open>limit\<close> of the failed ones and none of
  the others, and \<^verbatim>\<open>Recent\<close> with no limit returns them.
\<close>

theorem journal_keeps_newest_failures:
  "Journal_Recent 0 (fold Journal_Record es (NewFileJournal [] limit)) =
     last_n (j_limit (NewFileJournal [] limit))
       (map journal_entry_of (filter (\<lambda>e. \<not> ae_success e) es))"
  using j_entries_fold [OF j_wf_new, of es limit]
  by (simp add: Journal_Recent_last_n) (simp add: NewFileJournal_def j_entries_def)

definition ex_audit :: "bool \<Rightarrow> string \<Rightarrow> audit_event" where
  "ex_audit ok action =
     \<lparr>ae_protocol = ''core'', ae_action = action, ae_success = ok, ae_error_kind = None,
      ae_detail = Str [], ae_operation_id = [], ae_profile = [], ae_backend = [],
      ae_state = None, ae_recovery = None\<rparr>"

text \<open>
  a subscription neither loses nor repeats an event. The backlog handed out with a new
  channel, followed by what the channel then holds, is the history of the store without a gap, as
  long as the reader is at most 100 events behind; the store itself keeps the newest \<open>limit\<close>.
\<close>

theorem subscription_is_gapless:
  assumes "es_wf s" and "length es \<le> sub_capacity"
    and "SubscribeAndList ch s = (backlog, s1)" and "record_list es s1 = s2"
  shows "pending ch s2 = Some (stamped (es_next s) es) \<and>
         es_events s2 = last_n (es_limit s) (backlog @ the (pending ch s2))"
proof -
  have s1: "pending ch s1 = Some []" "es_next s1 = es_next s" "es_events s1 = backlog"
      "es_limit s1 = es_limit s" "es_wf s1"
    using assms(1,3) by (auto simp: SubscribeAndList_def pending_def es_wf_def)
  with pending_record_list [OF s1(1), of es] events_record_list [OF s1(5), of es] assms(2,4)
  show ?thesis by simp
qed

theorem subscription_is_gapless_witness:
  "pending 7 (record_list [ex_audit True ''a''] (snd (SubscribeAndList 7 (NewEventStore 2)))) =
     Some (stamped 0 [ex_audit True ''a''])"
proof -
  have len: "length [ex_audit True ''a''] \<le> sub_capacity" by (simp add: sub_capacity_def)
  have next0: "es_next (NewEventStore 2) = 0" by (simp add: NewEventStore_def)
  from subscription_is_gapless [OF es_wf_new len surjective_pairing refl, of 7 2]
  show ?thesis by (simp only: next0)
qed

end
