(* ===== verification/Slot.thy ===== *)
theory Slot
  imports Backend Events
begin

text \<open>
  The runtime slot of \<^verbatim>\<open>core/control/slot.go\<close>: the one runtime the manager owns, the critical
  sections that reserve it for an operation, and those that commit or fail the operation. The
  blocking work between a reservation and its commit is in theory \<open>Lifecycle\<close>.

  \<open>m_audit\<close> is the sequence of audit events handed to the manager's sinks (\<^verbatim>\<open>MultiAuditSink\<close> gives
  each of them every event, in this order).
\<close>

section \<open>State\<close>

text \<open>A process object (the \<^verbatim>\<open>Runtime\<close> interface value) is its handle, a number.\<close>

record slot =
  s_backend :: string
  s_process :: "nat option"
  s_address :: string
  s_profiles :: "string list"
  s_state :: rt_state
  s_op :: string

record operation =
  op_id :: string
  op_profile :: string
  op_backend :: string

record mgr =
  m_slot :: "slot option"
  m_ops :: nat
  m_audit :: "audit_event list"

definition init_mgr :: mgr where
  "init_mgr = \<lparr>m_slot = None, m_ops = 0, m_audit = []\<rparr>"

definition zero_op :: operation where
  "zero_op = \<lparr>op_id = [], op_profile = [], op_backend = []\<rparr>"

definition settled :: "slot \<Rightarrow> bool" where
  "settled s \<longleftrightarrow> s_state s = Running"

definition holds :: "slot \<Rightarrow> string \<Rightarrow> bool" where
  "holds s profile \<longleftrightarrow> profile \<in> set (s_profiles s)"

definition opid :: "nat \<Rightarrow> string" where
  "opid n = ''op-'' @ itoa n"

section \<open>Reserving and recording\<close>

text \<open>\<^verbatim>\<open>m.ops\<close> is a \<^verbatim>\<open>uint64\<close> and wraps.\<close>

definition next_op :: "nat \<Rightarrow> nat" where
  "next_op n = (n + 1) mod 2 ^ 64"

text \<open>For evaluation, over the binary integers.\<close>

lemma next_op_code [code]: "next_op n = nat ((int n + 1) mod 2 ^ 64)"
  by (simp add: next_op_def nat_mod_distrib nat_add_distrib)

definition reserveLocked :: "string \<Rightarrow> string \<Rightarrow> rt_state \<Rightarrow> mgr \<Rightarrow> operation \<times> mgr" where
  "reserveLocked profile backend state m =
     (let n = next_op (m_ops m);
          op = \<lparr>op_id = opid n, op_profile = profile, op_backend = backend\<rparr>
      in (op, m\<lparr>m_ops := n,
               m_slot := map_option (\<lambda>s. s\<lparr>s_state := state, s_op := op_id op\<rparr>) (m_slot m)\<rparr>))"

definition transition_event :: "operation \<Rightarrow> rt_state \<Rightarrow> gerr option \<Rightarrow> audit_event" where
  "transition_event op state err =
     \<lparr>ae_protocol = ''core'', ae_action = ''runtime.transition'', ae_success = (err = None),
      ae_error_kind = Kind err, ae_detail = Str [], ae_operation_id = op_id op,
      ae_profile = op_profile op, ae_backend = op_backend op, ae_state = Some state,
      ae_recovery = None\<rparr>"

definition record_audit :: "audit_event \<Rightarrow> mgr \<Rightarrow> mgr" where
  "record_audit e m = m\<lparr>m_audit := m_audit m @ [e]\<rparr>"

definition transition :: "operation \<Rightarrow> rt_state \<Rightarrow> gerr option \<Rightarrow> mgr \<Rightarrow> mgr" where
  "transition op state err m = record_audit (transition_event op state err) m"

definition conflict :: "slot \<Rightarrow> gerr" where
  "conflict s = Errorf ErrorConflict ''backend %q runtime is %s''
     [Str (s_backend s), Str (rt_state_text (s_state s))]"

section \<open>Starting\<close>

record start_plan =
  spl_op :: operation
  spl_stop :: "nat option"
  spl_spawn :: bool

definition reserveStart ::
    "backend \<Rightarrow> string \<Rightarrow> string \<Rightarrow> bool \<Rightarrow> mgr \<Rightarrow> (gerr + start_plan) \<times> mgr" where
  "reserveStart b profile address replace m =
     (let name = b_name b in
      case m_slot m of
        None \<Rightarrow>
          (let s = \<lparr>s_backend = name, s_process = None, s_address = address,
                    s_profiles = [profile], s_state = Starting, s_op = []\<rparr>;
               (op, m') = reserveLocked profile name Starting (m\<lparr>m_slot := Some s\<rparr>)
           in (Inr \<lparr>spl_op = op, spl_stop = None, spl_spawn = True\<rparr>, m'))
      | Some s \<Rightarrow>
          if \<not> settled s then (Inl (conflict s), m)
          else if s_backend s \<noteq> name then
            (Inl (Errorf ErrorConflict
               ''backend %q is active; reset the runtime before starting %q profile %q''
               [Str (s_backend s), Str name, Str profile]), m)
          else if \<not> cap_single_active (b_caps b) \<and> s_address s = address then
            (let s' = (if holds s profile then s
                       else s\<lparr>s_profiles := s_profiles s @ [profile]\<rparr>);
                 (op, m') = reserveLocked profile name Activating (m\<lparr>m_slot := Some s'\<rparr>)
             in (Inr \<lparr>spl_op = op, spl_stop = None, spl_spawn = False\<rparr>, m'))
          else if \<not> replace then
            (if holds s profile then
               (Inl (Errorf ErrorConflict ''profile %q is already running'' [Str profile]), m)
             else
               (Inl (Errorf ErrorConflict
                  ''backend %q is serving %s on %s; retry with replace to stop it first''
                  [Str name, Str (join_with '', '' (s_profiles s)), Str (s_address s)]), m))
          else
            (let (op, m') = reserveLocked profile name Stopping m;
                 plan = \<lparr>spl_op = op, spl_stop = s_process s, spl_spawn = True\<rparr>
             in (Inr plan,
                 m'\<lparr>m_slot := map_option
                      (\<lambda>t. t\<lparr>s_address := address, s_profiles := [profile]\<rparr>) (m_slot m')\<rparr>)))"

section \<open>Stopping\<close>

record stop_plan =
  tpl_op :: operation
  tpl_process :: "nat option"

definition reserveStop :: "string \<Rightarrow> string \<Rightarrow> mgr \<Rightarrow> (gerr + stop_plan) \<times> mgr" where
  "reserveStop backend profile m =
     (case m_slot m of
        None \<Rightarrow> (Inr \<lparr>tpl_op = zero_op, tpl_process = None\<rparr>, m)
      | Some s \<Rightarrow>
          if s_backend s \<noteq> backend \<or> \<not> holds s profile then
            (Inr \<lparr>tpl_op = zero_op, tpl_process = None\<rparr>, m)
          else if \<not> settled s then (Inl (conflict s), m)
          else
            (let (op, m') = reserveLocked profile backend Stopping m
             in (Inr \<lparr>tpl_op = op,
                      tpl_process = (if length (s_profiles s) > 1 then None else s_process s)\<rparr>, m')))"

section \<open>Committing and failing\<close>

text \<open>
  Every commit first checks that the slot is still the operation's: \<open>if_owner op f m\<close> replaces the
  slot by \<open>f s\<close> exactly then.
\<close>

definition if_owner :: "operation \<Rightarrow> (slot \<Rightarrow> slot option) \<Rightarrow> mgr \<Rightarrow> mgr" where
  "if_owner op f m =
     (case m_slot m of
        None \<Rightarrow> m
      | Some s \<Rightarrow> if s_op s = op_id op then m\<lparr>m_slot := f s\<rparr> else m)"

definition commitStart :: "operation \<Rightarrow> nat option \<Rightarrow> mgr \<Rightarrow> mgr" where
  "commitStart op process m =
     transition op Running None
       (if_owner op (\<lambda>s. Some (s\<lparr>s_process := (case process of None \<Rightarrow> s_process s | Some h \<Rightarrow> Some h),
                               s_state := Running, s_op := []\<rparr>)) m)"

definition commitStop :: "operation \<Rightarrow> mgr \<Rightarrow> mgr" where
  "commitStop op m =
     transition op Stopped None
       (if_owner op (\<lambda>s. let ps = filter (\<lambda>p. p \<noteq> op_profile op) (s_profiles s)
                        in if ps = [] then None
                           else Some (s\<lparr>s_profiles := ps, s_state := Running, s_op := []\<rparr>)) m)"

definition fail_op :: "operation \<Rightarrow> gerr \<Rightarrow> bool \<Rightarrow> mgr \<Rightarrow> mgr" where
  "fail_op op err keep m =
     transition op Failed (Some err)
       (if_owner op (\<lambda>s. if keep then Some (s\<lparr>s_state := Failed, s_op := []\<rparr>) else None) m)"

section \<open>Resetting and status\<close>

text \<open>The first critical section of \<^verbatim>\<open>ResetRuntimes\<close>: nothing to do, busy, or the process to stop.\<close>

definition reserveReset :: "mgr \<Rightarrow> (gerr + (operation \<times> nat option) option) \<times> mgr" where
  "reserveReset m =
     (case m_slot m of
        None \<Rightarrow> (Inr None, m)
      | Some s \<Rightarrow>
          if s_op s \<noteq> [] then (Inl (conflict s), m)
          else (let (op, m') = reserveLocked [] (s_backend s) Stopping m
                in (Inr (Some (op, s_process s)), m')))"

text \<open>Its last critical section.\<close>

definition commitReset :: "operation \<Rightarrow> mgr \<Rightarrow> mgr" where
  "commitReset op m = transition op Stopped None (if_owner op (\<lambda>s. None) m)"

text \<open>
  The locked part of \<^verbatim>\<open>RuntimeStatus\<close>: the state the slot reports for a profile, and the process
  to ask when that state is \<open>Running\<close>.
\<close>

definition slot_status :: "string \<Rightarrow> string \<Rightarrow> mgr \<Rightarrow> rt_state option \<times> nat option" where
  "slot_status backend name m =
     (case m_slot m of
        None \<Rightarrow> (None, None)
      | Some s \<Rightarrow>
          if s_backend s = backend \<and> holds s name then (Some (s_state s), s_process s)
          else (None, None))"

lemmas slot_defs = reserveLocked_def reserveStart_def reserveStop_def reserveReset_def
  commitStart_def commitStop_def commitReset_def fail_op_def if_owner_def

section \<open>Basic facts\<close>

lemma opid_inject [simp]: "opid m = opid n \<longleftrightarrow> m = n"
  by (simp add: opid_def)

lemma opid_nonempty [simp]: "opid n \<noteq> []"
  by (simp add: opid_def)

lemma next_op_Suc: "n < 2 ^ 64 - 1 \<Longrightarrow> next_op n = Suc n"
  by (simp add: next_op_def)

lemma m_slot_record_audit [simp]: "m_slot (record_audit e m) = m_slot m"
  by (simp add: record_audit_def)

lemma m_ops_record_audit [simp]: "m_ops (record_audit e m) = m_ops m"
  by (simp add: record_audit_def)

lemma m_slot_transition [simp]: "m_slot (transition op st err m) = m_slot m"
  by (simp add: transition_def)

lemma m_ops_transition [simp]: "m_ops (transition op st err m) = m_ops m"
  by (simp add: transition_def)

lemma m_audit_transition [simp]:
  "m_audit (transition op st err m) = m_audit m @ [transition_event op st err]"
  by (simp add: transition_def record_audit_def)

lemma m_ops_if_owner [simp]: "m_ops (if_owner op f m) = m_ops m"
  by (simp add: if_owner_def split: option.splits)

lemma m_audit_if_owner [simp]: "m_audit (if_owner op f m) = m_audit m"
  by (simp add: if_owner_def split: option.splits)

lemma m_slot_if_owner:
  "m_slot (if_owner op f m) =
     (case m_slot m of None \<Rightarrow> None | Some s \<Rightarrow> if s_op s = op_id op then f s else Some s)"
  by (simp add: if_owner_def split: option.splits)

lemma m_slot_commitStart:
  "m_slot (commitStart op h m) =
     (case m_slot m of
        None \<Rightarrow> None
      | Some s \<Rightarrow>
          if s_op s = op_id op
          then Some (s\<lparr>s_process := (case h of None \<Rightarrow> s_process s | Some p \<Rightarrow> Some p),
                       s_state := Running, s_op := []\<rparr>)
          else Some s)"
  by (simp add: commitStart_def m_slot_if_owner)

lemma m_slot_commitStop:
  "m_slot (commitStop op m) =
     (case m_slot m of
        None \<Rightarrow> None
      | Some s \<Rightarrow>
          if s_op s = op_id op
          then (let ps = filter (\<lambda>p. p \<noteq> op_profile op) (s_profiles s)
                in if ps = [] then None
                   else Some (s\<lparr>s_profiles := ps, s_state := Running, s_op := []\<rparr>))
          else Some s)"
  by (simp add: commitStop_def m_slot_if_owner)

lemma m_slot_fail_op:
  "m_slot (fail_op op e keep m) =
     (case m_slot m of
        None \<Rightarrow> None
      | Some s \<Rightarrow>
          if s_op s = op_id op
          then (if keep then Some (s\<lparr>s_state := Failed, s_op := []\<rparr>) else None)
          else Some s)"
  by (simp add: fail_op_def m_slot_if_owner)

lemma m_slot_commitReset:
  "m_slot (commitReset op m) =
     (case m_slot m of None \<Rightarrow> None | Some s \<Rightarrow> if s_op s = op_id op then None else Some s)"
  by (simp add: commitReset_def m_slot_if_owner)

lemma m_ops_commits [simp]:
  "m_ops (commitStart op h m) = m_ops m"
  "m_ops (commitStop op m) = m_ops m"
  "m_ops (fail_op op e keep m) = m_ops m"
  "m_ops (commitReset op m) = m_ops m"
  by (simp_all add: commitStart_def commitStop_def fail_op_def commitReset_def)

lemmas m_slot_commits [slot_simps] =
  m_slot_commitStart m_slot_commitStop m_slot_fail_op m_slot_commitReset

text \<open>An operation that lost the slot changes nothing but the audit trail.\<close>

definition owns :: "operation \<Rightarrow> mgr \<Rightarrow> bool" where
  "owns op m \<longleftrightarrow> (\<exists>s. m_slot m = Some s \<and> s_op s = op_id op)"

lemma if_owner_not_owner: "\<not> owns op m \<Longrightarrow> if_owner op f m = m"
  by (auto simp: if_owner_def owns_def split: option.splits)

lemma reserveLocked_slot:
  "m_slot m = Some s \<Longrightarrow>
     m_slot (snd (reserveLocked p b st m)) =
       Some (s\<lparr>s_state := st, s_op := opid (next_op (m_ops m))\<rparr>)"
  by (simp add: reserveLocked_def Let_def)

lemma reserveStart_error_unchanged: "reserveStart b p a r m = (Inl e, m') \<Longrightarrow> m' = m"
  by (auto simp: reserveStart_def Let_def split: option.splits if_splits prod.splits)

lemma reserveStart_error_conflict:
  "reserveStart b p a r m = (Inl e, m') \<Longrightarrow> Kind (Some e) = Some ErrorConflict"
  by (auto simp: reserveStart_def Let_def conflict_def split: option.splits if_splits prod.splits)

lemma reserveStop_error_unchanged: "reserveStop b p m = (Inl e, m') \<Longrightarrow> m' = m"
  by (auto simp: reserveStop_def Let_def split: option.splits if_splits prod.splits)

section \<open>The slot invariant\<close>

text \<open>
  What holds of the slot whenever the lock is free: it serves at least one profile and none twice;
  it is at rest exactly in the states \<open>Running\<close>, \<open>Failed\<close> and \<open>Orphaned\<close>; a runtime that is
  serving has a process; and the operation in charge was issued by this manager.
\<close>

definition slot_inv :: "nat \<Rightarrow> slot \<Rightarrow> bool" where
  "slot_inv ops s \<longleftrightarrow>
     s_profiles s \<noteq> [] \<and> distinct (s_profiles s) \<and>
     (s_op s = [] \<longleftrightarrow> s_state s \<in> {Running, Failed, Orphaned}) \<and>
     (s_state s \<in> {Running, Activating} \<and> s_op s = [] \<longrightarrow> s_process s \<noteq> None) \<and>
     (s_op s \<noteq> [] \<longrightarrow> (\<exists>n\<le>ops. s_op s = opid n))"

definition mgr_inv :: "mgr \<Rightarrow> bool" where
  "mgr_inv m \<longleftrightarrow> (case m_slot m of None \<Rightarrow> True | Some s \<Rightarrow> slot_inv (m_ops m) s)"

lemma mgr_inv_init [inv_intros]: "mgr_inv init_mgr"
  by (simp add: mgr_inv_def init_mgr_def)

lemma mgr_inv_audit [simp]: "mgr_inv (record_audit e m) = mgr_inv m"
  by (simp add: mgr_inv_def split: option.splits)

lemma mgr_inv_transition [simp]: "mgr_inv (transition op st err m) = mgr_inv m"
  by (simp add: mgr_inv_def split: option.splits)

lemma mgr_inv_reserveStart [inv_intros]:
  "mgr_inv m \<Longrightarrow> mgr_inv (snd (reserveStart b p a r m))"
  by (auto simp: mgr_inv_def slot_inv_def reserveStart_def reserveLocked_def Let_def holds_def
      settled_def split: option.splits if_splits)

lemma mgr_inv_reserveStop [inv_intros]: "mgr_inv m \<Longrightarrow> mgr_inv (snd (reserveStop b p m))"
  by (auto simp: mgr_inv_def slot_inv_def reserveStop_def reserveLocked_def Let_def
      settled_def split: option.splits if_splits)

lemma mgr_inv_reserveReset [inv_intros]: "mgr_inv m \<Longrightarrow> mgr_inv (snd (reserveReset m))"
  by (auto simp: mgr_inv_def slot_inv_def reserveReset_def reserveLocked_def Let_def
      split: option.splits if_splits)

lemma mgr_inv_commitStop [inv_intros]:
  assumes "mgr_inv m" and "\<And>s. m_slot m = Some s \<Longrightarrow> s_op s = op_id op \<Longrightarrow> s_process s \<noteq> None"
  shows "mgr_inv (commitStop op m)"
  using assms
  by (auto simp: mgr_inv_def slot_inv_def m_slot_commitStop Let_def
      split: option.splits if_splits)

lemma mgr_inv_commitStart [inv_intros]:
  assumes "mgr_inv m"
    and "\<And>s. m_slot m = Some s \<Longrightarrow> s_op s = op_id op \<Longrightarrow> h \<noteq> None \<or> s_process s \<noteq> None"
  shows "mgr_inv (commitStart op h m)"
  using assms
  by (auto simp: mgr_inv_def slot_inv_def m_slot_commitStart
      split: option.splits if_splits)

lemma mgr_inv_fail [inv_intros]: "mgr_inv m \<Longrightarrow> mgr_inv (fail_op op e keep m)"
  by (auto simp: mgr_inv_def slot_inv_def m_slot_fail_op split: option.splits if_splits)

lemma mgr_inv_commitReset [inv_intros]: "mgr_inv m \<Longrightarrow> mgr_inv (commitReset op m)"
  by (auto simp: mgr_inv_def m_slot_commitReset split: option.splits if_splits)

section \<open>Properties\<close>

text \<open>
  What a start needs. The reservation succeeds exactly when the slot is free, or it is running
  the same backend and either the backend is shared and already listens on this profile's address,
  or the caller accepted the replacement; a refusal is always a conflict and leaves the manager as
  it was.
\<close>

theorem reserveStart_accepts:
  "case reserveStart b p a r m of
     (Inr plan, m') \<Rightarrow>
       (case m_slot m of
          None \<Rightarrow> True
        | Some s \<Rightarrow> settled s \<and> s_backend s = b_name b \<and> ((\<not> single_active b \<and> s_address s = a) \<or> r))
   | (Inl e, m') \<Rightarrow>
       Kind (Some e) = Some ErrorConflict \<and> m' = m \<and>
       (\<exists>s. m_slot m = Some s \<and>
          \<not> (settled s \<and> s_backend s = b_name b \<and> ((\<not> single_active b \<and> s_address s = a) \<or> r)))"
proof (cases "m_slot m")
  case None
  then show ?thesis by (simp add: reserveStart_def reserveLocked_def Let_def)
next
  case (Some s)
  then show ?thesis
    by (cases "settled s"; cases "s_backend s = b_name b";
        cases "\<not> cap_single_active (b_caps b) \<and> s_address s = a"; cases r; cases "holds s p")
      (simp_all add: reserveStart_def reserveLocked_def Let_def conflict_def single_active_def)
qed

text \<open>
  No engine is stopped unasked. Without \<open>replace\<close> a reservation never plans to stop a process,
  and spawns one only when the slot was free; and stopping one of several profiles of a shared
  engine plans to stop no process.
\<close>

theorem no_unasked_stop:
  assumes "reserveStart b p a False m = (Inr plan, m')"
    and "reserveStop bn q n = (Inr tplan, n')"
    and "m_slot n = Some s" and "1 < length (s_profiles s)"
  shows "spl_stop plan = None \<and> (spl_spawn plan \<longleftrightarrow> m_slot m = None) \<and> tpl_process tplan = None"
  using assms
  by (auto simp: reserveStart_def reserveStop_def reserveLocked_def Let_def zero_op_def
      split: option.splits if_splits)

definition ex_shared :: mgr where
  "ex_shared =
     \<lparr>m_slot = Some \<lparr>s_backend = ''demo'', s_process = Some 0, s_address = ''a'',
                    s_profiles = [''p'', ''q''], s_state = Running, s_op = []\<rparr>,
      m_ops = 2, m_audit = []\<rparr>"

theorem no_unasked_stop_witness:
  "\<exists>plan tplan. fst (reserveStart (demo_backend False) ''r'' ''a'' False ex_shared) = Inr plan \<and>
     fst (reserveStop ''demo'' ''p'' ex_shared) = Inr tplan \<and>
     spl_stop plan = None \<and> tpl_process tplan = None"
proof -
  obtain plan m' tplan n' where r:
    "reserveStart (demo_backend False) ''r'' ''a'' False ex_shared = (Inr plan, m')"
    "reserveStop ''demo'' ''p'' ex_shared = (Inr tplan, n')"
    by (simp add: reserveStart_def reserveStop_def reserveLocked_def ex_shared_def demo_defs
        settled_def holds_def Let_def)
  from no_unasked_stop [OF r] have "spl_stop plan = None \<and> tpl_process tplan = None"
    by (simp add: ex_shared_def)
  with r show ?thesis by simp
qed

end
