(* ===== verification/Lifecycle.thy ===== *)
theory Lifecycle
  imports Slot
begin

text \<open>
  The lifecycle operations of \<^verbatim>\<open>core/control/manager.go\<close> and \<^verbatim>\<open>core/control/reload.go\<close> as they
  interleave: \<^verbatim>\<open>StartRuntime\<close>, \<^verbatim>\<open>StopRuntime\<close>, \<^verbatim>\<open>ResetRuntimes\<close>, \<^verbatim>\<open>reloadRouter\<close> and
  \<^verbatim>\<open>StopAllRuntimes\<close>. Each holds the lock only to reserve the slot and to commit; stopping and
  spawning an engine happen in between with the lock released. An operation in flight is a program
  counter \<open>pc\<close>; a step is one critical section or one blocking call of one operation, and any
  operation may move next. A blocking call succeeds or fails as the environment likes.

  \<open>y_live\<close> is the set of engine processes alive on the host that their supervisor still knows: a
  successful start adds its process, a successful stop removes it, and an engine may die by itself.
  A stop that fails makes the supervisor forget its process, dead or not (the deferred cleanup of
  \<^verbatim>\<open>stopProcess\<close>); one that survived moves to \<open>y_lost\<close>, where no later stop reaches it. A failed
  start is rolled back; when the rollback fails too, the process is lost the same way.
\<close>

section \<open>The reload reservation\<close>

text \<open>
  The critical section of \<^verbatim>\<open>reloadRouter\<close>. The slot's profiles are never empty (\<^const>\<open>slot_inv\<close>),
  so \<^verbatim>\<open>held[0]\<close> exists.
\<close>

definition reserveReload ::
    "backend \<Rightarrow> mgr \<Rightarrow> (gerr + (operation \<times> nat option \<times> string list) option) \<times> mgr" where
  "reserveReload b m =
     (if cap_single_active (b_caps b) then (Inr None, m)
      else if b_batch b = None then (Inr None, m)
      else case m_slot m of
          None \<Rightarrow> (Inr None, m)
        | Some s \<Rightarrow>
            if s_backend s \<noteq> b_name b then (Inr None, m)
            else if \<not> settled s then (Inl (conflict s), m)
            else (let held = s_profiles s;
                      (op, m') = reserveLocked (hd held) (s_backend s) Stopping m
                  in (Inr (Some (op, s_process s, held)), m')))"

section \<open>Operations in flight\<close>

datatype pc =
    PStartStop nat
  | PSpawn
  | PCommit "nat option"
  | PStopStop nat
  | PStopCommit
  | PResetStop "nat option"
  | PResetCommit
  | PReloadSpec "nat option"
  | PReloadStop "nat option"

record sys =
  y_mgr :: mgr
  y_tasks :: "(operation \<times> pc) list"
  y_live :: "nat set"
  y_lost :: "nat set"
  y_fresh :: nat

definition init_sys :: sys where
  "init_sys = \<lparr>y_mgr = init_mgr, y_tasks = [], y_live = {}, y_lost = {}, y_fresh = 0\<rparr>"

definition start_pc :: "start_plan \<Rightarrow> pc" where
  "start_pc plan =
     (case spl_stop plan of
        Some h \<Rightarrow> PStartStop h
      | None \<Rightarrow> if spl_spawn plan then PSpawn else PCommit None)"

definition stop_pc :: "stop_plan \<Rightarrow> pc" where
  "stop_pc plan = (case tpl_process plan of Some h \<Rightarrow> PStopStop h | None \<Rightarrow> PStopCommit)"

definition add_task :: "operation \<Rightarrow> pc \<Rightarrow> mgr \<Rightarrow> sys \<Rightarrow> sys" where
  "add_task op q m s = s\<lparr>y_mgr := m, y_tasks := (op, q) # y_tasks s\<rparr>"

definition move_task :: "operation \<Rightarrow> pc \<Rightarrow> mgr \<Rightarrow> sys \<Rightarrow> sys" where
  "move_task op q m s =
     s\<lparr>y_mgr := m, y_tasks := map (\<lambda>t. if fst t = op then (op, q) else t) (y_tasks s)\<rparr>"

definition end_task :: "operation \<Rightarrow> mgr \<Rightarrow> sys \<Rightarrow> sys" where
  "end_task op m s = s\<lparr>y_mgr := m, y_tasks := filter (\<lambda>t. fst t \<noteq> op) (y_tasks s)\<rparr>"

definition kill :: "nat option \<Rightarrow> sys \<Rightarrow> sys" where
  "kill po s = s\<lparr>y_live := y_live s - set_option po, y_lost := y_lost s - set_option po\<rparr>"

definition lose :: "nat \<Rightarrow> sys \<Rightarrow> sys" where
  "lose h s = s\<lparr>y_live := y_live s - {h}, y_lost := y_lost s \<union> ({h} \<inter> y_live s)\<rparr>"

text \<open>A stop that succeeds ends an engine its supervisor knows; one that has forgotten it does nothing.\<close>

definition stopped :: "nat option \<Rightarrow> sys \<Rightarrow> sys" where
  "stopped po s = s\<lparr>y_live := y_live s - set_option po\<rparr>"

definition spawn :: "sys \<Rightarrow> sys" where
  "spawn s = s\<lparr>y_live := insert (y_fresh s) (y_live s), y_fresh := Suc (y_fresh s)\<rparr>"

definition burn :: "sys \<Rightarrow> sys" where
  "burn s = s\<lparr>y_fresh := Suc (y_fresh s)\<rparr>"

text \<open>One step of the daemon. Calls that are turned away or have nothing to do change no state.\<close>

inductive rt_step :: "sys \<Rightarrow> sys \<Rightarrow> bool" where
  start_begin:
    "reserveStart b p a r (y_mgr s) = (Inr plan, m') \<Longrightarrow>
       rt_step s (add_task (spl_op plan) (start_pc plan) m' s)"
| stop_begin:
    "reserveStop bn p (y_mgr s) = (Inr tplan, m') \<Longrightarrow> op_id (tpl_op tplan) \<noteq> [] \<Longrightarrow>
       rt_step s (add_task (tpl_op tplan) (stop_pc tplan) m' s)"
| reset_begin:
    "reserveReset (y_mgr s) = (Inr (Some (op, po)), m') \<Longrightarrow>
       rt_step s (add_task op (PResetStop po) m' s)"
| reload_begin:
    "reserveReload b (y_mgr s) = (Inr (Some (op, po, held)), m') \<Longrightarrow>
       rt_step s (add_task op (PReloadSpec po) m' s)"
| start_stop_ok:
    "(op, PStartStop h) \<in> set (y_tasks s) \<Longrightarrow>
       rt_step s (move_task op PSpawn (transition op Stopping None (y_mgr s)) (stopped (Some h) s))"
| start_stop_fail:
    "(op, PStartStop h) \<in> set (y_tasks s) \<Longrightarrow> s' = kill (Some h) s \<or> s' = lose h s \<Longrightarrow>
       rt_step s (end_task op (fail_op op e True (transition op Stopping None (y_mgr s))) s')"
| spawn_ok:
    "(op, PSpawn) \<in> set (y_tasks s) \<Longrightarrow>
       rt_step s (move_task op (PCommit (Some (y_fresh s)))
                    (transition op Starting None (y_mgr s)) (spawn s))"
| spawn_fail:
    "(op, PSpawn) \<in> set (y_tasks s) \<Longrightarrow> s' = burn s \<or> s' = lose (y_fresh s) (spawn s) \<Longrightarrow>
       rt_step s (end_task op (fail_op op e False (transition op Starting None (y_mgr s))) s')"
| commit:
    "(op, PCommit h) \<in> set (y_tasks s) \<Longrightarrow>
       rt_step s (end_task op (commitStart op h (transition op Activating None (y_mgr s))) s)"
| stop_ok:
    "(op, PStopStop h) \<in> set (y_tasks s) \<Longrightarrow>
       rt_step s (move_task op PStopCommit (transition op Stopping None (y_mgr s)) (stopped (Some h) s))"
| stop_fail:
    "(op, PStopStop h) \<in> set (y_tasks s) \<Longrightarrow> s' = kill (Some h) s \<or> s' = lose h s \<Longrightarrow>
       rt_step s (end_task op (fail_op op e True (transition op Stopping None (y_mgr s))) s')"
| stop_commit:
    "(op, PStopCommit) \<in> set (y_tasks s) \<Longrightarrow>
       rt_step s (end_task op (commitStop op (y_mgr s)) s)"
| reset_ok:
    "(op, PResetStop po) \<in> set (y_tasks s) \<Longrightarrow>
       rt_step s (move_task op PResetCommit (transition op Stopping None (y_mgr s)) (stopped po s))"
| reset_fail:
    "(op, PResetStop (Some h)) \<in> set (y_tasks s) \<Longrightarrow> s' = kill (Some h) s \<or> s' = lose h s \<Longrightarrow>
       rt_step s (end_task op (fail_op op e True (transition op Stopping None (y_mgr s))) s')"
| reset_commit:
    "(op, PResetCommit) \<in> set (y_tasks s) \<Longrightarrow>
       rt_step s (end_task op (commitReset op (y_mgr s)) s)"
| reload_spec_ok:
    "(op, PReloadSpec po) \<in> set (y_tasks s) \<Longrightarrow>
       rt_step s (move_task op (PReloadStop po) (y_mgr s) s)"
| reload_spec_fail:
    "(op, PReloadSpec po) \<in> set (y_tasks s) \<Longrightarrow>
       rt_step s (end_task op (fail_op op e True (y_mgr s)) s)"
| reload_stop_ok:
    "(op, PReloadStop po) \<in> set (y_tasks s) \<Longrightarrow>
       rt_step s (move_task op PSpawn (transition op Stopping None (y_mgr s)) (stopped po s))"
| reload_stop_fail:
    "(op, PReloadStop (Some h)) \<in> set (y_tasks s) \<Longrightarrow> s' = kill (Some h) s \<or> s' = lose h s \<Longrightarrow>
       rt_step s (end_task op (fail_op op e True (transition op Stopping None (y_mgr s))) s')"
| engine_dies:
    "h \<in> y_live s \<union> y_lost s \<Longrightarrow> rt_step s (kill (Some h) s)"

text \<open>
  Shutdown: \<^verbatim>\<open>StopAllRuntimes\<close> takes the slot away from whoever holds it and stops the process it
  names; an operation in flight notices only when it commits.
\<close>

inductive shutdown_step :: "sys \<Rightarrow> sys \<Rightarrow> bool" where
  sd_step: "rt_step s t \<Longrightarrow> shutdown_step s t"
| sd_stop_all:
    "m_slot (y_mgr s) = Some sl \<Longrightarrow>
       shutdown_step s (stopped (s_process sl) (s\<lparr>y_mgr := (y_mgr s)\<lparr>m_slot := None\<rparr>\<rparr>))"

section \<open>The invariant\<close>

text \<open>\<open>backed live po\<close>: the slot has a process, and no engine but that one is alive.\<close>

fun backed :: "nat set \<Rightarrow> nat option \<Rightarrow> bool" where
  "backed live None = False"
| "backed live (Some h) = (live \<subseteq> {h})"

text \<open>What an operation may rely on between its steps.\<close>

fun pc_inv :: "operation \<Rightarrow> pc \<Rightarrow> slot \<Rightarrow> nat set \<Rightarrow> bool" where
  "pc_inv op (PStartStop h) sl live \<longleftrightarrow> s_process sl = Some h \<and> live \<subseteq> {h}"
| "pc_inv op PSpawn sl live \<longleftrightarrow> live = {}"
| "pc_inv op (PCommit po) sl live \<longleftrightarrow>
     backed live (case po of Some h \<Rightarrow> Some h | None \<Rightarrow> s_process sl)"
| "pc_inv op (PStopStop h) sl live \<longleftrightarrow>
     s_process sl = Some h \<and> live \<subseteq> {h} \<and> s_profiles sl = [op_profile op]"
| "pc_inv op PStopCommit sl live \<longleftrightarrow>
     backed live (s_process sl) \<and>
     (s_profiles sl = [op_profile op] \<longrightarrow> live = {})"
| "pc_inv op (PResetStop po) sl live \<longleftrightarrow> s_process sl = po \<and> backed live po"
| "pc_inv op PResetCommit sl live \<longleftrightarrow> live = {}"
| "pc_inv op (PReloadSpec po) sl live \<longleftrightarrow> s_process sl = po \<and> backed live po"
| "pc_inv op (PReloadStop po) sl live \<longleftrightarrow> s_process sl = po \<and> backed live po"

text \<open>
  Either nothing is in flight and the slot, if any, is at rest and accounts for every live engine;
  or exactly one operation is in flight and it owns the slot.
\<close>

definition rest_inv :: "mgr \<Rightarrow> nat set \<Rightarrow> bool" where
  "rest_inv m live \<longleftrightarrow>
     (case m_slot m of
        None \<Rightarrow> live = {}
      | Some sl \<Rightarrow> s_op sl = [] \<and> backed live (s_process sl))"

definition task_inv :: "operation \<Rightarrow> pc \<Rightarrow> mgr \<Rightarrow> nat set \<Rightarrow> bool" where
  "task_inv op q m live \<longleftrightarrow>
     (case m_slot m of
        None \<Rightarrow> False
      | Some sl \<Rightarrow> op_id op \<noteq> [] \<and> s_op sl = op_id op \<and> pc_inv op q sl live)"

fun tasks_inv :: "(operation \<times> pc) list \<Rightarrow> mgr \<Rightarrow> nat set \<Rightarrow> bool" where
  "tasks_inv [] m live = rest_inv m live"
| "tasks_inv [t] m live = task_inv (fst t) (snd t) m live"
| "tasks_inv (t # u # ts) m live = False"

definition sys_inv :: "sys \<Rightarrow> bool" where
  "sys_inv s \<longleftrightarrow> mgr_inv (y_mgr s) \<and> tasks_inv (y_tasks s) (y_mgr s) (y_live s)"

lemma sys_inv_cases:
  assumes "sys_inv s"
  obtains (rest) "y_tasks s = []" "mgr_inv (y_mgr s)" "rest_inv (y_mgr s) (y_live s)"
  | (task) op q sl where "y_tasks s = [(op, q)]" "mgr_inv (y_mgr s)"
      "m_slot (y_mgr s) = Some sl" "op_id op \<noteq> []" "s_op sl = op_id op" "pc_inv op q sl (y_live s)"
  using assms
  by (cases "(y_tasks s, y_mgr s, y_live s)" rule: tasks_inv.cases)
    (auto simp: sys_inv_def task_inv_def split: option.splits)

lemma sys_inv_restI:
  "y_tasks s = [] \<Longrightarrow> mgr_inv (y_mgr s) \<Longrightarrow> rest_inv (y_mgr s) (y_live s) \<Longrightarrow> sys_inv s"
  by (simp add: sys_inv_def)

lemma sys_inv_taskI:
  "y_tasks s = [(op, q)] \<Longrightarrow> mgr_inv (y_mgr s) \<Longrightarrow> task_inv op q (y_mgr s) (y_live s) \<Longrightarrow> sys_inv s"
  by (simp add: sys_inv_def)

lemma sys_inv_taskD:
  assumes "sys_inv s" and "(op, q) \<in> set (y_tasks s)"
  obtains sl where "y_tasks s = [(op, q)]" "mgr_inv (y_mgr s)" "m_slot (y_mgr s) = Some sl"
    "op_id op \<noteq> []" "s_op sl = op_id op" "pc_inv op q sl (y_live s)"
  using assms by (auto elim: sys_inv_cases)

lemma init_sys_inv: "sys_inv init_sys"
  by (simp add: sys_inv_def init_sys_def mgr_inv_init rest_inv_def) (simp add: init_mgr_def)

lemmas task_defs = add_task_def move_task_def end_task_def kill_def spawn_def burn_def lose_def stopped_def

text \<open>An operation that settles nothing finds the slot free or at rest; a reservation needs that.\<close>

lemma settled_rest:
  "mgr_inv m \<Longrightarrow> m_slot m = Some sl \<Longrightarrow> settled sl \<Longrightarrow> s_op sl = [] \<and> s_process sl \<noteq> None"
  by (auto simp: mgr_inv_def slot_inv_def settled_def)

lemma start_begin_inv:
  assumes "sys_inv s" and "reserveStart b p a r (y_mgr s) = (Inr plan, m')"
  shows "sys_inv (add_task (spl_op plan) (start_pc plan) m' s)"
proof -
  have m': "mgr_inv m'"
    using mgr_inv_reserveStart [of "y_mgr s" b p a r] assms by (auto simp: sys_inv_def)
  have free: "m_slot (y_mgr s) = None \<or> (\<exists>sl. m_slot (y_mgr s) = Some sl \<and> settled sl)"
    using assms(2) by (auto simp: reserveStart_def Let_def split: option.splits if_splits)
  from assms(1) have idle: "y_tasks s = [] \<and> rest_inv (y_mgr s) (y_live s)"
    by (cases rule: sys_inv_cases) (use free settled_rest in force)+
  then have "task_inv (spl_op plan) (start_pc plan) m' (y_live s)"
    using assms(2)
    by (auto simp: reserveStart_def reserveLocked_def Let_def task_inv_def start_pc_def rest_inv_def
        split: option.splits if_splits)
  with idle m' show ?thesis by (auto simp: add_task_def intro: sys_inv_taskI)
qed

lemma stop_begin_inv:
  assumes "sys_inv s" and "reserveStop bn p (y_mgr s) = (Inr plan, m')" and "op_id (tpl_op plan) \<noteq> []"
  shows "sys_inv (add_task (tpl_op plan) (stop_pc plan) m' s)"
proof -
  have m': "mgr_inv m'"
    using mgr_inv_reserveStop [of "y_mgr s" bn p] assms by (auto simp: sys_inv_def)
  obtain sl where sl: "m_slot (y_mgr s) = Some sl" "settled sl" "holds sl p"
    using assms(2,3) by (auto simp: reserveStop_def zero_op_def split: option.splits if_splits)
  from assms(1) have idle: "y_tasks s = [] \<and> rest_inv (y_mgr s) (y_live s) \<and> mgr_inv (y_mgr s)"
    by (cases rule: sys_inv_cases) (use sl settled_rest in force)+
  have one: "length (s_profiles sl) \<le> 1 \<Longrightarrow> s_profiles sl = [p]"
    using sl(3) by (cases "s_profiles sl") (auto simp: holds_def)
  have "task_inv (tpl_op plan) (stop_pc plan) m' (y_live s)"
    using assms(2,3) idle sl one
    by (auto simp: reserveStop_def reserveLocked_def Let_def task_inv_def stop_pc_def rest_inv_def zero_op_def
        split: option.splits if_splits)
  with idle m' show ?thesis by (auto simp: add_task_def intro: sys_inv_taskI)
qed

lemma reset_begin_inv:
  assumes "sys_inv s" and "reserveReset (y_mgr s) = (Inr (Some (op, po)), m')"
  shows "sys_inv (add_task op (PResetStop po) m' s)"
proof -
  have m': "mgr_inv m'"
    using mgr_inv_reserveReset [of "y_mgr s"] assms by (auto simp: sys_inv_def)
  from assms have idle: "y_tasks s = [] \<and> rest_inv (y_mgr s) (y_live s)"
    by (cases rule: sys_inv_cases) (auto simp: reserveReset_def)
  then have "task_inv op (PResetStop po) m' (y_live s)"
    using assms(2)
    by (auto simp: reserveReset_def reserveLocked_def Let_def task_inv_def rest_inv_def
        split: option.splits if_splits)
  with idle m' show ?thesis by (auto simp: add_task_def intro: sys_inv_taskI)
qed

lemma mgr_inv_reserveReload [inv_intros]: "mgr_inv m \<Longrightarrow> mgr_inv (snd (reserveReload b m))"
  by (auto simp: mgr_inv_def slot_inv_def reserveReload_def reserveLocked_def Let_def
      split: option.splits if_splits)

lemma reload_begin_inv:
  assumes "sys_inv s" and "reserveReload b (y_mgr s) = (Inr (Some (op, po, held)), m')"
  shows "sys_inv (add_task op (PReloadSpec po) m' s)"
proof -
  have m': "mgr_inv m'"
    using mgr_inv_reserveReload [of "y_mgr s" b] assms by (auto simp: sys_inv_def)
  obtain sl where sl: "m_slot (y_mgr s) = Some sl" "settled sl"
    using assms(2) by (auto simp: reserveReload_def split: option.splits if_splits)
  from assms(1) have idle: "y_tasks s = [] \<and> rest_inv (y_mgr s) (y_live s)"
    by (cases rule: sys_inv_cases) (use sl settled_rest in force)+
  then have "task_inv op (PReloadSpec po) m' (y_live s)"
    using assms(2)
    by (auto simp: reserveReload_def reserveLocked_def Let_def task_inv_def rest_inv_def
        split: option.splits if_splits)
  with idle m' show ?thesis by (auto simp: add_task_def intro: sys_inv_taskI)
qed

text \<open>Moving on inside an operation, and ending it.\<close>

lemma move_task_inv:
  assumes "y_tasks s = [(op, q)]" and "mgr_inv m" and "m_slot m = Some sl" and "op_id op \<noteq> []"
    and "s_op sl = op_id op" and "pc_inv op q' sl (y_live s')" and "y_tasks s' = y_tasks s"
  shows "sys_inv (move_task op q' m s')"
  using assms by (auto simp: move_task_def task_inv_def intro!: sys_inv_taskI)

lemma end_task_inv:
  assumes "y_tasks s' = [(op, q)]" and "mgr_inv m" and "rest_inv m (y_live s')"
  shows "sys_inv (end_task op m s')"
  using assms by (auto simp: end_task_def intro!: sys_inv_restI)

lemma y_tasks_kill [simp]: "y_tasks (kill po s) = y_tasks s"
  by (simp add: kill_def)

lemma y_tasks_spawn [simp]: "y_tasks (spawn s) = y_tasks s"
  by (simp add: spawn_def)

lemma y_tasks_burn [simp]: "y_tasks (burn s) = y_tasks s"
  by (simp add: burn_def)

lemma y_stopped_lose [simp]:
  "y_tasks (stopped po s) = y_tasks s" "y_tasks (lose h s) = y_tasks s"
  "y_live (stopped po s) = y_live s - set_option po" "y_live (lose h s) = y_live s - {h}"
  "y_mgr (stopped po s) = y_mgr s" "y_mgr (lose h s) = y_mgr s"
  by (simp_all add: stopped_def lose_def)

lemma y_live_kill [simp]: "y_live (kill po s) = y_live s - set_option po"
  by (simp add: kill_def)

lemma y_live_spawn [simp]: "y_live (spawn s) = insert (y_fresh s) (y_live s)"
  by (simp add: spawn_def)

lemma y_live_burn [simp]: "y_live (burn s) = y_live s"
  by (simp add: burn_def)

lemma y_mgr_kill [simp]: "y_mgr (kill po s) = y_mgr s"
  by (simp add: kill_def)

lemma backed_mono: "backed live po \<Longrightarrow> live' \<subseteq> live \<Longrightarrow> backed live' po"
  by (cases po) auto

lemma backed_Some: "backed live po \<Longrightarrow> po \<noteq> None"
  by (cases po) auto

lemma backed_kill [simp]: "backed live po \<Longrightarrow> live - set_option po = {}"
  by (cases po) auto

lemma pc_inv_mono: "pc_inv op q sl live \<Longrightarrow> live' \<subseteq> live \<Longrightarrow> pc_inv op q sl live'"
  by (cases q) (auto intro: backed_mono)

lemma rest_inv_mono: "rest_inv m live \<Longrightarrow> live' \<subseteq> live \<Longrightarrow> rest_inv m live'"
  by (auto simp: rest_inv_def intro: backed_mono split: option.splits)

lemma fail_keep_inv:
  assumes "y_tasks s = [(op, q)]" and "mgr_inv m" and "m_slot m = Some sl"
    and "s_op sl = op_id op" and "backed (y_live s) (s_process sl)"
    and "s' = s \<or> s' = kill (Some h) s \<or> s' = lose h s"
  shows "sys_inv (end_task op (fail_op op e True m) s')"
proof (rule end_task_inv)
  show "y_tasks s' = [(op, q)]" using assms(1,6) by auto
  show "mgr_inv (fail_op op e True m)" by (rule mgr_inv_fail) (fact assms(2))
  have "y_live s' \<subseteq> y_live s" using assms(6) by auto
  then show "rest_inv (fail_op op e True m) (y_live s')"
    using assms(3-5) by (auto simp: rest_inv_def m_slot_fail_op intro: backed_mono)
qed

lemma rt_step_inv: "rt_step s t \<Longrightarrow> sys_inv s \<Longrightarrow> sys_inv t"
proof (induction rule: rt_step.induct)
  case (start_begin b p a r s plan m')
  then show ?case by (blast intro: start_begin_inv)
next
  case (stop_begin bn p s tplan m')
  then show ?case by (blast intro: stop_begin_inv)
next
  case (reset_begin s op po m')
  then show ?case by (blast intro: reset_begin_inv)
next
  case (reload_begin b s op po held m')
  then show ?case by (blast intro: reload_begin_inv)
next
  case (start_stop_ok op h s)
  from start_stop_ok(2,1) show ?case by (rule sys_inv_taskD) (rule move_task_inv, auto)
next
  case (start_stop_fail op h s s' e)
  from start_stop_fail(3,1) show ?case
    by (rule sys_inv_taskD) (rule fail_keep_inv, use start_stop_fail(2) in auto)
next
  case (spawn_ok op s)
  from spawn_ok(2,1) show ?case by (rule sys_inv_taskD) (rule move_task_inv, auto)
next
  case (spawn_fail op s s' e)
  from spawn_fail(3,1) show ?case
  proof (rule sys_inv_taskD)
    fix sl
    assume a: "y_tasks s = [(op, PSpawn)]" "mgr_inv (y_mgr s)" "m_slot (y_mgr s) = Some sl"
      "op_id op \<noteq> []" "s_op sl = op_id op" "pc_inv op PSpawn sl (y_live s)"
    show ?thesis
    proof (rule end_task_inv)
      show "y_tasks s' = [(op, PSpawn)]" using spawn_fail(2) a(1) by auto
      show "mgr_inv (fail_op op e False (transition op Starting None (y_mgr s)))"
        using a(2) by (simp add: mgr_inv_fail)
      show "rest_inv (fail_op op e False (transition op Starting None (y_mgr s))) (y_live s')"
        using a spawn_fail(2) by (auto simp: rest_inv_def m_slot_fail_op)
    qed
  qed
next
  case (commit op h s)
  from commit(2,1) show ?case
  proof (rule sys_inv_taskD)
    fix sl
    assume a: "y_tasks s = [(op, PCommit h)]" "mgr_inv (y_mgr s)" "m_slot (y_mgr s) = Some sl"
      "op_id op \<noteq> []" "s_op sl = op_id op" "pc_inv op (PCommit h) sl (y_live s)"
    show ?thesis
    proof (rule end_task_inv [OF a(1)])
      show "mgr_inv (commitStart op h (transition op Activating None (y_mgr s)))"
        by (rule mgr_inv_commitStart) (use a in \<open>auto dest!: backed_Some split: option.splits\<close>)
      show "rest_inv (commitStart op h (transition op Activating None (y_mgr s))) (y_live s)"
        using a by (auto simp: rest_inv_def m_slot_commitStart split: option.splits)
    qed
  qed
next
  case (stop_ok op h s)
  from stop_ok(2,1) show ?case by (rule sys_inv_taskD) (rule move_task_inv, auto)
next
  case (stop_fail op h s s' e)
  from stop_fail(3,1) show ?case
    by (rule sys_inv_taskD) (rule fail_keep_inv, use stop_fail(2) in auto)
next
  case (stop_commit op s)
  from stop_commit(2,1) show ?case
  proof (rule sys_inv_taskD)
    fix sl
    assume a: "y_tasks s = [(op, PStopCommit)]" "mgr_inv (y_mgr s)" "m_slot (y_mgr s) = Some sl"
      "op_id op \<noteq> []" "s_op sl = op_id op" "pc_inv op PStopCommit sl (y_live s)"
    have only: "filter (\<lambda>p. p \<noteq> op_profile op) (s_profiles sl) = [] \<Longrightarrow> s_profiles sl = [op_profile op]"
      using a(2,3) by (auto simp: mgr_inv_def slot_inv_def intro: filter_neq_Nil_single)
    show ?thesis
    proof (rule end_task_inv [OF a(1)])
      show "mgr_inv (commitStop op (y_mgr s))"
        by (rule mgr_inv_commitStop) (use a in \<open>auto dest!: backed_Some\<close>)
      show "rest_inv (commitStop op (y_mgr s)) (y_live s)"
        using a only by (auto simp: rest_inv_def m_slot_commitStop Let_def)
    qed
  qed
next
  case (reset_ok op po s)
  from reset_ok(2,1) show ?case by (rule sys_inv_taskD) (rule move_task_inv, auto)
next
  case (reset_fail op h s s' e)
  from reset_fail(3,1) show ?case
    by (rule sys_inv_taskD) (rule fail_keep_inv, use reset_fail(2) in auto)
next
  case (reset_commit op s)
  from reset_commit(2,1) show ?case
    by (rule sys_inv_taskD)
      (rule end_task_inv, auto intro!: mgr_inv_commitReset simp: rest_inv_def m_slot_commitReset)
next
  case (reload_spec_ok op po s)
  from reload_spec_ok(2,1) show ?case by (rule sys_inv_taskD) (rule move_task_inv, auto)
next
  case (reload_spec_fail op po s e)
  from reload_spec_fail(2,1) show ?case
    by (rule sys_inv_taskD) (rule fail_keep_inv, auto)
next
  case (reload_stop_ok op po s)
  from reload_stop_ok(2,1) show ?case by (rule sys_inv_taskD) (rule move_task_inv, auto)
next
  case (reload_stop_fail op h s s' e)
  from reload_stop_fail(3,1) show ?case
    by (rule sys_inv_taskD) (rule fail_keep_inv, use reload_stop_fail(2) in auto)
next
  case (engine_dies h s)
  have less: "y_live (kill (Some h) s) \<subseteq> y_live s" by auto
  from engine_dies(2) show ?case
  proof (cases rule: sys_inv_cases)
    case rest
    have "rest_inv (y_mgr s) (y_live (kill (Some h) s))"
      using rest(3) less by (rule rest_inv_mono)
    with rest show ?thesis by (intro sys_inv_restI) simp_all
  next
    case (task op q sl)
    have "pc_inv op q sl (y_live (kill (Some h) s))"
      using task(6) less by (rule pc_inv_mono)
    with task show ?thesis by (intro sys_inv_taskI [of _ op q]) (simp_all add: task_inv_def)
  qed
qed

interpretation rts: inv_system "\<lambda>s. s = init_sys" rt_step sys_inv
  by unfold_locales (auto simp: init_sys_inv intro: rt_step_inv)

section \<open>What the daemon guarantees\<close>

abbreviation reachable :: "sys \<Rightarrow> bool" where
  "reachable \<equiv> reach (\<lambda>s. s = init_sys) rt_step"

text \<open>The engines an operation in flight or the slot can still name, hence still stop.\<close>

fun pc_handle :: "pc \<Rightarrow> nat option" where
  "pc_handle (PStartStop h) = Some h"
| "pc_handle PSpawn = None"
| "pc_handle (PCommit po) = po"
| "pc_handle (PStopStop h) = Some h"
| "pc_handle PStopCommit = None"
| "pc_handle (PResetStop po) = po"
| "pc_handle PResetCommit = None"
| "pc_handle (PReloadSpec po) = po"
| "pc_handle (PReloadStop po) = po"

definition named_engines :: "sys \<Rightarrow> nat set" where
  "named_engines s =
     (case m_slot (y_mgr s) of None \<Rightarrow> {} | Some sl \<Rightarrow> set_option (s_process sl)) \<union>
     (\<Union>t\<in>set (y_tasks s). set_option (pc_handle (snd t)))"

text \<open>Steps an operation still has to take.\<close>

fun pc_work :: "pc \<Rightarrow> nat" where
  "pc_work (PReloadSpec po) = 4"
| "pc_work (PReloadStop po) = 3"
| "pc_work (PStartStop h) = 3"
| "pc_work PSpawn = 2"
| "pc_work (PStopStop h) = 2"
| "pc_work (PResetStop po) = 2"
| "pc_work (PCommit po) = 1"
| "pc_work PStopCommit = 1"
| "pc_work PResetCommit = 1"

definition work :: "sys \<Rightarrow> nat" where
  "work s = sum_list (map (\<lambda>t. pc_work (snd t)) (y_tasks s))"

lemma backed_live: "backed live po \<Longrightarrow> h \<in> live \<Longrightarrow> po = Some h"
  by (cases po) auto

lemma backed_unique: "backed live po \<Longrightarrow> h \<in> live \<Longrightarrow> h' \<in> live \<Longrightarrow> h = h'"
  by (cases po) auto

lemma pc_inv_live: "pc_inv op q sl live \<Longrightarrow> h \<in> live \<Longrightarrow> h' \<in> live \<Longrightarrow> h = h'"
  by (cases q) (auto dest: backed_unique split: option.splits)

lemma pc_inv_named:
  "pc_inv op q sl live \<Longrightarrow> h \<in> live \<Longrightarrow> s_process sl = Some h \<or> pc_handle q = Some h"
  by (cases q) (auto dest: backed_live split: option.splits)

lemma sys_inv_live_unique: "sys_inv s \<Longrightarrow> h \<in> y_live s \<Longrightarrow> h' \<in> y_live s \<Longrightarrow> h = h'"
  by (erule sys_inv_cases)
    (auto simp: rest_inv_def dest: backed_unique pc_inv_live split: option.splits)

lemma sys_inv_live_named: "sys_inv s \<Longrightarrow> h \<in> y_live s \<Longrightarrow> h \<in> named_engines s"
  by (erule sys_inv_cases)
    (auto simp: rest_inv_def named_engines_def dest: backed_live pc_inv_named split: option.splits)

text \<open>A slot some operation holds turns every other call away.\<close>

lemma busy_not_settled: "mgr_inv m \<Longrightarrow> m_slot m = Some sl \<Longrightarrow> s_op sl \<noteq> [] \<Longrightarrow> \<not> settled sl"
  by (auto simp: mgr_inv_def slot_inv_def settled_def)

lemma busy_reserveStart:
  "m_slot m = Some sl \<Longrightarrow> \<not> settled sl \<Longrightarrow> reserveStart b p a r m = (Inl (conflict sl), m)"
  by (simp add: reserveStart_def)

lemma busy_reserveStop:
  "m_slot m = Some sl \<Longrightarrow> \<not> settled sl \<Longrightarrow>
     reserveStop bn p m =
       (if s_backend sl = bn \<and> holds sl p then Inl (conflict sl)
        else Inr \<lparr>tpl_op = zero_op, tpl_process = None\<rparr>, m)"
  by (simp add: reserveStop_def)

lemma busy_reserveReset:
  "m_slot m = Some sl \<Longrightarrow> s_op sl \<noteq> [] \<Longrightarrow> reserveReset m = (Inl (conflict sl), m)"
  by (simp add: reserveReset_def)

lemma busy_reserveReload:
  "m_slot m = Some sl \<Longrightarrow> \<not> settled sl \<Longrightarrow>
     reserveReload b m = (Inl (conflict sl), m) \<or> reserveReload b m = (Inr None, m)"
  by (simp add: reserveReload_def)

lemma sys_inv_busy:
  assumes "sys_inv s" and "y_tasks s \<noteq> []"
  obtains op q sl where "y_tasks s = [(op, q)]" "m_slot (y_mgr s) = Some sl" "op_id op \<noteq> []"
    "s_op sl = op_id op" "\<not> settled sl"
  using assms by (auto elim!: sys_inv_cases dest: busy_not_settled)

lemma step_work:
  assumes "rt_step s t" and inv: "sys_inv s" and "y_tasks s \<noteq> []"
  shows "work t < work s \<or> (\<exists>h. t = kill (Some h) s)"
proof -
  obtain op q sl where one: "y_tasks s = [(op, q)]" and sl: "m_slot (y_mgr s) = Some sl"
    "s_op sl \<noteq> []" "\<not> settled sl"
    using inv assms(3) by (metis sys_inv_busy)
  note busy = busy_reserveStart [OF sl(1,3)] busy_reserveStop [OF sl(1,3)]
    busy_reserveReset [OF sl(1,2)] busy_reserveReload [OF sl(1,3)]
  from assms(1) show ?thesis
  proof (cases rule: rt_step.cases)
    case (reload_begin b op po held m')
    with busy_reserveReload [OF sl(1,3), of b] show ?thesis by auto
  qed (use one in \<open>auto simp: busy work_def task_defs zero_op_def split: if_splits\<close>)
qed

lemma step_exI: "rt_step s t \<Longrightarrow> work t < work s \<Longrightarrow> \<exists>t. rt_step s t \<and> work t < work s"
  by blast

lemma step_exists:
  assumes "y_tasks s = [(op, q)]"
  shows "\<exists>t. rt_step s t \<and> work t < work s"
proof -
  have mem: "(op, q) \<in> set (y_tasks s)" using assms by simp
  show ?thesis
  proof (cases q)
    case (PStartStop h)
    from mem [unfolded this] show ?thesis
      by (rule step_exI [OF start_stop_ok]) (simp add: assms work_def task_defs PStartStop)
  next
    case PSpawn
    from mem [unfolded this] show ?thesis
      by (rule step_exI [OF spawn_ok]) (simp add: assms work_def task_defs PSpawn)
  next
    case (PCommit po)
    from mem [unfolded this] show ?thesis
      by (rule step_exI [OF commit]) (simp add: assms work_def task_defs PCommit)
  next
    case (PStopStop h)
    from mem [unfolded this] show ?thesis
      by (rule step_exI [OF stop_ok]) (simp add: assms work_def task_defs PStopStop)
  next
    case PStopCommit
    from mem [unfolded this] show ?thesis
      by (rule step_exI [OF stop_commit]) (simp add: assms work_def task_defs PStopCommit)
  next
    case (PResetStop po)
    from mem [unfolded this] show ?thesis
      by (rule step_exI [OF reset_ok]) (simp add: assms work_def task_defs PResetStop)
  next
    case PResetCommit
    from mem [unfolded this] show ?thesis
      by (rule step_exI [OF reset_commit]) (simp add: assms work_def task_defs PResetCommit)
  next
    case (PReloadSpec po)
    from mem [unfolded this] show ?thesis
      by (rule step_exI [OF reload_spec_ok]) (simp add: assms work_def task_defs PReloadSpec)
  next
    case (PReloadStop po)
    from mem [unfolded this] show ?thesis
      by (rule step_exI [OF reload_stop_ok]) (simp add: assms work_def task_defs PReloadStop)
  qed
qed

lemma pc_work_le: "pc_work q \<le> 4"
  by (cases q) auto

text \<open>A run of the daemon for the examples: a start, up to its spawn, and to its end.\<close>

definition ex_op :: "nat \<Rightarrow> operation" where
  "ex_op n = \<lparr>op_id = opid n, op_profile = ''p'', op_backend = ''demo''\<rparr>"

definition ex_slot :: slot where
  "ex_slot = \<lparr>s_backend = ''demo'', s_process = None, s_address = ''127.0.0.1:8080'',
     s_profiles = [''p''], s_state = Starting, s_op = opid 1\<rparr>"

definition ex_starting :: sys where
  "ex_starting =
     \<lparr>y_mgr = \<lparr>m_slot = Some ex_slot, m_ops = 1, m_audit = []\<rparr>, y_tasks = [(ex_op 1, PSpawn)],
      y_live = {}, y_lost = {}, y_fresh = 0\<rparr>"

definition ex_spawned :: sys where
  "ex_spawned = move_task (ex_op 1) (PCommit (Some 0))
     (transition (ex_op 1) Starting None (y_mgr ex_starting)) (spawn ex_starting)"

definition ex_running :: sys where
  "ex_running = end_task (ex_op 1)
     (commitStart (ex_op 1) (Some 0) (transition (ex_op 1) Activating None (y_mgr ex_spawned))) ex_spawned"

lemmas ex_defs = ex_starting_def ex_spawned_def ex_running_def ex_op_def ex_slot_def

lemma ex_starting_reach: "reachable ex_starting"
proof (rule reach_step)
  show "reachable init_sys" by (rule reach_init) simp
  have "reserveStart (demo_backend True) ''p'' ''127.0.0.1:8080'' False (y_mgr init_sys) =
      (Inr \<lparr>spl_op = ex_op 1, spl_stop = None, spl_spawn = True\<rparr>, y_mgr ex_starting)"
    by (simp add: reserveStart_def reserveLocked_def Let_def init_sys_def init_mgr_def ex_defs
        demo_defs next_op_def)
  from start_begin [OF this] show "rt_step init_sys ex_starting"
    by (simp add: add_task_def start_pc_def init_sys_def ex_starting_def)
qed

lemma ex_spawned_reach: "reachable ex_spawned"
proof (rule reach_step [OF ex_starting_reach])
  have "(ex_op 1, PSpawn) \<in> set (y_tasks ex_starting)" by (simp add: ex_starting_def)
  from spawn_ok [OF this] show "rt_step ex_starting ex_spawned"
    by (simp add: ex_spawned_def ex_starting_def)
qed

lemma ex_running_reach: "reachable ex_running"
proof (rule reach_step [OF ex_spawned_reach])
  have "(ex_op 1, PCommit (Some 0)) \<in> set (y_tasks ex_spawned)"
    by (simp add: ex_spawned_def ex_starting_def task_defs)
  from commit [OF this] show "rt_step ex_spawned ex_running" by (simp add: ex_running_def)
qed

lemma ex_running_lost: "y_lost ex_running = {}"
  by (simp add: ex_defs task_defs)

lemma ex_running_state:
  "y_live ex_running = {0}" "y_tasks ex_running = []" "s_process (the (m_slot (y_mgr ex_running))) = Some 0"
  "m_slot (y_mgr ex_running) \<noteq> None" "named_engines ex_running = {0}"
  by (simp_all add: ex_defs task_defs m_slot_commitStart named_engines_def)





text \<open>
  C4: operations exclude one another. An operation in flight is the only one and owns the slot, and
  until it ends every start and every reset is refused with the slot's conflict, the daemon's state
  untouched.
\<close>

theorem operations_exclusive:
  assumes "reachable s" and "(op, q) \<in> set (y_tasks s)"
  shows "y_tasks s = [(op, q)] \<and>
    (\<exists>sl. m_slot (y_mgr s) = Some sl \<and> s_op sl = op_id op \<and>
       reserveStart b p a r (y_mgr s) = (Inl (conflict sl), y_mgr s) \<and>
       reserveReset (y_mgr s) = (Inl (conflict sl), y_mgr s) \<and>
       snd (reserveStop bn p (y_mgr s)) = y_mgr s \<and> snd (reserveReload b (y_mgr s)) = y_mgr s)"
proof -
  have ne: "y_tasks s \<noteq> []" using assms(2) by auto
  obtain op' q' sl where s: "y_tasks s = [(op', q')]" "m_slot (y_mgr s) = Some sl"
      "op_id op' \<noteq> []" "s_op sl = op_id op'" "\<not> settled sl"
    by (rule sys_inv_busy [OF rts.reach_inv [OF assms(1)] ne])
  then show ?thesis
    using assms(2) busy_reserveReload [OF s(2,5), of b]
    by (auto simp: busy_reserveStart busy_reserveStop busy_reserveReset)
qed

theorem operations_exclusive_witness:
  "\<exists>sl. m_slot (y_mgr ex_spawned) = Some sl \<and>
     reserveStart (demo_backend True) ''q'' ''x'' True (y_mgr ex_spawned) = (Inl (conflict sl), y_mgr ex_spawned)"
proof -
  have "(ex_op 1, PCommit (Some 0)) \<in> set (y_tasks ex_spawned)"
    by (simp add: ex_defs task_defs)
  from operations_exclusive [OF ex_spawned_reach this, of "demo_backend True" "''q''" "''x''" True]
  show ?thesis by blast
qed

text \<open>
  C6: operations end. While one is in flight the daemon can move; every move but the death of an
  engine brings that operation nearer to its end, and four moves always suffice.
\<close>

theorem operation_ends:
  assumes "reachable s" and "y_tasks s \<noteq> []"
  shows "work s \<le> 4 \<and> (\<exists>t. rt_step s t \<and> work t < work s) \<and>
    (\<forall>t. rt_step s t \<longrightarrow> work t < work s \<or> (\<exists>h. t = kill (Some h) s))"
proof -
  note inv = rts.reach_inv [OF assms(1)]
  obtain op q where one: "y_tasks s = [(op, q)]"
    using inv assms(2) by (metis sys_inv_busy)
  show ?thesis
    using step_exists [OF one] step_work [OF _ inv assms(2)] pc_work_le [of q]
    by (simp add: work_def one)
qed

theorem operation_ends_witness: "\<exists>t. rt_step ex_starting t \<and> work t < work ex_starting"
proof -
  have "y_tasks ex_starting \<noteq> []" by (simp add: ex_defs)
  from operation_ends [OF ex_starting_reach this] show ?thesis by blast
qed

lemma reset_run:
  assumes "sys_inv s" and "y_tasks s = []" and "m_slot (y_mgr s) = Some sl"
  shows "\<exists>t. (rt_step ^^ 3) s t \<and> m_slot (y_mgr t) = None \<and> y_live t = {} \<and> y_tasks t = [] \<and> y_lost t = y_lost s"
proof -
  have inv: "s_op sl = []" "backed (y_live s) (s_process sl)"
    using assms by (auto simp: rest_inv_def elim: sys_inv_cases)
  obtain op m' where r: "reserveReset (y_mgr s) = (Inr (Some (op, s_process sl)), m')"
      and m': "m_slot m' = Some (sl\<lparr>s_state := Stopping, s_op := op_id op\<rparr>)"
    using assms(3) inv(1) by (auto simp: reserveReset_def reserveLocked_def Let_def)
  let ?s1 = "add_task op (PResetStop (s_process sl)) m' s"
  let ?s2 = "move_task op PResetCommit (transition op Stopping None (y_mgr ?s1)) (stopped (s_process sl) ?s1)"
  let ?s3 = "end_task op (commitReset op (y_mgr ?s2)) ?s2"
  have "rt_step s ?s1" by (rule reset_begin) (fact r)
  moreover have "rt_step ?s1 ?s2" by (rule reset_ok) (simp add: add_task_def)
  moreover have "rt_step ?s2 ?s3" by (rule reset_commit) (simp add: task_defs)
  ultimately have "(rt_step ^^ 3) s ?s3" by (auto simp: numeral_3_eq_3 relcompp_apply)
  moreover have "m_slot (y_mgr ?s3) = None \<and> y_live ?s3 = {} \<and> y_tasks ?s3 = [] \<and> y_lost ?s3 = y_lost s"
    using m' inv(2) assms(2) by (cases "s_process sl") (auto simp: task_defs m_slot_commitReset)
  ultimately show ?thesis by blast
qed

text \<open>
  reset is the way out. From every state at rest with a slot in use, running, failed or
  orphaned, a reset whose stop succeeds frees the slot in three steps and leaves no engine that a
  supervisor still knows.
\<close>

theorem reset_frees_slot:
  assumes "reachable s" and "y_tasks s = []" and "m_slot (y_mgr s) = Some sl"
  shows "\<exists>t. (rt_step ^^ 3) s t \<and> m_slot (y_mgr t) = None \<and> y_live t = {} \<and> y_tasks t = []"
  using reset_run [OF rts.reach_inv [OF assms(1)] assms(2,3)] by blast

theorem reset_frees_slot_witness:
  "\<exists>t. (rt_step ^^ 3) ex_running t \<and> m_slot (y_mgr t) = None \<and> y_live t = {} \<and> y_tasks t = []"
proof -
  obtain sl where "m_slot (y_mgr ex_running) = Some sl" using ex_running_state(4) by auto
  from reset_frees_slot [OF ex_running_reach ex_running_state(2) this] show ?thesis .
qed

text \<open>
  the limit of shutdown. \<^verbatim>\<open>StopAllRuntimes\<close> takes the slot without asking whether an operation
  is in flight; \<^verbatim>\<open>Service.Shutdown\<close> calls it before it drains the requests. With nothing in flight
  no engine survives it; but a start that spawns its engine afterwards finds the slot gone, commits
  into nothing, and the daemon ends with an engine alive that no slot names.
\<close>

theorem stop_all_leaks_only_in_flight:
  "(\<forall>s sl. reachable s \<and> y_tasks s = [] \<and> m_slot (y_mgr s) = Some sl \<longrightarrow>
       y_live (stopped (s_process sl) (s\<lparr>y_mgr := (y_mgr s)\<lparr>m_slot := None\<rparr>\<rparr>)) = {}) \<and>
   (\<exists>s. reach (\<lambda>s. s = init_sys) shutdown_step s \<and> y_tasks s = [] \<and>
       m_slot (y_mgr s) = None \<and> y_live s \<noteq> {})"
proof (intro conjI allI impI)
  fix s sl
  assume a: "reachable s \<and> y_tasks s = [] \<and> m_slot (y_mgr s) = Some sl"
  then have "backed (y_live s) (s_process sl)"
    using rts.reach_inv [of s] by (auto simp: rest_inv_def elim: sys_inv_cases)
  then show "y_live (stopped (s_process sl) (s\<lparr>y_mgr := (y_mgr s)\<lparr>m_slot := None\<rparr>\<rparr>)) = {}"
    by (simp add: stopped_def)
next
  have lift: "reach (\<lambda>s. s = init_sys) shutdown_step s" if "reachable s" for s
    using that by (induction rule: reach.induct) (auto intro: reach.intros sd_step)
  let ?s1 = "stopped None (ex_starting\<lparr>y_mgr := (y_mgr ex_starting)\<lparr>m_slot := None\<rparr>\<rparr>)"
  let ?s2 = "move_task (ex_op 1) (PCommit (Some 0)) (transition (ex_op 1) Starting None (y_mgr ?s1)) (spawn ?s1)"
  let ?s3 = "end_task (ex_op 1)
     (commitStart (ex_op 1) (Some 0) (transition (ex_op 1) Activating None (y_mgr ?s2))) ?s2"
  have "shutdown_step ex_starting ?s1"
    using sd_stop_all [of ex_starting ex_slot] by (simp add: ex_defs)
  moreover have "shutdown_step ?s1 ?s2"
    using spawn_ok [of "ex_op 1" ?s1] by (intro sd_step) (simp add: ex_defs task_defs)
  moreover have "shutdown_step ?s2 ?s3"
    by (rule sd_step, rule commit) (simp add: ex_defs task_defs)
  ultimately have "reach (\<lambda>s. s = init_sys) shutdown_step ?s3"
    using lift [OF ex_starting_reach] by (blast intro: reach_step)
  moreover have "y_tasks ?s3 = [] \<and> m_slot (y_mgr ?s3) = None \<and> y_live ?s3 \<noteq> {}"
    by (simp add: ex_defs task_defs m_slot_commitStart)
  ultimately show "\<exists>s. reach (\<lambda>s. s = init_sys) shutdown_step s \<and> y_tasks s = [] \<and>
       m_slot (y_mgr s) = None \<and> y_live s \<noteq> {}" by blast
qed

theorem stop_all_leaks_only_in_flight_witness:
  "y_live (stopped (s_process (the (m_slot (y_mgr ex_running))))
     (ex_running\<lparr>y_mgr := (y_mgr ex_running)\<lparr>m_slot := None\<rparr>\<rparr>)) = {}"
proof -
  obtain sl where sl: "m_slot (y_mgr ex_running) = Some sl" using ex_running_state(4) by auto
  with stop_all_leaks_only_in_flight ex_running_reach ex_running_state(2) show ?thesis by auto
qed

text \<open>
  the limit of a failed stop. When the stop of a reset fails, the supervisor has already
  forgotten its process; the slot stays, failed, and the next reset succeeds without stopping
  anything, so the daemon can reach an empty slot with the first engine still alive.
\<close>

theorem failed_stop_can_leak:
  "\<exists>s. reachable s \<and> y_tasks s = [] \<and> m_slot (y_mgr s) = None \<and> y_lost s \<noteq> {}"
proof -
  obtain sl where sl: "m_slot (y_mgr ex_running) = Some sl" using ex_running_state(4) by auto
  have "rest_inv (y_mgr ex_running) (y_live ex_running)"
    using rts.reach_inv [OF ex_running_reach] ex_running_state(2) by (auto elim: sys_inv_cases)
  then have inv: "s_op sl = []" "s_process sl = Some 0"
    using sl ex_running_state(3) by (simp_all add: rest_inv_def)
  obtain op m' where r: "reserveReset (y_mgr ex_running) = (Inr (Some (op, Some 0)), m')"
      and m': "m_slot m' = Some (sl\<lparr>s_state := Stopping, s_op := op_id op\<rparr>)"
    using sl inv by (auto simp: reserveReset_def reserveLocked_def Let_def)
  let ?s1 = "add_task op (PResetStop (Some 0)) m' ex_running"
  let ?e = "RtError RtErrorRuntime (Str ''stop timed out'') None"
  let ?s2 = "end_task op (fail_op op ?e True (transition op Stopping None (y_mgr ?s1))) (lose 0 ?s1)"
  have "rt_step ex_running ?s1" by (rule reset_begin) (fact r)
  moreover have "rt_step ?s1 ?s2" by (rule reset_fail [of _ 0]) (simp_all add: add_task_def)
  ultimately have r2: "reachable ?s2" using ex_running_reach by (blast intro: reach_step)
  have s2: "y_tasks ?s2 = []" "y_lost ?s2 = {0}" "m_slot (y_mgr ?s2) \<noteq> None"
    by (simp_all add: add_task_def end_task_def lose_def ex_running_state ex_running_lost m_slot_fail_op m')
  then obtain t where "(rt_step ^^ 3) ?s2 t" "m_slot (y_mgr t) = None" "y_tasks t = []" "y_lost t = {0}"
    using reset_run [OF rts.reach_inv [OF r2] s2(1)] by force
  moreover have "reachable t"
    using rts.reach_steps [OF relpowp_imp_rtranclp r2] calculation(1) by blast
  ultimately show ?thesis by blast
qed

end
