(* ===== verification/NetAddr.thy ===== *)
theory NetAddr
  imports Prelude
begin

text \<open>
  The part of Go's \<^verbatim>\<open>net\<close> the program decides with: splitting and joining host and port, and whether
  an IP literal is a loopback address (\<^verbatim>\<open>net.SplitHostPort\<close>, \<^verbatim>\<open>net.JoinHostPort\<close>, \<^verbatim>\<open>net.ParseIP\<close>,
  \<^verbatim>\<open>IP.IsLoopback\<close>). An address is its eight 16-bit groups; an IPv4 address is mapped into IPv6 as
  \<^verbatim>\<open>net.ParseIP\<close> does.
\<close>

definition colon :: char where "colon = CHR '':''"
definition lbr :: char where "lbr = CHR ''[''"
definition rbr :: char where "rbr = CHR '']''"

text \<open>What precedes the last colon and what follows it.\<close>

definition cut_last :: "char \<Rightarrow> string \<Rightarrow> (string \<times> string) option" where
  "cut_last c s =
     (case cut c (rev s) of (a, b, found) \<Rightarrow> if found then Some (rev b, rev a) else None)"

text \<open>\<^const>\<open>None\<close> is any of the errors; the callers do not tell them apart.\<close>

definition SplitHostPort :: "string \<Rightarrow> (string \<times> string) option" where
  "SplitHostPort hp =
     (case cut_last colon hp of
        None \<Rightarrow> None
      | Some (pre, port) \<Rightarrow>
          (case hp of
             [] \<Rightarrow> None
           | c # rest \<Rightarrow>
               if c = lbr then
                 (case cut rbr rest of
                    (host, after, found) \<Rightarrow>
                      if found \<and> after = colon # port \<and> lbr \<notin> set host \<and> lbr \<notin> set after \<and> rbr \<notin> set after
                      then Some (host, port) else None)
               else if colon \<in> set pre \<or> lbr \<in> set hp \<or> rbr \<in> set hp then None
               else Some (pre, port)))"

definition JoinHostPort :: "string \<Rightarrow> string \<Rightarrow> string" where
  "JoinHostPort host port =
     (if colon \<in> set host then [lbr] @ host @ [rbr, colon] @ port else host @ [colon] @ port)"

section \<open>IP literals\<close>

text \<open>A decimal field of an IPv4 address: at most 255 and no leading zero.\<close>

definition dec_field :: "string \<Rightarrow> nat option" where
  "dec_field s =
     (if s = [] \<or> length s > 3 \<or> (length s > 1 \<and> hd s = CHR ''0'') then None
      else case digits_value 0 s of Some n \<Rightarrow> if n \<le> 255 then Some n else None | None \<Rightarrow> None)"

definition parse_v4 :: "string \<Rightarrow> (nat \<times> nat \<times> nat \<times> nat) option" where
  "parse_v4 s =
     (case map dec_field (split_on (CHR ''.'') s) of
        [Some a, Some b, Some c, Some d] \<Rightarrow> Some (a, b, c, d)
      | _ \<Rightarrow> None)"

definition hex_digit :: "char \<Rightarrow> nat option" where
  "hex_digit c =
     (let n = of_char c :: nat
      in if 48 \<le> n \<and> n \<le> 57 then Some (n - 48)
         else if 97 \<le> n \<and> n \<le> 102 then Some (n - 87)
         else if 65 \<le> n \<and> n \<le> 70 then Some (n - 55) else None)"

fun hex_value :: "nat \<Rightarrow> string \<Rightarrow> nat option" where
  "hex_value acc [] = Some acc"
| "hex_value acc (c # cs) =
     (case hex_digit c of None \<Rightarrow> None | Some d \<Rightarrow> hex_value (16 * acc + d) cs)"

definition hex_group :: "string \<Rightarrow> nat option" where
  "hex_group s = (if s = [] \<or> length s > 4 then None else hex_value 0 s)"

text \<open>Colon-separated groups, the last of which may be a dotted IPv4 address.\<close>

fun v6_groups :: "string list \<Rightarrow> nat list option" where
  "v6_groups [] = Some []"
| "v6_groups [g] =
     (case parse_v4 g of
        Some (a, b, c, d) \<Rightarrow> Some [256 * a + b, 256 * c + d]
      | None \<Rightarrow> map_option (\<lambda>n. [n]) (hex_group g))"
| "v6_groups (g # h # gs) =
     (case hex_group g of
        None \<Rightarrow> None
      | Some n \<Rightarrow> map_option (\<lambda>ns. n # ns) (v6_groups (h # gs)))"

definition v6_part :: "string \<Rightarrow> nat list option" where
  "v6_part s = (if s = [] then Some [] else v6_groups (split_on colon s))"

fun cut_double :: "string \<Rightarrow> (string \<times> string) option" where
  "cut_double (a # b # s) =
     (if a = colon \<and> b = colon then Some ([], s)
      else map_option (\<lambda>(x, y). (a # x, y)) (cut_double (b # s)))"
| "cut_double s = None"

definition parse_v6 :: "string \<Rightarrow> nat list option" where
  "parse_v6 s =
     (case cut_double s of
        None \<Rightarrow>
          (case v6_groups (split_on colon s) of
             Some ns \<Rightarrow> if length ns = 8 then Some ns else None
           | None \<Rightarrow> None)
      | Some (pre, post) \<Rightarrow>
          if CHR ''.'' \<in> set pre then None
          else (case (v6_part pre, v6_part post) of
             (Some xs, Some ys) \<Rightarrow>
               if length xs + length ys < 8
               then Some (xs @ replicate (8 - length xs - length ys) 0 @ ys) else None
           | _ \<Rightarrow> None))"

definition ParseIP :: "string \<Rightarrow> nat list option" where
  "ParseIP s =
     (if colon \<in> set s then parse_v6 s
      else case parse_v4 s of
          Some (a, b, c, d) \<Rightarrow> Some [0, 0, 0, 0, 0, 65535, 256 * a + b, 256 * c + d]
        | None \<Rightarrow> None)"

definition IsLoopback :: "nat list \<Rightarrow> bool" where
  "IsLoopback ip \<longleftrightarrow>
     (if take 6 ip = [0, 0, 0, 0, 0, 65535] then ip ! 6 div 256 = 127
      else ip = [0, 0, 0, 0, 0, 0, 0, 1])"

section \<open>Splitting what was joined\<close>

lemma cut_last_snoc: "c \<notin> set b \<Longrightarrow> cut_last c (a @ c # b) = Some (a, b)"
  using cut_append [of c "rev b" "rev a"] by (simp add: cut_last_def)

definition host_ok :: "string \<Rightarrow> bool" where
  "host_ok h \<longleftrightarrow> lbr \<notin> set h \<and> rbr \<notin> set h"

definition port_ok :: "string \<Rightarrow> bool" where
  "port_ok p \<longleftrightarrow> colon \<notin> set p \<and> lbr \<notin> set p \<and> rbr \<notin> set p"

lemma ch_distinct [simp]: "colon \<noteq> lbr" "colon \<noteq> rbr" "lbr \<noteq> rbr" "lbr \<noteq> colon" "rbr \<noteq> colon" "rbr \<noteq> lbr"
  by (simp_all add: colon_def lbr_def rbr_def)

lemma Split_Join:
  assumes "host_ok h" and "port_ok p"
  shows "SplitHostPort (JoinHostPort h p) = Some (h, p)"
proof (cases "colon \<in> set h")
  case True
  have l: "cut_last colon ((lbr # h @ [rbr]) @ colon # p) = Some (lbr # h @ [rbr], p)"
    by (rule cut_last_snoc) (use assms in \<open>simp add: port_ok_def\<close>)
  have "cut rbr (h @ rbr # colon # p) = (h, colon # p, True)"
    by (rule cut_append) (use assms in \<open>simp add: host_ok_def\<close>)
  with l True assms show ?thesis
    by (simp add: JoinHostPort_def SplitHostPort_def host_ok_def port_ok_def)
next
  case False
  have l: "cut_last colon (h @ colon # p) = Some (h, p)"
    by (rule cut_last_snoc) (use assms in \<open>simp add: port_ok_def\<close>)
  obtain a r where e: "h @ colon # p = a # r" by (cases h) auto
  have "lbr \<notin> set (h @ colon # p)" "rbr \<notin> set (h @ colon # p)"
    using assms by (auto simp: host_ok_def port_ok_def)
  then have "SplitHostPort (a # r) = Some (h, p)"
    using l False unfolding e by (auto simp: SplitHostPort_def)
  with False e show ?thesis by (simp add: JoinHostPort_def)
qed

end
