(* ===== verification/Config.thy ===== *)
theory Config
  imports NetAddr GoPath Errors
begin

text \<open>
  The application configuration of \<^verbatim>\<open>config/config.go\<close>: its defaults, its validation, the security
  posture it refuses, and the paths it resolves. Decoding YAML over the defaults is the library's
  (a parameter of \<open>Parse\<close>); the environment variables and the user's home directory are arguments.
  A missing string list decodes to \<^const>\<open>None\<close> (nil).
\<close>

record security_config =
  sc_auth_env :: string
  sc_no_origin :: bool
  sc_origins :: "string list"
  sc_disable_auth :: bool
  sc_allow_exposed :: bool

record config =
  c_listen :: string
  c_model_dir :: string
  c_cache_dir :: string
  c_cache_ttl :: int
  c_retention :: int
  c_startup :: "string list option"
  c_autostart :: "string list"
  c_expose :: bool
  c_security :: security_config

definition hour :: int where
  "hour = 3600000000000"

definition DefaultListenAddr :: string where
  "DefaultListenAddr = ''127.0.0.1:7000''"

definition StartupServiceControl :: string where
  "StartupServiceControl = ''control''"

definition StartupServiceWeb :: string where
  "StartupServiceWeb = ''web''"

definition ProjectName :: string where
  "ProjectName = ''inferencerig''"

definition DefaultAuthTokenEnv :: string where
  "DefaultAuthTokenEnv = ''INFERENCERIG_CONTROL_TOKEN''"

definition DefaultStartupServices :: "string list" where
  "DefaultStartupServices = [StartupServiceControl, StartupServiceWeb]"

definition ServiceProcessName :: "string \<Rightarrow> string" where
  "ServiceProcessName service = (if service = StartupServiceControl then ProjectName else service)"

definition ServiceArgs :: "string \<Rightarrow> string list" where
  "ServiceArgs service =
     (if service = StartupServiceControl then [''serve'']
      else if service = StartupServiceWeb then [''web''] else [])"

definition Default :: config where
  "Default =
     \<lparr>c_listen = DefaultListenAddr, c_model_dir = [], c_cache_dir = [], c_cache_ttl = 6 * hour,
      c_retention = 7 * 24 * hour, c_startup = Some DefaultStartupServices, c_autostart = [],
      c_expose = False,
      c_security = \<lparr>sc_auth_env = DefaultAuthTokenEnv, sc_no_origin = False, sc_origins = [],
                    sc_disable_auth = False, sc_allow_exposed = False\<rparr>\<rparr>"

definition applyDefaults :: "config \<Rightarrow> config" where
  "applyDefaults c =
     c\<lparr>c_listen := cmp_or (c_listen c) DefaultListenAddr,
       c_cache_ttl := (if c_cache_ttl c \<noteq> 0 then c_cache_ttl c else 6 * hour),
       c_security := (c_security c)\<lparr>sc_auth_env := cmp_or (sc_auth_env (c_security c)) DefaultAuthTokenEnv\<rparr>,
       c_startup := (case c_startup c of None \<Rightarrow> Some DefaultStartupServices | s \<Rightarrow> s)\<rparr>"

fun ValidateStartupServices :: "string list \<Rightarrow> gerr option" where
  "ValidateStartupServices [] = None"
| "ValidateStartupServices (s # ss) =
     (if s \<noteq> StartupServiceControl \<and> s \<noteq> StartupServiceWeb
      then Some (Errorw (Fmt ''unknown startup service %q (want %q or %q)''
             [Str s, Str StartupServiceControl, Str StartupServiceWeb]) [])
      else ValidateStartupServices ss)"

definition AllowsNonLoopback :: "string \<Rightarrow> bool" where
  "AllowsNonLoopback addr =
     (let host = (case SplitHostPort addr of Some (h, _) \<Rightarrow> h | None \<Rightarrow> addr)
      in if host = [] then True
         else if host = ''localhost'' then False
         else case ParseIP host of None \<Rightarrow> True | Some ip \<Rightarrow> \<not> IsLoopback ip)"

definition ValidateSecurity :: "config \<Rightarrow> gerr option" where
  "ValidateSecurity c =
     (if sc_disable_auth (c_security c) \<and> AllowsNonLoopback (c_listen c)
         \<and> \<not> sc_allow_exposed (c_security c)
      then Some (Errorw (Fmt ''%w: security.disable_auth with a non-loopback listen_addr %q''
             [Str (c_listen c)]) [Sentinel ErrExposedWithoutAuth])
      else None)"

definition Parse :: "(config \<Rightarrow> string \<Rightarrow> gerr + config) \<Rightarrow> string \<Rightarrow> gerr + config" where
  "Parse decode data =
     (case decode Default data of
        Inl e \<Rightarrow> Inl e
      | Inr c0 \<Rightarrow>
          (let c = applyDefaults c0
           in if c_retention c < 0 then Inl (Errorw (Fmt ''log_archive_retention must not be negative'' []) [])
              else case ValidateStartupServices (case c_startup c of None \<Rightarrow> [] | Some ss \<Rightarrow> ss) of
                  Some e \<Rightarrow> Inl e
                | None \<Rightarrow> (case ValidateSecurity c of Some e \<Rightarrow> Inl e | None \<Rightarrow> Inr c)))"

text \<open>
  \<^verbatim>\<open>LoadOrDefault\<close>: only a missing file falls back to the defaults. The argument is what
  \<^verbatim>\<open>os.ReadFile\<close> of the configured path returned.
\<close>

definition LoadFile :: "(config \<Rightarrow> string \<Rightarrow> gerr + config) \<Rightarrow> gerr + string \<Rightarrow> gerr + config" where
  "LoadFile decode file =
     (case file of
        Inl e \<Rightarrow> Inl (Errorw (Fmt ''read config: %w'' []) [e])
      | Inr data \<Rightarrow>
          (case Parse decode data of
             Inl e \<Rightarrow> Inl (Errorw (Fmt ''parse config: %w'' []) [e])
           | Inr c \<Rightarrow> Inr c))"

definition LoadOrDefault :: "(config \<Rightarrow> string \<Rightarrow> gerr + config) \<Rightarrow> gerr + string \<Rightarrow> gerr + config" where
  "LoadOrDefault decode file =
     (case LoadFile decode file of
        Inl e \<Rightarrow> if errors_is e ErrNotExist then Inr Default else Inl e
      | Inr c \<Rightarrow> Inr c)"

definition BrowseURL :: "string \<Rightarrow> string" where
  "BrowseURL addr =
     (let (h0, port) = (case SplitHostPort addr of Some (h, p) \<Rightarrow> (h, p) | None \<Rightarrow> (addr, []));
          h1 = trim_right (\<lambda>c. c \<in> {lbr, rbr}) (trim_left (\<lambda>c. c \<in> {lbr, rbr}) h0);
          host = (if h1 \<in> {[], ''0.0.0.0'', ''::''} then ''127.0.0.1'' else h1)
      in if port = [] then ''http://'' @ host else ''http://'' @ JoinHostPort host port)"

section \<open>Paths\<close>

definition Home :: "string \<Rightarrow> string option \<Rightarrow> string option" where
  "Home env user_home =
     (if env \<noteq> [] then Some env else map_option (\<lambda>h. Join [h, ''.inferencerig'']) user_home)"

definition homePath :: "string option \<Rightarrow> string list \<Rightarrow> string option" where
  "homePath home sub = map_option (\<lambda>h. Join (h # sub)) home"

definition ConfigPath :: "string \<Rightarrow> string option \<Rightarrow> string option" where
  "ConfigPath env home = (if env \<noteq> [] then Some env else homePath home [''config.yaml''])"

definition GeneratedDir :: "string option \<Rightarrow> string \<Rightarrow> gerr + string" where
  "GeneratedDir home backend =
     (if backend = [] then Inl (Errorw (Fmt ''backend name is required'' []) [])
      else if backend = ''.'' \<or> backend = dotdot \<or> contains_any backend [slash, CHR 0x5C]
      then Inl (Errorw (Fmt ''invalid backend name %q'' [Str backend]) [])
      else case homePath home [''generated'', backend] of
          None \<Rightarrow> Inl (Errorw (Fmt ''resolve user home: %w'' []) [])
        | Some p \<Rightarrow> Inr p)"

record paths =
  pt_home :: string
  pt_config :: string
  pt_profiles :: string
  pt_cache :: string
  pt_storage :: string
  pt_socket :: string
  pt_downloads :: string

definition ResolvePaths :: "string option \<Rightarrow> string \<Rightarrow> paths option" where
  "ResolvePaths home config_env =
     (case (home, ConfigPath config_env home) of
        (Some h, Some c) \<Rightarrow>
          Some \<lparr>pt_home = h, pt_config = c, pt_profiles = Join [h, ''profiles''],
                pt_cache = Join [h, ''cache'', ''hf-catalog''], pt_storage = Join [h, ''models''],
                pt_socket = Join [h, ''run'', ''control.sock''],
                pt_downloads = Join [h, ''state'', ''downloads'']\<rparr>
      | _ \<Rightarrow> None)"

definition ExpandHome :: "string option \<Rightarrow> string \<Rightarrow> string" where
  "ExpandHome user_home path =
     (if path \<noteq> ''~'' \<and> \<not> has_prefix path ''~/'' then path
      else case user_home of None \<Rightarrow> path | Some h \<Rightarrow> Join [h, tl path])"

section \<open>Properties\<close>

lemma Parse_Inr:
  "Parse decode data = Inr c \<Longrightarrow>
     \<exists>c0. decode Default data = Inr c0 \<and> c = applyDefaults c0 \<and> 0 \<le> c_retention c \<and>
       ValidateStartupServices (case c_startup c of None \<Rightarrow> [] | Some ss \<Rightarrow> ss) = None \<and>
       ValidateSecurity c = None"
  by (auto simp: Parse_def Let_def split: sum.splits option.splits if_splits)

lemma ValidateStartupServices_None:
  "ValidateStartupServices ss = None \<longleftrightarrow> set ss \<subseteq> {StartupServiceControl, StartupServiceWeb}"
  by (induction ss) auto

lemma LoadOrDefault_cases:
  "LoadOrDefault decode file = Inr c \<Longrightarrow>
     c = Default \<or> (\<exists>data. file = Inr data \<and> Parse decode data = Inr c)"
  by (auto simp: LoadOrDefault_def LoadFile_def split: sum.splits if_splits)

lemma Default_loopback: "\<not> sc_disable_auth (c_security Default)"
  by (simp add: Default_def)

text \<open>
  C21: the daemon never serves the network unauthenticated by accident. Whatever the file says, a
  configuration that loads and disables authentication either listens on loopback only or carries
  the second, explicit key; it names only known startup services and has a listen address.
\<close>

theorem loaded_config_is_safe:
  assumes "LoadOrDefault decode file = Inr c"
  shows "(sc_disable_auth (c_security c) \<longrightarrow>
            \<not> AllowsNonLoopback (c_listen c) \<or> sc_allow_exposed (c_security c)) \<and>
         c_listen c \<noteq> [] \<and> 0 \<le> c_retention c \<and>
         (\<exists>ss. c_startup c = Some ss \<and> set ss \<subseteq> {StartupServiceControl, StartupServiceWeb})"
  using LoadOrDefault_cases [OF assms]
proof
  assume "c = Default"
  then show ?thesis
    by (simp add: Default_def DefaultListenAddr_def DefaultStartupServices_def hour_def)
next
  assume "\<exists>data. file = Inr data \<and> Parse decode data = Inr c"
  then obtain c0 where "c = applyDefaults c0" "0 \<le> c_retention c" "ValidateSecurity c = None"
      and ss: "ValidateStartupServices (case c_startup c of None \<Rightarrow> [] | Some ss \<Rightarrow> ss) = None"
    by (blast dest: Parse_Inr)
  moreover from this have "c_listen c \<noteq> []" "c_startup c \<noteq> None"
    by (auto simp: applyDefaults_def cmp_or_def DefaultListenAddr_def split: option.splits)
  ultimately show ?thesis
    by (auto simp: ValidateSecurity_def ValidateStartupServices_None split: if_splits)
qed

definition ex_config :: "bool \<Rightarrow> string \<Rightarrow> config" where
  "ex_config off addr =
     Default\<lparr>c_listen := addr, c_security := (c_security Default)\<lparr>sc_disable_auth := off\<rparr>\<rparr>"

theorem loaded_config_is_safe_witness:
  "\<not> AllowsNonLoopback (c_listen (ex_config True ''[::1]:7000''))"
proof -
  have "ParseIP ''::1'' = Some [0, 0, 0, 0, 0, 0, 0, 1]"
    and "SplitHostPort ''[::1]:7000'' = Some (''::1'', ''7000'')" by code_simp+
  then have l: "AllowsNonLoopback ''[::1]:7000'' = False"
    by (simp add: AllowsNonLoopback_def IsLoopback_def)
  have "LoadOrDefault (\<lambda>d data. Inr (ex_config True ''[::1]:7000'')) (Inr []) = Inr (ex_config True ''[::1]:7000'')"
    by (simp add: LoadOrDefault_def LoadFile_def Parse_def applyDefaults_def ex_config_def Default_def
        cmp_or_def hour_def DefaultAuthTokenEnv_def DefaultStartupServices_def ValidateSecurity_def l)
  from loaded_config_is_safe [OF this] show ?thesis by (simp add: ex_config_def Default_def)
qed

end
