(* ===== verification/Profiles.thy ===== *)
theory Profiles
  imports Backend Config Files
begin

text \<open>
  The profile store: \<^verbatim>\<open>core/profiles/validate.go\<close> and \<^verbatim>\<open>core/profiles/store.go\<close>. A profile is the
  file \<^verbatim>\<open><root>/<name>/profile.yaml\<close>. Decoding YAML into a profile is the library's (\<open>ps_decode\<close>,
  which refuses unknown fields); \<open>ps_lookup\<close> finds the backend named by a profile. The caller's
  context is not cancelled. \<open>profile_store\<close> is the interface the control manager relies on.
\<close>

section \<open>Validation\<close>

definition safe_char :: "char \<Rightarrow> bool" where
  "safe_char c =
     (let n = of_char c :: nat
      in (65 \<le> n \<and> n \<le> 90) \<or> (97 \<le> n \<and> n \<le> 122) \<or> (48 \<le> n \<and> n \<le> 57) \<or>
         c = CHR ''.'' \<or> c = CHR ''_'' \<or> c = CHR ''-'')"

definition ValidateName :: "string \<Rightarrow> gerr option" where
  "ValidateName name =
     (if name = [] then Some (Errorw (Fmt ''%w: profile name is required'' []) [Sentinel ErrProfileInvalid])
      else if name = ''.'' \<or> name = ''..'' \<or> \<not> list_all safe_char name
      then Some (Errorw (Fmt ''%w: invalid profile name %q'' [Str name]) [Sentinel ErrProfileInvalid])
      else None)"

definition isEmptyVersion :: "yval \<Rightarrow> bool" where
  "isEmptyVersion v = (v = YNull \<or> v = YStr [])"

definition invalid :: "string \<Rightarrow> msg list \<Rightarrow> gerr" where
  "invalid f args = Errorw (Fmt f args) [Sentinel ErrProfileInvalid]"

definition normalizeCommon :: "string option \<Rightarrow> string \<Rightarrow> profile \<Rightarrow> gerr + profile" where
  "normalizeCommon user_home name parsed =
     (if p_name parsed \<noteq> [] \<and> p_name parsed \<noteq> name
      then Inl (invalid ''%w: profile name %q must match profile %q'' [Str (p_name parsed), Str name])
      else
        (let eff = parsed\<lparr>p_name := name\<rparr>
         in if isEmptyVersion (p_version eff) then Inl (invalid ''%w: version is required'' [])
            else if p_backend eff = [] then Inl (invalid ''%w: backend is required'' [])
            else if ls_port (p_listen eff) < 1 \<or> ls_port (p_listen eff) > 65535
            then Inl (invalid ''%w: invalid listen port'' [])
            else if ms_source (p_model eff) = [] then Inl (invalid ''%w: model.source is required'' [])
            else Inr (eff\<lparr>p_model := (p_model eff)\<lparr>ms_source := ExpandHome user_home (ms_source (p_model eff))\<rparr>\<rparr>)))"

section \<open>The store\<close>

record profile_cfg =
  ps_root :: string
  ps_limit :: nat
  ps_decode :: "string \<Rightarrow> gerr + profile"
  ps_lookup :: "string \<Rightarrow> gerr + backend"
  ps_home :: "string option"

definition profileFileName :: string where
  "profileFileName = ''profile.yaml''"

definition validateBackend :: "profile_cfg \<Rightarrow> profile \<Rightarrow> gerr + profile" where
  "validateBackend st eff =
     (case ps_lookup st (p_backend eff) of
        Inl e \<Rightarrow> Inl (invalid ''%w: backend %q: %v'' [Str (p_backend eff), error_text e])
      | Inr b \<Rightarrow>
          (case b_validate b eff of
             Inl e \<Rightarrow> Inl (invalid ''%w: backend %q: %v'' [Str (p_backend eff), error_text e])
           | Inr p \<Rightarrow> Inr p))"

definition parseEffective :: "profile_cfg \<Rightarrow> string \<Rightarrow> string \<Rightarrow> gerr + (profile \<times> profile)" where
  "parseEffective st name content =
     (if length content > ps_limit st then Inl (Sentinel ErrProfileTooLarge)
      else if trim_space content = [] then Inl (invalid ''%w: profile.yaml is empty'' [])
      else case ps_decode st content of
          Inl e \<Rightarrow> Inl (invalid ''%w: %v'' [error_text e])
        | Inr parsed \<Rightarrow>
            (case normalizeCommon (ps_home st) name parsed of
               Inl e \<Rightarrow> Inl e
             | Inr eff \<Rightarrow>
                 (case validateBackend st eff of Inl e \<Rightarrow> Inl e | Inr v \<Rightarrow> Inr (parsed, v))))"

definition profileDir :: "profile_cfg \<Rightarrow> string \<Rightarrow> gerr + string" where
  "profileDir st name =
     (case ValidateName name of
        Some e \<Rightarrow> Inl e
      | None \<Rightarrow>
          (let clean_dir = Clean (Join [ps_root st, name])
           in if clean_dir \<noteq> Join [ps_root st, name]
              then Inl (invalid ''%w: profile path escapes root'' []) else Inr clean_dir))"

definition buildDocument :: "profile_cfg \<Rightarrow> string \<Rightarrow> string \<Rightarrow> string \<Rightarrow> gerr + profile_doc" where
  "buildDocument st name dir content =
     (case parseEffective st name content of
        Inl e \<Rightarrow> Inl e
      | Inr (parsed, eff) \<Rightarrow>
          Inr \<lparr>d_name = name, d_dir = dir, d_path = Join [dir, profileFileName], d_yaml = content,
               d_parsed = parsed, d_effective = eff\<rparr>)"

definition ps_rejectSymlink :: "io_env \<Rightarrow> string \<Rightarrow> fs \<Rightarrow> gerr option" where
  "ps_rejectSymlink io p fs =
     (case RejectSymlink io p fs of
        None \<Rightarrow> None
      | Some e \<Rightarrow> if errors_is e ErrSymlink then Some (invalid ''%w: %v'' [error_text e]) else Some e)"

text \<open>The read stops one byte past the limit; that many bytes are already too many.\<close>

definition readLimited :: "profile_cfg \<Rightarrow> io_env \<Rightarrow> string \<Rightarrow> fs \<Rightarrow> gerr + string" where
  "readLimited st io p fs =
     (case ReadFile io p fs of
        Inl e \<Rightarrow> Inl e
      | Inr file \<Rightarrow>
          (let data = take (ps_limit st + 1) file
           in if length data > ps_limit st then Inl (Sentinel ErrProfileTooLarge) else Inr data))"

definition ps_Get :: "profile_cfg \<Rightarrow> io_env \<Rightarrow> string \<Rightarrow> fs \<Rightarrow> gerr + profile_doc" where
  "ps_Get st io name fs =
     (case profileDir st name of
        Inl e \<Rightarrow> Inl e
      | Inr dir \<Rightarrow>
          (case ps_rejectSymlink io dir fs of
             Some e \<Rightarrow> Inl e
           | None \<Rightarrow>
               (let path = Join [dir, profileFileName]
                in case ps_rejectSymlink io path fs of
                     Some e \<Rightarrow> Inl e
                   | None \<Rightarrow>
                       (case readLimited st io path fs of
                          Inl e \<Rightarrow>
                            if errors_is e ErrNotExist
                            then Inl (Errorw (Fmt ''profile %q not found: %w'' [Str name, error_text e]) [e])
                            else Inl e
                        | Inr data \<Rightarrow> buildDocument st name dir data))))"

definition ps_Validate :: "profile_cfg \<Rightarrow> string \<Rightarrow> string \<Rightarrow> gerr + profile_doc" where
  "ps_Validate st name content =
     (case profileDir st name of
        Inl e \<Rightarrow> Inl e
      | Inr dir \<Rightarrow> buildDocument st name dir (normalize content))"

definition ps_writeFile ::
    "io_env \<Rightarrow> string \<Rightarrow> string \<Rightarrow> nat \<Rightarrow> bool \<Rightarrow> fs \<Rightarrow> (gerr + write_result) \<times> fs" where
  "ps_writeFile io path content perm backup fs =
     (let opts = \<lparr>wo_perm = perm, wo_backup = backup, wo_normalize = normalize\<rparr>
      in if backup then
           (case ps_rejectSymlink io path fs of
              Some e \<Rightarrow>
                if errors_is e ErrNotExist then WriteFile io path content opts fs else (Inl e, fs)
            | None \<Rightarrow> WriteFile io path content opts fs)
         else WriteFile io path content opts fs)"

definition ps_Create ::
    "profile_cfg \<Rightarrow> io_env \<Rightarrow> string \<Rightarrow> string \<Rightarrow> fs \<Rightarrow> (gerr + profile_doc) \<times> fs" where
  "ps_Create st io name content fs =
     (case ps_Validate st name content of
        Inl e \<Rightarrow> (Inl e, fs)
      | Inr doc \<Rightarrow>
          (case Lstat io (d_dir doc) fs of
             Inr _ \<Rightarrow> (Inl (Errorw (Fmt ''%w: %s'' [Str name]) [Sentinel ErrProfileExists]), fs)
           | Inl e \<Rightarrow>
               if \<not> errors_is e ErrNotExist then (Inl e, fs)
               else
                 (case MkdirAll io (d_dir doc) fs of
                    (Some e, fs1) \<Rightarrow> (Inl (wrap ''create profile dir: %w'' e), fs1)
                  | (None, fs1) \<Rightarrow>
                      (case io_fail io (OpChmod (d_dir doc)) of
                         Some e \<Rightarrow> (Inl (wrap ''chmod profile dir: %w'' e), fs1)
                       | None \<Rightarrow>
                           (case ps_writeFile io (d_path doc) (d_yaml doc) 384 False fs1 of
                              (Inl e, fs2) \<Rightarrow> (Inl e, fs2)
                            | (Inr _, fs2) \<Rightarrow> (ps_Get st io name fs2, fs2))))))"

definition ps_Replace ::
    "profile_cfg \<Rightarrow> io_env \<Rightarrow> string \<Rightarrow> string \<Rightarrow> fs \<Rightarrow> (gerr + write_result) \<times> fs" where
  "ps_Replace st io name content fs =
     (case ps_Get st io name fs of
        Inl e \<Rightarrow> (Inl e, fs)
      | Inr cur \<Rightarrow>
          (case parseEffective st name (normalize content) of
             Inl e \<Rightarrow> (Inl e, fs)
           | Inr _ \<Rightarrow> ps_writeFile io (d_path cur) content 384 True fs))"

definition ps_Delete :: "profile_cfg \<Rightarrow> io_env \<Rightarrow> string \<Rightarrow> fs \<Rightarrow> (gerr + string) \<times> fs" where
  "ps_Delete st io name fs =
     (case ps_Get st io name fs of
        Inl e \<Rightarrow> (Inl e, fs)
      | Inr cur \<Rightarrow>
          (case RemoveAll io (d_dir cur) fs of
             (Some e, fs1) \<Rightarrow> (Inl (wrap ''delete profile dir: %w'' e), fs1)
           | (None, fs1) \<Rightarrow>
               (case io_fail io (OpSyncDir (ps_root st)) of
                  Some e \<Rightarrow> (Inl e, fs1)
                | None \<Rightarrow> (Inr (d_dir cur), fs1))))"

text \<open>One document per directory; the first that does not load fails the listing.\<close>

fun get_each :: "profile_cfg \<Rightarrow> io_env \<Rightarrow> fs \<Rightarrow> (string \<times> node) list \<Rightarrow> gerr + profile_doc list" where
  "get_each st io fs [] = Inr []"
| "get_each st io fs ((name, n) # es) =
     (if n \<noteq> NDir then get_each st io fs es
      else case ps_Get st io name fs of
          Inl e \<Rightarrow> Inl e
        | Inr d \<Rightarrow>
            (case get_each st io fs es of Inl e \<Rightarrow> Inl e | Inr ds \<Rightarrow> Inr (d # ds)))"

definition ps_ListDocuments :: "profile_cfg \<Rightarrow> io_env \<Rightarrow> fs \<Rightarrow> gerr + profile_doc list" where
  "ps_ListDocuments st io fs =
     (case ReadDir io (ps_root st) fs of
        Inl e \<Rightarrow> if errors_is e ErrNotExist then Inr [] else Inl (wrap ''read profiles dir: %w'' e)
      | Inr entries \<Rightarrow> get_each st io fs entries)"

record profile_summary =
  sm_name :: string
  sm_dir :: string
  sm_path :: string
  sm_backend :: string
  sm_model :: model_spec
  sm_host :: string
  sm_port :: int

definition summaryOf :: "profile_doc \<Rightarrow> profile_summary" where
  "summaryOf d =
     \<lparr>sm_name = d_name d, sm_dir = d_dir d, sm_path = d_path d, sm_backend = p_backend (d_effective d),
      sm_model = p_model (d_effective d), sm_host = ls_host (p_listen (d_effective d)),
      sm_port = ls_port (p_listen (d_effective d))\<rparr>"

definition ps_List :: "profile_cfg \<Rightarrow> io_env \<Rightarrow> fs \<Rightarrow> gerr + profile_summary list" where
  "ps_List st io fs =
     (case ps_ListDocuments st io fs of Inl e \<Rightarrow> Inl e | Inr ds \<Rightarrow> Inr (map summaryOf ds))"

section \<open>Names and paths\<close>

lemma safe_char_slash [simp]: "\<not> safe_char slash"
  by (simp add: safe_char_def slash_def)

lemma ValidateName_plain: "ValidateName name = None \<longleftrightarrow> list_all safe_char name \<and> plain_elem name"
  by (auto simp: ValidateName_def plain_elem_def dotdot_def list_all_iff)

definition store_ok :: "profile_cfg \<Rightarrow> bool" where
  "store_ok st \<longleftrightarrow> base_dir (ps_root st)"

lemma plain_profileFile [simp]: "plain_elem profileFileName"
  by (simp add: plain_elem_def profileFileName_def dotdot_def slash_def)

lemma profileDir_Inr:
  assumes "store_ok st"
  shows "profileDir st name = Inr dir \<longleftrightarrow> ValidateName name = None \<and> dir = ps_root st @ slash # name"
proof -
  have "ps_root st \<noteq> []" using assms by (simp add: store_ok_def)
  moreover have "plain_elem name \<Longrightarrow> Clean (ps_root st @ slash # name) = ps_root st @ slash # name"
    using assms base_dir_Join(1) [of "ps_root st" name] Join_base [of "ps_root st" name]
    by (simp add: store_ok_def base_dir_def)
  ultimately show ?thesis
    using assms Join_base [of "ps_root st" name] ValidateName_plain [of name] plain_elemD [of name]
    by (auto simp: profileDir_def Let_def store_ok_def split: option.splits)
qed

text \<open>
  A profile lives exactly one level below the root. A name is accepted only if it is a single
  plain path element; then its directory is the root with that one element added, two names never
  share a directory, and the check against escaping the root can never fire.
\<close>

theorem profileDir_contained:
  assumes "store_ok st" and "profileDir st name = Inr dir"
  shows "elems dir = elems (ps_root st) @ [name] \<and> rooted dir \<and>
         (profileDir st name' = Inr dir \<longrightarrow> name' = name) \<and>
         Clean (Join [ps_root st, name]) = Join [ps_root st, name]"
proof -
  have n: "plain_elem name" "dir = ps_root st @ slash # name"
    using assms by (auto simp: profileDir_Inr ValidateName_plain)
  then have d: "dir = Join [ps_root st, name]" using assms(1) by (simp add: Join_base store_ok_def)
  show ?thesis
    using n d assms base_dir_Join [of "ps_root st" name]
    by (auto simp: profileDir_Inr store_ok_def base_dir_def)
qed

section \<open>Reading depends on one directory\<close>

definition pdir :: "profile_cfg \<Rightarrow> string \<Rightarrow> string" where
  "pdir st name = ps_root st @ slash # name"

definition pfile :: "profile_cfg \<Rightarrow> string \<Rightarrow> string" where
  "pfile st name = pdir st name @ slash # profileFileName"

lemma base_pdir: "store_ok st \<Longrightarrow> ValidateName name = None \<Longrightarrow> base_dir (pdir st name)"
  using base_dir_Join(1) [of "ps_root st" name] Join_base [of "ps_root st" name]
  by (simp add: store_ok_def pdir_def ValidateName_plain)

lemma elems_pdir: "store_ok st \<Longrightarrow> ValidateName name = None \<Longrightarrow> elems (pdir st name) = elems (ps_root st) @ [name]"
  using base_dir_Join(2) [of "ps_root st" name] Join_base [of "ps_root st" name]
  by (simp add: store_ok_def pdir_def ValidateName_plain)

lemma Join_pfile: "store_ok st \<Longrightarrow> ValidateName name = None \<Longrightarrow> Join [pdir st name, profileFileName] = pfile st name"
  using Join_base [OF base_pdir plain_profileFile] by (simp add: pfile_def)

lemma elems_pfile:
  "store_ok st \<Longrightarrow> ValidateName name = None \<Longrightarrow>
     elems (pfile st name) = elems (ps_root st) @ [name, profileFileName]"
  using base_dir_Join(2) [OF base_pdir plain_profileFile, of st name] Join_pfile [of st name]
  by (simp add: elems_pdir)

lemma ps_rejectSymlink_cong:
  "map_of fs p = map_of fs' p \<Longrightarrow> ps_rejectSymlink io p fs = ps_rejectSymlink io p fs'"
  by (cases "io_fail io (OpLstat p)") (simp_all add: ps_rejectSymlink_def RejectSymlink_def Lstat_def)

lemma ps_rejectSymlink_None:
  "ps_rejectSymlink io p fs = None \<longleftrightarrow>
     io_fail io (OpLstat p) = None \<and> (\<exists>n. map_of fs p = Some n \<and> (\<forall>q. n \<noteq> NLink q))"
  by (auto simp: ps_rejectSymlink_def RejectSymlink_def Lstat_def split: option.splits sum.splits node.splits)

lemma follow_cong:
  "map_of fs p = map_of fs' p \<Longrightarrow> map_of fs p = Some n \<Longrightarrow> (\<forall>q. n \<noteq> NLink q) \<Longrightarrow> follow k fs p = follow k fs' p"
proof -
  assume a: "map_of fs p = map_of fs' p" "map_of fs p = Some n" "\<forall>q. n \<noteq> NLink q"
  then have "map_of fs' p = Some n" by simp
  with a(2,3) show ?thesis by (cases n) (auto simp: follow_plain)
qed

lemma readLimited_cong:
  assumes "map_of fs p = map_of fs' p" and "ps_rejectSymlink io p fs = None"
  shows "readLimited st io p fs = readLimited st io p fs'"
proof -
  obtain n where "map_of fs p = Some n" "\<forall>q. n \<noteq> NLink q"
    using assms(2) by (auto simp: ps_rejectSymlink_None)
  then have "follow 40 fs p = follow 40 fs' p" using follow_cong [OF assms(1)] by blast
  then show ?thesis by (cases "io_fail io (OpOpen p)") (simp_all add: readLimited_def ReadFile_def)
qed

lemma Get_def_ok:
  assumes "store_ok st" and "ValidateName name = None"
  shows "ps_Get st io name fs =
     (case ps_rejectSymlink io (pdir st name) fs of
        Some e \<Rightarrow> Inl e
      | None \<Rightarrow>
          (case ps_rejectSymlink io (pfile st name) fs of
             Some e \<Rightarrow> Inl e
           | None \<Rightarrow>
               (case readLimited st io (pfile st name) fs of
                  Inl e \<Rightarrow>
                    if errors_is e ErrNotExist
                    then Inl (Errorw (Fmt ''profile %q not found: %w'' [Str name, error_text e]) [e])
                    else Inl e
                | Inr data \<Rightarrow> buildDocument st name (pdir st name) data)))"
proof -
  have "profileDir st name = Inr (pdir st name)"
    using assms by (simp add: profileDir_Inr pdir_def)
  then show ?thesis
    using assms by (cases "ps_rejectSymlink io (pdir st name) fs") (simp_all add: ps_Get_def Join_pfile Let_def)
qed

lemma Get_cong:
  assumes "store_ok st" and "map_of fs (pdir st name) = map_of fs' (pdir st name)"
    and "map_of fs (pfile st name) = map_of fs' (pfile st name)"
  shows "ps_Get st io name fs = ps_Get st io name fs'"
proof (cases "ValidateName name")
  case None
  then show ?thesis
    using ps_rejectSymlink_cong [OF assms(2), of io] ps_rejectSymlink_cong [OF assms(3), of io]
      readLimited_cong [OF assms(3), of io st]
    by (auto simp: Get_def_ok [OF assms(1)] split: option.splits)
next
  case (Some e)
  then show ?thesis by (simp add: ps_Get_def profileDir_def)
qed

text \<open>What a successful read means: a regular file within the limit that parses and validates.\<close>

lemma Get_Inr:
  assumes "store_ok st"
  shows "ps_Get st io name fs = Inr d \<longleftrightarrow>
     ValidateName name = None \<and> io_fail io (OpLstat (pdir st name)) = None \<and>
     (\<exists>n. map_of fs (pdir st name) = Some n \<and> (\<forall>q. n \<noteq> NLink q)) \<and>
     io_fail io (OpLstat (pfile st name)) = None \<and>
     io_fail io (OpOpen (pfile st name)) = None \<and> io_fail io (OpRead (pfile st name)) = None \<and>
     (\<exists>data m. map_of fs (pfile st name) = Some (NFile data m) \<and> length data \<le> ps_limit st \<and>
        buildDocument st name (pdir st name) data = Inr d)"
    (is "?L \<longleftrightarrow> ?R")
proof (cases "ValidateName name")
  case None
  have plain: "follow 40 fs p = (case map_of fs p of None \<Rightarrow> None | Some n \<Rightarrow> Some n)"
    if "map_of fs p = Some n" "\<forall>q. n \<noteq> NLink q" for p n
    using that by (cases n) (auto simp: follow_plain)
  show ?thesis
  proof (cases "ps_rejectSymlink io (pdir st name) fs = None \<and> ps_rejectSymlink io (pfile st name) fs = None")
    case True
    then obtain n where n: "map_of fs (pfile st name) = Some n" "\<forall>q. n \<noteq> NLink q"
      by (auto simp: ps_rejectSymlink_None)
    from True have "?L \<longleftrightarrow> (\<exists>data. readLimited st io (pfile st name) fs = Inr data \<and>
        buildDocument st name (pdir st name) data = Inr d)"
      by (simp add: Get_def_ok [OF assms None] split: sum.splits)
    also have "\<dots> \<longleftrightarrow> io_fail io (OpOpen (pfile st name)) = None \<and> io_fail io (OpRead (pfile st name)) = None \<and>
        (\<exists>data m. n = NFile data m \<and> length data \<le> ps_limit st \<and> buildDocument st name (pdir st name) data = Inr d)"
      using plain [OF n]  n
      by (cases n) (auto simp: readLimited_def ReadFile_def Let_def split: option.splits)
    finally show ?thesis using True None n by (auto simp: ps_rejectSymlink_None)
  next
    case False
    then have "\<not> ?L" by (auto simp: Get_def_ok [OF assms None] split: option.splits)
    moreover have "\<not> ?R" using False by (auto simp: ps_rejectSymlink_None)
    ultimately show ?thesis by simp
  qed
next
  case (Some e)
  then show ?thesis by (simp add: ps_Get_def profileDir_def)
qed

section \<open>What a write can touch\<close>

lemma first_slash:
  "slash \<notin> set a \<Longrightarrow> slash \<notin> set b \<Longrightarrow> a @ slash # x = b @ slash # y \<longleftrightarrow> a = b \<and> x = y"
  by (induction a arbitrary: b) (case_tac b; auto)+

lemma elems_ancestor:
  assumes "rooted p" and "q \<in> set (ancestors p)"
  obtains i where "elems q = take i (elems p)" and "rooted q"
proof -
  obtain i where q: "q = mk_path (rooted p) (take i (elems p))"
    using assms(2) by (auto simp: ancestors_def)
  have "clean_list True (take i (elems p))"
    using rooted_elems_plain [OF assms(1)] by (auto simp: clean_list_rooted dest: in_set_takeD)
  with q assms(1) that show ?thesis by simp
qed

definition own_path :: "profile_cfg \<Rightarrow> string \<Rightarrow> string \<Rightarrow> bool" where
  "own_path st name q \<longleftrightarrow> (\<exists>x. q = pdir st name @ slash # x)"

definition confined :: "profile_cfg \<Rightarrow> string \<Rightarrow> fs \<Rightarrow> fs \<Rightarrow> bool" where
  "confined st name fs fs' \<longleftrightarrow>
     (\<forall>q. map_of fs' q = map_of fs q \<or> own_path st name q \<or> q \<in> set (ancestors (pdir st name)))"

lemma confined_refl [simp]: "confined st name fs fs"
  by (simp add: confined_def)

lemma confined_trans: "confined st name fs fs1 \<Longrightarrow> confined st name fs1 fs2 \<Longrightarrow> confined st name fs fs2"
  by (force simp: confined_def)

lemma other_paths:
  assumes "store_ok st" "ValidateName n = None" "ValidateName n' = None" "n' \<noteq> n"
  shows "\<not> own_path st n (pdir st n')" "\<not> own_path st n (pfile st n')"
    "pdir st n' \<notin> set (ancestors (pdir st n))" "pfile st n' \<notin> set (ancestors (pdir st n))"
proof -
  have p: "slash \<notin> set n" "slash \<notin> set n'" using assms(2,3) plain_elemD by (auto simp: ValidateName_plain)
  show "\<not> own_path st n (pdir st n')" using p by (auto simp: own_path_def pdir_def)
  show "\<not> own_path st n (pfile st n')"
    using p assms(4) by (auto simp: own_path_def pdir_def pfile_def first_slash)
  have r: "rooted (pdir st n)" using base_pdir [OF assms(1,2)] by (simp add: base_dir_def)
  show "pdir st n' \<notin> set (ancestors (pdir st n))"
  proof
    assume "pdir st n' \<in> set (ancestors (pdir st n))"
    then obtain i where "elems (pdir st n') = take i (elems (pdir st n))" by (rule elems_ancestor [OF r])
    then have "elems (ps_root st) @ [n'] = take i (elems (ps_root st) @ [n])"
      by (simp add: elems_pdir assms)
    then show False using assms(4) by (cases "i \<le> length (elems (ps_root st))") (auto dest: arg_cong [of _ _ length])
  qed
  show "pfile st n' \<notin> set (ancestors (pdir st n))"
  proof
    assume "pfile st n' \<in> set (ancestors (pdir st n))"
    then obtain i where "elems (pfile st n') = take i (elems (pdir st n))" by (rule elems_ancestor [OF r])
    then have "length (elems (ps_root st) @ [n', profileFileName]) = length (take i (elems (ps_root st) @ [n]))"
      by (simp add: elems_pdir elems_pfile assms)
    then show False by simp
  qed
qed

lemma Get_confined:
  assumes "store_ok st" "ValidateName n = None" "confined st n fs fs'" "n' \<noteq> n"
  shows "ps_Get st io n' fs' = ps_Get st io n' fs"
proof (cases "ValidateName n'")
  case None
  from other_paths [OF assms(1,2) None assms(4)] show ?thesis
    by (intro Get_cong [OF assms(1)]) (use assms(3) in \<open>auto simp: confined_def\<close>)
next
  case (Some e)
  then show ?thesis by (simp add: ps_Get_def profileDir_def)
qed

lemma temp_pfile:
  assumes "store_ok st" "ValidateName n = None"
  shows "temp_path io (pfile st n) = pdir st n @ ''/.profile.yaml-'' @ io_temp io"
proof -
  have "Dir (pfile st n) = pdir st n" "Base (pfile st n) = profileFileName"
    using Dir_base [OF base_pdir [OF assms], of profileFileName] Base_base [of profileFileName "pdir st n"]
      plain_elemD [OF plain_profileFile] by (simp_all add: pfile_def)
  then show ?thesis by (simp add: temp_path_def profileFileName_def)
qed

lemma pfile_temp_neq:
  assumes "store_ok st" "ValidateName n = None"
  shows "temp_path io (pfile st n) \<noteq> pfile st n"
    and "temp_path io (pfile st n) \<noteq> backup_path io (pfile st n)"
    and "temp_path io (pfile st n) \<noteq> pdir st n"
  unfolding temp_pfile [OF assms] by (simp_all add: pfile_def profileFileName_def slash_def backup_path_def)

lemma own_paths:
  assumes "store_ok st" "ValidateName n = None"
  shows "own_path st n (pfile st n)" "own_path st n (temp_path io (pfile st n))"
    "own_path st n (backup_path io (pfile st n))"
  unfolding own_path_def temp_pfile [OF assms] by (simp_all add: pfile_def slash_def backup_path_def)

lemma writeReplacement_confined:
  assumes "store_ok st" "ValidateName n = None"
    and "writeReplacement io (pfile st n) data perm b fs = (r, fs')"
  shows "confined st n fs fs'"
  using writeReplacement_cases [OF assms(3) pfile_temp_neq(1) [OF assms(1,2)]] own_paths [OF assms(1,2)]
  by (auto simp: abandoned_def replaced_def confined_def split: if_splits)

lemma writeBackup_confined:
  assumes "store_ok st" "ValidateName n = None" and "writeBackup io (pfile st n) fs = (r, fs')"
  shows "confined st n fs fs'"
  using writeBackup_cases [OF assms(3)] own_paths(3) [OF assms(1,2)]
  by (auto simp: confined_def split: if_splits)

lemma WriteFile_confined:
  assumes "store_ok st" "ValidateName n = None" and "WriteFile io (pfile st n) c opts fs = (r, fs')"
  shows "confined st n fs fs'"
proof (cases "wo_backup opts")
  case True
  obtain rb fb where wb: "writeBackup io (pfile st n) fs = (rb, fb)" by (cases "writeBackup io (pfile st n) fs")
  note b = writeBackup_confined [OF assms(1,2) wb]
  show ?thesis
  proof (cases rb)
    case (Inl e)
    with True wb assms(3) b show ?thesis by (simp add: WriteFile_def filedoc_writeFile_def Let_def)
  next
    case (Inr bp)
    with True wb assms(3) have "writeReplacement io (pfile st n) (wo_normalize opts c) (snd bp) (fst bp) fb = (r, fs')"
      by (simp add: WriteFile_def filedoc_writeFile_def Let_def split: prod.splits)
    from b writeReplacement_confined [OF assms(1,2) this] show ?thesis by (rule confined_trans)
  qed
next
  case False
  with assms(3) show ?thesis
    by (auto simp: WriteFile_def filedoc_writeFile_def Let_def intro: writeReplacement_confined [OF assms(1,2)])
qed

lemma ps_writeFile_confined:
  assumes "store_ok st" "ValidateName n = None" and "ps_writeFile io (pfile st n) c perm b fs = (r, fs')"
  shows "confined st n fs fs'"
  using assms(3) WriteFile_confined [OF assms(1,2)]
  by (auto simp: ps_writeFile_def Let_def split: if_splits option.splits)

section \<open>The operations\<close>

lemma Get_name: "store_ok st \<Longrightarrow> ps_Get st io name fs = Inr d \<Longrightarrow> ValidateName name = None"
  by (simp add: Get_Inr)

lemma buildDocument_fields:
  "buildDocument st name dir content = Inr d \<Longrightarrow>
     d_name d = name \<and> d_dir d = dir \<and> d_path d = Join [dir, profileFileName] \<and> d_yaml d = content \<and>
     (\<exists>parsed. parseEffective st name content = Inr (parsed, d_effective d))"
  by (auto simp: buildDocument_def split: sum.splits)

lemma buildDocument_Inr:
  "parseEffective st name content = Inr pe \<Longrightarrow> \<exists>d. buildDocument st name dir content = Inr d \<and> d_yaml d = content"
  by (cases pe) (simp add: buildDocument_def)

lemma Validate_Inr:
  assumes "store_ok st"
  shows "ps_Validate st name content = Inr d \<longleftrightarrow>
     ValidateName name = None \<and> buildDocument st name (pdir st name) (normalize content) = Inr d"
proof (cases "ValidateName name")
  case None
  then have "profileDir st name = Inr (pdir st name)" using assms by (simp add: profileDir_Inr pdir_def)
  then show ?thesis using None by (simp add: ps_Validate_def)
next
  case (Some e)
  then show ?thesis by (simp add: ps_Validate_def profileDir_def)
qed

lemma doc_paths:
  assumes "store_ok st" "ValidateName name = None" "buildDocument st name (pdir st name) c = Inr d"
  shows "d_dir d = pdir st name" "d_path d = pfile st name"
  using buildDocument_fields [OF assms(3)] Join_pfile [OF assms(1,2)] by auto

text \<open>A call that fails for a hidden reason does not claim that the file is missing.\<close>

definition io_ok :: "io_env \<Rightarrow> bool" where
  "io_ok io \<longleftrightarrow> (\<forall>op e. io_fail io op = Some e \<longrightarrow> \<not> errors_is e ErrNotExist)"

lemma Lstat_missing:
  "io_ok io \<Longrightarrow> Lstat io p fs = Inl e \<Longrightarrow> errors_is e ErrNotExist \<Longrightarrow> map_of fs p = None"
  by (auto simp: Lstat_def io_ok_def split: option.splits)

lemma Create_cases:
  assumes ok: "store_ok st" and io: "io_ok io" and c: "ps_Create st io name content fs = (r, fs')"
  shows "isl r \<and> fs' = fs \<or>
    (ValidateName name = None \<and> map_of fs (pdir st name) = None \<and> confined st name fs fs' \<and>
     (isl r \<or> ps_Get st io name fs' = r))"
proof -
  consider e where "ps_Validate st name content = Inl e"
    | d where "ps_Validate st name content = Inr d" "\<not> (\<exists>e. Lstat io (d_dir d) fs = Inl e \<and> errors_is e ErrNotExist)"
    | d e where "ps_Validate st name content = Inr d" "Lstat io (d_dir d) fs = Inl e" "errors_is e ErrNotExist"
    by (cases "ps_Validate st name content") auto
  then show ?thesis
  proof cases
    case 1
    then have "(Inl e, fs) = (r, fs')" using c by (simp add: ps_Create_def)
    then show ?thesis by auto
  next
    case 3
    then have n: "ValidateName name = None" and b: "buildDocument st name (pdir st name) (normalize content) = Inr d"
      by (auto simp: Validate_Inr [OF ok])
    note dp = doc_paths [OF ok n b]
    obtain r1 fs1 where m: "MkdirAll io (pdir st name) fs = (r1, fs1)" by (cases "MkdirAll io (pdir st name) fs")
    have c1: "confined st name fs fs1"
      using mkdirs_frame [OF m [unfolded MkdirAll_def]] by (auto simp: confined_def)
    obtain r2 fs2 where w: "ps_writeFile io (pfile st name) (d_yaml d) 384 False fs1 = (r2, fs2)"
      by (cases "ps_writeFile io (pfile st name) (d_yaml d) 384 False fs1")
    have c2: "confined st name fs fs2"
      using confined_trans [OF c1 ps_writeFile_confined [OF ok n w]] .
    have out: "isl r \<and> fs' = fs1 \<or> isl r \<and> fs' = fs2 \<or> fs' = fs2 \<and> r = ps_Get st io name fs2"
      using c 3 m w by (auto simp: ps_Create_def dp split: option.splits sum.splits)
    have "map_of fs (pdir st name) = None"
      using Lstat_missing [OF io 3(2,3)] by (simp add: dp)
    with out c1 c2 n show ?thesis by auto
  qed (use c in \<open>auto simp: ps_Create_def split: sum.splits\<close>)
qed

lemma Create_content:
  assumes ok: "store_ok st" and io: "io_ok io" and c: "ps_Create st io name content fs = (Inr d, fs')"
  shows "ps_Get st io name fs' = Inr d \<and> d_yaml d = normalize content \<and> map_of fs (pdir st name) = None"
proof -
  obtain d0 e where v: "ps_Validate st name content = Inr d0" "Lstat io (d_dir d0) fs = Inl e" "errors_is e ErrNotExist"
    using c by (auto simp: ps_Create_def split: sum.splits if_splits)
  then have n: "ValidateName name = None" and b: "buildDocument st name (pdir st name) (normalize content) = Inr d0"
    by (auto simp: Validate_Inr [OF ok])
  note dp = doc_paths [OF ok n b]
  have y: "d_yaml d0 = normalize content" using buildDocument_fields [OF b] by simp
  obtain fs1 w fs2 where w: "ps_writeFile io (pfile st name) (d_yaml d0) 384 False fs1 = (Inr w, fs2)"
      "fs' = fs2" "ps_Get st io name fs2 = Inr d"
    using c v by (auto simp: ps_Create_def dp split: option.splits sum.splits prod.splits if_splits)
  have "writeReplacement io (pfile st name) (normalize content) 384 [] fs1 = (Inr w, fs2)"
    using w(1) by (simp add: ps_writeFile_def WriteFile_def filedoc_writeFile_def Let_def y)
  from writeReplacement_cases [OF this pfile_temp_neq(1) [OF ok n]]
  have "map_of fs2 (pfile st name) = Some (NFile (normalize content) 384)"
    by (auto simp: replaced_def)
  with w Get_Inr [OF ok, of io name fs2 d] have "buildDocument st name (pdir st name) (normalize content) = Inr d"
    by auto
  then have "d_yaml d = normalize content" by (rule buildDocument_fields [THEN conjunct2, THEN conjunct2, THEN conjunct2, THEN conjunct1])
  moreover have "map_of fs (pdir st name) = None"
    using Create_cases [OF ok io c] by simp
  ultimately show ?thesis using w by simp
qed

lemma Replace_cases:
  assumes ok: "store_ok st" and r: "ps_Replace st io name content fs = (r, fs')"
  shows "confined st name fs fs' \<and> (isl (ps_Get st io name fs) \<longrightarrow> isl r \<and> fs' = fs)"
proof (cases "ps_Get st io name fs")
  case (Inl e)
  with r show ?thesis by (auto simp: ps_Replace_def)
next
  case (Inr cur)
  note n = Get_name [OF ok Inr]
  have "d_path cur = pfile st name"
    using Inr doc_paths [OF ok n] by (auto simp: Get_Inr [OF ok])
  with Inr r ps_writeFile_confined [OF ok n] show ?thesis
    by (auto simp: ps_Replace_def split: sum.splits)
qed

lemma Replace_content:
  assumes ok: "store_ok st" and r: "ps_Replace st io name content fs = (Inr w, fs')"
  shows "(\<exists>d. ps_Get st io name fs' = Inr d \<and> d_yaml d = normalize content) \<and>
    (\<exists>old m. map_of fs (pfile st name) = Some (NFile old m) \<and>
       map_of fs' (pfile st name) = Some (NFile (normalize content) m) \<and>
       map_of fs' (backup_path io (pfile st name)) = Some (NFile old m))"
proof -
  obtain cur pe where g: "ps_Get st io name fs = Inr cur" and pe: "parseEffective st name (normalize content) = Inr pe"
      and w: "ps_writeFile io (d_path cur) content 384 True fs = (Inr w, fs')"
    using r by (auto simp: ps_Replace_def split: sum.splits)
  note n = Get_name [OF ok g]
  obtain old m where f: "map_of fs (pfile st name) = Some (NFile old m)"
      and b: "buildDocument st name (pdir st name) old = Inr cur"
    using g by (auto simp: Get_Inr [OF ok])
  have p: "d_path cur = pfile st name" by (rule doc_paths(2) [OF ok n b])
  have "ps_rejectSymlink io (pfile st name) fs = None"
    using g by (auto simp: Get_Inr [OF ok] ps_rejectSymlink_None)
  then have wf: "WriteFile io (pfile st name) content \<lparr>wo_perm = 384, wo_backup = True, wo_normalize = normalize\<rparr> fs = (Inr w, fs')"
    using w by (simp add: ps_writeFile_def p Let_def)
  from WriteFile_backup_cases [OF wf f pfile_temp_neq(1,2) [OF ok n]]
  have new: "map_of fs' (pfile st name) = Some (NFile (normalize content) m)"
    "map_of fs' (backup_path io (pfile st name)) = Some (NFile old m)" by auto
  have "pdir st name \<noteq> temp_path io (pfile st name)" "\<not> own_path st name (pdir st name)"
    using pfile_temp_neq(3) [OF ok n, of io] by (auto simp: own_path_def)
  have dir: "map_of fs' (pdir st name) = map_of fs (pdir st name)"
  proof -
    have "map_of fs' q = map_of fs q" if "\<not> own_path st name q" for q
    proof -
      obtain rb fb where wb: "writeBackup io (pfile st name) fs = (rb, fb)" by (cases "writeBackup io (pfile st name) fs")
      have fb: "map_of fb q = map_of fs q"
        using writeBackup_cases [OF wb] own_paths(3) [OF ok n, of io] that by auto
      obtain bp where "writeReplacement io (pfile st name) (normalize content) (snd bp) (fst bp) fb = (Inr w, fs')"
        using wf wb by (auto simp: WriteFile_def filedoc_writeFile_def Let_def split: sum.splits)
      from writeReplacement_cases [OF this pfile_temp_neq(1) [OF ok n]]
      show ?thesis using fb own_paths(1) [OF ok n] own_paths(2) [OF ok n, of io] that by (auto simp: replaced_def)
    qed
    then show ?thesis by (simp add: own_path_def)
  qed
  have len: "length (normalize content) \<le> ps_limit st"
    using pe by (auto simp: parseEffective_def split: if_splits)
  obtain d where d: "buildDocument st name (pdir st name) (normalize content) = Inr d" "d_yaml d = normalize content"
    using buildDocument_Inr [OF pe] by blast
  have "ps_Get st io name fs' = Inr d"
    using g new(1) dir len d(1) by (simp add: Get_Inr [OF ok])
  with d(2) f new show ?thesis by auto
qed

lemma Delete_cases:
  assumes ok: "store_ok st" and r: "ps_Delete st io name fs = (r, fs')"
  shows "(isl r \<and> fs' = fs) \<or>
     (ValidateName name = None \<and> io_fail io (OpLstat (pdir st name)) = None \<and>
      fs' = filter (\<lambda>e. \<not> under (pdir st name) (fst e)) fs)"
proof (cases "ps_Get st io name fs")
  case (Inl e)
  with r show ?thesis by (auto simp: ps_Delete_def)
next
  case (Inr cur)
  note n = Get_name [OF ok Inr]
  have "d_dir cur = pdir st name" "io_fail io (OpLstat (pdir st name)) = None"
    using Inr doc_paths [OF ok n] by (auto simp: Get_Inr [OF ok])
  with Inr r n show ?thesis
    by (auto simp: ps_Delete_def RemoveAll_def split: option.splits)
qed

lemma under_own: "under (pdir st name) q \<longleftrightarrow> q = pdir st name \<or> own_path st name q"
  by (auto simp: under_def own_path_def has_prefix_iff slash_def)

lemma removed_lookup:
  "map_of (filter (\<lambda>e. \<not> under d (fst e)) fs) q = (if under d q then None else map_of fs q)"
  using map_of_filter_keys [of "\<lambda>q. \<not> under d q" fs q] by simp

lemma Delete_other:
  assumes "store_ok st" "ps_Delete st io n fs = (r, fs')" "n' \<noteq> n"
  shows "ps_Get st io n' fs' = ps_Get st io n' fs"
  using Delete_cases [OF assms(1,2)]
proof
  assume d: "ValidateName n = None \<and> io_fail io (OpLstat (pdir st n)) = None \<and>
      fs' = filter (\<lambda>e. \<not> under (pdir st n) (fst e)) fs"
  show ?thesis
  proof (cases "ValidateName n'")
    case None
    have "pdir st n' \<noteq> pdir st n" "pfile st n' \<noteq> pdir st n"
      using assms(3) d None plain_elemD by (auto simp: pdir_def pfile_def ValidateName_plain)
    then have "\<not> under (pdir st n) (pdir st n')" "\<not> under (pdir st n) (pfile st n')"
      using other_paths(1,2) [OF assms(1) _ None assms(3)] d by (auto simp: under_own)
    with d show ?thesis by (intro Get_cong [OF assms(1)]) (simp_all add: removed_lookup)
  next
    case (Some e)
    then show ?thesis by (simp add: ps_Get_def profileDir_def)
  qed
qed simp

lemma Delete_gone:
  assumes ok: "store_ok st" and "ps_Delete st io name fs = (Inr d, fs')"
  shows "\<exists>e. ps_Get st io name fs' = Inl e \<and> errors_is e ErrNotExist"
proof -
  have n: "ValidateName name = None" and io: "io_fail io (OpLstat (pdir st name)) = None"
    and fs': "map_of fs' (pdir st name) = None"
    using Delete_cases [OF assms] by (auto simp: removed_lookup) (simp add: under_def)
  have "ps_rejectSymlink io (pdir st name) fs' = Some (not_exist (pdir st name))"
    by (simp add: ps_rejectSymlink_def RejectSymlink_def Lstat_def io fs' not_exist_def)
  then show ?thesis by (simp add: Get_def_ok [OF ok n] not_exist_def)
qed

section \<open>The interface of the store\<close>

text \<open>
  What the control plane relies on (\<^verbatim>\<open>control.ProfileStore\<close>): a write that succeeds is read back, a
  profile that was removed is reported missing, and no write, successful or not, changes what
  another name reads.
\<close>

locale profile_store =
  fixes get :: "string \<Rightarrow> 's \<Rightarrow> gerr + profile_doc"
    and create :: "string \<Rightarrow> string \<Rightarrow> 's \<Rightarrow> (gerr + profile_doc) \<times> 's"
    and replace :: "string \<Rightarrow> string \<Rightarrow> 's \<Rightarrow> (gerr + write_result) \<times> 's"
    and remove :: "string \<Rightarrow> 's \<Rightarrow> (gerr + string) \<times> 's"
    and ok :: "'s \<Rightarrow> bool"
  assumes get_name: "ok s \<Longrightarrow> get n s = Inr d \<Longrightarrow> d_name d = n"
    and create_get: "ok s \<Longrightarrow> create n y s = (Inr d, s') \<Longrightarrow> get n s' = Inr d \<and> d_yaml d = normalize y"
    and create_new: "ok s \<Longrightarrow> create n y s = (Inr d, s') \<Longrightarrow> isl (get n s)"
    and create_other: "ok s \<Longrightarrow> create n y s = (rc, s') \<Longrightarrow> n' \<noteq> n \<Longrightarrow> get n' s' = get n' s"
    and create_ok: "ok s \<Longrightarrow> ok (snd (create n y s))"
    and replace_get: "ok s \<Longrightarrow> replace n y s = (Inr w, s') \<Longrightarrow> \<exists>d. get n s' = Inr d \<and> d_yaml d = normalize y"
    and replace_known: "ok s \<Longrightarrow> replace n y s = (rr, s') \<Longrightarrow> isl (get n s) \<Longrightarrow> isl rr \<and> s' = s"
    and replace_other: "ok s \<Longrightarrow> replace n y s = (rr, s') \<Longrightarrow> n' \<noteq> n \<Longrightarrow> get n' s' = get n' s"
    and replace_ok: "ok s \<Longrightarrow> ok (snd (replace n y s))"
    and remove_get: "ok s \<Longrightarrow> remove n s = (Inr x, s') \<Longrightarrow> \<exists>e. get n s' = Inl e \<and> errors_is e ErrNotExist"
    and remove_other: "ok s \<Longrightarrow> remove n s = (rd, s') \<Longrightarrow> n' \<noteq> n \<Longrightarrow> get n' s' = get n' s"
    and remove_ok: "ok s \<Longrightarrow> ok (snd (remove n s))"

lemma Replace_other:
  assumes "store_ok st" "ps_Replace st io n y fs = (r, fs')" "n' \<noteq> n"
  shows "ps_Get st io n' fs' = ps_Get st io n' fs"
proof (cases "ValidateName n")
  case None
  with Replace_cases [OF assms(1,2)] show ?thesis using Get_confined [OF assms(1) None _ assms(3)] by blast
next
  case (Some e)
  then have "isl (ps_Get st io n fs)" by (simp add: ps_Get_def profileDir_def)
  with Replace_cases [OF assms(1,2)] show ?thesis by simp
qed

lemma Create_other:
  assumes "store_ok st" "io_ok io" "ps_Create st io n y fs = (r, fs')" "n' \<noteq> n"
  shows "ps_Get st io n' fs' = ps_Get st io n' fs"
  using Create_cases [OF assms(1-3)] Get_confined [OF assms(1) _ _ assms(4)] by auto

lemma Create_was_absent:
  assumes "store_ok st" "io_ok io" "ps_Create st io n y fs = (Inr d, fs')"
  shows "isl (ps_Get st io n fs)"
  using Create_content [OF assms] Get_Inr [OF assms(1), of io n fs]
  by (cases "ps_Get st io n fs") auto

lemma Get_doc_name: "store_ok st \<Longrightarrow> ps_Get st io n fs = Inr d \<Longrightarrow> d_name d = n"
  using buildDocument_fields by (auto simp: Get_Inr)

interpretation pstore: profile_store
  "ps_Get st io" "ps_Create st io" "ps_Replace st io" "ps_Delete st io" "\<lambda>fs. store_ok st \<and> io_ok io"
  by unfold_locales
    (blast dest: Get_doc_name Create_content Create_was_absent Create_other Replace_content Replace_cases
        Replace_other Delete_gone Delete_other)+

section \<open>Properties\<close>

definition ex_profile :: profile where
  "ex_profile =
     \<lparr>p_version = YInt 1, p_name = [], p_backend = ''demo'', p_model = \<lparr>ms_source = ''/m/a.gguf'', ms_reference = []\<rparr>,
      p_listen = \<lparr>ls_host = ''127.0.0.1'', ls_port = 8080\<rparr>, p_engine_args = []\<rparr>"

definition ex_cfg :: profile_cfg where
  "ex_cfg =
     \<lparr>ps_root = ''/p'', ps_limit = 100, ps_decode = (\<lambda>s. Inr ex_profile),
      ps_lookup = (\<lambda>b. Inr (demo_backend True)), ps_home = None\<rparr>"

definition ex_empty :: fs where
  "ex_empty = [(''/p'', NDir)]"

definition ex_one :: fs where
  "ex_one = snd (ps_Create ex_cfg calm_env ''a'' ''x'' ex_empty)"

lemma ex_cfg_ok [simp]: "store_ok ex_cfg" "io_ok calm_env"
proof -
  have "base_dir (ps_root ex_cfg)" unfolding base_dir_def by code_simp
  then show "store_ok ex_cfg" by (simp add: store_ok_def)
  show "io_ok calm_env" by (simp add: io_ok_def calm_env_def)
qed

lemma ex_create: "\<exists>d. ps_Create ex_cfg calm_env ''a'' ''x'' ex_empty = (Inr d, ex_one)"
proof -
  have "\<not> isl (fst (ps_Create ex_cfg calm_env ''a'' ''x'' ex_empty))" by code_simp
  then show ?thesis
    by (cases "ps_Create ex_cfg calm_env ''a'' ''x'' ex_empty"; cases "fst (ps_Create ex_cfg calm_env ''a'' ''x'' ex_empty)")
      (auto simp: ex_one_def)
qed

lemma ex_replace: "\<exists>w fs'. ps_Replace ex_cfg calm_env ''a'' ''y'' ex_one = (Inr w, fs')"
proof -
  have "\<not> isl (fst (ps_Replace ex_cfg calm_env ''a'' ''y'' ex_one))" by code_simp
  then show ?thesis
    by (cases "ps_Replace ex_cfg calm_env ''a'' ''y'' ex_one"; cases "fst (ps_Replace ex_cfg calm_env ''a'' ''y'' ex_one)")
      auto
qed

lemma ex_delete: "\<exists>d fs'. ps_Delete ex_cfg calm_env ''a'' ex_one = (Inr d, fs')"
proof -
  have "\<not> isl (fst (ps_Delete ex_cfg calm_env ''a'' ex_one))" by code_simp
  then show ?thesis
    by (cases "ps_Delete ex_cfg calm_env ''a'' ex_one"; cases "fst (ps_Delete ex_cfg calm_env ''a'' ex_one)")
      auto
qed

lemma ex_dir: "profileDir ex_cfg ''a'' = Inr ''/p/a''"
  by code_simp

theorem profileDir_contained_witness: "elems ''/p/a'' = elems ''/p'' @ [''a''] \<and> rooted ''/p/a''"
  using profileDir_contained [OF ex_cfg_ok(1) ex_dir] by (simp add: ex_cfg_def)

text \<open>
  C20: every profile the daemon loads is fit to start. A document read from the store has the
  store's name and bytes within the limit; before the backend's own normalization its profile
  carried that name, a version, a backend that is registered and accepted it, a model source and a
  port from 1 to 65535.
\<close>

theorem loaded_profile_is_valid:
  assumes "store_ok st" and "ps_Get st io name fs = Inr d"
  shows "d_name d = name \<and> length (d_yaml d) \<le> ps_limit st \<and>
    (\<exists>eff b. ps_lookup st (p_backend eff) = Inr b \<and> b_validate b eff = Inr (d_effective d) \<and>
       p_name eff = name \<and> p_backend eff \<noteq> [] \<and> \<not> isEmptyVersion (p_version eff) \<and>
       1 \<le> ls_port (p_listen eff) \<and> ls_port (p_listen eff) \<le> 65535 \<and>
       ms_source (p_model (d_parsed d)) \<noteq> [])"
proof -
  obtain data where d: "buildDocument st name (pdir st name) data = Inr d" "length data \<le> ps_limit st"
    using assms by (auto simp: Get_Inr)
  then obtain parsed eff b where e: "ps_decode st data = Inr parsed" "d_parsed d = parsed"
      "normalizeCommon (ps_home st) name parsed = Inr eff" "ps_lookup st (p_backend eff) = Inr b"
      "b_validate b eff = Inr (d_effective d)" "d_yaml d = data" "d_name d = name"
    by (auto simp: buildDocument_def parseEffective_def validateBackend_def split: sum.splits if_splits)
  moreover have "p_name eff = name \<and> p_backend eff \<noteq> [] \<and> \<not> isEmptyVersion (p_version eff) \<and>
       1 \<le> ls_port (p_listen eff) \<and> ls_port (p_listen eff) \<le> 65535 \<and> ms_source (p_model parsed) \<noteq> []"
    using e(3) by (auto simp: normalizeCommon_def Let_def split: if_splits)
  ultimately show ?thesis using d by auto
qed

theorem loaded_profile_is_valid_witness:
  "\<exists>d. ps_Get ex_cfg calm_env ''a'' ex_one = Inr d \<and> d_name d = ''a'' \<and> length (d_yaml d) \<le> 100"
proof -
  obtain d where "ps_Create ex_cfg calm_env ''a'' ''x'' ex_empty = (Inr d, ex_one)" using ex_create by blast
  then have "ps_Get ex_cfg calm_env ''a'' ex_one = Inr d" using Create_content by simp
  with loaded_profile_is_valid [OF ex_cfg_ok(1) this] show ?thesis by (auto simp: ex_cfg_def)
qed

text \<open>
  C19: what is stored is read back, and only that profile changes. A successful create was of a name
  that did not load before, and reading it returns the created document with the text ended by one
  newline; a successful replacement is read back the same way, with the old text kept under the
  backup path; a deleted profile is reported missing. Whatever system call fails, no write changes
  what any other name reads.
\<close>

theorem store_reads_back:
  assumes "store_ok st" and "io_ok io"
    and "ps_Create st io n y fs = (rc, fs1)" and "ps_Replace st io n y fs = (rr, fs2)"
    and "ps_Delete st io n fs = (rd, fs3)" and "n' \<noteq> n"
  shows "(\<forall>d. rc = Inr d \<longrightarrow> isl (ps_Get st io n fs) \<and> ps_Get st io n fs1 = Inr d \<and> d_yaml d = normalize y) \<and>
    (\<forall>w. rr = Inr w \<longrightarrow>
       (\<exists>d old m. ps_Get st io n fs2 = Inr d \<and> d_yaml d = normalize y \<and>
          map_of fs (pfile st n) = Some (NFile old m) \<and>
          map_of fs2 (backup_path io (pfile st n)) = Some (NFile old m))) \<and>
    (\<forall>x. rd = Inr x \<longrightarrow> (\<exists>e. ps_Get st io n fs3 = Inl e \<and> errors_is e ErrNotExist)) \<and>
    ps_Get st io n' fs1 = ps_Get st io n' fs \<and> ps_Get st io n' fs2 = ps_Get st io n' fs \<and>
    ps_Get st io n' fs3 = ps_Get st io n' fs"
proof -
  have ok: "store_ok st \<and> io_ok io" using assms by simp
  have rr: "\<exists>d old m. ps_Get st io n fs2 = Inr d \<and> d_yaml d = normalize y \<and>
          map_of fs (pfile st n) = Some (NFile old m) \<and>
          map_of fs2 (backup_path io (pfile st n)) = Some (NFile old m)" if "rr = Inr w" for w
    using Replace_content [OF assms(1)] assms(4) that by blast
  show ?thesis
    using pstore.create_get [OF ok] pstore.create_new [OF ok] pstore.remove_get [OF ok] rr
      pstore.create_other [OF ok assms(3,6)] pstore.replace_other [OF ok assms(4,6)]
      pstore.remove_other [OF ok assms(5,6)] assms(3,5) by blast
qed

theorem store_reads_back_witness:
  "\<exists>d w fs2 e x fs3. ps_Get ex_cfg calm_env ''a'' ex_one = Inr d \<and> d_yaml d = normalize ''x'' \<and>
     ps_Replace ex_cfg calm_env ''a'' ''y'' ex_one = (Inr w, fs2) \<and>
     ps_Delete ex_cfg calm_env ''a'' ex_one = (Inr x, fs3) \<and>
     ps_Get ex_cfg calm_env ''a'' fs3 = Inl e \<and> errors_is e ErrNotExist"
proof -
  obtain d where c: "ps_Create ex_cfg calm_env ''a'' ''x'' ex_empty = (Inr d, ex_one)" using ex_create by blast
  obtain w fs2 where r: "ps_Replace ex_cfg calm_env ''a'' ''y'' ex_one = (Inr w, fs2)" using ex_replace by blast
  obtain x fs3 where x: "ps_Delete ex_cfg calm_env ''a'' ex_one = (Inr x, fs3)" using ex_delete by blast
  have ne: "''b'' \<noteq> ''a''" by simp
  from store_reads_back [OF ex_cfg_ok c surjective_pairing surjective_pairing ne]
  have "ps_Get ex_cfg calm_env ''a'' ex_one = Inr d \<and> d_yaml d = normalize ''x''" by simp
  moreover from store_reads_back [OF ex_cfg_ok surjective_pairing r x ne]
  have "\<exists>e. ps_Get ex_cfg calm_env ''a'' fs3 = Inl e \<and> errors_is e ErrNotExist" by simp
  ultimately show ?thesis using r x by blast
qed

end
