(* ===== verification/Yaml.thy ===== *)
theory Yaml
  imports Errors
begin

text \<open>
  YAML documents as \<^verbatim>\<open>yaml.v3\<close> hands them to the program, the \<^verbatim>\<open>yaml.Node\<close> tree, and the edits the
  program makes on it: \<^verbatim>\<open>merge\<close> and \<^verbatim>\<open>mergeMapping\<close> of \<^verbatim>\<open>core/profiles/store.go\<close>.

  Parsing and printing are the library's: they are parameters where they are used. The fields
  of a node that say where it stood in the file and how it was quoted are left out; its comments
  are kept, for the edits are written to preserve them.
\<close>

datatype ykind = DocumentNode | MappingNode | SequenceNode | ScalarNode | AliasNode

datatype ynode =
  YNode (y_kind: ykind) (y_tag: string) (y_value: string)
    (y_head: string) (y_line: string) (y_foot: string) (y_content: "ynode list")

definition scalar :: "string \<Rightarrow> string \<Rightarrow> ynode" where
  "scalar tag v = YNode ScalarNode tag v [] [] [] []"

definition str_node :: "string \<Rightarrow> ynode" where
  "str_node v = scalar ''!!str'' v"

definition seq_node :: "ynode list \<Rightarrow> ynode" where
  "seq_node ns = YNode SequenceNode ''!!seq'' [] [] [] [] ns"

definition map_node :: "ynode list \<Rightarrow> ynode" where
  "map_node ns = YNode MappingNode ''!!map'' [] [] [] [] ns"

definition set_content :: "ynode list \<Rightarrow> ynode \<Rightarrow> ynode" where
  "set_content ns n = YNode (y_kind n) (y_tag n) (y_value n) (y_head n) (y_line n) (y_foot n) ns"

text \<open>The key-value pairs of a mapping's content; an odd last node has no value and is skipped.\<close>

fun pairs :: "ynode list \<Rightarrow> (ynode \<times> ynode) list" where
  "pairs (k # v # ns) = (k, v) # pairs ns"
| "pairs ns = []"

fun unpairs :: "(ynode \<times> ynode) list \<Rightarrow> ynode list" where
  "unpairs [] = []"
| "unpairs ((k, v) # ps) = k # v # unpairs ps"

definition lookup_pairs :: "(ynode \<times> ynode) list \<Rightarrow> string \<Rightarrow> ynode option" where
  "lookup_pairs ps key = map_option snd (find (\<lambda>p. y_value (fst p) = key) ps)"

text \<open>\<^verbatim>\<open>mappingValue\<close> of the profile store: the first value under a key, no check of the kind.\<close>

definition mappingValue :: "ynode \<Rightarrow> string \<Rightarrow> ynode option" where
  "mappingValue m key = lookup_pairs (pairs (y_content m)) key"

section \<open>Merging\<close>

text \<open>The appending half of \<^verbatim>\<open>mergeMapping\<close>: the pairs of \<open>want\<close> whose key the file lacks, in order.\<close>

fun append_missing :: "(ynode \<times> ynode) list \<Rightarrow> (ynode \<times> ynode) list \<Rightarrow> (ynode \<times> ynode) list" where
  "append_missing ps [] = ps"
| "append_missing ps (p # ws) =
     (if lookup_pairs ps (y_value (fst p)) = None then append_missing (ps @ [p]) ws
      else append_missing ps ws)"

lemma size_pairs: "(k, v) \<in> set (pairs ns) \<Longrightarrow> size v < size_list size ns"
  by (induction ns rule: pairs.induct) auto

function merge :: "ynode \<Rightarrow> ynode \<Rightarrow> ynode" where
  "merge into want =
     (if y_kind into = MappingNode \<and> y_kind want = MappingNode then
        set_content
          (unpairs
            (append_missing
              (concat (map (\<lambda>(k, v). case mappingValue want (y_value k) of
                                Some w \<Rightarrow> [(k, merge v w)] | None \<Rightarrow> [])
                         (pairs (y_content into))))
              (pairs (y_content want))))
          into
      else if y_kind into = ScalarNode \<and> y_kind want = ScalarNode \<and> y_value into = y_value want then into
      else YNode (y_kind want) (y_tag want) (y_value want) (y_head into) (y_line into) (y_foot into)
             (y_content want))"
  by pat_completeness auto

termination
proof (relation "measure (\<lambda>p. size (fst p))", goal_cases)
  case (2 into want p k v w)
  then have "size v < size_list size (y_content into)" by (auto intro: size_pairs)
  then show ?case by (cases into) auto
qed simp

declare merge.simps [simp del]

lemma size_member: "x \<in> set ns \<Longrightarrow> size x < size_list size ns"
  by (induction ns) auto

text \<open>
  What a document says, comments and tags aside: mappings by their first value per key, sequences
  element by element, scalars by their text.
\<close>

function says :: "ynode \<Rightarrow> ynode \<Rightarrow> bool" where
  "says a b =
     (if y_kind a = MappingNode \<and> y_kind b = MappingNode then
        list_all (\<lambda>(k, v). case mappingValue b (y_value k) of Some w \<Rightarrow> says v w | None \<Rightarrow> False)
          (pairs (y_content a)) \<and>
        list_all (\<lambda>(k, v). mappingValue a (y_value k) \<noteq> None) (pairs (y_content b))
      else if y_kind a = SequenceNode \<and> y_kind b = SequenceNode then
        length (y_content a) = length (y_content b) \<and>
        list_all (\<lambda>(x, y). says x y) (zip (y_content a) (y_content b))
      else y_kind a = y_kind b \<and> y_value a = y_value b)"
  by pat_completeness auto

termination
proof (relation "measure (\<lambda>p. size (fst p))", goal_cases)
  case (2 a b p k v w)
  then have "size v < size_list size (y_content a)" by (auto intro: size_pairs)
  then show ?case by (cases a) auto
next
  case (3 a b p x y)
  then have "x \<in> set (y_content a)" by (auto dest: set_zip_leftD)
  then have "size x < size_list size (y_content a)" by (rule size_member)
  then show ?case by (cases a) auto
qed simp

declare says.simps [simp del]

section \<open>Lookup and pairs\<close>

abbreviation key_of :: "ynode \<times> ynode \<Rightarrow> string" where
  "key_of p \<equiv> y_value (fst p)"

lemma pairs_unpairs [simp]: "pairs (unpairs ps) = ps"
  by (induction ps rule: unpairs.induct) auto

lemma unpairs_pairs: "even (length ns) \<Longrightarrow> unpairs (pairs ns) = ns"
  by (induction ns rule: pairs.induct) auto

lemma pairs_content: "(k, v) \<in> set (pairs ns) \<Longrightarrow> k \<in> set ns \<and> v \<in> set ns"
  by (induction ns rule: pairs.induct) auto

lemma lookup_pairs_simps [simp]:
  "lookup_pairs [] key = None"
  "lookup_pairs (p # ps) key = (if key_of p = key then Some (snd p) else lookup_pairs ps key)"
  by (auto simp: lookup_pairs_def)

lemma lookup_pairs_append:
  "lookup_pairs (ps @ qs) key =
     (case lookup_pairs ps key of Some v \<Rightarrow> Some v | None \<Rightarrow> lookup_pairs qs key)"
  by (induction ps) auto

lemma lookup_pairs_None: "lookup_pairs ps key = None \<longleftrightarrow> key \<notin> key_of ` set ps"
  by (induction ps) auto

lemma lookup_pairs_mem: "lookup_pairs ps key = Some v \<Longrightarrow> \<exists>k. (k, v) \<in> set ps \<and> y_value k = key"
  by (induction ps) (auto split: if_splits)

lemma lookup_pairs_distinct:
  "distinct (map key_of ps) \<Longrightarrow> (k, v) \<in> set ps \<Longrightarrow> lookup_pairs ps (y_value k) = Some v"
  by (induction ps) (auto simp: image_iff)

lemma append_missing_filter:
  "distinct (map key_of ws) \<Longrightarrow>
     append_missing ps ws = ps @ filter (\<lambda>p. lookup_pairs ps (key_of p) = None) ws"
proof (induction ps ws rule: append_missing.induct)
  case (2 ps p ws)
  have "lookup_pairs (ps @ [p]) (key_of q) = lookup_pairs ps (key_of q)" if "q \<in> set ws" for q
    using 2(3) that by (cases "lookup_pairs ps (key_of q)") (auto simp: lookup_pairs_append)
  then have "filter (\<lambda>q. lookup_pairs (ps @ [p]) (key_of q) = None) ws =
      filter (\<lambda>q. lookup_pairs ps (key_of q) = None) ws"
    by (simp cong: filter_cong)
  with 2 show ?case by simp
qed simp

lemma y_content_set [simp]: "y_content (set_content ns n) = ns" "y_kind (set_content ns n) = y_kind n"
  by (simp_all add: set_content_def)

section \<open>What a merge does\<close>

text \<open>No mapping repeats a key, as the decoder requires.\<close>

fun uniq_keys :: "ynode \<Rightarrow> bool" where
  "uniq_keys (YNode k t v h l f ns) \<longleftrightarrow>
     (k = MappingNode \<longrightarrow> distinct (map key_of (pairs ns))) \<and> list_all uniq_keys ns"

lemma uniq_keysD:
  "uniq_keys n \<Longrightarrow> y_kind n = MappingNode \<Longrightarrow> distinct (map key_of (pairs (y_content n)))"
  "uniq_keys n \<Longrightarrow> c \<in> set (y_content n) \<Longrightarrow> uniq_keys c"
  by (cases n; auto simp: list_all_iff)+

lemma uniq_keys_value: "uniq_keys n \<Longrightarrow> (k, v) \<in> set (pairs (y_content n)) \<Longrightarrow> uniq_keys v"
  using uniq_keysD(2) pairs_content by blast

lemma says_content:
  "y_kind a = y_kind b \<Longrightarrow> y_value a = y_value b \<Longrightarrow> y_content a = y_content b \<Longrightarrow> uniq_keys b \<Longrightarrow> says a b"
proof (induction a b rule: says.induct)
  case (1 a b)
  have refl: "says v v" if "v \<in> set (y_content b)" "y_kind a = SequenceNode" for v
    using 1(2) 1(3-6) that uniq_keysD(2) [OF 1(6) that(1)]
    by (fastforce simp: zip_same)
  show ?case
  proof (cases "y_kind a = MappingNode")
    case True
    have kv: "mappingValue b (y_value k) = Some v" if "(k, v) \<in> set (pairs (y_content b))" for k v
      using lookup_pairs_distinct [OF uniq_keysD(1) [OF 1(6)] that] True 1(3) by (simp add: mappingValue_def)
    have "says v v" if "(k, v) \<in> set (pairs (y_content b))" for k v
      using 1(1) [of "(k, v)" k v v] kv [OF that] that True 1(3,5) uniq_keys_value [OF 1(6) that] by simp
    with kv True 1(3,5) show ?thesis
      by (subst says.simps) (auto simp: list_all_iff mappingValue_def split: option.splits)
  next
    case False
    then show ?thesis
      using refl 1(3-5) by (subst says.simps) (auto simp: list_all_iff zip_same)
  qed
qed

lemma says_refl: "uniq_keys a \<Longrightarrow> says a a"
  by (rule says_content) auto

definition merged_pairs :: "ynode \<Rightarrow> ynode \<Rightarrow> (ynode \<times> ynode) list" where
  "merged_pairs into want =
     concat (map (\<lambda>(k, v). case mappingValue want (y_value k) of
                       Some w \<Rightarrow> [(k, merge v w)] | None \<Rightarrow> []) (pairs (y_content into)))"

lemma merge_mapping:
  "y_kind into = MappingNode \<Longrightarrow> y_kind want = MappingNode \<Longrightarrow>
     merge into want =
       set_content (unpairs (append_missing (merged_pairs into want) (pairs (y_content want)))) into"
  by (subst merge.simps) (simp add: merged_pairs_def)

lemma merged_pairs_mem:
  "(k, u) \<in> set (merged_pairs into want) \<longleftrightarrow>
     (\<exists>v w. (k, v) \<in> set (pairs (y_content into)) \<and> mappingValue want (y_value k) = Some w \<and> u = merge v w)"
  by (force simp: merged_pairs_def split: option.splits)


text \<open>
  The layout of the merged mapping: the file's own key nodes, with their comments, in the file's
  order, less the keys the profile no longer has; then the new keys.
\<close>

lemma merge_keys:
  assumes "y_kind into = MappingNode" and "y_kind want = MappingNode" and "uniq_keys want"
  shows "map fst (pairs (y_content (merge into want))) =
     filter (\<lambda>k. mappingValue want (y_value k) \<noteq> None) (map fst (pairs (y_content into))) @
     filter (\<lambda>k. mappingValue into (y_value k) = None) (map fst (pairs (y_content want)))"
proof -
  let ?K = "merged_pairs into want"
  have dw: "distinct (map key_of (pairs (y_content want)))" using uniq_keysD(1) assms by simp
  have "map fst (concat (map (\<lambda>(k, v). case mappingValue want (y_value k) of
                       Some w \<Rightarrow> [(k, merge v w)] | None \<Rightarrow> []) ps)) =
      filter (\<lambda>k. mappingValue want (y_value k) \<noteq> None) (map fst ps)" for ps
    by (induction ps) (auto split: option.splits)
  then have K: "map fst ?K = filter (\<lambda>k. mappingValue want (y_value k) \<noteq> None) (map fst (pairs (y_content into)))"
    by (simp add: merged_pairs_def)
  have "lookup_pairs ?K (key_of p) = None \<longleftrightarrow> mappingValue into (key_of p) = None"
    if "p \<in> set (pairs (y_content want))" for p
  proof -
    have "mappingValue want (key_of p) \<noteq> None"
      using that by (auto simp: mappingValue_def lookup_pairs_None)
    then have "key_of p \<in> y_value ` set (map fst ?K) \<longleftrightarrow>
        key_of p \<in> y_value ` set (map fst (pairs (y_content into)))"
      unfolding K by force
    then show ?thesis by (simp add: mappingValue_def lookup_pairs_None image_image)
  qed
  then have "filter (\<lambda>p. lookup_pairs ?K (key_of p) = None) (pairs (y_content want)) =
      filter (\<lambda>p. mappingValue into (key_of p) = None) (pairs (y_content want))"
    by (rule filter_cong [OF refl])
  then show ?thesis
    using assms(1,2) dw K by (simp add: merge_mapping append_missing_filter filter_map comp_def)
qed

text \<open>Documents of mappings and scalars, nothing else, with every key paired.\<close>

fun flat_doc :: "ynode \<Rightarrow> bool" where
  "flat_doc (YNode k t v h l f ns) \<longleftrightarrow>
     (k = ScalarNode \<or> k = MappingNode \<and> even (length ns)) \<and> list_all flat_doc ns"

lemma flat_docD:
  "flat_doc n \<Longrightarrow> y_kind n = ScalarNode \<or> y_kind n = MappingNode \<and> even (length (y_content n))"
  "flat_doc n \<Longrightarrow> c \<in> set (y_content n) \<Longrightarrow> flat_doc c"
  by (cases n; auto simp: list_all_iff)+

text \<open>
  what did not change is left alone. A document of mappings and scalars that already says what
  is wanted comes back from the merge node for node, comments, tags and key order included.
\<close>

theorem merge_keeps_unchanged:
  assumes "flat_doc into" and "says into want" and "uniq_keys want"
  shows "merge into want = into"
  using assms
proof (induction into want rule: merge.induct)
  case (1 into want)
  show ?case
  proof (cases "y_kind into = MappingNode \<and> y_kind want = MappingNode")
    case True
    have dw: "distinct (map key_of (pairs (y_content want)))" using uniq_keysD(1) "1.prems" True by simp
    have same: "(case mappingValue want (y_value k) of Some w \<Rightarrow> [(k, merge v w)] | None \<Rightarrow> []) = [(k, v)]"
      if kv: "(k, v) \<in> set (pairs (y_content into))" for k v
    proof -
      obtain w where w: "mappingValue want (y_value k) = Some w" "says v w"
        using "1.prems"(2) True kv
        by (subst (asm) says.simps) (fastforce simp: list_all_iff split: option.splits)
      then obtain k' where k': "(k', w) \<in> set (pairs (y_content want))"
        by (auto simp: mappingValue_def dest: lookup_pairs_mem)
      have "merge v w = v"
        using "1.IH" [OF True kv refl w(1)] w(2) flat_docD(2) [OF "1.prems"(1)] pairs_content [OF kv]
          uniq_keys_value [OF "1.prems"(3) k'] by blast
      with w show ?thesis by simp
    qed
    have "merged_pairs into want = concat (map (\<lambda>p. [p]) (pairs (y_content into)))"
      unfolding merged_pairs_def by (rule arg_cong [where f = concat], rule map_cong) (auto simp: same)
    then have K: "merged_pairs into want = pairs (y_content into)" by (simp add: concat_map_singleton)
    have "\<forall>p\<in>set (pairs (y_content want)). lookup_pairs (pairs (y_content into)) (key_of p) \<noteq> None"
      using "1.prems"(2) True
      by (subst (asm) says.simps) (auto simp: list_all_iff mappingValue_def)
    then have "append_missing (merged_pairs into want) (pairs (y_content want)) = pairs (y_content into)"
      using dw by (simp add: append_missing_filter K)
    moreover have "even (length (y_content into))" using flat_docD(1) [OF "1.prems"(1)] True by auto
    ultimately show ?thesis
      using True by (cases into) (simp add: merge_mapping unpairs_pairs set_content_def)
  next
    case False
    then have "y_kind into = ScalarNode" "y_kind want = ScalarNode" "y_value into = y_value want"
      using "1.prems"(2) flat_docD(1) [OF "1.prems"(1)] by (subst (asm) says.simps, auto)+
    then show ?thesis by (subst merge.simps) simp
  qed
qed

definition ex_doc :: ynode where
  "ex_doc = map_node [YNode ScalarNode ''!!str'' ''port'' ''the port'' [] [] [], scalar ''!!str'' ''8080'']"

definition ex_want :: ynode where
  "ex_want = map_node [str_node ''port'', scalar ''!!int'' ''8080'']"

theorem merge_keeps_unchanged_witness: "merge ex_doc ex_want = ex_doc"
  by (rule merge_keeps_unchanged)
    (simp_all add: ex_doc_def ex_want_def map_node_def scalar_def str_node_def says.simps mappingValue_def)


text \<open>
  The exception. A sequence is replaced even when nothing in it changed, so the comments
  written inside it are lost.
\<close>

theorem merge_rewrites_equal_sequence:
  "\<exists>into want. uniq_keys into \<and> uniq_keys want \<and> says into want \<and> merge into want \<noteq> into \<and>
     y_head (hd (y_content into)) \<noteq> [] \<and> y_head (hd (y_content (merge into want))) = []"
proof (intro exI conjI)
  let ?into = "seq_node [YNode ScalarNode ''!!str'' ''a'' ''why'' [] [] []]"
  let ?want = "seq_node [str_node ''a'']"
  show "uniq_keys ?into" "uniq_keys ?want" by (simp_all add: seq_node_def str_node_def scalar_def)
  show "says ?into ?want" by (simp add: seq_node_def str_node_def scalar_def says.simps)
  show "merge ?into ?want \<noteq> ?into"
    by (subst merge.simps) (simp add: seq_node_def str_node_def scalar_def)
  show "y_head (hd (y_content ?into)) \<noteq> []" by (simp add: seq_node_def)
  show "y_head (hd (y_content (merge ?into ?want))) = []"
    by (subst merge.simps) (simp add: seq_node_def str_node_def scalar_def)
qed

end
