(* ===== verification/ConfigStore.thy ===== *)
theory ConfigStore
  imports Config Files Yaml
begin

text \<open>
  The configuration store: \<^verbatim>\<open>core/configstore/config_store.go\<close> and \<^verbatim>\<open>core/configstore/remedies.go\<close>.
  The edits work on the \<^verbatim>\<open>yaml.Node\<close> tree; a mutation returns whether it changed anything with the
  changed tree. Parsing, printing and decoding YAML are the library's: the fields \<open>cs_parse\<close>,
  \<open>cs_encode\<close> and \<open>cs_decode\<close>.
\<close>

section \<open>Editing the tree\<close>

text \<open>The top-level mapping of a document, and putting an edited one back.\<close>

definition documentRoot :: "ynode \<Rightarrow> ynode option" where
  "documentRoot doc =
     (case y_content doc of
        [] \<Rightarrow> None
      | r # _ \<Rightarrow> if y_kind r = MappingNode then Some r else None)"

definition put_root :: "ynode \<Rightarrow> ynode \<Rightarrow> ynode" where
  "put_root r doc = set_content (r # tl (y_content doc)) doc"

definition cs_mappingValue :: "ynode \<Rightarrow> string \<Rightarrow> ynode option" where
  "cs_mappingValue m key = (if y_kind m = MappingNode then mappingValue m key else None)"

text \<open>Change the node a lookup found, in place.\<close>

fun upd_content :: "string \<Rightarrow> ynode \<Rightarrow> ynode list \<Rightarrow> ynode list" where
  "upd_content key n (k # v # ns) = (if y_value k = key then k # n # ns else k # v # upd_content key n ns)"
| "upd_content key n ns = ns"

definition upd_value :: "string \<Rightarrow> ynode \<Rightarrow> ynode \<Rightarrow> ynode" where
  "upd_value key n m = set_content (upd_content key n (y_content m)) m"

definition add_pair :: "ynode \<Rightarrow> ynode \<Rightarrow> ynode \<Rightarrow> ynode" where
  "add_pair k v m = set_content (y_content m @ [k, v]) m"

definition assignScalar :: "ynode \<Rightarrow> string \<Rightarrow> string \<Rightarrow> bool \<times> ynode" where
  "assignScalar n v tag =
     (if y_kind n = ScalarNode \<and> y_value n = v then (False, n)
      else (True, YNode ScalarNode tag v (y_head n) (y_line n) (y_foot n) []))"

definition fix_note :: string where
  "fix_note = ''set by `inferencerig doctor --fix`''"

fun setScalar :: "ynode \<Rightarrow> string list \<Rightarrow> string \<Rightarrow> string \<Rightarrow> bool \<times> ynode" where
  "setScalar root [] v tag = (False, root)"
| "setScalar root [leaf] v tag =
     (case cs_mappingValue root leaf of
        Some cur \<Rightarrow> (let (ch, cur') = assignScalar cur v tag in (ch, upd_value leaf cur' root))
      | None \<Rightarrow> (True, add_pair (YNode ScalarNode ''!!str'' leaf fix_note [] [] []) (scalar tag v) root))"
| "setScalar root (key # k2 # ks) v tag =
     (case cs_mappingValue root key of
        None \<Rightarrow> (let (ch, n) = setScalar (map_node []) (k2 # ks) v tag
                 in (ch, add_pair (str_node key) n root))
      | Some nxt \<Rightarrow>
          if y_kind nxt \<noteq> MappingNode then (False, root)
          else (let (ch, n) = setScalar nxt (k2 # ks) v tag in (ch, upd_value key n root)))"

definition sequenceEquals :: "ynode option \<Rightarrow> string list \<Rightarrow> bool" where
  "sequenceEquals n vs =
     (case n of
        None \<Rightarrow> False
      | Some n \<Rightarrow> y_kind n = SequenceNode \<and> map y_value (y_content n) = vs)"

definition setStartupServices :: "string list \<Rightarrow> ynode \<Rightarrow> bool \<times> ynode" where
  "setStartupServices services root =
     (let cur = cs_mappingValue root ''startup_services'';
          items = map str_node services
      in if sequenceEquals cur services then (False, root)
         else case cur of
             None \<Rightarrow> (True, add_pair (str_node ''startup_services'') (seq_node items) root)
           | Some n \<Rightarrow>
               (True, upd_value ''startup_services''
                        (YNode SequenceNode ''!!seq'' [] (y_head n) (y_line n) (y_foot n) items) root))"

definition addProfileAutostart :: "ynode \<Rightarrow> ynode option \<Rightarrow> string \<Rightarrow> bool \<times> ynode" where
  "addProfileAutostart root cur name =
     (case cur of
        None \<Rightarrow> (True, add_pair (str_node ''autostart_profiles'') (seq_node [str_node name]) root)
      | Some n \<Rightarrow>
          if name \<in> set (map y_value (y_content n)) then (False, root)
          else (True, upd_value ''autostart_profiles'' (set_content (y_content n @ [str_node name]) n) root))"

definition removeProfileAutostart :: "ynode \<Rightarrow> ynode option \<Rightarrow> string \<Rightarrow> bool \<times> ynode" where
  "removeProfileAutostart root cur name =
     (case cur of
        None \<Rightarrow> (False, root)
      | Some n \<Rightarrow>
          if y_kind n \<noteq> SequenceNode then (False, root)
          else (let kept = filter (\<lambda>i. y_value i \<noteq> name) (y_content n)
                in (length kept \<noteq> length (y_content n),
                    upd_value ''autostart_profiles'' (set_content kept n) root)))"

definition setProfileAutostart :: "string \<Rightarrow> bool \<Rightarrow> ynode \<Rightarrow> bool \<times> ynode" where
  "setProfileAutostart name enabled root =
     (let cur = cs_mappingValue root ''autostart_profiles''
      in if enabled then addProfileAutostart root cur name else removeProfileAutostart root cur name)"

text \<open>A mutation of the root as a mutation of the document; without a mapping nothing changes.\<close>

definition on_root :: "(ynode \<Rightarrow> bool \<times> ynode) \<Rightarrow> ynode \<Rightarrow> bool \<times> ynode" where
  "on_root f doc =
     (case documentRoot doc of
        None \<Rightarrow> (False, doc)
      | Some r \<Rightarrow> (let (ch, r') = f r in (ch, put_root r' doc)))"

definition bindLoopback :: "ynode \<Rightarrow> bool \<times> ynode" where
  "bindLoopback root =
     (case cs_mappingValue root ''listen_addr'' of
        None \<Rightarrow> setScalar root [''listen_addr''] ''127.0.0.1:7000'' ''!!str''
      | Some listen \<Rightarrow>
          if y_kind listen \<noteq> ScalarNode
          then setScalar root [''listen_addr''] ''127.0.0.1:7000'' ''!!str''
          else (case SplitHostPort (y_value listen) of
              None \<Rightarrow> (False, root)
            | Some (_, port) \<Rightarrow>
                if port = [] then (False, root)
                else (let (ch, n) = assignScalar listen (JoinHostPort ''127.0.0.1'' port) (y_tag listen)
                      in (ch, upd_value ''listen_addr'' n root))))"

definition requireAuth :: "ynode \<Rightarrow> bool \<times> ynode" where
  "requireAuth root = setScalar root [''security'', ''disable_auth''] ''false'' ''!!bool''"

definition allowExposed :: "ynode \<Rightarrow> bool \<times> ynode" where
  "allowExposed root = setScalar root [''security'', ''allow_exposed_without_auth''] ''true'' ''!!bool''"

section \<open>The store\<close>

record config_store =
  cs_path :: string
  cs_limit :: nat
  cs_parse :: "string \<Rightarrow> gerr + ynode"
  cs_encode :: "ynode \<Rightarrow> gerr + string"
  cs_decode :: "config \<Rightarrow> string \<Rightarrow> gerr + config"

definition cs_Validate :: "config_store \<Rightarrow> string \<Rightarrow> gerr option" where
  "cs_Validate st content =
     (if trim_space content = [] then Some (Sentinel ErrConfigEmpty)
      else if length content > cs_limit st then Some (Sentinel ErrConfigTooLarge)
      else case Parse (cs_decode st) content of
          Inl e \<Rightarrow> Some (Errorw (Fmt ''%w: %w'' [error_text e]) [Sentinel ErrConfigMalformed, e])
        | Inr _ \<Rightarrow> None)"

definition stat_error :: "gerr \<Rightarrow> gerr" where
  "stat_error e =
     (if errors_is e ErrNotExist then wrap ''config.yaml not found: %w'' e
      else wrap ''stat config.yaml: %w'' e)"

definition node_size :: "node \<Rightarrow> nat" where
  "node_size n = (case n of NFile data _ \<Rightarrow> length data | _ \<Rightarrow> 0)"

definition read_raw :: "config_store \<Rightarrow> io_env \<Rightarrow> fs \<Rightarrow> gerr + string" where
  "read_raw st io fs =
     (case Stat io (cs_path st) fs of
        Inl e \<Rightarrow> Inl (stat_error e)
      | Inr info \<Rightarrow>
          if node_size info > cs_limit st then Inl (Sentinel ErrConfigTooLarge)
          else (case ReadFile io (cs_path st) fs of
              Inl e \<Rightarrow> Inl (wrap ''read config.yaml: %w'' e)
            | Inr data \<Rightarrow> Inr data))"

definition readParsed :: "config_store \<Rightarrow> io_env \<Rightarrow> fs \<Rightarrow> gerr + (string \<times> config)" where
  "readParsed st io fs =
     (case read_raw st io fs of
        Inl e \<Rightarrow> Inl e
      | Inr data \<Rightarrow>
          (case Parse (cs_decode st) data of
             Inl e \<Rightarrow> Inl (Errorw (Fmt ''%w: %w'' [error_text e]) [Sentinel ErrConfigMalformed, e])
           | Inr c \<Rightarrow> Inr (data, c)))"

definition cs_Read :: "config_store \<Rightarrow> io_env \<Rightarrow> fs \<Rightarrow> gerr + config" where
  "cs_Read st io fs = (case readParsed st io fs of Inl e \<Rightarrow> Inl e | Inr (_, c) \<Rightarrow> Inr c)"

definition readForMutation :: "config_store \<Rightarrow> io_env \<Rightarrow> bool \<Rightarrow> fs \<Rightarrow> gerr + string" where
  "readForMutation st io require fs =
     (if require then (case readParsed st io fs of Inl e \<Rightarrow> Inl e | Inr (data, _) \<Rightarrow> Inr data)
      else read_raw st io fs)"

definition no_write :: write_result where
  "no_write = \<lparr>wr_path = [], wr_backup = [], wr_size = 0, wr_sha = []\<rparr>"

definition replaceLocked ::
    "config_store \<Rightarrow> io_env \<Rightarrow> string \<Rightarrow> fs \<Rightarrow> (gerr + write_result) \<times> fs" where
  "replaceLocked st io content fs =
     (case Stat io (cs_path st) fs of
        Inl e \<Rightarrow> (Inl (stat_error e), fs)
      | Inr _ \<Rightarrow>
          (case WriteFile io (cs_path st) content
                  \<lparr>wo_perm = 0, wo_backup = True, wo_normalize = normalize\<rparr> fs of
             (Inl e, fs') \<Rightarrow> (Inl (wrap ''replace config.yaml: %w'' e), fs')
           | (Inr w, fs') \<Rightarrow> (Inr w, fs')))"

definition applyDocument ::
    "config_store \<Rightarrow> io_env \<Rightarrow> (ynode \<Rightarrow> bool \<times> ynode) \<Rightarrow> bool \<Rightarrow> fs \<Rightarrow> (gerr + write_result) \<times> fs" where
  "applyDocument st io mutate require fs =
     (case readForMutation st io require fs of
        Inl e \<Rightarrow> (Inl e, fs)
      | Inr data \<Rightarrow>
          (case cs_parse st data of
             Inl e \<Rightarrow> (Inl (wrap ''parse config YAML document: %w'' e), fs)
           | Inr doc \<Rightarrow>
               (case mutate doc of
                  (changed, doc') \<Rightarrow>
                    if \<not> changed then (Inr no_write, fs)
                    else (case cs_encode st doc' of
                        Inl e \<Rightarrow> (Inl (wrap ''encode config YAML document: %w'' e), fs)
                      | Inr out \<Rightarrow>
                          (case cs_Validate st out of
                             Some e \<Rightarrow> (Inl e, fs)
                           | None \<Rightarrow> replaceLocked st io out fs)))))"

definition SetStartupServices ::
    "config_store \<Rightarrow> io_env \<Rightarrow> string list \<Rightarrow> fs \<Rightarrow> (gerr + write_result) \<times> fs" where
  "SetStartupServices st io services = applyDocument st io (on_root (setStartupServices services)) True"

definition SetProfileAutostart ::
    "config_store \<Rightarrow> io_env \<Rightarrow> string \<Rightarrow> bool \<Rightarrow> fs \<Rightarrow> (gerr + write_result) \<times> fs" where
  "SetProfileAutostart st io name enabled =
     applyDocument st io (on_root (setProfileAutostart name enabled)) True"

definition RepairBindLoopback :: "config_store \<Rightarrow> io_env \<Rightarrow> fs \<Rightarrow> (gerr + write_result) \<times> fs" where
  "RepairBindLoopback st io = applyDocument st io (on_root bindLoopback) False"

definition RepairRequireAuth :: "config_store \<Rightarrow> io_env \<Rightarrow> fs \<Rightarrow> (gerr + write_result) \<times> fs" where
  "RepairRequireAuth st io = applyDocument st io (on_root requireAuth) False"

definition RepairAllowExposed :: "config_store \<Rightarrow> io_env \<Rightarrow> fs \<Rightarrow> (gerr + write_result) \<times> fs" where
  "RepairAllowExposed st io = applyDocument st io (on_root allowExposed) False"

section \<open>What the edits do to the tree\<close>

text \<open>A mapping as the parser builds it: every key has its value.\<close>

definition mapping_ok :: "ynode \<Rightarrow> bool" where
  "mapping_ok m \<longleftrightarrow> y_kind m = MappingNode \<and> even (length (y_content m))"

lemma pairs_snoc: "even (length ns) \<Longrightarrow> pairs (ns @ [k, v]) = pairs ns @ [(k, v)]"
  by (induction ns rule: pairs.induct) auto

lemma lookup_upd_content:
  "lookup_pairs (pairs (upd_content key n ns)) k =
     (if k = key \<and> lookup_pairs (pairs ns) key \<noteq> None then Some n else lookup_pairs (pairs ns) k)"
  by (induction key n ns rule: upd_content.induct) auto

lemma length_upd_content [simp]: "length (upd_content key n ns) = length ns"
  by (induction key n ns rule: upd_content.induct) auto

lemma cs_mappingValue_upd:
  "cs_mappingValue m key = Some c \<Longrightarrow>
     cs_mappingValue (upd_value key n m) k = (if k = key then Some n else cs_mappingValue m k)"
  by (auto simp: cs_mappingValue_def mappingValue_def upd_value_def lookup_upd_content split: if_splits)

lemma cs_mappingValue_add:
  "mapping_ok m \<Longrightarrow> cs_mappingValue m (y_value k) = None \<Longrightarrow>
     cs_mappingValue (add_pair k v m) q = (if q = y_value k then Some v else cs_mappingValue m q)"
  by (auto simp: cs_mappingValue_def mappingValue_def add_pair_def mapping_ok_def pairs_snoc
      lookup_pairs_append split: option.splits)

lemma mapping_ok_upd [simp]: "mapping_ok (upd_value key n m) = mapping_ok m"
  by (simp add: mapping_ok_def upd_value_def)

lemma mapping_ok_add [simp]: "mapping_ok (add_pair k v m) = mapping_ok m"
  by (simp add: mapping_ok_def add_pair_def)

lemma mapping_ok_new [simp]: "mapping_ok (map_node [])"
  by (simp add: mapping_ok_def map_node_def)

lemma y_value_scalar [simp]: "y_value (str_node s) = s" "y_kind (scalar t s) = ScalarNode" "y_value (scalar t s) = s"
  by (simp_all add: str_node_def scalar_def)

lemma upd_content_same: "lookup_pairs (pairs ns) key = Some n \<Longrightarrow> upd_content key n ns = ns"
  by (induction key n ns rule: upd_content.induct) (auto split: if_splits)

lemma upd_value_same: "cs_mappingValue m key = Some n \<Longrightarrow> upd_value key n m = m"
  by (cases m) (auto simp: cs_mappingValue_def mappingValue_def upd_value_def set_content_def
      upd_content_same split: if_splits)

text \<open>The node a path of keys leads to.\<close>

fun at_path :: "ynode \<Rightarrow> string list \<Rightarrow> ynode option" where
  "at_path n [] = Some n"
| "at_path n (k # ks) = (case cs_mappingValue n k of None \<Rightarrow> None | Some c \<Rightarrow> at_path c ks)"

text \<open>Every mapping a remedy walks through is well formed.\<close>

fun path_ok :: "ynode \<Rightarrow> string list \<Rightarrow> bool" where
  "path_ok n [] = True"
| "path_ok n (k # ks) = (mapping_ok n \<and>
     (case cs_mappingValue n k of None \<Rightarrow> True | Some c \<Rightarrow> ks = [] \<or> path_ok c ks))"

lemma assignScalar_value:
  "assignScalar n v tag = (ch, n') \<Longrightarrow>
     y_kind n' = ScalarNode \<and> y_value n' = v \<and> assignScalar n' v tag = (False, n')"
  by (auto simp: assignScalar_def split: if_splits)

lemma path_ok_new: "ks \<noteq> [] \<Longrightarrow> path_ok (map_node []) ks"
  by (cases ks) (simp_all add: cs_mappingValue_def map_node_def mappingValue_def mapping_ok_def)

text \<open>
  A remedy sets what it is for, once. When an edit of a scalar at a path of keys reports a
  change, that path then leads to a scalar with the new value, every other top-level key keeps its
  node, and applying the remedy again changes nothing.
\<close>

theorem setScalar_sets:
  assumes "setScalar root (k # ks) v tag = (True, root')" and "path_ok root (k # ks)"
  shows "(\<exists>n. at_path root' (k # ks) = Some n \<and> y_kind n = ScalarNode \<and> y_value n = v) \<and>
    (\<forall>q. q = k \<or> cs_mappingValue root' q = cs_mappingValue root q) \<and>
    setScalar root' (k # ks) v tag = (False, root')"
  using assms
proof (induction ks arbitrary: root root' k)
  case Nil
  show ?case
  proof (cases "cs_mappingValue root k")
    case None
    then have r': "root' = add_pair (YNode ScalarNode ''!!str'' k fix_note [] [] []) (scalar tag v) root"
      using Nil by simp
    then have "cs_mappingValue root' q = (if q = k then Some (scalar tag v) else cs_mappingValue root q)" for q
      using cs_mappingValue_add [of root "YNode ScalarNode ''!!str'' k fix_note [] [] []"] None Nil by simp
    moreover have "assignScalar (scalar tag v) v tag = (False, scalar tag v)"
      by (simp add: assignScalar_def)
    ultimately show ?thesis using upd_value_same [of root' k "scalar tag v"] by simp
  next
    case (Some c)
    then obtain c' where c': "assignScalar c v tag = (True, c')" "root' = upd_value k c' root"
      using Nil by (auto simp: Let_def split: prod.splits)
    then have "cs_mappingValue root' q = (if q = k then Some c' else cs_mappingValue root q)" for q
      using cs_mappingValue_upd [OF Some] by simp
    with assignScalar_value [OF c'(1)] show ?thesis
      using upd_value_same [of root' k c'] by simp
  qed
next
  case (Cons k2 ks)
  show ?case
  proof (cases "cs_mappingValue root k")
    case None
    then obtain n where n: "setScalar (map_node []) (k2 # ks) v tag = (True, n)"
        "root' = add_pair (str_node k) n root"
      using Cons.prems(1) by (auto simp: Let_def split: prod.splits)
    then have r': "cs_mappingValue root' q = (if q = k then Some n else cs_mappingValue root q)" for q
      using cs_mappingValue_add [of root "str_node k"] None Cons.prems by simp
    have "path_ok (map_node []) (k2 # ks)" by (rule path_ok_new) simp
    from Cons.IH [OF n(1) this] have IH: "\<exists>x. at_path n (k2 # ks) = Some x \<and> y_kind x = ScalarNode \<and> y_value x = v"
        "setScalar n (k2 # ks) v tag = (False, n)" by blast+
    moreover have "y_kind n = MappingNode"
      using IH(1) by (auto simp: cs_mappingValue_def split: option.splits if_splits)
    ultimately show ?thesis using r' upd_value_same [of root' k n] by simp
  next
    case (Some c)
    then obtain n where n: "y_kind c = MappingNode" "setScalar c (k2 # ks) v tag = (True, n)"
        "root' = upd_value k n root"
      using Cons.prems(1) by (auto simp: Let_def split: prod.splits if_splits)
    then have r': "cs_mappingValue root' q = (if q = k then Some n else cs_mappingValue root q)" for q
      using cs_mappingValue_upd [OF Some] by simp
    have "path_ok c (k2 # ks)" using Cons.prems(2) Some by simp
    from Cons.IH [OF n(2) this] have IH: "\<exists>x. at_path n (k2 # ks) = Some x \<and> y_kind x = ScalarNode \<and> y_value x = v"
        "setScalar n (k2 # ks) v tag = (False, n)" by blast+
    moreover have "y_kind n = MappingNode"
      using IH(1) by (auto simp: cs_mappingValue_def split: option.splits if_splits)
    ultimately show ?thesis using r' upd_value_same [of root' k n] by simp
  qed
qed

definition ex_root :: ynode where
  "ex_root = map_node [str_node ''listen_addr'', str_node '':7000'']"

theorem setScalar_sets_witness:
  "\<exists>n. at_path (snd (requireAuth ex_root)) [''security'', ''disable_auth''] = Some n \<and> y_value n = ''false''"
proof -
  have ok: "path_ok ex_root [''security'', ''disable_auth'']"
    by (simp add: ex_root_def map_node_def str_node_def scalar_def mapping_ok_def cs_mappingValue_def mappingValue_def)
  obtain r where r: "setScalar ex_root [''security'', ''disable_auth''] ''false'' ''!!bool'' = (True, r)"
    by (simp add: ex_root_def map_node_def str_node_def scalar_def cs_mappingValue_def mappingValue_def Let_def)
  from setScalar_sets [OF r ok] r show ?thesis by (auto simp: requireAuth_def)
qed

section \<open>Autostart\<close>

text \<open>The list the decoder reads: the values of the sequence, and none when it is null or missing.\<close>

definition autostart_list :: "ynode \<Rightarrow> string list" where
  "autostart_list root =
     (case cs_mappingValue root ''autostart_profiles'' of
        None \<Rightarrow> []
      | Some n \<Rightarrow> if y_kind n = SequenceNode then map y_value (y_content n) else [])"

lemma filter_length_neq: "length (filter P xs) \<noteq> length xs \<longleftrightarrow> filter P xs \<noteq> xs"
proof
  assume "filter P xs \<noteq> xs"
  then obtain x where "x \<in> set xs" "\<not> P x" by (metis filter_True)
  then show "length (filter P xs) \<noteq> length xs" using length_filter_less by (metis less_irrefl)
qed auto

text \<open>
  autostart is switched as asked. When the entry is missing or a list, enabling a profile puts
  it at the end of the list unless it is there, disabling removes every occurrence, the other names
  keep their order, no other key of the file changes, and a change is reported exactly when the
  list changed.
\<close>

theorem setProfileAutostart_list:
  assumes "setProfileAutostart name enabled root = (ch, root')" and "mapping_ok root"
    and "\<forall>n. cs_mappingValue root ''autostart_profiles'' = Some n \<longrightarrow> y_kind n = SequenceNode"
  shows "autostart_list root' =
      (if enabled then (if name \<in> set (autostart_list root) then autostart_list root
                        else autostart_list root @ [name])
       else filter (\<lambda>p. p \<noteq> name) (autostart_list root)) \<and>
    (ch \<longleftrightarrow> autostart_list root' \<noteq> autostart_list root) \<and>
    (\<forall>q. q = ''autostart_profiles'' \<or> cs_mappingValue root' q = cs_mappingValue root q)"
proof (cases "cs_mappingValue root ''autostart_profiles''")
  case None
  then have "cs_mappingValue (add_pair (str_node ''autostart_profiles'') v root) q =
      (if q = ''autostart_profiles'' then Some v else cs_mappingValue root q)" for v q
    using cs_mappingValue_add [of root "str_node ''autostart_profiles''"] assms(2) by simp
  then show ?thesis
    using assms(1) None
    by (auto simp: setProfileAutostart_def addProfileAutostart_def removeProfileAutostart_def
        autostart_list_def seq_node_def split: if_splits)
next
  case (Some n)
  have kind: "y_kind n = SequenceNode" using assms(3) Some by simp
  note upd = cs_mappingValue_upd [OF Some]
  show ?thesis
  proof (cases enabled)
    case True
    then show ?thesis
      using assms(1) Some kind
      by (auto simp: setProfileAutostart_def addProfileAutostart_def autostart_list_def upd split: if_splits)
  next
    case False
    have "map y_value (filter (\<lambda>i. y_value i \<noteq> name) (y_content n)) =
        filter (\<lambda>p. p \<noteq> name) (map y_value (y_content n))"
      by (simp add: filter_map comp_def)
    moreover have "length (filter (\<lambda>i. y_value i \<noteq> name) (y_content n)) \<noteq> length (y_content n) \<longleftrightarrow>
        filter (\<lambda>p. p \<noteq> name) (map y_value (y_content n)) \<noteq> map y_value (y_content n)"
      by (subst filter_length_neq [symmetric]) (simp add: filter_map comp_def)
    ultimately show ?thesis
      using assms(1) Some kind False
      by (auto simp: setProfileAutostart_def removeProfileAutostart_def autostart_list_def upd Let_def
          split: if_splits)
  qed
qed

theorem setProfileAutostart_list_witness:
  "autostart_list (snd (setProfileAutostart ''p'' True ex_root)) = [''p'']"
proof -
  have "mapping_ok ex_root"
    and none: "cs_mappingValue ex_root ''autostart_profiles'' = None"
    by (simp_all add: ex_root_def map_node_def str_node_def scalar_def mapping_ok_def
        cs_mappingValue_def mappingValue_def)
  with setProfileAutostart_list
      [where name = "''p''" and enabled = True and root = ex_root, OF surjective_pairing]
  show ?thesis by (simp add: autostart_list_def)
qed

text \<open>
  The entry written as null. \<^verbatim>\<open>autostart_profiles:\<close> with no value is a scalar; enabling a
  profile appends to the content of that scalar, which the printer ignores, so the edit reports a
  change and the profile is still not on the list.
\<close>

theorem autostart_lost_on_null:
  "\<exists>root n. mapping_ok root \<and> cs_mappingValue root ''autostart_profiles'' = Some n \<and>
     y_kind n = ScalarNode \<and> y_tag n = ''!!null'' \<and>
     fst (setProfileAutostart name True root) \<and>
     autostart_list (snd (setProfileAutostart name True root)) = []"
proof (intro exI conjI)
  let ?n = "scalar ''!!null'' []"
  let ?root = "map_node [str_node ''autostart_profiles'', ?n]"
  show "mapping_ok ?root" by (simp add: mapping_ok_def map_node_def)
  show v: "cs_mappingValue ?root ''autostart_profiles'' = Some ?n"
    by (simp add: cs_mappingValue_def mappingValue_def map_node_def)
  show "y_kind ?n = ScalarNode" "y_tag ?n = ''!!null''" by (simp_all add: scalar_def)
  have s: "setProfileAutostart name True ?root =
      (True, upd_value ''autostart_profiles'' (set_content [str_node name] ?n) ?root)"
    using v by (simp add: setProfileAutostart_def addProfileAutostart_def scalar_def)
  show "fst (setProfileAutostart name True ?root)" by (simp add: s)
  show "autostart_list (snd (setProfileAutostart name True ?root)) = []"
    by (simp add: s autostart_list_def cs_mappingValue_upd [OF v])
qed

section \<open>What the file can become\<close>


definition ex_store :: config_store where
  "ex_store =
     \<lparr>cs_path = ''/etc/a'', cs_limit = 100, cs_parse = (\<lambda>s. Inr (map_node [map_node []])),
      cs_encode = (\<lambda>n. Inr ''new''), cs_decode = (\<lambda>d s. Inr d)\<rparr>"


end
