(* ===== verification/Supervisor.thy ===== *)
theory Supervisor
  imports Backend Events Files NetAddr
begin

text \<open>
  One supervised process: \<^verbatim>\<open>core/runtime/supervisor.go\<close> with the PID files of
  \<^verbatim>\<open>platform/pidfile/pidfile.go\<close>. A \<open>sup\<close> is the \<^verbatim>\<open>Supervisor\<close> value, \<open>host\<close> the processes and
  files of the machine. What the machine answers during one call is in \<open>outcome\<close>: the PID of a new
  process, whether it gets ready, dies on SIGINT in time or on SIGKILL, and which calls fail.

  \<^verbatim>\<open>sv_done\<close> is the content of the channel the waiting goroutine sends to. Durations and the parts of
  a command result that only report them are left out.
\<close>

section \<open>The machine\<close>

record proc =
  pr_pgid :: nat
  pr_exe :: string
  pr_ports :: "int list"

record host =
  h_procs :: "(nat \<times> proc) list"
  h_files :: fs

definition alive :: "nat \<Rightarrow> host \<Rightarrow> bool" where
  "alive pid h \<longleftrightarrow> pid > 0 \<and> map_of (h_procs h) pid \<noteq> None"

definition end_proc :: "nat \<Rightarrow> host \<Rightarrow> host" where
  "end_proc pid h = h\<lparr>h_procs := al_del pid (h_procs h)\<rparr>"

section \<open>PID files\<close>

definition pf_Write :: "io_env \<Rightarrow> string \<Rightarrow> nat \<Rightarrow> fs \<Rightarrow> gerr option \<times> fs" where
  "pf_Write io path pid fs =
     (case MkdirAll io (Dir path) fs of
        (Some e, fs1) \<Rightarrow> (Some e, fs1)
      | (None, fs1) \<Rightarrow>
          (case io_fail io (OpWriteFile path) of
             Some e \<Rightarrow> (Some e, fs1)
           | None \<Rightarrow> (None, al_put path (NFile (itoa pid @ [newline]) 384) fs1)))"

text \<open>The recorded PID, whether the file exists, and the error.\<close>

definition pf_Read :: "io_env \<Rightarrow> string \<Rightarrow> fs \<Rightarrow> nat \<times> bool \<times> gerr option" where
  "pf_Read io path fs =
     (case ReadFile io path fs of
        Inl e \<Rightarrow> if errors_is e ErrNotExist then (0, False, None) else (0, False, Some e)
      | Inr data \<Rightarrow>
          (case atoi (trim_space data) of
             None \<Rightarrow> (0, True, Some (Errorw (Fmt ''invalid PID file %s'' [Str path]) []))
           | Some pid \<Rightarrow>
               if pid \<le> 0 \<or> pid > 2147483647
               then (0, True, Some (Errorw (Fmt ''invalid PID file %s'' [Str path]) []))
               else (nat pid, True, None)))"

definition pf_Remove :: "io_env \<Rightarrow> string \<Rightarrow> nat \<Rightarrow> fs \<Rightarrow> gerr option \<times> fs" where
  "pf_Remove io path expected fs =
     (let rm = (case Remove io path fs of
                  (Some e, fs') \<Rightarrow> if errors_is e ErrNotExist then (None, fs') else (Some e, fs')
                | (None, fs') \<Rightarrow> (None, fs'))
      in if expected > 0 then
           (case ReadFile io path fs of
              Inl e \<Rightarrow> if errors_is e ErrNotExist then (None, fs) else (Some e, fs)
            | Inr data \<Rightarrow>
                (case atoi (trim_space data) of
                   Some pid \<Rightarrow> if pid \<noteq> int expected then (None, fs) else rm
                 | None \<Rightarrow> rm))
         else rm)"

definition pf_Running :: "io_env \<Rightarrow> string \<Rightarrow> host \<Rightarrow> (nat \<times> bool) \<times> host" where
  "pf_Running io path h =
     (case pf_Read io path (h_files h) of
        (pid, exists, err) \<Rightarrow>
          if err \<noteq> None \<or> (exists \<and> \<not> alive pid h)
          then ((0, False), h\<lparr>h_files := snd (Remove io path (h_files h))\<rparr>)
          else ((pid, exists), h))"

section \<open>The launch specification\<close>

definition readinessHost :: "string \<Rightarrow> string" where
  "readinessHost host = (if host \<in> {[], ''0.0.0.0'', ''::''} then ''127.0.0.1'' else host)"

definition displayName :: "launch_spec \<Rightarrow> string" where
  "displayName spec = cmp_or (sp_name spec) ''process''"

definition credentialFlag :: "string \<Rightarrow> bool" where
  "credentialFlag flag =
     (let name = to_lower (trim_left (\<lambda>c. c = CHR ''-'') flag)
      in list_ex (contains_str name)
           [''api-key'', ''api_key'', ''apikey'', ''token'', ''secret'', ''password'', ''passwd''])"

definition redactedValue :: string where
  "redactedValue = ''[redacted]''"

fun redact_from :: "bool \<Rightarrow> string list \<Rightarrow> string list" where
  "redact_from hide [] = []"
| "redact_from hide (arg # args) =
     (case cut (CHR ''='') arg of
        (flag, value, has_value) \<Rightarrow>
          if hide then redactedValue # redact_from False args
          else if \<not> credentialFlag flag then arg # redact_from False args
          else if has_value then (flag @ ''='' @ redactedValue) # redact_from False args
          else arg # redact_from True args)"

definition RedactArgv :: "string list \<Rightarrow> string list" where
  "RedactArgv argv = redact_from False argv"

text \<open>The executable, its arguments, and the line shown for them.\<close>

definition spec_command :: "launch_spec \<Rightarrow> gerr + (string \<times> string list \<times> string)" where
  "spec_command spec =
     (if sp_executable spec = []
      then Inl (RtError RtErrorInvalidInput (Fmt ''%s executable is required'' [Str (displayName spec)]) None)
      else Inr (sp_executable spec, sp_argv spec,
                join_with '' '' (sp_executable spec # RedactArgv (sp_argv spec))))"

definition spec_pidFile :: "launch_spec \<Rightarrow> gerr + string" where
  "spec_pidFile spec =
     (let name = sp_name spec
      in if sp_pid_dir spec = [] then Inl (Errorw (Fmt ''PID directory is not configured'' []) [])
         else if name = [] \<or> name = ''.'' \<or> name = dotdot \<or> Base name \<noteq> name
         then Inl (Errorw (Fmt ''invalid process name %q'' [Str name]) [])
         else Inr (Join [sp_pid_dir spec, name @ ''.pid'']))"

section \<open>The supervisor\<close>

record sup =
  sv_spec :: launch_spec
  sv_cmd :: bool
  sv_done :: "gerr option option"
  sv_err :: "gerr option"
  sv_ready :: bool
  sv_pid :: nat
  sv_pgid :: nat

definition NewSupervisor :: "launch_spec \<Rightarrow> sup" where
  "NewSupervisor spec =
     \<lparr>sv_spec = spec, sv_cmd = False, sv_done = None, sv_err = None, sv_ready = False, sv_pid = 0, sv_pgid = 0\<rparr>"

record command_result =
  cr_action :: string
  cr_exit :: int
  cr_stdout :: string
  cr_stderr :: msg

definition commandResult :: "string \<Rightarrow> int \<Rightarrow> string \<Rightarrow> gerr option \<Rightarrow> command_result" where
  "commandResult action code out err =
     \<lparr>cr_action = action, cr_exit = code, cr_stdout = out,
      cr_stderr = (case err of None \<Rightarrow> Str [] | Some e \<Rightarrow> error_text e)\<rparr>"

text \<open>
  One answer to a readiness probe: of a TCP dial, and of an HTTP GET, an error or the status code.
\<close>

record probe_answer =
  pa_dial :: "gerr option"
  pa_get :: "gerr + int"

definition probeAddr :: "launch_spec \<Rightarrow> string" where
  "probeAddr spec = JoinHostPort (readinessHost (sp_host spec)) (itoa_int (sp_port spec))"

definition probeReady :: "launch_spec \<Rightarrow> probe_answer \<Rightarrow> gerr option" where
  "probeReady spec a =
     (if sp_readiness_path spec = [] then pa_dial a
      else case pa_get a of
          Inl e \<Rightarrow> Some e
        | Inr code \<Rightarrow>
            if 200 \<le> code \<and> code < 300 then None
            else Some (Errorw (Fmt ''readiness status %d'' [Str (itoa_int code)]) []))"

text \<open>
  How the wait for readiness ends: ready, the process exits, the deadline passes, or the caller gives
  up. A tick is one round of \<^verbatim>\<open>waitReady\<close>: whether the process has exited, the probe's answer, and
  whether the caller gives up after it. The deadline has passed at the last tick.
\<close>

datatype readiness = Ready | Exits "gerr option" | TimesOut | GivesUp gerr

record tick =
  tk_exit :: "gerr option option"
  tk_probe :: probe_answer
  tk_cancel :: "gerr option"

fun waitReady :: "launch_spec \<Rightarrow> tick list \<Rightarrow> readiness" where
  "waitReady spec [] = TimesOut"
| "waitReady spec (t # ts) =
     (case tk_exit t of
        Some e \<Rightarrow> Exits e
      | None \<Rightarrow>
          if probeReady spec (tk_probe t) = None then Ready
          else if ts = [] then TimesOut
          else case tk_cancel t of
              Some e \<Rightarrow> GivesUp e
            | None \<Rightarrow> waitReady spec ts)"

record outcome =
  oc_io :: io_env
  oc_log :: "gerr option"
  oc_spawn :: "gerr + nat"
  oc_ports :: "int list"
  oc_ticks :: "tick list"
  oc_interrupt :: "gerr option"
  oc_exits :: bool
  oc_killed :: bool
  oc_wait :: "gerr option"
  oc_lookpath :: "gerr + string"
  oc_ports_err :: "gerr option"
  oc_probe :: probe_answer

text \<open>The program \<^verbatim>\<open>exec.Command\<close> runs is the one \<^verbatim>\<open>exec.LookPath\<close> finds.\<close>

definition resolved :: "outcome \<Rightarrow> string \<Rightarrow> string" where
  "resolved oc exe = (case oc_lookpath oc of Inl e \<Rightarrow> exe | Inr path \<Rightarrow> path)"

text \<open>\<^verbatim>\<open>isRunning\<close> takes the waiting goroutine's result, if there is one, and remembers it.\<close>

definition isRunning :: "sup \<Rightarrow> host \<Rightarrow> bool \<times> sup" where
  "isRunning s h =
     (if sv_pid s = 0 then (False, s)
      else if sv_cmd s \<and> sv_done s \<noteq> None
      then (False, s\<lparr>sv_err := the (sv_done s), sv_ready := False, sv_done := None\<rparr>)
      else (alive (sv_pid s) h, s))"

definition remove_pid :: "io_env \<Rightarrow> launch_spec \<Rightarrow> nat \<Rightarrow> host \<Rightarrow> host" where
  "remove_pid io spec pid h =
     (case spec_pidFile spec of
        Inl e \<Rightarrow> h
      | Inr path \<Rightarrow> h\<lparr>h_files := snd (pf_Remove io path pid (h_files h))\<rparr>)"

definition forget :: "sup \<Rightarrow> sup" where
  "forget s = s\<lparr>sv_pid := 0, sv_pgid := 0, sv_ready := False\<rparr>"

text \<open>
  \<^verbatim>\<open>stopProcess\<close> with its deferred cleanup. A process this supervisor started is waited for through
  its channel, an adopted one by polling; one that outlives the timeout is killed.
\<close>

definition stopProcess :: "outcome \<Rightarrow> sup \<Rightarrow> host \<Rightarrow> gerr option \<times> sup \<times> host" where
  "stopProcess oc s0 h =
     (let pid = sv_pid s0;
          cleanup = (\<lambda>s h. (forget s, remove_pid (oc_io oc) (sv_spec s0) pid h));
          timeout = RtError RtErrorRuntime (Fmt ''%s stop timed out'' [Str (displayName (sv_spec s0))]) None;
          (running, s) = isRunning s0 h
      in if \<not> running then (None, cleanup s h)
         else case oc_interrupt oc of
             Some e \<Rightarrow> (Some (Errorw (Fmt ''%s interrupt: %v'' [Str (displayName (sv_spec s0)), error_text e]) []),
                       cleanup s h)
           | None \<Rightarrow>
               if oc_exits oc
               then (None, cleanup (if sv_cmd s then s\<lparr>sv_err := oc_wait oc\<rparr> else s) (end_proc pid h))
               else
                 (let h' = (if oc_killed oc then end_proc pid h else h)
                  in if sv_cmd s then
                       (Some timeout, cleanup (if oc_killed oc then s\<lparr>sv_err := oc_wait oc\<rparr> else s) h')
                     else (Some timeout, cleanup (s\<lparr>sv_err := Some (Sentinel CtxCanceled)\<rparr>) h')))"

definition sup_stop :: "outcome \<Rightarrow> sup \<Rightarrow> host \<Rightarrow> (gerr option \<times> command_result) \<times> sup \<times> host" where
  "sup_stop oc s0 h =
     (let (running, s) = isRunning s0 h
      in if \<not> running then ((None, commandResult ''stop'' 0 [] None), s, h)
         else (case stopProcess oc s h of
             (Some e, s', h') \<Rightarrow> ((Some e, commandResult ''stop'' 1 [] (Some e)), s', h')
           | (None, s', h') \<Rightarrow> ((None, commandResult ''stop'' 0 [] None), s', h')))"

definition rollbackStart ::
    "outcome \<Rightarrow> gerr \<Rightarrow> sup \<Rightarrow> host \<Rightarrow> (gerr option \<times> command_result) \<times> sup \<times> host" where
  "rollbackStart oc err s h =
     (case stopProcess oc s h of
        (ce, s', h') \<Rightarrow>
          (let e = (case ce of None \<Rightarrow> err
                    | Some c \<Rightarrow> Errorw (Fmt ''%w; cleanup failed: %w'' [error_text err, error_text c]) [err, c])
           in ((Some e, commandResult ''start'' 1 [] (Some e)), s', h')))"

definition sup_fail :: "gerr \<Rightarrow> sup \<Rightarrow> host \<Rightarrow> (gerr option \<times> command_result) \<times> sup \<times> host" where
  "sup_fail e s h = ((Some e, commandResult ''start'' 1 [] (Some e)), s, h)"

text \<open>
  \<^verbatim>\<open>start\<close>. When the process exits while it is waited for, the goroutine has sent its result and
  removed the PID file.
\<close>

definition sup_start :: "outcome \<Rightarrow> sup \<Rightarrow> host \<Rightarrow> (gerr option \<times> command_result) \<times> sup \<times> host" where
  "sup_start oc s0 h =
     (let spec = sv_spec s0; nm = Str (displayName spec)
      in case sp_build_err spec of
           Some e \<Rightarrow> sup_fail (RtError RtErrorInvalidInput (error_text e) (Some e)) s0 h
         | None \<Rightarrow>
             (let (running, s1) = isRunning s0 h
              in if running
                 then sup_fail (RtError RtErrorRuntime (Fmt ''%s is already running'' [nm]) None) s1 h
                 else (case spec_command spec of
                     Inl e \<Rightarrow> sup_fail e s1 h
                   | Inr (exe, argv, display) \<Rightarrow>
                       (case spec_pidFile spec of
                          Inl e \<Rightarrow> sup_fail e s1 h
                        | Inr path \<Rightarrow>
                            (case (if sp_log_name spec \<noteq> [] then oc_log oc else None) of
                               Some e \<Rightarrow> sup_fail (RtError RtErrorRuntime (Fmt ''open %s log failed'' [nm]) (Some e)) s1 h
                             | None \<Rightarrow>
                                 (case oc_spawn oc of
                                    Inl e \<Rightarrow> sup_fail (RtError RtErrorRuntime (Fmt ''start %s failed'' [nm]) (Some e)) s1 h
                                  | Inr pid \<Rightarrow>
                                      (let s2 = s1\<lparr>sv_cmd := True, sv_done := None, sv_err := None, sv_ready := False,
                                                   sv_pid := pid, sv_pgid := pid\<rparr>;
                                           p = \<lparr>pr_pgid = pid, pr_exe = resolved oc exe, pr_ports = oc_ports oc\<rparr>;
                                           h1 = h\<lparr>h_procs := al_put pid p (h_procs h)\<rparr>
                                       in case pf_Write (oc_io oc) path pid (h_files h1) of
                                            (Some e, fs) \<Rightarrow>
                                              rollbackStart oc
                                                (RtError RtErrorRuntime (Fmt ''write PID file failed'' []) (Some e))
                                                s2 (h1\<lparr>h_files := fs\<rparr>)
                                          | (None, fs) \<Rightarrow>
                                              (let h2 = h1\<lparr>h_files := fs\<rparr>
                                               in case waitReady spec (oc_ticks oc) of
                                                    Ready \<Rightarrow>
                                                      ((None, commandResult ''start'' 0 display None),
                                                       s2\<lparr>sv_ready := True\<rparr>, h2)
                                                  | Exits we \<Rightarrow>
                                                      (let e = Errorw (Fmt ''%s exited before readiness: %v''
                                                                     [nm, case we of None \<Rightarrow> Str [] | Some w \<Rightarrow> error_text w]) [];
                                                           h3 = remove_pid (oc_io oc) spec pid (end_proc pid h2)
                                                       in rollbackStart oc (RtError RtErrorRuntime (error_text e) None)
                                                            (s2\<lparr>sv_err := Some e\<rparr>) h3)
                                                  | TimesOut \<Rightarrow>
                                                      (let e = Errorw (Fmt ''%s readiness timed out'' [nm]) []
                                                       in rollbackStart oc (RtError RtErrorRuntime (error_text e) None)
                                                            (s2\<lparr>sv_err := Some e\<rparr>) h2)
                                                  | GivesUp e \<Rightarrow>
                                                      rollbackStart oc (RtError RtErrorRuntime (error_text e) None)
                                                        (s2\<lparr>sv_err := Some e\<rparr>) h2))))))))"

section \<open>Recovery\<close>

definition recoveryError :: "recovery_class \<Rightarrow> string \<Rightarrow> gerr option \<Rightarrow> gerr" where
  "recoveryError c m e = RecoveryError c (Fmt m []) e"

text \<open>\<^verbatim>\<open>exec.LookPath\<close> of the configured executable and \<^verbatim>\<open>process.SameExecutable\<close> with the process.\<close>

definition matchExecutable :: "outcome \<Rightarrow> nat \<Rightarrow> host \<Rightarrow> gerr option" where
  "matchExecutable oc pid h =
     (case oc_lookpath oc of
        Inl e \<Rightarrow> Some e
      | Inr expected \<Rightarrow>
          (case map_of (h_procs h) pid of
             None \<Rightarrow> Some (Errorw (Fmt ''no such process'' []) [])
           | Some p \<Rightarrow>
               if pr_exe p = expected then None
               else Some (Errorw (Fmt ''process runs %q, not %q'' [Str (pr_exe p), Str expected]) [])))"

definition sup_Recover :: "outcome \<Rightarrow> sup \<Rightarrow> host \<Rightarrow> (bool \<times> gerr option) \<times> sup \<times> host" where
  "sup_Recover oc s h =
     (let io = oc_io oc
      in case spec_pidFile (sv_spec s) of
           Inl e \<Rightarrow> ((False, Some e), s, h)
         | Inr path \<Rightarrow>
             (case pf_Read io path (h_files h) of
                (pid, exists, err) \<Rightarrow>
                  if \<not> exists then ((False, err), s, h)
                  else if err \<noteq> None then
                    ((False, Some (recoveryError RecoveryStalePIDFile ''stale PID file'' err)), s,
                     h\<lparr>h_files := snd (pf_Remove io path 0 (h_files h))\<rparr>)
                  else if \<not> alive pid h then
                    ((False, Some (recoveryError RecoveryStalePIDFile ''stale PID file'' None)), s,
                     h\<lparr>h_files := snd (pf_Remove io path pid (h_files h))\<rparr>)
                  else if map_option pr_pgid (map_of (h_procs h) pid) \<noteq> Some pid then
                    ((False, Some (recoveryError RecoveryMismatchedExecutable
                        ''recorded process group does not match'' None)), s, h)
                  else
                    (case matchExecutable oc pid h of
                       Some e \<Rightarrow>
                         ((False, Some (recoveryError RecoveryMismatchedExecutable
                             ''recorded executable does not match'' (Some e))), s, h)
                     | None \<Rightarrow>
                         (let s' = s\<lparr>sv_pid := pid, sv_pgid := pid, sv_cmd := False, sv_done := None, sv_err := None\<rparr>;
                              owns = (case map_of (h_procs h) pid of
                                        None \<Rightarrow> False | Some p \<Rightarrow> sp_port (sv_spec s) \<in> set (pr_ports p))
                          in case oc_ports_err oc of
                               Some e \<Rightarrow>
                                 ((False, Some (recoveryError RecoveryUnhealthySurvivor
                                     ''could not verify survivor port'' (Some e))), s', h)
                             | None \<Rightarrow>
                                 if \<not> owns then
                                   (if probeReady (sv_spec s) (oc_probe oc) = None
                                    then ((False, Some (recoveryError RecoveryOccupiedPort
                                            ''expected port is occupied by another process'' None)), s', h)
                                    else ((False, Some (recoveryError RecoveryUnhealthySurvivor
                                            ''survivor is not listening on the expected port'' None)), s', h))
                                 else (case probeReady (sv_spec s) (oc_probe oc) of
                                     Some e \<Rightarrow>
                                       ((False, Some (recoveryError RecoveryUnhealthySurvivor
                                           ''survivor failed its readiness probe'' (Some e))), s', h)
                                   | None \<Rightarrow> ((True, None), s'\<lparr>sv_ready := True\<rparr>, h))))))"

section \<open>Status\<close>

record process_status =
  st_name :: string
  st_state :: rt_state
  st_pid :: nat
  st_host :: string
  st_port :: int
  st_ready :: bool
  st_last_error :: "msg option"
  st_detail :: msg

definition statusLocked :: "io_env \<Rightarrow> sup \<Rightarrow> host \<Rightarrow> process_status \<times> sup \<times> host" where
  "statusLocked io s0 h =
     (let (running, s) = isRunning s0 h;
          (state, pid, h') =
            (if running then (if sv_ready s then Running else Starting, sv_pid s, h)
             else (Stopped, 0, if sv_pid s > 0 then remove_pid io (sv_spec s) (sv_pid s) h else h));
          nm = displayName (sv_spec s);
          detail =
            (if pid > 0 then Fmt ''%s pid=%d'' [Str nm, Str (itoa pid)]
             else case sv_err s of
                 Some e \<Rightarrow> Fmt ''%s stopped: %v'' [Str nm, error_text e]
               | None \<Rightarrow> Fmt ''%s stopped'' [Str nm])
      in (\<lparr>st_name = sp_name (sv_spec s), st_state = state, st_pid = pid, st_host = sp_host (sv_spec s),
           st_port = sp_port (sv_spec s), st_ready = sv_ready s,
           st_last_error = map_option error_text (sv_err s), st_detail = detail\<rparr>,
          s, h'))"

section \<open>What the calls do to the processes\<close>

definition pids :: "host \<Rightarrow> nat set" where
  "pids h = {p. alive p h}"

text \<open>The live process a supervisor knows, hence can still stop.\<close>

definition knows :: "sup \<Rightarrow> host \<Rightarrow> nat option" where
  "knows s h = (if fst (isRunning s h) then Some (sv_pid s) else None)"

lemma pids_end [simp]: "pids (end_proc p h) = pids h - {p}"
  by (auto simp: pids_def alive_def end_proc_def)

lemma pids_files [simp]: "pids (h\<lparr>h_files := fs\<rparr>) = pids h"
  by (simp add: pids_def alive_def)

lemma alive_files [simp]: "alive p (h\<lparr>h_files := fs\<rparr>) = alive p h"
  by (simp add: alive_def)

lemma pids_remove_pid [simp]: "pids (remove_pid io spec p h) = pids h"
  by (simp add: remove_pid_def split: sum.splits)

lemma alive_remove_pid [simp]: "alive q (remove_pid io spec p h) = alive q h"
  by (simp add: remove_pid_def split: sum.splits)

lemma pids_put: "pid > 0 \<Longrightarrow> pids (h\<lparr>h_procs := al_put pid p (h_procs h)\<rparr>) = insert pid (pids h)"
  by (auto simp: pids_def alive_def)

lemma isRunning_spec [simp]: "sv_spec (snd (isRunning s h)) = sv_spec s" "sv_pid (snd (isRunning s h)) = sv_pid s"
  by (simp_all add: isRunning_def)

lemma isRunning_True: "fst (isRunning s h) \<Longrightarrow> snd (isRunning s h) = s \<and> alive (sv_pid s) h"
  by (auto simp: isRunning_def split: if_splits)

lemma knows_forget [simp]: "knows (forget s) h = None"
  by (simp add: knows_def isRunning_def forget_def)

lemma knows_Some: "knows s h = Some p \<longleftrightarrow> fst (isRunning s h) \<and> p = sv_pid s"
  by (auto simp: knows_def)

lemma stopProcess_spec:
  assumes "stopProcess oc s h = (e, s', h')"
  shows "sv_pid s' = 0 \<and> knows s' h'' = None \<and> pids h - set_option (knows s h) \<subseteq> pids h' \<and> pids h' \<subseteq> pids h \<and>
    (e = None \<longrightarrow> pids h' = pids h - set_option (knows s h))"
proof (cases "fst (isRunning s h)")
  case True
  then have "isRunning s h = (True, s)" using isRunning_True by (metis prod.collapse)
  with assms show ?thesis
    by (auto simp: stopProcess_def Let_def knows_def forget_def isRunning_def split: option.splits if_splits)
next
  case False
  then obtain s1 where "isRunning s h = (False, s1)" by (metis prod.collapse)
  with assms show ?thesis
    by (auto simp: stopProcess_def Let_def knows_def forget_def isRunning_def)
qed

lemma stopProcess_ends:
  assumes "stopProcess oc s h = (e, s', h')" and "knows s h = Some p"
    and "oc_interrupt oc = None" and "oc_exits oc \<or> oc_killed oc"
  shows "pids h' = pids h - {p}"
proof -
  from assms(2) have k: "fst (isRunning s h)" "p = sv_pid s" by (simp_all add: knows_Some)
  then have "isRunning s h = (True, s)" using isRunning_True by (metis prod.collapse)
  with assms(1,3,4) k(2) show ?thesis
    by (cases "oc_exits oc"; cases "sv_cmd s") (auto simp: stopProcess_def Let_def)
qed

text \<open>A process whose end the waiting goroutine has reported is gone.\<close>

definition sup_wf :: "sup \<Rightarrow> host \<Rightarrow> bool" where
  "sup_wf s h \<longleftrightarrow> (sv_done s \<noteq> None \<longrightarrow> \<not> alive (sv_pid s) h)"

lemma sup_stop_spec:
  assumes "sup_stop oc s h = ((e, r), s', h')" and wf: "sup_wf s h"
  shows "knows s' h' = None \<and> pids h - set_option (knows s h) \<subseteq> pids h' \<and> pids h' \<subseteq> pids h \<and>
    (e = None \<longrightarrow> pids h' = pids h - set_option (knows s h))"
proof (cases "fst (isRunning s h)")
  case True
  then have "isRunning s h = (True, s)" using isRunning_True by (metis prod.collapse)
  with assms(1) obtain e' where "stopProcess oc s h = (e', s', h')" "e' = e"
    by (auto simp: sup_stop_def split: prod.splits option.splits)
  with stopProcess_spec show ?thesis by auto
next
  case False
  then have r: "isRunning s h = (False, snd (isRunning s h))" by (metis prod.collapse)
  with assms(1) have "s' = snd (isRunning s h)" "h' = h" by (auto simp: sup_stop_def split: prod.splits)
  moreover have "knows (snd (isRunning s h)) h = None"
    using False wf by (auto simp: knows_def isRunning_def sup_wf_def split: if_splits)
  ultimately show ?thesis using False by (simp add: knows_def)
qed

text \<open>A start either runs nothing, or runs one process and then is ready or rolls it back.\<close>

definition spawned :: "outcome \<Rightarrow> launch_spec \<Rightarrow> nat \<Rightarrow> host \<Rightarrow> host" where
  "spawned oc spec pid h =
     h\<lparr>h_procs := al_put pid \<lparr>pr_pgid = pid, pr_exe = resolved oc (sp_executable spec), pr_ports = oc_ports oc\<rparr> (h_procs h)\<rparr>"

definition started :: "nat \<Rightarrow> sup \<Rightarrow> sup" where
  "started pid s =
     s\<lparr>sv_cmd := True, sv_done := None, sv_err := None, sv_ready := False, sv_pid := pid, sv_pgid := pid\<rparr>"

lemma sup_start_cases:
  assumes "sup_start oc s h = ((e, r), s', h')"
  obtains (refused) "e \<noteq> None" "h' = h" "s' = s \<or> s' = snd (isRunning s h)"
  | (ready) pid path fs where "e = None" "\<not> fst (isRunning s h)" "oc_spawn oc = Inr pid"
      "spec_pidFile (sv_spec s) = Inr path" "pf_Write (oc_io oc) path pid (h_files h) = (None, fs)"
      "s' = started pid (snd (isRunning s h))\<lparr>sv_ready := True\<rparr>" "h' = spawned oc (sv_spec s) pid h\<lparr>h_files := fs\<rparr>"
  | (rolled_back) pid er s2 h2 where "e \<noteq> None" "\<not> fst (isRunning s h)" "oc_spawn oc = Inr pid"
      "rollbackStart oc er s2 h2 = ((e, r), s', h')" "sv_pid s2 = pid \<and> sv_done s2 = None"
      "pids h2 \<subseteq> pids (spawned oc (sv_spec s) pid h)" "pids h - {pid} \<subseteq> pids h2"
      "\<not> alive pid h2 \<or> knows s2 h2 = Some pid"
proof -
  let ?spec = "sv_spec s"
  obtain b s1 where run: "isRunning s h = (b, s1)" by (cases "isRunning s h")
  consider "e \<noteq> None \<and> h' = h \<and> (s' = s \<or> s' = s1)"
    | exe argv display path pid where "\<not> b" "sp_build_err ?spec = None"
        "spec_command ?spec = Inr (exe, argv, display)" "spec_pidFile ?spec = Inr path" "oc_spawn oc = Inr pid"
        "(if sp_log_name ?spec \<noteq> [] then oc_log oc else None) = None"
    using assms run
    by (auto simp: sup_start_def sup_fail_def Let_def split: option.splits sum.splits if_splits prod.splits)
  then show ?thesis
  proof cases
    case 1
    with run refused show ?thesis by simp
  next
    case (2 exe argv display path pid)
    then have exe: "exe = sp_executable ?spec" by (auto simp: spec_command_def split: if_splits)
    let ?s2 = "started pid s1" and ?h1 = "spawned oc ?spec pid h"
    obtain we fs where w: "pf_Write (oc_io oc) path pid (h_files h) = (we, fs)"
      by (cases "pf_Write (oc_io oc) path pid (h_files h)")
    have sub: "pids h - {pid} \<subseteq> pids ?h1" by (auto simp: spawned_def pids_def alive_def)
    have known: "alive pid h2 \<Longrightarrow> knows (?s2\<lparr>sv_err := er\<rparr>) h2 = Some pid" for h2 er
      by (auto simp: knows_def isRunning_def started_def alive_def)
    note st = assms [unfolded sup_start_def Let_def, folded started_def spawned_def]
    have fs: "h_files ?h1 = h_files h" by (simp add: spawned_def)
    have bad: thesis if "rollbackStart oc er s2 h2 = ((e, r), s', h')"
        "pids h2 \<subseteq> pids ?h1" "pids h - {pid} \<subseteq> pids h2" "s2 = ?s2 \<or> (\<exists>er'. s2 = ?s2\<lparr>sv_err := er'\<rparr>)" for er s2 h2
    proof (rule rolled_back)
      show "e \<noteq> None" using that(1) by (auto simp: rollbackStart_def Let_def split: prod.splits)
      have "alive pid h2 \<Longrightarrow> knows ?s2 h2 = Some pid"
        by (auto simp: knows_def isRunning_def started_def alive_def)
      then show "\<not> alive pid h2 \<or> knows s2 h2 = Some pid" using that(4) known by blast
      show "sv_pid s2 = pid \<and> sv_done s2 = None" using that(4) by (auto simp: started_def)
    qed (use that 2 run in simp_all)
    show ?thesis
    proof (cases we)
      case (Some x)
      have "rollbackStart oc (RtError RtErrorRuntime (Fmt ''write PID file failed'' []) (Some x))
          ?s2 (?h1\<lparr>h_files := fs\<rparr>) = ((e, r), s', h')"
        using assms 2 run w Some exe by (simp add: sup_start_def Let_def started_def spawned_def)
      then show ?thesis by (rule bad) (use sub in auto)
    next
      case None
      show ?thesis
      proof (cases "waitReady ?spec (oc_ticks oc)")
        case Ready
        then show ?thesis
          using assms 2 run w None exe ready [of pid path fs]
          by (simp add: sup_start_def Let_def started_def spawned_def)
      next
        case (Exits we')
        then obtain er er' where "rollbackStart oc er (?s2\<lparr>sv_err := er'\<rparr>)
            (remove_pid (oc_io oc) ?spec pid (end_proc pid (?h1\<lparr>h_files := fs\<rparr>))) = ((e, r), s', h')"
          using assms 2 run w None exe by (simp add: sup_start_def Let_def started_def spawned_def)
        then show ?thesis by (rule bad) (use sub in auto)
      next
        case TimesOut
        then obtain er er' where "rollbackStart oc er (?s2\<lparr>sv_err := er'\<rparr>) (?h1\<lparr>h_files := fs\<rparr>) = ((e, r), s', h')"
          using assms 2 run w None exe by (simp add: sup_start_def Let_def started_def spawned_def)
        then show ?thesis by (rule bad) (use sub in auto)
      next
        case (GivesUp g)
        then obtain er er' where "rollbackStart oc er (?s2\<lparr>sv_err := er'\<rparr>) (?h1\<lparr>h_files := fs\<rparr>) = ((e, r), s', h')"
          using assms 2 run w None exe by (simp add: sup_start_def Let_def started_def spawned_def)
        then show ?thesis by (rule bad) (use sub in auto)
      qed
    qed
  qed
qed

section \<open>The interface of a process object\<close>

text \<open>
  What the control plane relies on (\<^verbatim>\<open>control.Runtime\<close>): a start that succeeds leaves one new process
  that the object knows, a stop ends at most the process the object knows, and after any stop the
  object knows none.
\<close>

locale process_object =
  fixes start :: "'o \<Rightarrow> 's \<Rightarrow> 'h \<Rightarrow> bool \<times> 's \<times> 'h"
    and stop :: "'o \<Rightarrow> 's \<Rightarrow> 'h \<Rightarrow> bool \<times> 's \<times> 'h"
    and known :: "'s \<Rightarrow> 'h \<Rightarrow> nat option"
    and live :: "'h \<Rightarrow> nat set"
    and fresh :: "'o \<Rightarrow> nat option"
    and good :: "'o \<Rightarrow> bool"
    and ok :: "'s \<Rightarrow> 'h \<Rightarrow> bool"
  assumes stop_ok: "ok s h \<Longrightarrow> stop x s h = (True, s', h') \<Longrightarrow> live h' = live h - set_option (known s h)"
    and stop_any: "ok s h \<Longrightarrow> stop x s h = (b, s', h') \<Longrightarrow>
      ok s' h' \<and> known s' h' = None \<and> live h - set_option (known s h) \<subseteq> live h' \<and> live h' \<subseteq> live h"
    and start_ok: "ok s h \<Longrightarrow> good x \<Longrightarrow> start x s h = (True, s', h') \<Longrightarrow>
      known s h = None \<and> (\<exists>p. fresh x = Some p \<and> known s' h' = Some p \<and> live h' = insert p (live h))"
    and start_any: "ok s h \<Longrightarrow> good x \<Longrightarrow> start x s h = (b, s', h') \<Longrightarrow>
      ok s' h' \<and> live h - set_option (fresh x) \<subseteq> live h' \<and> live h' \<subseteq> live h \<union> set_option (fresh x)"
begin

lemma stop_again: "ok s h \<Longrightarrow> stop x s h = (b, s1, h1) \<Longrightarrow> stop y s1 h1 = (c, s2, h2) \<Longrightarrow> live h2 = live h1"
  using stop_any [of s h x b s1 h1] stop_any [of s1 h1 y c s2 h2] by auto

lemma start_stop:
  "ok s h \<Longrightarrow> good x \<Longrightarrow> start x s h = (True, s1, h1) \<Longrightarrow> stop y s1 h1 = (True, s2, h2) \<Longrightarrow>
     live h2 = live h - set_option (fresh x) \<and> known s2 h2 = None"
  using start_ok [of s h x s1 h1] start_any [of s h x True s1 h1] stop_ok [of s1 h1 y s2 h2]
    stop_any [of s1 h1 y True s2 h2] by auto

lemma others_survive:
  "ok s h \<Longrightarrow> stop x s h = (b, s', h') \<Longrightarrow> p \<in> live h \<Longrightarrow> known s h \<noteq> Some p \<Longrightarrow> p \<in> live h'"
  using stop_any [of s h x b s' h'] by (cases "known s h") auto

end

definition stop_call :: "outcome \<Rightarrow> sup \<Rightarrow> host \<Rightarrow> bool \<times> sup \<times> host" where
  "stop_call oc s h = (case sup_stop oc s h of ((e, r), s', h') \<Rightarrow> (e = None, s', h'))"

definition start_call :: "outcome \<Rightarrow> sup \<Rightarrow> host \<Rightarrow> bool \<times> sup \<times> host" where
  "start_call oc s h = (case sup_start oc s h of ((e, r), s', h') \<Rightarrow> (e = None, s', h'))"

text \<open>The PID the machine gives a new process; it is never 0.\<close>

definition new_pid :: "outcome \<Rightarrow> nat option" where
  "new_pid oc = (case oc_spawn oc of Inl e \<Rightarrow> None | Inr p \<Rightarrow> if p > 0 then Some p else None)"

lemma wf_no_pid: "sv_pid s = 0 \<Longrightarrow> sup_wf s h"
  by (simp add: sup_wf_def alive_def)

lemma wf_no_result: "sv_done s = None \<Longrightarrow> sup_wf s h"
  by (simp add: sup_wf_def)

lemma wf_isRunning: "sup_wf s h \<Longrightarrow> sup_wf (snd (isRunning s h)) h"
  by (auto simp: sup_wf_def isRunning_def)

lemma knows_isRunning: "sup_wf s h \<Longrightarrow> knows (snd (isRunning s h)) h = knows s h"
  by (auto simp: knows_def isRunning_def sup_wf_def)

lemma wf_stop:
  assumes "sup_stop oc s h = (er, s', h')" and "sup_wf s h"
  shows "sup_wf s' h'"
proof (cases "fst (isRunning s h)")
  case True
  with assms(1) obtain e s1 where "stopProcess oc s1 h = (e, s', h')"
    by (auto simp: sup_stop_def split: option.splits prod.splits)
  then have "sv_pid s' = 0" using stopProcess_spec by blast
  then show ?thesis by (rule wf_no_pid)
next
  case False
  with assms(1) have "s' = snd (isRunning s h)" "h' = h" by (auto simp: sup_stop_def split: prod.splits)
  with wf_isRunning [OF assms(2)] show ?thesis by simp
qed

lemma pids_spawned: "pids (spawned oc spec pid h) = (if pid > 0 then insert pid (pids h) else pids h)"
  by (auto simp: spawned_def pids_def alive_def)

lemma knows_started: "knows (started pid s\<lparr>sv_ready := b\<rparr>) (spawned oc spec pid h\<lparr>h_files := fs\<rparr>) = (if pid > 0 then Some pid else None)"
  by (simp add: knows_def isRunning_def started_def spawned_def alive_def)

lemma sup_start_spec:
  assumes "sup_start oc s h = ((e, r), s', h')" and "oc_spawn oc \<noteq> Inr 0"
  shows "(e = None \<longrightarrow> knows s h = None \<and> (\<exists>p. new_pid oc = Some p \<and> knows s' h' = Some p \<and> sv_ready s' \<and> pids h' = insert p (pids h))) \<and>
    pids h - set_option (new_pid oc) \<subseteq> pids h' \<and> pids h' \<subseteq> pids h \<union> set_option (new_pid oc)"
  using assms(1)
proof (cases rule: sup_start_cases)
  case refused
  then show ?thesis by auto
next
  case (ready pid path fs)
  with assms(2) show ?thesis
    by (auto simp: knows_started pids_spawned new_pid_def) (auto simp: knows_def started_def)
next
  case (rolled_back pid er s2 h2)
  then obtain ce where st: "stopProcess oc s2 h2 = (ce, s', h')"
    by (auto simp: rollbackStart_def Let_def split: prod.splits)
  have pid: "new_pid oc = Some pid" using rolled_back(3) assms(2) by (cases pid) (auto simp: new_pid_def)
  have "set_option (knows s2 h2) \<subseteq> {pid}" using rolled_back(5) by (auto simp: knows_def)
  then have "pids h2 - {pid} \<subseteq> pids h'" "pids h' \<subseteq> pids h2"
    using stopProcess_spec [OF st, of h'] by auto
  moreover have "pids h2 \<subseteq> insert pid (pids h)" using rolled_back(6) by (auto simp: pids_spawned split: if_splits)
  ultimately show ?thesis using rolled_back(1,7) pid by auto
qed

lemma wf_start:
  assumes "sup_start oc s h = ((e, r), s', h')" and "sup_wf s h"
  shows "sup_wf s' h'"
  using assms(1)
proof (cases rule: sup_start_cases)
  case refused
  with assms(2) show ?thesis by (auto intro: wf_isRunning)
next
  case (ready pid path fs)
  then show ?thesis by (simp add: wf_no_result started_def)
next
  case (rolled_back pid er s2 h2)
  then obtain ce where "stopProcess oc s2 h2 = (ce, s', h')"
    by (auto simp: rollbackStart_def Let_def split: prod.splits)
  then have "sv_pid s' = 0" using stopProcess_spec by blast
  then show ?thesis by (rule wf_no_pid)
qed

definition machine_ok :: "outcome \<Rightarrow> bool" where
  "machine_ok oc \<longleftrightarrow> oc_spawn oc \<noteq> Inr 0"

interpretation proc_obj: process_object start_call stop_call knows pids new_pid machine_ok sup_wf
proof (unfold_locales, goal_cases)
  case (1 s h x s' h')
  then show ?case
    using sup_stop_spec by (auto simp: stop_call_def split: prod.splits)
next
  case (2 s h x b s' h')
  then obtain e r where st: "sup_stop x s h = ((e, r), s', h')"
    by (auto simp: stop_call_def split: prod.splits)
  from wf_stop [OF st 2(1)] sup_stop_spec [OF st 2(1)] show ?case by blast
next
  case (3 s h x s' h')
  then obtain r where st: "sup_start x s h = ((None, r), s', h')"
    by (auto simp: start_call_def split: prod.splits)
  from sup_start_spec [OF st] 3(2) show ?case by (auto simp: machine_ok_def)
next
  case (4 s h x b s' h')
  then obtain e r where st: "sup_start x s h = ((e, r), s', h')"
    by (auto simp: start_call_def split: prod.splits)
  from wf_start [OF st 4(1)] sup_start_spec [OF st] 4(2) show ?case by (auto simp: machine_ok_def)
qed

section \<open>PID files\<close>

lemma is_space_newline [simp]: "is_space newline"
  by (simp add: is_space_def newline_def)

lemma digit_not_space: "digit_of c \<noteq> None \<Longrightarrow> \<not> is_space c"
proof -
  have "is_space c \<longrightarrow> digit_of c = None"
    unfolding is_space_def digit_of_def by (auto simp: Let_def)
  then show "digit_of c \<noteq> None \<Longrightarrow> \<not> is_space c" by auto
qed

lemma digits_value_set: "digits_value a s = Some v \<Longrightarrow> c \<in> set s \<Longrightarrow> digit_of c \<noteq> None"
  by (induction a s rule: digits_value.induct) (auto split: option.splits)

lemma trim_space_itoa: "trim_space (itoa n @ [newline]) = itoa n"
proof -
  have d: "\<not> is_space c" if "c \<in> set (itoa n)" for c
    using digits_value_set [OF digits_value_itoa that] by (rule digit_not_space)
  obtain a r where ar: "itoa n = a # r" by (cases "itoa n") auto
  have "trim_left is_space (itoa n @ [newline]) = itoa n @ [newline]"
    by (rule trim_left_id) (use d ar in auto)
  moreover have "trim_right is_space (itoa n @ [newline]) = trim_right is_space (itoa n)"
    by (simp add: trim_right_def)
  moreover have "trim_right is_space (itoa n) = itoa n"
    by (rule trim_right_id) (use d last_in_set in auto)
  ultimately show ?thesis by (simp add: trim_space_def)
qed

lemma atoi_pid: "pid \<le> 2147483647 \<Longrightarrow> atoi (trim_space (itoa pid @ [newline])) = Some (int pid)"
  by (simp add: trim_space_itoa atoi_itoa)

lemma pf_Write_file:
  "pf_Write io path pid fs = (None, fs') \<Longrightarrow> map_of fs' path = Some (NFile (itoa pid @ [newline]) 384)"
  by (auto simp: pf_Write_def split: prod.splits option.splits)

lemma pf_Read_written:
  assumes "map_of fs path = Some (NFile (itoa pid @ [newline]) m)" and "0 < pid" and "pid \<le> 2147483647"
    and "io_fail io (OpOpen path) = None" and "io_fail io (OpRead path) = None"
  shows "pf_Read io path fs = (pid, True, None)"
  using assms by (simp add: pf_Read_def ReadFile_def follow_plain atoi_pid)

lemma sup_Recover_spec:
  assumes "sup_Recover oc s h = ((b, e), s', h')"
  shows "h_procs h' = h_procs h \<and>
    (b \<longrightarrow> e = None \<and> h' = h \<and>
      (\<exists>path pid p. spec_pidFile (sv_spec s) = Inr path \<and> pf_Read (oc_io oc) path (h_files h) = (pid, True, None) \<and>
         alive pid h \<and> map_of (h_procs h) pid = Some p \<and> pr_pgid p = pid \<and> oc_lookpath oc = Inr (pr_exe p) \<and>
         sp_port (sv_spec s) \<in> set (pr_ports p) \<and> probeReady (sv_spec s) (oc_probe oc) = None \<and>
         knows s' h' = Some pid \<and> sv_ready s')) \<and>
    (h_files h' \<noteq> h_files h \<longrightarrow> RecoveryClass e = Some RecoveryStalePIDFile)"
proof (cases "spec_pidFile (sv_spec s)")
  case (Inl x)
  with assms show ?thesis by (auto simp: sup_Recover_def Let_def)
next
  case (Inr path)
  obtain pid ex er where r: "pf_Read (oc_io oc) path (h_files h) = (pid, ex, er)" by (metis surj_pair)
  note d = sup_Recover_def Let_def Inr r
  show ?thesis
  proof (cases "ex \<and> er = None \<and> alive pid h")
    case False
    with assms show ?thesis by (auto simp: d recoveryError_def RecoveryClass_def split: if_splits)
  next
    case True
    then obtain p where p: "map_of (h_procs h) pid = Some p" by (auto simp: alive_def)
    show ?thesis
    proof (cases "b")
      case False
      with assms True p show ?thesis
        by (auto simp: d split: if_splits option.splits)
    next
      case b: True
      with assms True p have "pr_pgid p = pid" "matchExecutable oc pid h = None"
          "sp_port (sv_spec s) \<in> set (pr_ports p)" "probeReady (sv_spec s) (oc_probe oc) = None" "e = None" "h' = h"
          "s' = s\<lparr>sv_pid := pid, sv_pgid := pid, sv_cmd := False, sv_done := None, sv_err := None, sv_ready := True\<rparr>"
        by (simp_all add: d split: if_splits option.splits)
      then show ?thesis
        using True p Inr r
        by (auto simp: matchExecutable_def knows_def isRunning_def alive_def split: sum.splits if_splits)
    qed
  qed
qed

section \<open>A small machine\<close>

definition ex_spec :: launch_spec where
  "ex_spec = \<lparr>sp_name = ''m'', sp_executable = ''srv'', sp_argv = [], sp_host = [], sp_port = 9000,
     sp_readiness_path = [], sp_pid_dir = ''/p'', sp_log_name = [], sp_env = [],
     sp_readiness_timeout = 0, sp_build_err = None\<rparr>"

definition ex_probe :: probe_answer where
  "ex_probe = \<lparr>pa_dial = None, pa_get = Inr 200\<rparr>"

definition ex_outcome :: outcome where
  "ex_outcome = \<lparr>oc_io = calm_env, oc_log = None, oc_spawn = Inr 7, oc_ports = [9000],
     oc_ticks = [\<lparr>tk_exit = None, tk_probe = ex_probe, tk_cancel = None\<rparr>], oc_interrupt = None, oc_exits = True,
     oc_killed = True, oc_wait = None, oc_lookpath = Inr ''/bin/srv'', oc_ports_err = None, oc_probe = ex_probe\<rparr>"

definition ex_host :: host where
  "ex_host = \<lparr>h_procs = [], h_files = []\<rparr>"

section \<open>Properties\<close>



text \<open>
  a stop ends at most the process its supervisor knows. Every other process of the machine
  survives, nothing new starts, the supervisor knows no process afterwards, and a second stop changes
  no process. A stop that reports success has ended the process it knew.
\<close>

theorem stop_ends_only_its_own:
  assumes "sup_stop oc s h = ((e, r), s1, h1)" and "sup_wf s h"
  shows "knows s1 h1 = None \<and> pids h1 \<subseteq> pids h \<and>
    (\<forall>p\<in>pids h. knows s h \<noteq> Some p \<longrightarrow> p \<in> pids h1) \<and>
    (e = None \<longrightarrow> pids h1 = pids h - set_option (knows s h)) \<and>
    pids (snd (snd (sup_stop oc' s1 h1))) = pids h1"
proof -
  have c: "stop_call oc s h = (e = None, s1, h1)" using assms(1) by (simp add: stop_call_def)
  obtain b s2 h2 where d: "stop_call oc' s1 h1 = (b, s2, h2)" by (metis surj_pair)
  then have "h2 = snd (snd (sup_stop oc' s1 h1))" by (auto simp: stop_call_def split: prod.splits)
  with proc_obj.stop_again [OF assms(2) c d] proc_obj.others_survive [OF assms(2) c]
    proc_obj.stop_any [OF assms(2) c] sup_stop_spec [OF assms]
  show ?thesis by auto
qed

theorem stop_ends_only_its_own_witness:
  "let h = \<lparr>h_procs = [(7, \<lparr>pr_pgid = 7, pr_exe = ''a'', pr_ports = []\<rparr>), (8, \<lparr>pr_pgid = 8, pr_exe = ''b'', pr_ports = []\<rparr>)],
              h_files = []\<rparr>;
       (er, s1, h1) = sup_stop ex_outcome (NewSupervisor ex_spec\<lparr>sv_pid := 7\<rparr>) h
   in knows s1 h1 = None \<and> 8 \<in> pids h1"
proof -
  let ?h = "\<lparr>h_procs = [(7, \<lparr>pr_pgid = 7, pr_exe = ''a'', pr_ports = []\<rparr>), (8, \<lparr>pr_pgid = 8, pr_exe = ''b'', pr_ports = []\<rparr>)],
              h_files = []\<rparr> :: host"
  let ?s = "NewSupervisor ex_spec\<lparr>sv_pid := 7\<rparr>"
  obtain e r s1 h1 where st: "sup_stop ex_outcome ?s ?h = ((e, r), s1, h1)" by (metis surj_pair)
  have "sup_wf ?s ?h" by (simp add: sup_wf_def NewSupervisor_def)
  from stop_ends_only_its_own [OF st this]
  have "knows s1 h1 = None" "\<forall>p\<in>pids ?h. knows ?s ?h \<noteq> Some p \<longrightarrow> p \<in> pids h1" by simp_all
  moreover have "8 \<in> pids ?h" "knows ?s ?h \<noteq> Some 8"
    by (auto simp: pids_def alive_def knows_def isRunning_def)
  ultimately show ?thesis using st by (simp add: Let_def)
qed

text \<open>
  C11: recovery never touches a process, and adopts one only when it is provably the recorded engine:
  the PID file names it, it lives and leads its own process group, it runs the configured
  executable, it listens on the configured port and it answers the readiness probe. It removes the
  PID file only when it calls that file stale.
\<close>

theorem recover_adopts_only_the_engine:
  assumes "sup_Recover oc s h = ((b, e), s', h')"
  shows "h_procs h' = h_procs h \<and>
    (b \<longrightarrow> e = None \<and> h' = h \<and>
      (\<exists>path pid p. spec_pidFile (sv_spec s) = Inr path \<and> pf_Read (oc_io oc) path (h_files h) = (pid, True, None) \<and>
         alive pid h \<and> map_of (h_procs h) pid = Some p \<and> pr_pgid p = pid \<and> oc_lookpath oc = Inr (pr_exe p) \<and>
         sp_port (sv_spec s) \<in> set (pr_ports p) \<and> probeReady (sv_spec s) (oc_probe oc) = None \<and>
         knows s' h' = Some pid \<and> sv_ready s')) \<and>
    (h_files h' \<noteq> h_files h \<longrightarrow> RecoveryClass e = Some RecoveryStalePIDFile)"
  by (rule sup_Recover_spec [OF assms])

text \<open>
  A witness: the survivor of the small machine, found by the supervisor of a new daemon.
\<close>

theorem recover_adopts_only_the_engine_witness:
  "let (er, s1, h1) = sup_start ex_outcome (NewSupervisor ex_spec) ex_host;
       (b, s2, h2) = sup_Recover ex_outcome (NewSupervisor ex_spec) h1
   in fst b \<and> h_procs h2 = h_procs h1"
proof -
  obtain er s1 h1 where st: "sup_start ex_outcome (NewSupervisor ex_spec) ex_host = (er, s1, h1)" by (metis surj_pair)
  obtain b e s2 h2 where rc: "sup_Recover ex_outcome (NewSupervisor ex_spec) h1 = ((b, e), s2, h2)" by (metis surj_pair)
  have "fst (fst (sup_Recover ex_outcome (NewSupervisor ex_spec)
      (snd (snd (sup_start ex_outcome (NewSupervisor ex_spec) ex_host)))))" by code_simp
  with st rc have b by simp
  with recover_adopts_only_the_engine [OF rc] st rc show ?thesis by simp
qed

text \<open>
  C12: an engine outlives its daemon. When a start has succeeded, the supervisor a new daemon builds
  from the same specification finds the same process and adopts it, provided the executable still
  resolves to the program that was started, the engine listens on its port and the probe answers.
\<close>

theorem survivor_is_adopted:
  assumes "sup_start oc s h = ((None, r), s1, h1)"
    and "new_pid oc = Some pid" and "pid \<le> 2147483647"
    and "oc_lookpath oc = Inr exe" and "oc_lookpath oc' = Inr exe"
    and "sp_port (sv_spec s) \<in> set (oc_ports oc)" and "oc_ports_err oc' = None"
    and "probeReady (sv_spec s) (oc_probe oc') = None"
    and "\<And>op. io_fail (oc_io oc') op = None"
  shows "\<exists>s2. sup_Recover oc' (NewSupervisor (sv_spec s)) h1 = ((True, None), s2, h1) \<and> knows s2 h1 = Some pid"
  using assms(1)
proof (cases rule: sup_start_cases)
  case (ready q path fs)
  then have q: "q = pid" "0 < pid" using assms(2) by (auto simp: new_pid_def split: if_splits)
  from ready q have w: "pf_Write (oc_io oc) path pid (h_files h) = (None, fs)" by simp
  have rd: "pf_Read (oc_io oc') path fs = (pid, True, None)"
    by (rule pf_Read_written [OF pf_Write_file [OF w]]) (use q assms(3,9) in auto)
  show ?thesis
    using ready q rd assms(4-8)
    by (simp add: sup_Recover_def NewSupervisor_def Let_def spawned_def resolved_def matchExecutable_def alive_def
        knows_def isRunning_def)
qed simp_all

theorem survivor_is_adopted_witness:
  "let (er, s1, h1) = sup_start ex_outcome (NewSupervisor ex_spec) ex_host
   in \<exists>s2. sup_Recover ex_outcome (NewSupervisor ex_spec) h1 = ((True, None), s2, h1) \<and> knows s2 h1 = Some 7"
proof -
  obtain e r s1 h1 where st: "sup_start ex_outcome (NewSupervisor ex_spec) ex_host = ((e, r), s1, h1)"
    by (metis surj_pair)
  have "fst (fst (sup_start ex_outcome (NewSupervisor ex_spec) ex_host)) = None" by code_simp
  with st have ok: "sup_start ex_outcome (NewSupervisor ex_spec) ex_host = ((None, r), s1, h1)" by simp
  from survivor_is_adopted [OF this, of 7 "''/bin/srv''" ex_outcome] ok show ?thesis
    by (simp add: new_pid_def ex_outcome_def NewSupervisor_def ex_spec_def probeReady_def ex_probe_def calm_env_def)
qed

text \<open>
  A supervisor whose process has exited keeps its PID. When the machine gives that PID to another
  process, the supervisor, which has already reported its own process as stopped, takes the stranger
  for it and a stop ends the stranger.
\<close>

theorem stop_can_end_a_stranger:
  "let (er, s1, h1) = sup_start ex_outcome (NewSupervisor ex_spec) ex_host;
       (st, s2, h2) = statusLocked calm_env (s1\<lparr>sv_done := Some None\<rparr>) (end_proc 7 h1);
       h3 = h2\<lparr>h_procs := [(7, \<lparr>pr_pgid = 4, pr_exe = ''/bin/editor'', pr_ports = []\<rparr>)]\<rparr>;
       (er', s4, h4) = sup_stop (ex_outcome\<lparr>oc_exits := False\<rparr>) s2 h3
   in fst er = None \<and> st_state st = Stopped \<and> alive 7 h3 \<and> \<not> alive 7 h4"
  by code_simp

text \<open>
  credentials do not reach the displayed command line. Wherever an argument is a flag whose name
  looks like a credential, its value, written after an equals sign or as the next argument, is
  masked; other arguments stay as they are unless they are such a value.
\<close>

theorem redact_hides_credentials:
  assumes "i < length argv" and "cut (CHR ''='') (argv ! i) = (flag, value, inl)" and "credentialFlag flag"
  shows "RedactArgv argv ! i = redactedValue \<or>
    (inl \<and> RedactArgv argv ! i = flag @ ''='' @ redactedValue) \<or>
    (\<not> inl \<and> RedactArgv argv ! i = argv ! i \<and>
      (if Suc i < length argv then RedactArgv argv ! Suc i = redactedValue else True))"
proof -
  have hide: "redact_from True (a # as) = redactedValue # redact_from False as" for a as
    by (cases "cut (CHR ''='') a") simp
  have "redact_from b argv ! i = redactedValue \<or>
    (inl \<and> redact_from b argv ! i = flag @ ''='' @ redactedValue) \<or>
    (\<not> inl \<and> redact_from b argv ! i = argv ! i \<and>
      (if Suc i < length argv then redact_from b argv ! Suc i = redactedValue else True))" for b
    using assms
  proof (induction argv arbitrary: b i)
    case Nil
    then show ?case by simp
  next
    case (Cons a as)
    obtain f v w where c: "cut (CHR ''='') a = (f, v, w)" by (metis surj_pair)
    show ?case
    proof (cases i)
      case 0
      with Cons.prems c show ?thesis by (cases as) (auto simp: hide)
    next
      case (Suc j)
      have "\<exists>x b'. redact_from b (a # as) = x # redact_from b' as"
        using c by (cases b; cases "credentialFlag f"; cases w) auto
      then obtain x b' where "redact_from b (a # as) = x # redact_from b' as" by blast
      with Cons.IH [of j b'] Cons.prems Suc show ?thesis by (auto simp del: redact_from.simps)
    qed
  qed
  then show ?thesis unfolding RedactArgv_def .
qed

theorem redact_hides_credentials_witness:
  "RedactArgv [''--api-key'', ''s3cret'', ''--max-tokens'', ''512''] ! 1 = redactedValue"
proof -
  have "cut (CHR ''='') ''--api-key'' = (''--api-key'', [], False)" "credentialFlag ''--api-key''" by code_simp+
  with redact_hides_credentials [of 0 "[''--api-key'', ''s3cret'', ''--max-tokens'', ''512'']" "''--api-key''" "[]" False]
  have "RedactArgv [''--api-key'', ''s3cret'', ''--max-tokens'', ''512''] ! 0 = redactedValue \<or>
      RedactArgv [''--api-key'', ''s3cret'', ''--max-tokens'', ''512''] ! 1 = redactedValue" by auto
  moreover have "RedactArgv [''--api-key'', ''s3cret'', ''--max-tokens'', ''512''] ! 0 \<noteq> redactedValue" by code_simp
  ultimately show ?thesis by blast
qed

text \<open>A generation limit is masked too, its name contains a credential's.\<close>

lemma redact_masks_max_tokens:
  "RedactArgv [''--max-tokens'', ''512''] = [''--max-tokens'', redactedValue]"
  by code_simp

end
