(* ===== verification/Download.thy ===== *)
theory Download
  imports Backend Files
begin

text \<open>
  Model downloads: \<^verbatim>\<open>core/modeldownload/manager.go\<close>, \<^verbatim>\<open>persist.go\<close>, \<^verbatim>\<open>store.go\<close>, \<^verbatim>\<open>types.go\<close> and the
  digest sidecars of \<^verbatim>\<open>core/modelcatalog/digest.go\<close>.

  The functions of the first part transfer one plan over the file system; the network is the function
  \<open>net\<close> from a URI and an offset to a response, or an error (a cancelled context shows as an error).
  The second part keeps the jobs. Its critical sections are functions on \<open>dl\<close>, and \<open>dl_step\<close> interleaves
  them with the goroutines of the running jobs. Timestamps and percentages are left out; encoding a
  record as JSON and parsing a URL are parameters.
\<close>

section \<open>Jobs and requests\<close>

datatype job_state =
    StateQueued
  | StateRunning
  | StateCompleted
  | StateFailed
  | StateCancelled
  | StateAlreadyDownloaded

definition IsTerminal :: "job_state \<Rightarrow> bool" where
  "IsTerminal s = (case s of StateQueued \<Rightarrow> False | StateRunning \<Rightarrow> False | _ \<Rightarrow> True)"

definition Succeeded :: "job_state \<Rightarrow> bool" where
  "Succeeded s \<longleftrightarrow> s = StateCompleted \<or> s = StateAlreadyDownloaded"

record dl_request =
  rq_plan :: artifact_plan
  rq_force :: bool
  rq_backend :: string
  rq_profile :: string

record job =
  j_id :: string
  j_state :: job_state
  j_multi_file :: bool
  j_target :: string
  j_items :: nat
  j_received :: int
  j_total :: int
  j_revision :: string
  j_error :: "msg option"
  j_backend :: string
  j_profile :: string

record url =
  u_scheme :: string
  u_host :: string

record dl_cfg =
  dc_state_dir :: string
  dc_max_bytes :: int
  dc_max_redirects :: nat
  dc_hosts :: "string list"
  dc_url :: "string \<Rightarrow> url option"
  dc_encode :: "job \<times> dl_request \<Rightarrow> gerr + string"
  dc_decode :: "string \<Rightarrow> (job \<times> dl_request) option"

section \<open>Plans and paths\<close>

definition dl_invalid :: "string \<Rightarrow> msg list \<Rightarrow> gerr" where
  "dl_invalid f args = Errorw (Fmt f args) [Sentinel ErrDownloadInvalidInput]"

definition safeRelative :: "string \<Rightarrow> bool" where
  "safeRelative v \<longleftrightarrow> v \<noteq> [] \<and> v \<noteq> ''.'' \<and> v \<noteq> dotdot \<and> \<not> IsAbs v \<and> \<not> has_prefix v (dotdot @ ''/'')"

definition validateItem :: "artifact_plan \<Rightarrow> artifact_item \<Rightarrow> string list \<Rightarrow> gerr option" where
  "validateItem plan item seen =
     (if ai_uri item = [] \<or> ai_target_path item = []
      then Some (dl_invalid ''%w: item URI and target path are required'' [])
      else if ai_target_path item \<in> set seen
      then Some (dl_invalid ''%w: duplicate target %q'' [Str (ai_target_path item)])
      else if \<not> ap_multi_file plan then
        (if ai_target_path item \<noteq> ap_target_root plan
         then Some (dl_invalid ''%w: single-file target differs from root'' []) else None)
      else case Rel (ap_target_root plan) (ai_target_path item) of
          None \<Rightarrow> Some (dl_invalid ''%w: target %q escapes root'' [Str (ai_target_path item)])
        | Some rel \<Rightarrow>
            if \<not> safeRelative rel
            then Some (dl_invalid ''%w: target %q escapes root'' [Str (ai_target_path item)]) else None)"

fun validate_items :: "artifact_plan \<Rightarrow> artifact_item list \<Rightarrow> string list \<Rightarrow> gerr option" where
  "validate_items plan [] seen = None"
| "validate_items plan (item # items) seen =
     (case validateItem plan item seen of
        Some e \<Rightarrow> Some e
      | None \<Rightarrow> validate_items plan items (ai_target_path item # seen))"

definition validatePlan :: "artifact_plan \<Rightarrow> gerr option" where
  "validatePlan plan =
     (if ap_target_root plan = [] \<or> ap_items plan = []
      then Some (dl_invalid ''%w: target root and items are required'' [])
      else if \<not> ap_multi_file plan \<and> length (ap_items plan) \<noteq> 1
      then Some (dl_invalid ''%w: a single-file plan must contain one item'' [])
      else validate_items plan (ap_items plan) [])"

definition exists :: "io_env \<Rightarrow> string \<Rightarrow> fs \<Rightarrow> bool" where
  "exists io path fs = (case Stat io path fs of Inl e \<Rightarrow> False | Inr n \<Rightarrow> True)"

fun reject_paths :: "io_env \<Rightarrow> string list \<Rightarrow> fs \<Rightarrow> gerr option" where
  "reject_paths io [] fs = None"
| "reject_paths io (p # ps) fs =
     (case RejectSymlink io p fs of
        Some e \<Rightarrow> if errors_is e ErrNotExist then reject_paths io ps fs
                  else Some (dl_invalid ''%w: %v'' [error_text e])
      | None \<Rightarrow> reject_paths io ps fs)"

definition prepareParent :: "io_env \<Rightarrow> string \<Rightarrow> string \<Rightarrow> fs \<Rightarrow> gerr option \<times> fs" where
  "prepareParent io target stage fs =
     (let dir = Dir target
      in case MkdirAll io dir fs of
           (Some e, fs1) \<Rightarrow> (Some e, fs1)
         | (None, fs1) \<Rightarrow>
             (case RejectSymlinkAncestors io dir fs1 of
                Some e \<Rightarrow> (Some (dl_invalid ''%w: %v'' [error_text e]), fs1)
              | None \<Rightarrow> (reject_paths io (target # (if stage \<noteq> [] then [stage] else [])) fs1, fs1)))"

definition prepareDirectory :: "io_env \<Rightarrow> string \<Rightarrow> string \<Rightarrow> bool \<Rightarrow> fs \<Rightarrow> gerr option \<times> fs" where
  "prepareDirectory io target stage force fs =
     (case prepareParent io target stage fs of
        (Some e, fs1) \<Rightarrow> (Some e, fs1)
      | (None, fs1) \<Rightarrow>
          if exists io target fs1 \<and> \<not> force
          then (Some (Errorw (Fmt ''%w: target already exists'' []) [Sentinel ErrDownloadConflict]), fs1)
          else (case RemoveAll io stage fs1 of
              (Some e, fs2) \<Rightarrow> (Some e, fs2)
            | (None, fs2) \<Rightarrow> Mkdir io stage fs2))"

section \<open>Requests\<close>

record response =
  rs_hops :: "url list"
  rs_status :: int
  rs_range :: string
  rs_length :: int
  rs_body :: string
  rs_body_err :: "gerr option"

type_synonym net = "string \<Rightarrow> int \<Rightarrow> gerr + response"

definition checkURL :: "dl_cfg \<Rightarrow> url \<Rightarrow> gerr option" where
  "checkURL cfg u =
     (if u_scheme u \<noteq> ''http'' \<and> u_scheme u \<noteq> ''https''
      then Some (dl_invalid ''%w: unsupported artifact scheme %q'' [Str (u_scheme u)])
      else if dc_hosts cfg = [] then None
      else if to_lower (u_host u) \<notin> set (map to_lower (dc_hosts cfg))
      then Some (dl_invalid ''%w: artifact host %q is not allowed'' [Str (u_host u)])
      else None)"

text \<open>The client calls \<^verbatim>\<open>checkRedirect\<close> before each redirect with the requests made so far.\<close>

fun check_hops :: "dl_cfg \<Rightarrow> nat \<Rightarrow> url list \<Rightarrow> gerr option" where
  "check_hops cfg via [] = None"
| "check_hops cfg via (u # us) =
     (if via > dc_max_redirects cfg
      then Some (dl_invalid ''%w: more than %d redirects'' [Str (itoa (dc_max_redirects cfg))])
      else case checkURL cfg u of Some e \<Rightarrow> Some e | None \<Rightarrow> check_hops cfg (Suc via) us)"

definition dl_get :: "dl_cfg \<Rightarrow> net \<Rightarrow> string \<Rightarrow> int \<Rightarrow> gerr + response" where
  "dl_get cfg net uri off =
     (case dc_url cfg uri of
        None \<Rightarrow> Inl (dl_invalid ''%w: artifact URI %q'' [Str uri])
      | Some u \<Rightarrow>
          (case checkURL cfg u of
             Some e \<Rightarrow> Inl e
           | None \<Rightarrow>
               (case net uri off of
                  Inl e \<Rightarrow> Inl (wrap ''download artifact: %w'' e)
                | Inr resp \<Rightarrow>
                    (case check_hops cfg 1 (rs_hops resp) of
                       Some e \<Rightarrow> Inl (wrap ''download artifact: %w'' e)
                     | None \<Rightarrow> Inr resp))))"

definition resumesAt :: "response \<Rightarrow> int \<Rightarrow> bool" where
  "resumesAt resp off = has_prefix (rs_range resp) (''bytes '' @ itoa_int off @ ''-'')"

text \<open>Where the transfer continues; the progress recorded is the same number.\<close>

definition resumeOffset :: "response \<Rightarrow> int \<Rightarrow> gerr + int" where
  "resumeOffset resp off =
     (if off > 0 \<and> rs_status resp = 206 \<and> resumesAt resp off then Inr off
      else if rs_status resp \<ge> 200 \<and> rs_status resp < 300 then Inr 0
      else Inl (Errorw (Fmt ''download artifact: status %d'' [Str (itoa_int (rs_status resp))]) []))"

section \<open>Transferring one artifact\<close>

definition partialSize :: "io_env \<Rightarrow> string \<Rightarrow> fs \<Rightarrow> int" where
  "partialSize io path fs = (case Stat io path fs of Inr (NFile d m) \<Rightarrow> int (length d) | _ \<Rightarrow> 0)"

definition node_mode :: "node option \<Rightarrow> nat" where
  "node_mode n = (case n of Some (NFile d m) \<Rightarrow> m | _ \<Rightarrow> 384)"

definition node_data :: "node option \<Rightarrow> string" where
  "node_data n = (case n of Some (NFile d m) \<Rightarrow> d | _ \<Rightarrow> [])"

text \<open>
  The bytes written and the error. A file that cannot be opened for writing is a directory, a link
  (rejected before), or in a missing directory.
\<close>

definition writeBody ::
    "dl_cfg \<Rightarrow> io_env \<Rightarrow> response \<Rightarrow> string \<Rightarrow> int \<Rightarrow> fs \<Rightarrow> (int \<times> gerr option) \<times> fs" where
  "writeBody cfg io resp dest off fs =
     (case io_fail io (OpOpen dest) of
        Some e \<Rightarrow> ((0, Some e), fs)
      | None \<Rightarrow>
          if follow 40 fs (Dir dest) \<noteq> Some NDir then ((0, Some (not_exist dest)), fs)
          else if (case map_of fs dest of None \<Rightarrow> False | Some (NFile d m) \<Rightarrow> False | _ \<Rightarrow> True)
          then ((0, Some (wrong_kind dest)), fs)
          else
            (let old = map_of fs dest;
                 base = (if off > 0 then node_data old else []);
                 limit = nat (dc_max_bytes cfg - off + 1);
                 data = (if io_fail io (OpWrite dest) = None then take limit (rs_body resp) else []);
                 fs' = al_put dest (NFile (base @ data) (node_mode old)) fs;
                 written = int (length data);
                 copy_err = (case io_fail io (OpWrite dest) of
                     Some e \<Rightarrow> Some e
                   | None \<Rightarrow> if length (rs_body resp) \<ge> limit then None else rs_body_err resp)
             in ((written,
                  (case copy_err of
                     Some e \<Rightarrow> Some e
                   | None \<Rightarrow>
                       if off + written > dc_max_bytes cfg
                       then Some (dl_invalid ''%w: artifact is larger than the %d byte limit''
                              [Str (itoa_int (dc_max_bytes cfg))])
                       else case io_fail io (OpSync dest) of
                           Some e \<Rightarrow> Some e
                         | None \<Rightarrow> io_fail io (OpClose dest))),
                 fs')))"

definition verifyDigest :: "io_env \<Rightarrow> string \<Rightarrow> string \<Rightarrow> fs \<Rightarrow> gerr option \<times> fs" where
  "verifyDigest io path want fs =
     (if want = [] then (None, fs)
      else case ReadFile io path fs of
          Inl e \<Rightarrow> (Some e, fs)
        | Inr data \<Rightarrow>
            if to_lower (io_sha io data) \<noteq> to_lower want
            then (Some (dl_invalid ''%w: artifact digest %s differs from expected %s''
                     [Str (io_sha io data), Str want]), snd (Remove io path fs))
            else (None, fs))"

section \<open>Digest sidecars\<close>

definition digestSuffix :: string where
  "digestSuffix = ''.sha256''"

definition RecordDigest :: "io_env \<Rightarrow> string \<Rightarrow> string \<Rightarrow> fs \<Rightarrow> gerr option \<times> fs" where
  "RecordDigest io path digest fs =
     (if digest = [] then (None, fs)
      else AtomicCreate io (path @ digestSuffix) (digest @ [newline]) 384 fs)"

definition ReadDigest :: "io_env \<Rightarrow> string \<Rightarrow> fs \<Rightarrow> gerr + string" where
  "ReadDigest io path fs =
     (case ReadFile io (path @ digestSuffix) fs of
        Inl e \<Rightarrow> if errors_is e ErrNotExist then Inl (Sentinel ErrNoDigest) else Inl e
      | Inr data \<Rightarrow> if trim_space data = [] then Inl (Sentinel ErrNoDigest) else Inr (trim_space data))"

definition VerifyDigest :: "io_env \<Rightarrow> string \<Rightarrow> fs \<Rightarrow> gerr + bool" where
  "VerifyDigest io path fs =
     (case ReadDigest io path fs of
        Inl e \<Rightarrow> Inl e
      | Inr want \<Rightarrow>
          (case ReadFile io path fs of Inl e \<Rightarrow> Inl e | Inr data \<Rightarrow> Inr (io_sha io data = want)))"

section \<open>Executing a plan\<close>

text \<open>The error, the bytes the progress counter gains, and the files.\<close>

definition downloadItem ::
    "dl_cfg \<Rightarrow> io_env \<Rightarrow> net \<Rightarrow> artifact_item \<Rightarrow> string \<Rightarrow> fs \<Rightarrow> gerr option \<times> int \<times> fs" where
  "downloadItem cfg io net item dest fs =
     (let part = partialSize io dest fs
      in case dl_get cfg net (ai_uri item) part of
           Inl e \<Rightarrow> (Some e, 0, fs)
         | Inr resp \<Rightarrow>
             (case resumeOffset resp part of
                Inl e \<Rightarrow> (Some e, 0, fs)
              | Inr off \<Rightarrow>
                  if rs_length resp > 0 \<and> off + rs_length resp > dc_max_bytes cfg
                  then (Some (dl_invalid ''%w: artifact is larger than the %d byte limit''
                          [Str (itoa_int (dc_max_bytes cfg))]), off, fs)
                  else
                    (case writeBody cfg io resp dest off fs of
                       ((written, Some e), fs1) \<Rightarrow> (Some e, off + written, fs1)
                     | ((written, None), fs1) \<Rightarrow>
                         if ai_size item > 0 \<and> off + written \<noteq> ai_size item
                         then (Some (Errorw (Fmt ''artifact size %d differs from expected %d''
                                 [Str (itoa_int (off + written)), Str (itoa_int (ai_size item))]) []),
                               off + written, fs1)
                         else
                           (case verifyDigest io dest (ai_sha256 item) fs1 of
                              (Some e, fs2) \<Rightarrow> (Some e, off + written, fs2)
                            | (None, fs2) \<Rightarrow>
                                (case RecordDigest io dest (trim_prefix ''sha256:'' (ai_sha256 item)) fs2 of
                                   (e, fs3) \<Rightarrow> (e, off + written, fs3))))))"

definition finalize :: "io_env \<Rightarrow> string \<Rightarrow> string \<Rightarrow> fs \<Rightarrow> gerr option \<times> fs" where
  "finalize io stage target fs =
     (case Rename io stage target fs of
        (Some e, fs1) \<Rightarrow> (Some (wrap ''finalize artifact: %w'' e), fs1)
      | (None, fs1) \<Rightarrow> (io_fail io (OpSyncDir (Dir target)), fs1))"

definition part_of :: "string \<Rightarrow> string" where
  "part_of path = path @ ''.part''"

definition executeFile ::
    "dl_cfg \<Rightarrow> io_env \<Rightarrow> net \<Rightarrow> artifact_item \<Rightarrow> bool \<Rightarrow> fs \<Rightarrow> gerr option \<times> int \<times> fs" where
  "executeFile cfg io net item force fs =
     (let target = ai_target_path item; stage = part_of target
      in case prepareParent io target stage fs of
           (Some e, fs1) \<Rightarrow> (Some e, 0, fs1)
         | (None, fs1) \<Rightarrow>
             (case downloadItem cfg io net item stage fs1 of
                (Some e, n, fs2) \<Rightarrow> (Some e, n, fs2)
              | (None, n, fs2) \<Rightarrow>
                  (let fs3 = (if force then snd (Remove io target fs2) else fs2)
                   in case finalize io stage target fs3 of (e, fs4) \<Rightarrow> (e, n, fs4))))"

fun dir_items ::
    "dl_cfg \<Rightarrow> io_env \<Rightarrow> net \<Rightarrow> string \<Rightarrow> string \<Rightarrow> artifact_item list \<Rightarrow> fs \<Rightarrow> gerr option \<times> int \<times> fs" where
  "dir_items cfg io net root stage [] fs = (None, 0, fs)"
| "dir_items cfg io net root stage (item # items) fs =
     (case Rel root (ai_target_path item) of
        None \<Rightarrow> (Some (dl_invalid ''%w: artifact escapes target root'' []), 0, fs)
      | Some relative \<Rightarrow>
          if \<not> safeRelative relative
          then (Some (dl_invalid ''%w: artifact escapes target root'' []), 0, fs)
          else
            (let staged = Join [stage, relative]
             in case prepareParent io staged [] fs of
                  (Some e, fs1) \<Rightarrow> (Some e, 0, fs1)
                | (None, fs1) \<Rightarrow>
                    (case downloadItem cfg io net item staged fs1 of
                       (Some e, n, fs2) \<Rightarrow> (Some e, n, fs2)
                     | (None, n, fs2) \<Rightarrow>
                         (case dir_items cfg io net root stage items fs2 of
                            (e, k, fs3) \<Rightarrow> (e, n + k, fs3)))))"

definition executeDirectory ::
    "dl_cfg \<Rightarrow> io_env \<Rightarrow> net \<Rightarrow> dl_request \<Rightarrow> fs \<Rightarrow> gerr option \<times> int \<times> fs" where
  "executeDirectory cfg io net req fs =
     (let root = ap_target_root (rq_plan req); stage = part_of root;
          unstage = (\<lambda>f. snd (RemoveAll io stage f))
      in case prepareDirectory io root stage (rq_force req) fs of
           (Some e, fs1) \<Rightarrow> (Some e, 0, fs1)
         | (None, fs1) \<Rightarrow>
             (case dir_items cfg io net root stage (ap_items (rq_plan req)) fs1 of
                (Some e, n, fs2) \<Rightarrow> (Some e, n, unstage fs2)
              | (None, n, fs2) \<Rightarrow>
                  (case (if rq_force req then RemoveAll io root fs2 else (None, fs2)) of
                     (Some e, fs3) \<Rightarrow> (Some e, n, unstage fs3)
                   | (None, fs3) \<Rightarrow>
                       (case finalize io stage root fs3 of (e, fs4) \<Rightarrow> (e, n, unstage fs4)))))"

definition dl_execute :: "dl_cfg \<Rightarrow> io_env \<Rightarrow> net \<Rightarrow> dl_request \<Rightarrow> fs \<Rightarrow> gerr option \<times> int \<times> fs" where
  "dl_execute cfg io net req fs =
     (if ap_multi_file (rq_plan req) then executeDirectory cfg io net req fs
      else executeFile cfg io net (hd (ap_items (rq_plan req))) (rq_force req) fs)"

section \<open>The job table\<close>

text \<open>\<open>d_cancels\<close> are the jobs with a cancel function, \<open>d_cancelled\<close> those whose context it has cancelled.\<close>

record dl =
  d_jobs :: "(string \<times> job) list"
  d_requests :: "(string \<times> dl_request) list"
  d_active :: "(string \<times> string) list"
  d_cancels :: "string list"
  d_cancelled :: "string list"

definition init_dl :: dl where
  "init_dl = \<lparr>d_jobs = [], d_requests = [], d_active = [], d_cancels = [], d_cancelled = []\<rparr>"

definition DefaultMaxBytes :: int where
  "DefaultMaxBytes = 512 * 2 ^ 30"

definition DefaultMaxRedirects :: nat where
  "DefaultMaxRedirects = 5"

text \<open>\<^verbatim>\<open>New\<close>: the defaults, and the state directory, dropped when it cannot be made.\<close>

definition dl_New :: "io_env \<Rightarrow> dl_cfg \<Rightarrow> fs \<Rightarrow> dl_cfg \<times> dl \<times> fs" where
  "dl_New io opts fs =
     (let cfg = opts\<lparr>dc_max_bytes := (if dc_max_bytes opts \<le> 0 then DefaultMaxBytes else dc_max_bytes opts),
                     dc_max_redirects := (if dc_max_redirects opts = 0 then DefaultMaxRedirects
                                          else dc_max_redirects opts),
                     dc_hosts := map to_lower (dc_hosts opts)\<rparr>
      in if dc_state_dir opts = [] then (cfg, init_dl, fs)
         else case MkdirAll io (dc_state_dir opts) fs of
             (Some e, fs') \<Rightarrow> (cfg\<lparr>dc_state_dir := []\<rparr>, init_dl, fs')
           | (None, fs') \<Rightarrow> (cfg, init_dl, fs'))"

definition newJob :: "string \<Rightarrow> dl_request \<Rightarrow> job_state \<Rightarrow> job" where
  "newJob jid req st =
     (let plan = rq_plan req
      in \<lparr>j_id = jid, j_state = st, j_multi_file = ap_multi_file plan, j_target = ap_target_root plan,
          j_items = length (ap_items plan), j_received = 0, j_total = ap_total_bytes plan,
          j_revision = ap_revision plan, j_error = None, j_backend = rq_backend req,
          j_profile = rq_profile req\<rparr>)"

definition record_path :: "dl_cfg \<Rightarrow> string \<Rightarrow> string" where
  "record_path cfg jid = Join [dc_state_dir cfg, jid @ ''.json'']"

definition persist :: "dl_cfg \<Rightarrow> io_env \<Rightarrow> string \<Rightarrow> dl \<Rightarrow> fs \<Rightarrow> fs" where
  "persist cfg io jid d fs =
     (if dc_state_dir cfg = [] then fs
      else case (map_of (d_jobs d) jid, map_of (d_requests d) jid) of
          (Some job, Some req) \<Rightarrow>
            (case dc_encode cfg (job, req) of
               Inl e \<Rightarrow> fs
             | Inr data \<Rightarrow> snd (AtomicCreate io (record_path cfg jid) data 384 fs))
        | _ \<Rightarrow> fs)"

definition put_job :: "job \<Rightarrow> dl_request \<Rightarrow> dl \<Rightarrow> dl" where
  "put_job job req d =
     d\<lparr>d_jobs := al_put (j_id job) job (d_jobs d), d_requests := al_put (j_id job) req (d_requests d)\<rparr>"

definition dl_store :: "dl_cfg \<Rightarrow> io_env \<Rightarrow> job \<Rightarrow> dl_request \<Rightarrow> dl \<Rightarrow> fs \<Rightarrow> dl \<times> fs" where
  "dl_store cfg io job req d fs =
     (let d' = put_job job req d in (d', persist cfg io (j_id job) d' fs))"

text \<open>
  \<^verbatim>\<open>launch\<close>: the job that answers, whether a goroutine was started for it, and the new state. The job
  the active table names is read without a check; \<open>one_writer_per_target\<close> shows that it is there.
\<close>

definition launch :: "dl_cfg \<Rightarrow> io_env \<Rightarrow> job \<Rightarrow> dl_request \<Rightarrow> dl \<Rightarrow> fs \<Rightarrow> (job \<times> bool) \<times> dl \<times> fs" where
  "launch cfg io job req d fs =
     (case map_of (d_active d) (j_target job) of
        Some jid \<Rightarrow> ((the (map_of (d_jobs d) jid), False), d, fs)
      | None \<Rightarrow>
          (let d' = (put_job job req d)\<lparr>d_active := al_put (j_target job) (j_id job) (d_active d),
                                        d_cancels := j_id job # d_cancels d,
                                        d_cancelled := removeAll (j_id job) (d_cancelled d)\<rparr>
           in ((job, True), d', persist cfg io (j_id job) d' fs)))"

definition dl_Start ::
    "dl_cfg \<Rightarrow> io_env \<Rightarrow> string \<Rightarrow> dl_request \<Rightarrow> dl \<Rightarrow> fs \<Rightarrow> (gerr + job \<times> bool) \<times> dl \<times> fs" where
  "dl_Start cfg io jid req d fs =
     (case validatePlan (rq_plan req) of
        Some e \<Rightarrow> (Inl e, d, fs)
      | None \<Rightarrow>
          if exists io (ap_target_root (rq_plan req)) fs \<and> \<not> rq_force req
          then (let job = (newJob jid req StateAlreadyDownloaded)\<lparr>j_received := ap_total_bytes (rq_plan req)\<rparr>;
                    (d', fs') = dl_store cfg io job req d fs
                in (Inr (job, False), d', fs'))
          else (case launch cfg io (newJob jid req StateQueued) req d fs of
              (r, d', fs') \<Rightarrow> (Inr r, d', fs')))"

definition dl_Get :: "string \<Rightarrow> dl \<Rightarrow> gerr + job" where
  "dl_Get jid d =
     (case map_of (d_jobs d) jid of
        None \<Rightarrow> Inl (Errorw (Fmt ''%w: %s'' [Str jid]) [Sentinel ErrDownloadNotFound])
      | Some job \<Rightarrow> Inr job)"

definition job_state_text :: "job_state \<Rightarrow> string" where
  "job_state_text s =
     (case s of
        StateQueued \<Rightarrow> ''queued'' | StateRunning \<Rightarrow> ''running'' | StateCompleted \<Rightarrow> ''completed''
      | StateFailed \<Rightarrow> ''failed'' | StateCancelled \<Rightarrow> ''cancelled''
      | StateAlreadyDownloaded \<Rightarrow> ''already_downloaded'')"

definition update_job :: "string \<Rightarrow> (job \<Rightarrow> job) \<Rightarrow> dl \<Rightarrow> dl" where
  "update_job jid f d =
     (case map_of (d_jobs d) jid of None \<Rightarrow> d | Some job \<Rightarrow> d\<lparr>d_jobs := al_put jid (f job) (d_jobs d)\<rparr>)"

definition dl_Cancel :: "string \<Rightarrow> dl \<Rightarrow> (gerr + job) \<times> dl" where
  "dl_Cancel jid d =
     (case map_of (d_jobs d) jid of
        None \<Rightarrow> (Inl (Errorw (Fmt ''%w: %s'' [Str jid]) [Sentinel ErrDownloadNotFound]), d)
      | Some job \<Rightarrow>
          if j_state job \<noteq> StateQueued \<and> j_state job \<noteq> StateRunning
          then (Inl (Errorw (Fmt ''%w: download %s is %s'' [Str jid, Str (job_state_text (j_state job))])
                   [Sentinel ErrDownloadConflict]), d)
          else
            (let job' = job\<lparr>j_state := StateCancelled\<rparr>
             in (Inr job',
                 d\<lparr>d_jobs := al_put jid job' (d_jobs d),
                   d_cancelled := (if jid \<in> set (d_cancels d) then jid # d_cancelled d else d_cancelled d)\<rparr>)))"

section \<open>The goroutine of a job\<close>

text \<open>\<^verbatim>\<open>run\<close> in its four critical sections: it begins, adds progress, ends, and clears the active table.\<close>

definition run_begin :: "dl_cfg \<Rightarrow> io_env \<Rightarrow> string \<Rightarrow> dl \<Rightarrow> fs \<Rightarrow> dl \<times> fs" where
  "run_begin cfg io jid d fs =
     (let d' = update_job jid (\<lambda>job. if j_state job \<noteq> StateCancelled then job\<lparr>j_state := StateRunning\<rparr> else job) d
      in (d', persist cfg io jid d' fs))"

definition addProgress :: "string \<Rightarrow> int \<Rightarrow> dl \<Rightarrow> dl" where
  "addProgress jid n d = update_job jid (\<lambda>job. job\<lparr>j_received := j_received job + n\<rparr>) d"

definition run_end :: "dl_cfg \<Rightarrow> io_env \<Rightarrow> string \<Rightarrow> gerr option \<Rightarrow> dl \<Rightarrow> fs \<Rightarrow> dl \<times> fs" where
  "run_end cfg io jid err d fs =
     (let cancelled = (case err of None \<Rightarrow> False | Some e \<Rightarrow> errors_is e CtxCanceled);
          d' = update_job jid
                 (\<lambda>job. if j_state job = StateCancelled \<or> cancelled
                        then job\<lparr>j_state := StateCancelled, j_error := None\<rparr>
                        else case err of
                            Some e \<Rightarrow> job\<lparr>j_state := StateFailed, j_error := Some (error_text e)\<rparr>
                          | None \<Rightarrow> job\<lparr>j_state := StateCompleted\<rparr>) d
      in (d', persist cfg io jid d' fs))"

definition clearActive :: "string \<Rightarrow> dl \<Rightarrow> dl" where
  "clearActive jid d =
     (let d' = (case map_of (d_jobs d) jid of
                  None \<Rightarrow> d
                | Some job \<Rightarrow>
                    if map_of (d_active d) (j_target job) = Some jid
                    then d\<lparr>d_active := al_del (j_target job) (d_active d)\<rparr> else d)
      in d'\<lparr>d_cancels := removeAll jid (d_cancels d')\<rparr>)"

section \<open>Recovery after a restart\<close>

definition readRecord :: "dl_cfg \<Rightarrow> io_env \<Rightarrow> string \<Rightarrow> fs \<Rightarrow> gerr + (job \<times> dl_request)" where
  "readRecord cfg io path fs =
     (case ReadFile io path fs of
        Inl e \<Rightarrow> Inl e
      | Inr data \<Rightarrow>
          (case dc_decode cfg data of
             None \<Rightarrow> Inl (Errorw (Fmt ''invalid record'' []) [])
           | Some (job, req) \<Rightarrow>
               if j_id job = [] \<or> ap_target_root (rq_plan req) = []
               then Inl (Errorw (Fmt ''record is missing a job jid or plan'' []) [])
               else Inr (job, req)))"

definition discard :: "io_env \<Rightarrow> string \<Rightarrow> fs \<Rightarrow> fs" where
  "discard io partial fs =
     (if partialSize io partial fs = 0 \<and> \<not> exists io partial fs then fs else snd (RemoveAll io partial fs))"

text \<open>The last component lists the jobs whose goroutine is started.\<close>

definition reconcile ::
    "dl_cfg \<Rightarrow> io_env \<Rightarrow> job \<times> dl_request \<Rightarrow> dl \<times> fs \<Rightarrow> (dl \<times> fs) \<times> string list" where
  "reconcile cfg io rec s =
     (case rec of (job, req) \<Rightarrow>
      case s of (d, fs) \<Rightarrow>
       (let partial = part_of (ap_target_root (rq_plan req))
        in if j_state job \<noteq> StateQueued \<and> j_state job \<noteq> StateRunning
           then ((put_job job req d, discard io partial fs), [])
           else if exists io (j_target job) fs
           then (let d' = put_job (job\<lparr>j_state := StateCompleted\<rparr>) req d
                 in ((d', discard io partial (persist cfg io (j_id job) d' fs)), []))
           else (case launch cfg io (job\<lparr>j_state := StateQueued, j_error := None, j_received := 0\<rparr>) req d fs of
               ((job', new), d', fs') \<Rightarrow> ((d', fs'), if new then [j_id job] else []))))"

fun recover_files ::
    "dl_cfg \<Rightarrow> io_env \<Rightarrow> (string \<times> node) list \<Rightarrow> dl \<times> fs \<Rightarrow> (dl \<times> fs) \<times> string list" where
  "recover_files cfg io [] s = (s, [])"
| "recover_files cfg io ((name, node) # es) s =
     (if node = NDir \<or> \<not> has_suffix name ''.json'' then recover_files cfg io es s
      else (let path = Join [dc_state_dir cfg, name]
            in case readRecord cfg io path (snd s) of
                 Inl e \<Rightarrow> recover_files cfg io es (fst s, snd (Remove io path (snd s)))
               | Inr rec \<Rightarrow>
                   (case reconcile cfg io rec s of
                      (s1, ids1) \<Rightarrow> (case recover_files cfg io es s1 of (s2, ids2) \<Rightarrow> (s2, ids1 @ ids2)))))"

definition dl_Recover :: "dl_cfg \<Rightarrow> io_env \<Rightarrow> dl \<times> fs \<Rightarrow> gerr option \<times> (dl \<times> fs) \<times> string list" where
  "dl_Recover cfg io s =
     (if dc_state_dir cfg = [] then (None, s, [])
      else case ReadDir io (dc_state_dir cfg) (snd s) of
          Inl e \<Rightarrow> (if errors_is e ErrNotExist then None else Some e, s, [])
        | Inr entries \<Rightarrow> (case recover_files cfg io entries s of (s', ids) \<Rightarrow> (None, s', ids)))"

section \<open>Interleaving\<close>

datatype run_phase = RQueued | RRunning | RCleared

text \<open>A job table with its files and the phases of the running goroutines.\<close>

record dls =
  y_dl :: dl
  y_fs :: fs
  y_runs :: "(string \<times> run_phase) list"

text \<open>
  Every call may interleave with every goroutine, each step with its own failing system calls and
  answers of the network. The executing step is one step of the model; two of them never share a path,
  which is what \<open>one_writer_per_target\<close> is about. New IDs are fresh (24 random bits and the time).
\<close>

inductive dl_step :: "dl_cfg \<Rightarrow> dls \<Rightarrow> dls \<Rightarrow> bool" for cfg where
  start: "map_of (d_jobs (y_dl s)) jid = None \<Longrightarrow>
    dl_Start cfg io jid req (y_dl s) (y_fs s) = (r, d, fs) \<Longrightarrow>
    dl_step cfg s \<lparr>y_dl = d, y_fs = fs,
      y_runs = (case r of Inr (job, True) \<Rightarrow> (jid, RQueued) # y_runs s | _ \<Rightarrow> y_runs s)\<rparr>"
| cancel: "dl_Cancel jid (y_dl s) = (r, d) \<Longrightarrow> dl_step cfg s (s\<lparr>y_dl := d\<rparr>)"
| begins: "map_of (y_runs s) jid = Some RQueued \<Longrightarrow> run_begin cfg io jid (y_dl s) (y_fs s) = (d, fs) \<Longrightarrow>
    dl_step cfg s \<lparr>y_dl = d, y_fs = fs, y_runs = al_put jid RRunning (y_runs s)\<rparr>"
| progress: "map_of (y_runs s) jid = Some RRunning \<Longrightarrow>
    dl_step cfg s (s\<lparr>y_dl := addProgress jid n (y_dl s)\<rparr>)"
| executes: "map_of (y_runs s) jid = Some RRunning \<Longrightarrow> map_of (d_requests (y_dl s)) jid = Some req \<Longrightarrow>
    dl_execute cfg io net req (y_fs s) = (err, n, fs) \<Longrightarrow>
    run_end cfg io jid err (y_dl s) fs = (d, fs') \<Longrightarrow>
    dl_step cfg s \<lparr>y_dl = d, y_fs = fs', y_runs = al_put jid RCleared (y_runs s)\<rparr>"
| clears: "map_of (y_runs s) jid = Some RCleared \<Longrightarrow>
    dl_step cfg s (s\<lparr>y_dl := clearActive jid (y_dl s), y_runs := al_del jid (y_runs s)\<rparr>)"

section \<open>What a transfer does to the files\<close>

lemma AtomicCreate_frame:
  assumes "AtomicCreate io path data perm fs = (e, fs')" and "temp_path io path \<noteq> path"
    and "q \<noteq> path" and "q \<noteq> temp_path io path"
  shows "map_of fs' q = map_of fs q"
proof -
  obtain r f where w: "writeReplacement io path data (if perm = 0 then 384 else perm) [] fs = (r, f)"
    by (metis surj_pair)
  then have "f = fs'" using assms(1)
    by (cases "perm = 0") (auto simp: AtomicCreate_def filedoc_writeFile_def Let_def split: prod.splits sum.splits)
  with w have "writeReplacement io path data (if perm = 0 then 384 else perm) [] fs = (r, fs')" by simp
  from writeReplacement_cases [OF this assms(2)] show ?thesis
    using assms(3,4) by (auto simp: abandoned_def replaced_def split: if_splits)
qed

text \<open>The paths a transfer into \<open>dest\<close> writes, and what its digest check has established.\<close>

definition own_files :: "io_env \<Rightarrow> string \<Rightarrow> string set" where
  "own_files io dest = {dest, dest @ digestSuffix, temp_path io (dest @ digestSuffix)}"

definition names_apart :: "io_env \<Rightarrow> string \<Rightarrow> bool" where
  "names_apart io dest \<longleftrightarrow> temp_path io (dest @ digestSuffix) \<notin> {dest, dest @ digestSuffix}"

definition verified :: "dl_cfg \<Rightarrow> io_env \<Rightarrow> artifact_item \<Rightarrow> string \<Rightarrow> bool" where
  "verified cfg io item data \<longleftrightarrow>
     (ai_size item > 0 \<longrightarrow> int (length data) = ai_size item) \<and>
     (ai_sha256 item \<noteq> [] \<longrightarrow> to_lower (io_sha io data) = to_lower (ai_sha256 item)) \<and>
     int (length data) \<le> dc_max_bytes cfg"

lemma digestSuffix_neq [simp]: "digestSuffix \<noteq> []" "p @ digestSuffix \<noteq> p" "p \<noteq> p @ digestSuffix"
  by (simp_all add: digestSuffix_def)

lemma Remove_frame: "q \<noteq> p \<Longrightarrow> map_of (snd (Remove io p fs)) q = map_of fs q"
  by (auto simp: Remove_def split: option.splits)

lemma writeBody_frame: "writeBody cfg io resp dest off fs = (r, fs') \<Longrightarrow> q \<noteq> dest \<Longrightarrow> map_of fs' q = map_of fs q"
  by (auto simp: writeBody_def Let_def split: option.splits if_splits node.splits)

lemma writeBody_ok:
  assumes "writeBody cfg io resp dest off fs = ((w, None), fs')"
  shows "\<exists>data m. map_of fs' dest = Some (NFile ((if off > 0 then node_data (map_of fs dest) else []) @ data) m) \<and>
    w = int (length data) \<and> off + w \<le> dc_max_bytes cfg"
  using assms by (auto simp: writeBody_def Let_def split: option.splits if_splits node.splits)

lemma verifyDigest_frame: "verifyDigest io p want fs = (e, fs') \<Longrightarrow> q \<noteq> p \<Longrightarrow> map_of fs' q = map_of fs q"
  using Remove_frame by (auto simp: verifyDigest_def split: sum.splits if_splits)

lemma verifyDigest_ok:
  assumes "verifyDigest io p want fs = (None, fs')" and "map_of fs p = Some (NFile d m)"
  shows "fs' = fs \<and> (want \<noteq> [] \<longrightarrow> to_lower (io_sha io d) = to_lower want)"
  using assms follow_plain(2) [OF assms(2), of 40]
  by (auto simp: verifyDigest_def ReadFile_def split: sum.splits if_splits option.splits)

lemma RecordDigest_frame:
  assumes "RecordDigest io p digest fs = (e, fs')" and "names_apart io p"
    and "q \<noteq> p @ digestSuffix" and "q \<noteq> temp_path io (p @ digestSuffix)"
  shows "map_of fs' q = map_of fs q"
  using assms AtomicCreate_frame [of io "p @ digestSuffix" "digest @ [newline]" 384 fs e fs' q]
  by (auto simp: RecordDigest_def names_apart_def split: if_splits)

lemma partialSize_nonneg: "partialSize io p fs \<ge> 0"
  by (simp add: partialSize_def split: sum.splits node.splits)

lemma downloadItem_frame:
  assumes "downloadItem cfg io net item dest fs = (e, n, fs')" and "names_apart io dest" and "q \<notin> own_files io dest"
  shows "map_of fs' q = map_of fs q"
proof -
  have q: "q \<noteq> dest" "q \<noteq> dest @ digestSuffix" "q \<noteq> temp_path io (dest @ digestSuffix)"
    using assms(3) by (auto simp: own_files_def)
  show ?thesis
    using assms(1) q
    by (auto simp: downloadItem_def Let_def split: sum.splits if_splits prod.splits option.splits
        dest!: writeBody_frame [of _ _ _ _ _ _ _ _ q] verifyDigest_frame [of _ _ _ _ _ _ q]
          RecordDigest_frame [OF _ assms(2), of _ _ _ _ q])
qed

lemma resumeOffset_cases: "resumeOffset resp part = Inr off \<Longrightarrow> off = 0 \<or> (off = part \<and> part > 0)"
  by (auto simp: resumeOffset_def split: if_splits)

lemma downloadItem_ok:
  assumes d: "downloadItem cfg io net item dest fs = (None, n, fs')" and apart: "names_apart io dest"
  shows "\<exists>data m. map_of fs' dest = Some (NFile data m) \<and> n = int (length data) \<and> verified cfg io item data"
proof -
  let ?part = "partialSize io dest fs"
  from d obtain resp off w fs1 fs2 where
    off: "resumeOffset resp ?part = Inr off" and
    wb: "writeBody cfg io resp dest off fs = ((w, None), fs1)" and
    sz: "ai_size item > 0 \<longrightarrow> off + w = ai_size item" and
    vd: "verifyDigest io dest (ai_sha256 item) fs1 = (None, fs2)" and
    rd: "RecordDigest io dest (trim_prefix ''sha256:'' (ai_sha256 item)) fs2 = (None, fs')" and
    n: "n = off + w"
    by (auto simp: downloadItem_def Let_def split: sum.splits if_splits prod.splits option.splits)
  obtain data m where
    data: "map_of fs1 dest = Some (NFile ((if off > 0 then node_data (map_of fs dest) else []) @ data) m)"
      "w = int (length data)" "off + w \<le> dc_max_bytes cfg"
    using writeBody_ok [OF wb] by blast
  let ?all = "(if off > 0 then node_data (map_of fs dest) else []) @ data"
  have "off > 0 \<Longrightarrow> int (length (node_data (map_of fs dest))) = off"
  proof -
    assume pos: "off > 0"
    then have part: "off = ?part" using resumeOffset_cases [OF off] by simp
    from wb have "case map_of fs dest of None \<Rightarrow> True | Some (NFile d m) \<Rightarrow> True | _ \<Rightarrow> False"
      by (auto simp: writeBody_def split: option.splits if_splits node.splits)
    then show ?thesis
      using pos part by (auto simp: partialSize_def Stat_def follow_plain follow_absent node_data_def
          split: option.splits node.splits sum.splits)
  qed
  moreover have "off \<ge> 0" using resumeOffset_cases [OF off] by auto
  ultimately have len: "int (length ?all) = off + w" using data(2) by auto
  from verifyDigest_ok [OF vd data(1)] have "fs2 = fs1" and
    sha: "ai_sha256 item \<noteq> [] \<longrightarrow> to_lower (io_sha io ?all) = to_lower (ai_sha256 item)" by auto
  moreover have "map_of fs' dest = map_of fs2 dest"
    using RecordDigest_frame [OF rd apart, of dest] apart by (auto simp: names_apart_def)
  ultimately have "map_of fs' dest = Some (NFile ?all m)" using data(1) by simp
  moreover have "verified cfg io item ?all" unfolding verified_def using len sz sha data(3) by simp
  ultimately show ?thesis using len n by metis
qed

lemma finalize_cases:
  assumes "finalize io stage target fs = (e, fs')" and "map_of fs stage = Some (NFile d m)" and "stage \<noteq> target"
  shows "(fs' = fs \<and> e \<noteq> None) \<or> map_of fs' = (map_of fs)(stage := None, target \<mapsto> NFile d m)"
proof (cases "io_fail io (OpRename target) = None \<and> map_of fs target \<noteq> Some NDir")
  case True
  then have "Rename io stage target fs = (None, al_put target (NFile d m) (al_del stage fs))"
    using assms(2) by (simp add: Rename_def)
  then have "fs' = al_put target (NFile d m) (al_del stage fs)" using assms(1) by (simp add: finalize_def)
  then show ?thesis by simp
next
  case False
  then show ?thesis using assms(1,2) by (auto simp: finalize_def Rename_def split: option.splits)
qed

lemma part_of_neq [simp]: "part_of p \<noteq> p" "p \<noteq> part_of p"
  by (simp_all add: part_of_def)

text \<open>A target path is a name in an absolute directory.\<close>

definition target_path :: "string \<Rightarrow> bool" where
  "target_path p \<longleftrightarrow> (\<exists>d c. base_dir d \<and> slash \<notin> set c \<and> c \<noteq> [] \<and> p = d @ slash # c)"

lemma temp_path_base:
  "base_dir d \<Longrightarrow> c \<noteq> [] \<Longrightarrow> slash \<notin> set c \<Longrightarrow> temp_path io (d @ slash # c) = d @ ''/.'' @ c @ ''-'' @ io_temp io"
  by (simp add: temp_path_def Dir_base Base_base)

lemma part_names:
  assumes "target_path t"
  shows "names_apart io (part_of t)" and "t \<notin> own_files io (part_of t)"
proof -
  obtain d c where d: "base_dir d" "slash \<notin> set c" "c \<noteq> []" "t = d @ slash # c"
    using assms by (auto simp: target_path_def)
  have c: "slash \<notin> set (c @ ''.part'' @ digestSuffix)" using d(2) by (simp add: digestSuffix_def slash_def)
  have "temp_path io (part_of t @ digestSuffix) = d @ ''/.'' @ (c @ ''.part'' @ digestSuffix) @ ''-'' @ io_temp io"
    using temp_path_base [OF d(1) _ c, of io] d(3,4) by (simp add: part_of_def)
  then have l: "length (temp_path io (part_of t @ digestSuffix)) > length (part_of t @ digestSuffix)"
    using d(4) by (simp add: part_of_def)
  then show "names_apart io (part_of t)" unfolding names_apart_def by auto
  have "length (temp_path io (part_of t @ digestSuffix)) > length t" using l by (simp add: part_of_def)
  then show "t \<notin> own_files io (part_of t)" by (auto simp: own_files_def part_of_def)
qed

lemma join_with_elems_Cons: "join_with sep (x # xs) = x @ concat (map (\<lambda>y. sep @ y) xs)"
  by (induction xs arbitrary: x) auto

lemma join_with_take: "length (join_with sep (take i xs)) \<le> length (join_with sep xs)"
proof (cases "i = 0 \<or> xs = []")
  case False
  then obtain y ys j where y: "xs = y # ys" "i = Suc j" by (metis neq_Nil_conv not0_implies_Suc)
  have "concat (map (\<lambda>z. sep @ z) ys) =
      concat (map (\<lambda>z. sep @ z) (take j ys)) @ concat (map (\<lambda>z. sep @ z) (drop j ys))"
    by (metis append_take_drop_id concat_append map_append)
  then show ?thesis using y by (simp add: join_with_elems_Cons)
qed auto

lemma target_not_ancestor: "base_dir d \<Longrightarrow> slash \<notin> set c \<Longrightarrow> d @ slash # c \<notin> set (ancestors d)"
proof
  assume d: "base_dir d" "slash \<notin> set c" and "d @ slash # c \<in> set (ancestors d)"
  then obtain i where i: "d @ slash # c = mk_path True (take i (elems d))"
    by (auto simp: ancestors_def base_dir_def)
  have dm: "d = slash # join_with [slash] (elems d)"
    using d(1) by (metis base_dir_def Clean_def mk_path_def)
  have "length (join_with [slash] (take i xs)) \<le> length (join_with [slash] xs)" for xs
    by (rule join_with_take)
  then have "length (mk_path True (take i (elems d))) \<le> length d"
    using dm by (metis length_Cons mk_path_def Suc_le_mono)
  then show False unfolding i [symmetric] by simp
qed

lemma prepareParent_siblings:
  assumes "prepareParent io (d @ slash # c) stage fs = (e, fs')"
    and d: "base_dir d" "slash \<notin> set c" "slash \<notin> set c'"
  shows "map_of fs' (d @ slash # c') = map_of fs (d @ slash # c')"
proof -
  obtain r fs1 where m: "MkdirAll io d fs = (r, fs1)" by (metis surj_pair)
  then have "fs' = fs1" using assms(1) d by (auto simp: prepareParent_def Let_def Dir_base split: option.splits)
  with mkdirs_frame [of io "ancestors d" fs r fs1 "d @ slash # c'"] m target_not_ancestor [OF d(1,3)] show ?thesis
    by (auto simp: MkdirAll_def)
qed

lemma prepareParent_frame:
  "prepareParent io target stage fs = (e, fs') \<Longrightarrow> target_path target \<Longrightarrow> map_of fs' target = map_of fs target"
  unfolding target_path_def using prepareParent_siblings by blast


definition ex_item :: artifact_item where
  "ex_item = \<lparr>ai_uri = ''u'', ai_filename = ''m'', ai_target_path = ''/a/m'', ai_size = 3, ai_sha256 = ''digest''\<rparr>"

definition ex_plan :: artifact_plan where
  "ex_plan = \<lparr>ap_multi_file = False, ap_target_root = ''/a/m'', ap_items = [ex_item], ap_total_bytes = 3, ap_revision = []\<rparr>"

definition ex_dl_cfg :: dl_cfg where
  "ex_dl_cfg = \<lparr>dc_state_dir = [], dc_max_bytes = 100, dc_max_redirects = 5, dc_hosts = [],
     dc_url = (\<lambda>u. Some \<lparr>u_scheme = ''https'', u_host = ''h''\<rparr>), dc_encode = (\<lambda>r. Inr []), dc_decode = (\<lambda>s. None)\<rparr>"

text \<open>A server with one file that answers ranges, as HTTP prescribes: nothing is left after the end.\<close>

definition ex_net :: net where
  "ex_net uri off =
     Inr \<lparr>rs_hops = [], rs_status = (if off = 0 then 200 else if off < 3 then 206 else 416),
          rs_range = ''bytes '' @ itoa_int off @ ''-'', rs_length = 3 - off, rs_body = drop (nat off) ''abc'',
          rs_body_err = None\<rparr>"

definition ex_disk :: fs where
  "ex_disk = [(''/a'', NDir), (''/a/m.part'', NFile ''a'' 384)]"

lemma ex_target: "target_path ''/a/m''"
proof -
  have "base_dir ''/a''" by code_simp
  moreover have "''/a/m'' = ''/a'' @ slash # ''m''" "slash \<notin> set ''m''" by (simp_all add: slash_def)
  ultimately show ?thesis unfolding target_path_def by blast
qed


text \<open>
  the digest of a single-file download is recorded beside the staging file, under the staging
  file's name. After a download that succeeds, verifying the model finds no digest to compare with,
  unless one was there before.
\<close>

theorem digest_is_misplaced:
  assumes x: "executeFile cfg io net item force fs = (None, n, fs')" and t: "target_path (ai_target_path item)"
    and none: "map_of fs (ai_target_path item @ digestSuffix) = None"
    and io: "io_fail io (OpOpen (ai_target_path item @ digestSuffix)) = None"
  shows "VerifyDigest io (ai_target_path item) fs' = Inl (Sentinel ErrNoDigest)"
proof -
  let ?t = "ai_target_path item" let ?s = "part_of ?t" let ?g = "?t @ digestSuffix"
  obtain d c where d: "base_dir d" "slash \<notin> set c" "c \<noteq> []" "?t = d @ slash # c"
    using t by (auto simp: target_path_def)
  obtain fs1 fs2 k where p: "prepareParent io ?t ?s fs = (None, fs1)"
    and dl: "downloadItem cfg io net item ?s fs1 = (None, k, fs2)"
    and f: "finalize io ?s ?t (if force then snd (Remove io ?t fs2) else fs2) = (None, fs')"
    using x by (auto simp: executeFile_def Let_def split: prod.splits option.splits)
  have "slash \<notin> set (c @ digestSuffix)" using d(2) by (simp add: digestSuffix_def slash_def)
  then have "map_of fs1 ?g = None"
    using prepareParent_siblings [of io d c ?s fs None fs1 "c @ digestSuffix"] p d none by simp
  moreover have "?g \<notin> own_files io ?s"
  proof -
    have "temp_path io (?s @ digestSuffix) = d @ ''/.'' @ (c @ ''.part'' @ digestSuffix) @ ''-'' @ io_temp io"
      using temp_path_base [OF d(1), of "c @ ''.part'' @ digestSuffix" io] d(2,4)
      by (simp add: part_of_def digestSuffix_def slash_def)
    then have "length ?g < length (temp_path io (?s @ digestSuffix))" using d(4) by simp
    then have "?g \<noteq> temp_path io (?s @ digestSuffix)" by (metis less_irrefl)
    then show ?thesis by (simp add: own_files_def part_of_def digestSuffix_def)
  qed
  ultimately have "map_of fs2 ?g = None" using downloadItem_frame [OF dl part_names(1) [OF t]] by simp
  then have "map_of (if force then snd (Remove io ?t fs2) else fs2) ?g = None"
    using Remove_frame [of ?g ?t io fs2] by simp
  moreover have "\<exists>data m. map_of fs2 ?s = Some (NFile data m)"
    using downloadItem_ok [OF dl part_names(1) [OF t]] by blast
  then have "\<exists>data m. map_of (if force then snd (Remove io ?t fs2) else fs2) ?s = Some (NFile data m)"
    using Remove_frame [of ?s ?t io fs2] by simp
  ultimately have "map_of fs' ?g = None" using finalize_cases [OF f] by (fastforce simp: part_of_def digestSuffix_def)
  then show ?thesis
    using io by (simp add: VerifyDigest_def ReadDigest_def ReadFile_def follow_absent not_exist_def)
qed

theorem digest_is_misplaced_witness:
  "VerifyDigest calm_env ''/a/m'' (snd (snd (executeFile ex_dl_cfg calm_env ex_net ex_item False ex_disk)))
     = Inl (Sentinel ErrNoDigest)"
proof -
  obtain e n fs' where x: "executeFile ex_dl_cfg calm_env ex_net ex_item False ex_disk = (e, n, fs')"
    by (metis prod.exhaust)
  have "fst (executeFile ex_dl_cfg calm_env ex_net ex_item False ex_disk) = None" by code_simp
  with x have "executeFile ex_dl_cfg calm_env ex_net ex_item False ex_disk = (None, n, fs')" by simp
  moreover have "ai_target_path ex_item = ''/a/m''" by (simp add: ex_item_def)
  moreover have "map_of ex_disk (''/a/m'' @ digestSuffix) = None" by code_simp
  ultimately show ?thesis using digest_is_misplaced [of ex_dl_cfg calm_env ex_net ex_item False ex_disk n fs'] ex_target x
    by (simp add: calm_env_def)
qed

text \<open>
  A partial file that is already complete is never finished. A server answers a range that starts
  at the end of its file with an error status, so each attempt fails and leaves the complete partial
  file as it is, however often the download is started again.
\<close>

theorem complete_part_is_stuck:
  "let go = (\<lambda>fs. executeFile ex_dl_cfg calm_env ex_net ex_item False fs);
       disk = [(''/a'', NDir), (''/a/m.part'', NFile ''abc'' 384)]
   in fst (go (((\<lambda>fs. snd (snd (go fs))) ^^ k) disk)) \<noteq> None \<and> ((\<lambda>fs. snd (snd (go fs))) ^^ k) disk = disk"
proof -
  let ?go = "\<lambda>fs. executeFile ex_dl_cfg calm_env ex_net ex_item False fs"
  let ?disk = "[(''/a'', NDir), (''/a/m.part'', NFile ''abc'' 384)]"
  have one: "fst (?go ?disk) \<noteq> None" "snd (snd (?go ?disk)) = ?disk" by code_simp+
  have "((\<lambda>fs. snd (snd (?go fs))) ^^ k) ?disk = ?disk" by (induction k) (simp_all add: one)
  then show ?thesis using one by (simp add: Let_def)
qed

section \<open>The table of jobs\<close>

text \<open>
  What the table and the goroutines have in common: a goroutine's job and request are there, its state
  fits the goroutine's phase, and the active table names exactly the goroutines' jobs by target.
\<close>

definition phase_ok :: "run_phase \<Rightarrow> job_state \<Rightarrow> bool" where
  "phase_ok ph st =
     (case ph of
        RQueued \<Rightarrow> st = StateQueued \<or> st = StateCancelled
      | RRunning \<Rightarrow> st = StateRunning \<or> st = StateCancelled
      | RCleared \<Rightarrow> IsTerminal st)"

definition dl_inv :: "dls \<Rightarrow> bool" where
  "dl_inv s \<longleftrightarrow>
     distinct (al_keys (y_runs s)) \<and>
     (\<forall>jid ph. map_of (y_runs s) jid = Some ph \<longrightarrow>
        (\<exists>job. map_of (d_jobs (y_dl s)) jid = Some job \<and> phase_ok ph (j_state job) \<and>
           map_of (d_requests (y_dl s)) jid \<noteq> None \<and> map_of (d_active (y_dl s)) (j_target job) = Some jid)) \<and>
     (\<forall>t jid. map_of (d_active (y_dl s)) t = Some jid \<longrightarrow>
        (\<exists>ph job. map_of (y_runs s) jid = Some ph \<and> map_of (d_jobs (y_dl s)) jid = Some job \<and> j_target job = t))"

definition targ :: "dls \<Rightarrow> string \<Rightarrow> string option" where
  "targ s jid = map_option j_target (map_of (d_jobs (y_dl s)) jid)"

lemma map_of_update_job:
  "map_of (d_jobs (update_job jid f d)) k =
     (if k = jid then map_option f (map_of (d_jobs d) jid) else map_of (d_jobs d) k)"
  by (simp add: update_job_def split: option.splits)

lemma update_job_frame [simp]:
  "d_requests (update_job jid f d) = d_requests d" "d_active (update_job jid f d) = d_active d"
  by (simp_all add: update_job_def split: option.splits)

lemma newJob_simps [simp]:
  "j_id (newJob jid req st) = jid" "j_state (newJob jid req st) = st" "j_received (newJob jid req st) = 0"
  "j_target (newJob jid req st) = ap_target_root (rq_plan req)" "j_backend (newJob jid req st) = rq_backend req"
  "j_profile (newJob jid req st) = rq_profile req" "j_multi_file (newJob jid req st) = ap_multi_file (rq_plan req)"
  by (simp_all add: newJob_def Let_def)

lemma dl_Start_cases:
  assumes "dl_Start cfg io jid req d fs = (r, d', fs')"
  obtains (refused) "isl r" "d' = d"
  | (already) job where "r = Inr (job, False)" "j_id job = jid" "j_state job = StateAlreadyDownloaded" "d' = put_job job req d"
  | (shared) job where "r = Inr (job, False)" "d' = d"
  | (launched) job where "r = Inr (job, True)" "job = newJob jid req StateQueued" "map_of (d_active d) (j_target job) = None"
      "d' = (put_job job req d)\<lparr>d_active := al_put (j_target job) jid (d_active d), d_cancels := jid # d_cancels d,
              d_cancelled := removeAll jid (d_cancelled d)\<rparr>"
proof (cases "validatePlan (rq_plan req)")
  case (Some e)
  with assms refused show ?thesis by (auto simp: dl_Start_def)
next
  case None
  show ?thesis
  proof (cases "exists io (ap_target_root (rq_plan req)) fs \<and> \<not> rq_force req")
    case True
    let ?job = "(newJob jid req StateAlreadyDownloaded)\<lparr>j_received := ap_total_bytes (rq_plan req)\<rparr>"
    from True assms None have "r = Inr (?job, False)" "d' = put_job ?job req d"
      by (auto simp: dl_Start_def dl_store_def Let_def)
    with already [of ?job] show ?thesis by simp
  next
    case False
    show ?thesis
    proof (cases "map_of (d_active d) (j_target (newJob jid req StateQueued))")
      case (Some j)
      with assms None False shared show ?thesis by (auto simp: dl_Start_def launch_def)
    next
      case n: None
      with assms None False n launched show ?thesis by (auto simp: dl_Start_def launch_def Let_def)
    qed
  qed
qed

lemma dl_inv_run:
  "dl_inv s \<Longrightarrow> map_of (y_runs s) jid = Some ph \<Longrightarrow>
     \<exists>job. map_of (d_jobs (y_dl s)) jid = Some job \<and> phase_ok ph (j_state job) \<and>
       map_of (d_requests (y_dl s)) jid \<noteq> None \<and> map_of (d_active (y_dl s)) (j_target job) = Some jid"
  unfolding dl_inv_def by blast

lemma dl_inv_active:
  "dl_inv s \<Longrightarrow> map_of (d_active (y_dl s)) t = Some jid \<Longrightarrow>
     \<exists>ph job. map_of (y_runs s) jid = Some ph \<and> map_of (d_jobs (y_dl s)) jid = Some job \<and> j_target job = t"
  unfolding dl_inv_def by blast

text \<open>Changing one job in place, with the phase of its goroutine, keeps the invariant.\<close>

lemma dl_inv_in_place:
  assumes inv: "dl_inv s" and job: "map_of (d_jobs (y_dl s)) jid = Some job"
    and jobs: "map_of (d_jobs (y_dl s')) = (map_of (d_jobs (y_dl s)))(jid \<mapsto> job')" and t: "j_target job' = j_target job"
    and same: "d_requests (y_dl s') = d_requests (y_dl s)" "d_active (y_dl s') = d_active (y_dl s)"
    and runs: "distinct (al_keys (y_runs s'))" "\<And>k. k \<noteq> jid \<Longrightarrow> map_of (y_runs s') k = map_of (y_runs s) k"
      "map_of (y_runs s') jid = None \<longleftrightarrow> map_of (y_runs s) jid = None"
    and ph: "\<And>ph. map_of (y_runs s') jid = Some ph \<Longrightarrow> phase_ok ph (j_state job')"
  shows "dl_inv s'"
proof -
  have "\<exists>j. map_of (d_jobs (y_dl s')) k = Some j \<and> phase_ok p (j_state j) \<and>
      map_of (d_requests (y_dl s')) k \<noteq> None \<and> map_of (d_active (y_dl s')) (j_target j) = Some k"
    if k: "map_of (y_runs s') k = Some p" for k p
  proof (cases "k = jid")
    case True
    with k runs(3) obtain q where "map_of (y_runs s) jid = Some q" by (cases "map_of (y_runs s) jid") auto
    from dl_inv_run [OF inv this] show ?thesis using job jobs t same True ph k by auto
  next
    case False
    with k runs(2) have "map_of (y_runs s) k = Some p" by simp
    from dl_inv_run [OF inv this] show ?thesis using False jobs same by auto
  qed
  moreover have "\<exists>p j. map_of (y_runs s') k = Some p \<and> map_of (d_jobs (y_dl s')) k = Some j \<and> j_target j = u"
    if a: "map_of (d_active (y_dl s')) u = Some k" for u k
  proof -
    from a same have "map_of (d_active (y_dl s)) u = Some k" by simp
    from dl_inv_active [OF inv this] obtain p j where
      pj: "map_of (y_runs s) k = Some p" "map_of (d_jobs (y_dl s)) k = Some j" "j_target j = u" by blast
    show ?thesis
    proof (cases "k = jid")
      case True
      with pj runs(3) obtain q where "map_of (y_runs s') jid = Some q" by (cases "map_of (y_runs s') jid") auto
      with True pj job jobs t show ?thesis by auto
    next
      case False
      with pj runs(2) jobs show ?thesis by auto
    qed
  qed
  ultimately show ?thesis unfolding dl_inv_def using runs(1) by blast
qed

lemma dl_inv_launch:
  assumes inv: "dl_inv s" and new: "map_of (d_jobs (y_dl s)) jid = None"
    and free: "map_of (d_active (y_dl s)) (j_target job) = None" and q: "j_state job = StateQueued"
    and s': "map_of (d_jobs (y_dl s')) = (map_of (d_jobs (y_dl s)))(jid \<mapsto> job)"
      "map_of (d_requests (y_dl s')) = (map_of (d_requests (y_dl s)))(jid \<mapsto> req)"
      "map_of (d_active (y_dl s')) = (map_of (d_active (y_dl s)))(j_target job \<mapsto> jid)"
      "y_runs s' = (jid, RQueued) # y_runs s"
  shows "dl_inv s'"
proof -
  have no: "map_of (y_runs s) jid = None"
    using dl_inv_run [OF inv, where jid = jid] new by (cases "map_of (y_runs s) jid") auto
  have "distinct (al_keys (y_runs s'))"
    using inv no s'(4) by (auto simp: dl_inv_def al_keys_def map_of_eq_None_iff)
  moreover have "\<exists>j. map_of (d_jobs (y_dl s')) k = Some j \<and> phase_ok p (j_state j) \<and>
      map_of (d_requests (y_dl s')) k \<noteq> None \<and> map_of (d_active (y_dl s')) (j_target j) = Some k"
    if k: "map_of (y_runs s') k = Some p" for k p
  proof (cases "k = jid")
    case True
    with k s' q show ?thesis by (auto simp: phase_ok_def)
  next
    case False
    with k s'(4) have "map_of (y_runs s) k = Some p" by simp
    from dl_inv_run [OF inv this] obtain j where
      j: "map_of (d_jobs (y_dl s)) k = Some j" "phase_ok p (j_state j)" "map_of (d_requests (y_dl s)) k \<noteq> None"
        "map_of (d_active (y_dl s)) (j_target j) = Some k" by blast
    with free have "j_target j \<noteq> j_target job" by auto
    with j False s' show ?thesis by auto
  qed
  moreover have "\<exists>p j. map_of (y_runs s') k = Some p \<and> map_of (d_jobs (y_dl s')) k = Some j \<and> j_target j = u"
    if a: "map_of (d_active (y_dl s')) u = Some k" for u k
  proof (cases "u = j_target job")
    case True
    with a s' show ?thesis by auto
  next
    case False
    with a s'(3) have "map_of (d_active (y_dl s)) u = Some k" by simp
    from dl_inv_active [OF inv this] obtain p j where
      "map_of (y_runs s) k = Some p" "map_of (d_jobs (y_dl s)) k = Some j" "j_target j = u" by blast
    with s' no new show ?thesis by (cases "k = jid") auto
  qed
  ultimately show ?thesis unfolding dl_inv_def by blast
qed

lemma phase_ok_cancelled [simp]: "phase_ok ph StateCancelled"
  by (simp add: phase_ok_def IsTerminal_def split: run_phase.splits)

lemma d_jobs_run_end:
  assumes "run_end cfg io jid err d fs = (d', fs')" and "map_of (d_jobs d) jid = Some job"
  shows "\<exists>job'. map_of (d_jobs d') = (map_of (d_jobs d))(jid \<mapsto> job') \<and> j_target job' = j_target job \<and>
    IsTerminal (j_state job') \<and> (j_state job = StateCancelled \<longrightarrow> j_state job' = StateCancelled) \<and>
    d_requests d' = d_requests d \<and> d_active d' = d_active d"
  using assms by (auto simp: run_end_def Let_def update_job_def IsTerminal_def split: option.splits)

lemma dl_inv_step: "dl_step cfg s s' \<Longrightarrow> dl_inv s \<Longrightarrow> dl_inv s'"
proof (induction rule: dl_step.induct)
  case (start s jid io req r d fs)
  from start(2) show ?case
  proof (cases rule: dl_Start_cases)
    case refused
    with start(3) show ?thesis by (cases r) (auto simp: dl_inv_def)
  next
    case (shared job)
    with start(3) show ?thesis by (simp add: dl_inv_def)
  next
    case (launched job)
    show ?thesis
      by (rule dl_inv_launch [OF start(3,1) launched(3), of _ req])
        (use launched in \<open>auto simp: put_job_def\<close>)
  next
    case (already job)
    have no: "map_of (y_runs s) jid = None"
      using dl_inv_run [OF start(3), where jid = jid] start(1) by (cases "map_of (y_runs s) jid") auto
    have "\<exists>j. map_of (d_jobs d) k = Some j \<and> phase_ok p (j_state j) \<and> map_of (d_requests d) k \<noteq> None \<and>
        map_of (d_active d) (j_target j) = Some k" if k: "map_of (y_runs s) k = Some p" for k p
      using dl_inv_run [OF start(3) k] already k no by (cases "k = jid") (auto simp: put_job_def)
    moreover have "\<exists>p j. map_of (y_runs s) k = Some p \<and> map_of (d_jobs d) k = Some j \<and> j_target j = u"
      if a: "map_of (d_active d) u = Some k" for u k
      using dl_inv_active [OF start(3), of u k] already a no by (cases "k = jid") (auto simp: put_job_def)
    ultimately show ?thesis using start(3) already(1) by (auto simp: dl_inv_def)
  qed
next
  case (cancel jid s r d)
  show ?case
  proof (cases "map_of (d_jobs (y_dl s)) jid")
    case None
    with cancel have "y_dl s = d" by (simp add: dl_Cancel_def)
    with cancel(2) show ?thesis by (simp add: dl_inv_def)
  next
    case (Some job)
    show ?thesis
    proof (cases "j_state job = StateQueued \<or> j_state job = StateRunning")
      case False
      with cancel(1) Some have "y_dl s = d" by (simp add: dl_Cancel_def)
      with cancel(2) show ?thesis by (simp add: dl_inv_def)
    next
      case True
      show ?thesis
        by (rule dl_inv_in_place [OF cancel(2) Some, of _ "job\<lparr>j_state := StateCancelled\<rparr>"])
          (use cancel Some True in \<open>auto simp: dl_Cancel_def Let_def dl_inv_def\<close>)
    qed
  qed
next
  case (begins s jid io d fs)
  from dl_inv_run [OF begins(3,1)] obtain job where
    job: "map_of (d_jobs (y_dl s)) jid = Some job" "phase_ok RQueued (j_state job)" by blast
  show ?case
    by (rule dl_inv_in_place [OF begins(3) job(1), of _
          "if j_state job \<noteq> StateCancelled then job\<lparr>j_state := StateRunning\<rparr> else job"])
      (use begins job in \<open>auto simp: run_begin_def Let_def update_job_def phase_ok_def dl_inv_def\<close>)
next
  case (progress s jid n)
  from dl_inv_run [OF progress(2,1)] obtain job where
    job: "map_of (d_jobs (y_dl s)) jid = Some job" "phase_ok RRunning (j_state job)" by blast
  show ?case
    by (rule dl_inv_in_place [OF progress(2) job(1), of _ "job\<lparr>j_received := j_received job + n\<rparr>"])
      (use progress job in \<open>auto simp: addProgress_def update_job_def dl_inv_def\<close>)
next
  case (executes s jid req io net err n fs d fs')
  from dl_inv_run [OF executes(5,1)] obtain job where
    job: "map_of (d_jobs (y_dl s)) jid = Some job" "phase_ok RRunning (j_state job)" by blast
  from d_jobs_run_end [OF executes(4) job(1)] obtain job' where
    job': "map_of (d_jobs d) = (map_of (d_jobs (y_dl s)))(jid \<mapsto> job')" "j_target job' = j_target job"
      "IsTerminal (j_state job')" "d_requests d = d_requests (y_dl s)" "d_active d = d_active (y_dl s)" by blast
  show ?case
    by (rule dl_inv_in_place [OF executes(5) job(1), of _ job'])
      (use executes job job' in \<open>auto simp: phase_ok_def dl_inv_def\<close>)
next
  case (clears s jid)
  from dl_inv_run [OF clears(2,1)] obtain job where
    job: "map_of (d_jobs (y_dl s)) jid = Some job" "map_of (d_active (y_dl s)) (j_target job) = Some jid" by blast
  let ?s = "s\<lparr>y_dl := clearActive jid (y_dl s), y_runs := al_del jid (y_runs s)\<rparr>"
  have act: "map_of (d_active (y_dl ?s)) = (map_of (d_active (y_dl s)))(j_target job := None)"
    and jobs: "d_jobs (y_dl ?s) = d_jobs (y_dl s)" "d_requests (y_dl ?s) = d_requests (y_dl s)"
    using job by (simp_all add: clearActive_def Let_def)
  have "\<exists>j. map_of (d_jobs (y_dl ?s)) k = Some j \<and> phase_ok p (j_state j) \<and> map_of (d_requests (y_dl ?s)) k \<noteq> None \<and>
      map_of (d_active (y_dl ?s)) (j_target j) = Some k" if k: "map_of (y_runs ?s) k = Some p" for k p
  proof -
    from k have "k \<noteq> jid" "map_of (y_runs s) k = Some p" by (auto split: if_splits)
    with dl_inv_run [OF clears(2), of k p] obtain j where
      j: "map_of (d_jobs (y_dl s)) k = Some j" "phase_ok p (j_state j)" "map_of (d_requests (y_dl s)) k \<noteq> None"
        "map_of (d_active (y_dl s)) (j_target j) = Some k" by blast
    with job \<open>k \<noteq> jid\<close> have "j_target j \<noteq> j_target job" by auto
    with j act jobs show ?thesis by auto
  qed
  moreover have "\<exists>p j. map_of (y_runs ?s) k = Some p \<and> map_of (d_jobs (y_dl ?s)) k = Some j \<and> j_target j = u"
    if a: "map_of (d_active (y_dl ?s)) u = Some k" for u k
  proof -
    from a act have "u \<noteq> j_target job" "map_of (d_active (y_dl s)) u = Some k" by (auto split: if_splits)
    with dl_inv_active [OF clears(2), of u k] job jobs show ?thesis by auto
  qed
  ultimately show ?case using clears(2) unfolding dl_inv_def by simp
qed

definition dl_empty :: "fs \<Rightarrow> dls" where
  "dl_empty fs = \<lparr>y_dl = init_dl, y_fs = fs, y_runs = []\<rparr>"

lemma dl_inv_empty: "dl_inv (dl_empty fs)"
  by (simp add: dl_inv_def dl_empty_def init_dl_def al_keys_def)

lemma dl_inv_reachable: "(dl_step cfg)\<^sup>*\<^sup>* (dl_empty fs) s \<Longrightarrow> dl_inv s"
  by (induction rule: rtranclp_induct) (auto intro: dl_inv_step dl_inv_empty)

text \<open>
  C14: at most one goroutine writes a target. In every reachable interleaving of starts, cancels and
  transfers, two running goroutines have different targets, the active table names exactly them, and
  the job that a start finds active is in the table, so that the pointer \<^verbatim>\<open>launch\<close> reads without a
  check is never nil.
\<close>

theorem one_writer_per_target:
  assumes "(dl_step cfg)\<^sup>*\<^sup>* (dl_empty fs) s"
  shows "(\<forall>i\<in>set (al_keys (y_runs s)). \<forall>k\<in>set (al_keys (y_runs s)).
      i \<noteq> k \<longrightarrow> targ s i \<noteq> targ s k) \<and>
    (\<forall>t i. map_of (d_active (y_dl s)) t = Some i \<longrightarrow>
      i \<in> set (al_keys (y_runs s)) \<and> map_of (d_jobs (y_dl s)) i \<noteq> None)"
proof -
  note inv = dl_inv_reachable [OF assms]
  have "i = k" if "i \<in> set (al_keys (y_runs s))" "k \<in> set (al_keys (y_runs s))" "targ s i = targ s k" for i k
  proof -
    from that obtain p q where "map_of (y_runs s) i = Some p" "map_of (y_runs s) k = Some q"
      by (metis al_keys_def list.set_map map_of_eq_None_iff not_None_eq)
    with dl_inv_run [OF inv, of i p] dl_inv_run [OF inv, of k q] that(3) show ?thesis
      by (auto simp: targ_def)
  qed
  moreover have "i \<in> set (al_keys (y_runs s)) \<and> map_of (d_jobs (y_dl s)) i \<noteq> None"
    if "map_of (d_active (y_dl s)) t = Some i" for t i
  proof -
    from dl_inv_active [OF inv that] obtain p where "map_of (y_runs s) i = Some p" "map_of (d_jobs (y_dl s)) i \<noteq> None"
      by auto
    then show ?thesis by (auto simp: al_keys_def dest: map_of_SomeD intro: rev_image_eqI)
  qed
  ultimately show ?thesis by blast
qed

definition ex_req :: dl_request where
  "ex_req = \<lparr>rq_plan = ex_plan, rq_force = False, rq_backend = ''b'', rq_profile = []\<rparr>"

lemma ex_started:
  "dl_step ex_dl_cfg (dl_empty ex_disk)
     \<lparr>y_dl = \<lparr>d_jobs = [(''x'', newJob ''x'' ex_req StateQueued)], d_requests = [(''x'', ex_req)],
              d_active = [(''/a/m'', ''x'')], d_cancels = [''x''], d_cancelled = []\<rparr>,
      y_fs = ex_disk, y_runs = [(''x'', RQueued)]\<rparr>"
proof -
  have s: "dl_Start ex_dl_cfg calm_env ''x'' ex_req (y_dl (dl_empty ex_disk)) (y_fs (dl_empty ex_disk)) =
      (Inr (newJob ''x'' ex_req StateQueued, True),
       \<lparr>d_jobs = [(''x'', newJob ''x'' ex_req StateQueued)], d_requests = [(''x'', ex_req)],
        d_active = [(''/a/m'', ''x'')], d_cancels = [''x''], d_cancelled = []\<rparr>, ex_disk)"
    by code_simp
  have "map_of (d_jobs (y_dl (dl_empty ex_disk))) ''x'' = None" by code_simp
  from dl_step.start [OF this s] show ?thesis by (simp add: dl_empty_def)
qed

theorem one_writer_per_target_witness:
  "\<exists>s. (dl_step ex_dl_cfg)\<^sup>*\<^sup>* (dl_empty ex_disk) s \<and> y_runs s = [(''x'', RQueued)] \<and>
     map_of (d_active (y_dl s)) ''/a/m'' = Some ''x'' \<and> map_of (d_jobs (y_dl s)) ''x'' \<noteq> None"
proof -
  let ?s = "\<lparr>y_dl = \<lparr>d_jobs = [(''x'', newJob ''x'' ex_req StateQueued)], d_requests = [(''x'', ex_req)],
              d_active = [(''/a/m'', ''x'')], d_cancels = [''x''], d_cancelled = []\<rparr>,
      y_fs = ex_disk, y_runs = [(''x'', RQueued)]\<rparr>"
  have r: "(dl_step ex_dl_cfg)\<^sup>*\<^sup>* (dl_empty ex_disk) ?s" using ex_started by blast
  have a: "map_of (d_active (y_dl ?s)) ''/a/m'' = Some ''x''" by simp
  from one_writer_per_target [OF r] a have "map_of (d_jobs (y_dl ?s)) ''x'' \<noteq> None" by blast
  with r a show ?thesis by (intro exI [of _ ?s]) simp
qed

lemma terminal_step:
  assumes "dl_step cfg s s'" and inv: "dl_inv s"
    and j: "map_of (d_jobs (y_dl s)) k = Some job" "IsTerminal (j_state job)"
  shows "\<exists>job'. map_of (d_jobs (y_dl s')) k = Some job' \<and> j_state job' = j_state job"
  using assms(1)
proof (cases rule: dl_step.cases)
  case (start jid io req r d fs)
  then have "k \<noteq> jid" using j by auto
  from start(3) show ?thesis
    by (cases rule: dl_Start_cases) (use start(1) j \<open>k \<noteq> jid\<close> in \<open>auto simp: put_job_def\<close>)
next
  case (cancel jid r d)
  then show ?thesis using j
    by (auto simp: dl_Cancel_def IsTerminal_def Let_def split: option.splits if_splits)
next
  case (begins jid io d fs)
  from dl_inv_run [OF inv begins(2)] j have "k = jid \<Longrightarrow> j_state job = StateCancelled"
    by (auto simp: phase_ok_def IsTerminal_def)
  then show ?thesis using begins j by (cases "k = jid") (auto simp: run_begin_def Let_def map_of_update_job)
next
  case (progress jid n)
  then show ?thesis using j by (auto simp: addProgress_def map_of_update_job)
next
  case (executes jid req io net err n fs d fs')
  from dl_inv_run [OF inv executes(2)] obtain jb where
    jb: "map_of (d_jobs (y_dl s)) jid = Some jb" "phase_ok RRunning (j_state jb)" by blast
  with j have "k = jid \<Longrightarrow> j_state job = StateCancelled" by (auto simp: phase_ok_def IsTerminal_def)
  with d_jobs_run_end [OF executes(5) jb(1)] jb j executes(1) show ?thesis by (cases "k = jid") auto
next
  case (clears jid)
  then show ?thesis using j by (auto simp: clearActive_def Let_def split: option.splits)
qed

text \<open>
  a terminal state is final. Whatever calls and goroutines run, a job that is completed, failed,
  cancelled or already downloaded keeps that state.
\<close>

theorem terminal_is_final:
  assumes "(dl_step cfg)\<^sup>*\<^sup>* (dl_empty fs) s" and "(dl_step cfg)\<^sup>*\<^sup>* s s'"
    and "map_of (d_jobs (y_dl s)) k = Some job" and "IsTerminal (j_state job)"
  shows "\<exists>job'. map_of (d_jobs (y_dl s')) k = Some job' \<and> j_state job' = j_state job"
  using assms(2)
proof (induction rule: rtranclp_induct)
  case base
  then show ?case using assms(3) by blast
next
  case (step t u)
  from step.IH obtain jt where jt: "map_of (d_jobs (y_dl t)) k = Some jt" "j_state jt = j_state job" by blast
  have "dl_inv t" using dl_inv_reachable [of cfg fs t] assms(1) step.hyps(1) by (meson rtranclp_trans)
  from terminal_step [OF step.hyps(2) this jt(1)] jt(2) assms(4) show ?case by auto
qed

lemma ex_cancelled:
  "dl_step ex_dl_cfg
     \<lparr>y_dl = \<lparr>d_jobs = [(''x'', newJob ''x'' ex_req StateQueued)], d_requests = [(''x'', ex_req)],
              d_active = [(''/a/m'', ''x'')], d_cancels = [''x''], d_cancelled = []\<rparr>,
      y_fs = ex_disk, y_runs = [(''x'', RQueued)]\<rparr>
     \<lparr>y_dl = \<lparr>d_jobs = [(''x'', (newJob ''x'' ex_req StateQueued)\<lparr>j_state := StateCancelled\<rparr>)],
              d_requests = [(''x'', ex_req)],
              d_active = [(''/a/m'', ''x'')], d_cancels = [''x''], d_cancelled = [''x'']\<rparr>,
      y_fs = ex_disk, y_runs = [(''x'', RQueued)]\<rparr>" (is "dl_step ex_dl_cfg ?s ?t")
proof -
  have "dl_Cancel ''x'' (y_dl ?s) = (Inr ((newJob ''x'' ex_req StateQueued)\<lparr>j_state := StateCancelled\<rparr>), y_dl ?t)"
    by code_simp
  from dl_step.cancel [of "''x''" ?s, OF this] show ?thesis by simp
qed

text \<open>
  A consequence of the active table: a start right after a cancel answers with the cancelled job, as
  long as its goroutine has not ended, and starts nothing.
\<close>

lemma start_after_cancel:
  "fst (dl_Start ex_dl_cfg calm_env ''y'' ex_req
     \<lparr>d_jobs = [(''x'', (newJob ''x'' ex_req StateQueued)\<lparr>j_state := StateCancelled\<rparr>)], d_requests = [(''x'', ex_req)],
      d_active = [(''/a/m'', ''x'')], d_cancels = [''x''], d_cancelled = [''x'']\<rparr> ex_disk)
   = Inr ((newJob ''x'' ex_req StateQueued)\<lparr>j_state := StateCancelled\<rparr>, False)"
  by code_simp

theorem terminal_is_final_witness:
  "\<exists>s job. (dl_step ex_dl_cfg)\<^sup>*\<^sup>* (dl_empty ex_disk) s \<and> map_of (d_jobs (y_dl s)) ''x'' = Some job \<and>
     j_state job = StateCancelled"
proof -
  let ?s = "\<lparr>y_dl = \<lparr>d_jobs = [(''x'', (newJob ''x'' ex_req StateQueued)\<lparr>j_state := StateCancelled\<rparr>)],
              d_requests = [(''x'', ex_req)],
              d_active = [(''/a/m'', ''x'')], d_cancels = [''x''], d_cancelled = [''x'']\<rparr>,
      y_fs = ex_disk, y_runs = [(''x'', RQueued)]\<rparr>"
  have r: "(dl_step ex_dl_cfg)\<^sup>*\<^sup>* (dl_empty ex_disk) ?s"
    using ex_started ex_cancelled by (meson converse_rtranclp_into_rtranclp r_into_rtranclp)
  have j: "map_of (d_jobs (y_dl ?s)) ''x'' = Some ((newJob ''x'' ex_req StateQueued)\<lparr>j_state := StateCancelled\<rparr>)" by simp
  have "\<exists>job'. map_of (d_jobs (y_dl ?s)) ''x'' = Some job' \<and>
      j_state job' = j_state ((newJob ''x'' ex_req StateQueued)\<lparr>j_state := StateCancelled\<rparr>)"
    by (rule terminal_is_final [OF r rtranclp.rtrancl_refl j]) (simp add: IsTerminal_def)
  with r show ?thesis by auto
qed

section \<open>Properties of recovery\<close>

lemma persist_frame:
  assumes "dc_state_dir cfg = []"
  shows "persist cfg io i d fs = fs"
  using assms by (simp add: persist_def)

lemma discard_gone: "io_fail io (OpRemove p) = None \<Longrightarrow> io_fail io (OpStat p) = None \<Longrightarrow>
  map_of fs p = Some (NFile d m) \<Longrightarrow> map_of (discard io p fs) p = None"
  using map_of_filter_keys [of "\<lambda>q. \<not> under p q" fs p]
  by (simp add: discard_def exists_def Stat_def follow_plain RemoveAll_def) (simp add: under_def)

text \<open>
  An interrupted download that replaces an existing model is recorded as complete after a restart,
  although nothing of it was moved into place: recovery takes the old file, which a forced download
  keeps until its last step, for the downloaded one, and throws the partial file away.
\<close>

theorem recovery_completes_a_forced_download:
  "let req = ex_req\<lparr>rq_force := True\<rparr>;
       disk = [(''/a'', NDir), (''/a/m'', NFile ''old'' 384), (''/a/m.part'', NFile ''ab'' 384)];
       ((d, fs), runs) = reconcile ex_dl_cfg calm_env (newJob ''x'' req StateRunning, req) (init_dl, disk)
   in map_option j_state (map_of (d_jobs d) ''x'') = Some StateCompleted \<and> runs = [] \<and>
      map_of fs ''/a/m'' = Some (NFile ''old'' 384) \<and> map_of fs ''/a/m.part'' = None"
  by code_simp

text \<open>
  what recovery keeps for resuming. A record of a job that has not ended, whose target is not there
  and is not being downloaded, becomes a queued job of its own with a goroutine, and its partial file
  stays. But the record of an ended job for the same target removes the partial file, which by then is
  the file the new goroutine resumes.
\<close>

theorem recovery_requeues:
  assumes j: "j_state job = StateQueued \<or> j_state job = StateRunning"
    and t: "j_target job = ap_target_root (rq_plan req)" and absent: "\<not> exists io (j_target job) fs"
    and free: "map_of (d_active d) (j_target job) = None" and dir: "dc_state_dir cfg = []"
    and part: "map_of fs (part_of (j_target job)) = Some (NFile data m)"
    and old: "j_state old = StateFailed" "rq_plan oreq = rq_plan req"
    and io: "io_fail io (OpRemove (part_of (j_target job))) = None" "io_fail io (OpStat (part_of (j_target job))) = None"
  shows "let ((d1, fs1), runs) = reconcile cfg io (job, req) (d, fs);
             ((d2, fs2), _) = reconcile cfg io (old, oreq) (d1, fs1)
         in runs = [j_id job] \<and> map_option j_state (map_of (d_jobs d1) (j_id job)) = Some StateQueued \<and>
            map_of (d_active d1) (j_target job) = Some (j_id job) \<and>
            map_of fs1 (part_of (j_target job)) = Some (NFile data m) \<and>
            map_of fs2 (part_of (j_target job)) = None"
  using assms discard_gone [OF io part]
  by (auto simp: reconcile_def Let_def launch_def put_job_def persist_frame split: prod.splits)

theorem recovery_requeues_witness:
  "let ((d1, fs1), runs) = reconcile ex_dl_cfg calm_env (newJob ''x'' ex_req StateRunning, ex_req) (init_dl, ex_disk);
       ((d2, fs2), _) = reconcile ex_dl_cfg calm_env (newJob ''w'' ex_req StateFailed, ex_req) (d1, fs1)
   in runs = [''x''] \<and> map_of fs2 ''/a/m.part'' = None"
  using recovery_requeues [of "newJob ''x'' ex_req StateRunning" ex_req calm_env ex_disk init_dl ex_dl_cfg "''a''" 384
      "newJob ''w'' ex_req StateFailed" ex_req]
  by (simp add: ex_req_def ex_plan_def ex_disk_def calm_env_def init_dl_def ex_dl_cfg_def part_of_def exists_def Stat_def
      follow.simps not_exist_def split: prod.splits)

end
