(* ===== verification/Manager.thy ===== *)
theory Manager
  imports Lifecycle Profiles ConfigStore Supervisor Download
begin

text \<open>
  The handlers of \<^verbatim>\<open>core/control/manager.go\<close> and \<^verbatim>\<open>core/control/reload.go\<close>, each run to its end: profiles,
  the files generated from them, and the runtime. How their critical sections interleave is in theory
  \<open>Lifecycle\<close>; here they are composed with the profile store, the supervisor and the file system.

  \<open>deps\<close> are the manager's fixed dependencies. A \<open>world\<close> is the manager's state with the process objects
  its runtime factory made (a handle is an index into them), the machine, and the downloads. What the
  machine answers during one call is in \<open>answers\<close>.
\<close>

section \<open>The world\<close>

record deps =
  e_registry :: registry
  e_store :: profile_cfg
  e_config :: "config_store option"
  e_downloads :: "dl_cfg option"
  e_home :: "string option"

record answers =
  an_io :: io_env
  an_stop :: outcome
  an_start :: outcome
  an_reload_stop :: outcome
  an_reload_start :: outcome

record world =
  w_mgr :: mgr
  w_sups :: "sup list"
  w_host :: host
  w_dl :: dl

definition init_world :: "host \<Rightarrow> world" where
  "init_world h = \<lparr>w_mgr = init_mgr, w_sups = [], w_host = h, w_dl = init_dl\<rparr>"

definition w_fs :: "world \<Rightarrow> fs" where
  "w_fs w = h_files (w_host w)"

definition set_fs :: "fs \<Rightarrow> world \<Rightarrow> world" where
  "set_fs fs w = w\<lparr>w_host := (w_host w)\<lparr>h_files := fs\<rparr>\<rparr>"

definition on_mgr :: "(mgr \<Rightarrow> mgr) \<Rightarrow> world \<Rightarrow> world" where
  "on_mgr f w = w\<lparr>w_mgr := f (w_mgr w)\<rparr>"

text \<open>The runtime factory and the calls on one process object.\<close>

definition factory :: "launch_spec \<Rightarrow> world \<Rightarrow> nat \<times> world" where
  "factory spec w = (length (w_sups w), w\<lparr>w_sups := w_sups w @ [NewSupervisor spec]\<rparr>)"

definition proc_start :: "outcome \<Rightarrow> nat \<Rightarrow> world \<Rightarrow> (gerr option \<times> command_result) \<times> world" where
  "proc_start oc p w =
     (case sup_start oc (w_sups w ! p) (w_host w) of
        (r, s, h) \<Rightarrow> (r, w\<lparr>w_sups := (w_sups w)[p := s], w_host := h\<rparr>))"

definition proc_stop :: "outcome \<Rightarrow> nat \<Rightarrow> world \<Rightarrow> (gerr option \<times> command_result) \<times> world" where
  "proc_stop oc p w =
     (case sup_stop oc (w_sups w ! p) (w_host w) of
        (r, s, h) \<Rightarrow> (r, w\<lparr>w_sups := (w_sups w)[p := s], w_host := h\<rparr>))"

definition proc_recover :: "outcome \<Rightarrow> nat \<Rightarrow> world \<Rightarrow> (bool \<times> gerr option) \<times> world" where
  "proc_recover oc p w =
     (case sup_Recover oc (w_sups w ! p) (w_host w) of
        (r, s, h) \<Rightarrow> (r, w\<lparr>w_sups := (w_sups w)[p := s], w_host := h\<rparr>))"

definition proc_status :: "io_env \<Rightarrow> nat \<Rightarrow> world \<Rightarrow> process_status \<times> world" where
  "proc_status io p w =
     (case statusLocked io (w_sups w ! p) (w_host w) of
        (r, s, h) \<Rightarrow> (r, w\<lparr>w_sups := (w_sups w)[p := s], w_host := h\<rparr>))"

section \<open>Audit\<close>

definition core_event :: "string \<Rightarrow> gerr option \<Rightarrow> audit_event" where
  "core_event action err =
     \<lparr>ae_protocol = ''core'', ae_action = action, ae_success = (err = None), ae_error_kind = Kind err,
      ae_detail = Str [], ae_operation_id = [], ae_profile = [], ae_backend = [], ae_state = None, ae_recovery = None\<rparr>"

definition recording :: "string \<Rightarrow> gerr option \<Rightarrow> world \<Rightarrow> world" where
  "recording action err w = on_mgr (record_audit (core_event action err)) w"

definition err_of :: "gerr + 'a \<Rightarrow> gerr option" where
  "err_of r = (case r of Inl e \<Rightarrow> Some e | Inr _ \<Rightarrow> None)"

definition core_wrap :: "error_kind \<Rightarrow> gerr \<Rightarrow> gerr" where
  "core_wrap k e = CoreError k (error_text e) (Some e)"

section \<open>Profiles and backends\<close>

definition GetProfile :: "deps \<Rightarrow> io_env \<Rightarrow> string \<Rightarrow> world \<Rightarrow> gerr + profile_doc" where
  "GetProfile e io name w =
     (case ps_Get (e_store e) io name (w_fs w) of Inl er \<Rightarrow> Inl (mapProfileError er) | Inr d \<Rightarrow> Inr d)"

definition ListProfiles :: "deps \<Rightarrow> io_env \<Rightarrow> world \<Rightarrow> gerr + profile_summary list" where
  "ListProfiles e io w =
     (case ps_List (e_store e) io (w_fs w) of Inl er \<Rightarrow> Inl (mapProfileError er) | Inr l \<Rightarrow> Inr l)"

definition ListProfileDocuments :: "deps \<Rightarrow> io_env \<Rightarrow> world \<Rightarrow> gerr + profile_doc list" where
  "ListProfileDocuments e io w =
     (case ps_ListDocuments (e_store e) io (w_fs w) of Inl er \<Rightarrow> Inl (mapProfileError er) | Inr l \<Rightarrow> Inr l)"

definition profileBackend :: "deps \<Rightarrow> io_env \<Rightarrow> string \<Rightarrow> world \<Rightarrow> gerr + (profile_doc \<times> backend)" where
  "profileBackend e io name w =
     (case GetProfile e io name w of
        Inl er \<Rightarrow> Inl er
      | Inr doc \<Rightarrow>
          (case mgr_Backend (e_registry e) (p_backend (d_effective doc)) of
             Inl er \<Rightarrow> Inl er | Inr b \<Rightarrow> Inr (doc, b)))"

section \<open>Generated files\<close>

definition materialize :: "deps \<Rightarrow> io_env \<Rightarrow> backend \<Rightarrow> profile \<Rightarrow> world \<Rightarrow> gerr + materialization" where
  "materialize e io b selected w =
     (case b_batch b of
        None \<Rightarrow> b_materialize b selected
      | Some batch \<Rightarrow>
          (case ps_ListDocuments (e_store e) io (w_fs w) of
             Inl er \<Rightarrow> Inl er
           | Inr docs \<Rightarrow>
               batch (filter (\<lambda>p. p_backend p = b_name b) (map d_effective docs))))"

fun write_generated :: "io_env \<Rightarrow> generated_file list \<Rightarrow> fs \<Rightarrow> gerr option \<times> fs" where
  "write_generated io [] fs = (None, fs)"
| "write_generated io (g # gs) fs =
     (if gf_path g = [] then (Some (Errorw (Fmt ''generated file path is empty'' []) []), fs)
      else case MkdirAll io (Dir (gf_path g)) fs of
          (Some e, fs1) \<Rightarrow> (Some e, fs1)
        | (None, fs1) \<Rightarrow>
            (case RejectSymlinkAncestors io (Dir (gf_path g)) fs1 of
               Some e \<Rightarrow> (Some e, fs1)
             | None \<Rightarrow>
                 (case (case RejectSymlink io (gf_path g) fs1 of
                          Some e \<Rightarrow> if errors_is e ErrNotExist then None else Some e
                        | None \<Rightarrow> None) of
                    Some e \<Rightarrow> (Some e, fs1)
                  | None \<Rightarrow>
                      (case WriteFile io (gf_path g) (gf_content g)
                              \<lparr>wo_perm = (if gf_mode g = 0 then 384 else gf_mode g), wo_backup = False,
                               wo_normalize = id\<rparr> fs1 of
                         (Inl e, fs2) \<Rightarrow> (Some e, fs2)
                       | (Inr _, fs2) \<Rightarrow> write_generated io gs fs2))))"

definition writeMaterialization :: "io_env \<Rightarrow> materialization \<Rightarrow> fs \<Rightarrow> gerr option \<times> fs" where
  "writeMaterialization io mat fs = write_generated io (mat_files mat) fs"

definition materializationChanged :: "io_env \<Rightarrow> materialization \<Rightarrow> fs \<Rightarrow> bool" where
  "materializationChanged io mat fs \<longleftrightarrow>
     list_ex (\<lambda>g. case ReadFile io (gf_path g) fs of Inl e \<Rightarrow> True | Inr data \<Rightarrow> data \<noteq> gf_content g) (mat_files mat)"

definition render :: "deps \<Rightarrow> io_env \<Rightarrow> backend \<Rightarrow> profile \<Rightarrow> world \<Rightarrow> (gerr + materialization) \<times> world" where
  "render e io b selected w =
     (case materialize e io b selected w of
        Inl er \<Rightarrow> (Inl (core_wrap ErrorInvalidInput er), w)
      | Inr mat \<Rightarrow>
          (case writeMaterialization io mat (w_fs w) of
             (Some er, fs) \<Rightarrow> (Inl (core_wrap ErrorRuntime er), set_fs fs w)
           | (None, fs) \<Rightarrow> (Inr mat, set_fs fs w)))"

text \<open>\<^verbatim>\<open>adopt\<close> is a map; the order its entries are replaced in is that of the list.\<close>

fun adopt_each :: "deps \<Rightarrow> io_env \<Rightarrow> (string \<times> string) list \<Rightarrow> world \<Rightarrow> bool \<times> world" where
  "adopt_each e io [] w = (False, w)"
| "adopt_each e io ((name, yaml) # rest) w =
     (case ps_Replace (e_store e) io name yaml (w_fs w) of
        (Inl er, fs) \<Rightarrow> adopt_each e io rest (set_fs fs w)
      | (Inr _, fs) \<Rightarrow> (True, snd (adopt_each e io rest (set_fs fs w))))"

definition importGenerated :: "deps \<Rightarrow> io_env \<Rightarrow> backend \<Rightarrow> world \<Rightarrow> bool \<times> world" where
  "importGenerated e io b w =
     (case b_import b of
        None \<Rightarrow> (False, w)
      | Some importer \<Rightarrow>
          (case ps_ListDocuments (e_store e) io (w_fs w) of
             Inl er \<Rightarrow> (False, w)
           | Inr docs \<Rightarrow>
               (case importer io (w_fs w) docs of
                  Inl er \<Rightarrow> (False, w)
                | Inr (adopt, conflicts) \<Rightarrow> adopt_each e io adopt w)))"

definition requireModelFile :: "deps \<Rightarrow> io_env \<Rightarrow> profile \<Rightarrow> fs \<Rightarrow> gerr option" where
  "requireModelFile e io p fs =
     (let source = ExpandHome (e_home e) (ms_source (p_model p))
      in if \<not> IsAbs source then None
         else case Stat io source fs of
             Inl er \<Rightarrow> Some (Errorf ErrorNotFound
               ''profile %q model file %s is missing; update model.source or download it again''
               [Str (p_name p), Str source])
           | Inr _ \<Rightarrow> None)"

section \<open>Starting\<close>

definition spec_address :: "launch_spec \<Rightarrow> string" where
  "spec_address spec = JoinHostPort (sp_host spec) (itoa_int (sp_port spec))"

definition activate :: "backend \<Rightarrow> profile \<Rightarrow> command_result \<Rightarrow> command_result" where
  "activate b p r =
     (case b_activate b of
        None \<Rightarrow> r
      | Some f \<Rightarrow>
          (case f p of
             None \<Rightarrow> r
           | Some e \<Rightarrow> r\<lparr>cr_stderr := Fmt ''%s activate %s: %v'' [cr_stderr r, Str (p_name p), error_text e]\<rparr>))"

definition fail :: "operation \<Rightarrow> gerr \<Rightarrow> bool \<Rightarrow> world \<Rightarrow> world" where
  "fail op err keep w = on_mgr (fail_op op err keep) w"

text \<open>What follows a successful reservation: stop the replaced process, spawn, activate, commit.\<close>

definition run_start ::
    "answers \<Rightarrow> backend \<Rightarrow> profile \<Rightarrow> launch_spec \<Rightarrow> start_plan \<Rightarrow> world \<Rightarrow> (gerr option \<times> command_result) \<times> world" where
  "run_start an b p spec plan w =
     (let op = spl_op plan; r0 = commandResult ''start'' 0 [] None;
          (stop_err, w1) =
            (case spl_stop plan of
               None \<Rightarrow> (None, w)
             | Some h \<Rightarrow>
                 (case proc_stop (an_stop an) h (on_mgr (transition op Stopping None) w) of
                    ((se, r), w') \<Rightarrow> (map_option mapRuntimeError se, w')))
      in case stop_err of
           Some e \<Rightarrow> ((Some e, r0), fail op e True w1)
         | None \<Rightarrow>
             (let (start_err, r1, process, w2) =
                    (if spl_spawn plan then
                       (let (h, w') = factory spec (on_mgr (transition op Starting None) w1)
                        in case proc_start (an_start an) h w' of
                             ((se, r), w'') \<Rightarrow> (map_option mapRuntimeError se, r, Some h, w''))
                     else (None, r0, None, w1))
              in case start_err of
                   Some e \<Rightarrow> ((Some e, r1), fail op e False w2)
                 | None \<Rightarrow>
                     ((None, activate b p r1),
                      on_mgr (commitStart op process) (on_mgr (transition op Activating None) w2))))"

definition start_runtime ::
    "deps \<Rightarrow> answers \<Rightarrow> string \<Rightarrow> bool \<Rightarrow> world \<Rightarrow> (gerr option \<times> command_result) \<times> world" where
  "start_runtime e an name replace w =
     (let io = an_io an; none = commandResult [] 0 [] None
      in case profileBackend e io name w of
           Inl er \<Rightarrow> ((Some er, none), w)
         | Inr (doc0, b) \<Rightarrow>
             (let (imported, w1) = importGenerated e io b w
              in case (if imported then GetProfile e io name w1 else Inr doc0) of
                   Inl er \<Rightarrow> ((Some er, none), w1)
                 | Inr doc \<Rightarrow>
                     (let p = d_effective doc
                      in case requireModelFile e io p (w_fs w1) of
                           Some er \<Rightarrow> ((Some er, none), w1)
                         | None \<Rightarrow>
                             (case render e io b p w1 of
                                (Inl er, w2) \<Rightarrow> ((Some er, none), w2)
                              | (Inr mat, w2) \<Rightarrow>
                                  (case b_launch b p mat of
                                     Inl er \<Rightarrow> ((Some (core_wrap ErrorInvalidInput er), none), w2)
                                   | Inr spec \<Rightarrow>
                                       (case reserveStart b name (spec_address spec) replace (w_mgr w2) of
                                          (Inl er, m) \<Rightarrow> ((Some er, none), w2\<lparr>w_mgr := m\<rparr>)
                                        | (Inr plan, m) \<Rightarrow> run_start an b p spec plan (w2\<lparr>w_mgr := m\<rparr>)))))))"

definition StartRuntime ::
    "deps \<Rightarrow> answers \<Rightarrow> string \<Rightarrow> bool \<Rightarrow> world \<Rightarrow> (gerr option \<times> command_result) \<times> world" where
  "StartRuntime e an name replace w =
     (case start_runtime e an name replace w of
        ((er, r), w') \<Rightarrow> ((er, r), recording ''runtime.start'' er w'))"

section \<open>Stopping, resetting and status\<close>

definition stop_runtime :: "deps \<Rightarrow> answers \<Rightarrow> string \<Rightarrow> world \<Rightarrow> (gerr option \<times> command_result) \<times> world" where
  "stop_runtime e an name w =
     (let none = commandResult [] 0 [] None; r0 = commandResult ''stop'' 0 [] None
      in case profileBackend e (an_io an) name w of
           Inl er \<Rightarrow> ((Some er, none), w)
         | Inr (doc, b) \<Rightarrow>
             (case reserveStop (b_name b) name (w_mgr w) of
                (Inl er, m) \<Rightarrow> ((Some er, r0), w\<lparr>w_mgr := m\<rparr>)
              | (Inr plan, m) \<Rightarrow>
                  (let w1 = w\<lparr>w_mgr := m\<rparr>; op = tpl_op plan
                   in if op_id op = [] then ((None, r0), w1)
                      else case tpl_process plan of
                          None \<Rightarrow> ((None, r0), on_mgr (commitStop op) w1)
                        | Some h \<Rightarrow>
                            (case proc_stop (an_stop an) h (on_mgr (transition op Stopping None) w1) of
                               ((Some se, r), w2) \<Rightarrow>
                                 ((Some (mapRuntimeError se), r), fail op (mapRuntimeError se) True w2)
                             | ((None, r), w2) \<Rightarrow> ((None, r), on_mgr (commitStop op) w2)))))"

definition StopRuntime :: "deps \<Rightarrow> answers \<Rightarrow> string \<Rightarrow> world \<Rightarrow> (gerr option \<times> command_result) \<times> world" where
  "StopRuntime e an name w =
     (case stop_runtime e an name w of ((er, r), w') \<Rightarrow> ((er, r), recording ''runtime.stop'' er w'))"

definition reset_runtimes :: "answers \<Rightarrow> world \<Rightarrow> (gerr option \<times> command_result) \<times> world" where
  "reset_runtimes an w =
     (let r0 = commandResult ''reset'' 0 [] None
      in case reserveReset (w_mgr w) of
           (Inl er, m) \<Rightarrow> ((Some er, r0), w\<lparr>w_mgr := m\<rparr>)
         | (Inr None, m) \<Rightarrow> ((None, r0), w\<lparr>w_mgr := m\<rparr>)
         | (Inr (Some (op, process)), m) \<Rightarrow>
             (let w1 = on_mgr (transition op Stopping None) (w\<lparr>w_mgr := m\<rparr>)
              in case process of
                   None \<Rightarrow> ((None, r0), on_mgr (commitReset op) w1)
                 | Some h \<Rightarrow>
                     (case proc_stop (an_stop an) h w1 of
                        ((Some se, r), w2) \<Rightarrow>
                          ((Some (mapRuntimeError se), r), fail op (mapRuntimeError se) True w2)
                      | ((None, r), w2) \<Rightarrow> ((None, r), on_mgr (commitReset op) w2))))"

definition ResetRuntimes :: "answers \<Rightarrow> world \<Rightarrow> (gerr option \<times> command_result) \<times> world" where
  "ResetRuntimes an w =
     (case reset_runtimes an w of ((er, r), w') \<Rightarrow> ((er, r), recording ''runtime.reset'' er w'))"

record runtime_status =
  rs_state :: rt_state
  rs_process :: "process_status option"
  rs_detail :: msg

definition RuntimeStatus :: "deps \<Rightarrow> io_env \<Rightarrow> string \<Rightarrow> world \<Rightarrow> (gerr + runtime_status) \<times> world" where
  "RuntimeStatus e io name w =
     (case profileBackend e io name w of
        Inl er \<Rightarrow> (Inl er, w)
      | Inr (doc, b) \<Rightarrow>
          (case slot_status (b_name b) name (w_mgr w) of
             (None, _) \<Rightarrow> (Inr \<lparr>rs_state = Stopped, rs_process = None, rs_detail = Str []\<rparr>, w)
           | (Some state, process) \<Rightarrow>
               (case (state, process) of
                  (Running, Some h) \<Rightarrow>
                    (case proc_status io h w of
                       (ps, w') \<Rightarrow> (Inr \<lparr>rs_state = st_state ps, rs_process = Some ps, rs_detail = st_detail ps\<rparr>, w'))
                | _ \<Rightarrow>
                    (Inr \<lparr>rs_state = state, rs_process = None,
                          rs_detail = Fmt ''%s is %s'' [Str name, Str (rt_state_text state)]\<rparr>, w))))"

definition StopAllRuntimes :: "answers \<Rightarrow> world \<Rightarrow> gerr option \<times> world" where
  "StopAllRuntimes an w =
     (let w1 = on_mgr (\<lambda>m. m\<lparr>m_slot := None\<rparr>) w
      in case m_slot (w_mgr w) of
           None \<Rightarrow> (None, w1)
         | Some s \<Rightarrow>
             (case s_process s of
                None \<Rightarrow> (None, w1)
              | Some h \<Rightarrow>
                  (case proc_stop (an_stop an) h w1 of
                     ((Some se, r), w2) \<Rightarrow>
                       (Some (Errorw (Fmt ''stop backend %q runtime: %w'' [Str (s_backend s), error_text se]) [se]), w2)
                   | ((None, r), w2) \<Rightarrow> (None, w2))))"

section \<open>Reloading a router\<close>

definition routerSpec :: "deps \<Rightarrow> io_env \<Rightarrow> backend \<Rightarrow> string \<Rightarrow> world \<Rightarrow> gerr + launch_spec" where
  "routerSpec e io b name w =
     (case GetProfile e io name w of
        Inl er \<Rightarrow> Inl er
      | Inr doc \<Rightarrow>
          (case materialize e io b (d_effective doc) w of
             Inl er \<Rightarrow> Inl (core_wrap ErrorInvalidInput er)
           | Inr mat \<Rightarrow>
               (case b_launch b (d_effective doc) mat of
                  Inl er \<Rightarrow> Inl (core_wrap ErrorInvalidInput er) | Inr spec \<Rightarrow> Inr spec)))"

text \<open>
  The activations in the replacement have no effect on the model's state: their errors only reach a
  result that is dropped.
\<close>

definition reloadRouter :: "deps \<Rightarrow> answers \<Rightarrow> backend \<Rightarrow> world \<Rightarrow> gerr option \<times> world" where
  "reloadRouter e an b w =
     (let io = an_io an
      in case reserveReload b (w_mgr w) of
           (Inl er, m) \<Rightarrow> (Some er, w\<lparr>w_mgr := m\<rparr>)
         | (Inr None, m) \<Rightarrow> (None, w\<lparr>w_mgr := m\<rparr>)
         | (Inr (Some (op, process, held)), m) \<Rightarrow>
             (let w1 = w\<lparr>w_mgr := m\<rparr>
              in case routerSpec e io b (hd held) w1 of
                   Inl er \<Rightarrow> (Some er, fail op er True w1)
                 | Inr spec \<Rightarrow>
                     (let w2 = on_mgr (transition op Stopping None) w1;
                          (stop_err, w3) =
                            (case process of
                               None \<Rightarrow> (None, w2)
                             | Some h \<Rightarrow> (case proc_stop (an_reload_stop an) h w2 of ((se, r), w') \<Rightarrow> (se, w')))
                      in case stop_err of
                           Some se \<Rightarrow> (Some (mapRuntimeError se), fail op (mapRuntimeError se) True w3)
                         | None \<Rightarrow>
                             (let (h, w4) = factory spec (on_mgr (transition op Starting None) w3)
                              in case proc_start (an_reload_start an) h w4 of
                                   ((Some se, r), w5) \<Rightarrow>
                                     (Some (mapRuntimeError se), fail op (mapRuntimeError se) False w5)
                                 | ((None, r), w5) \<Rightarrow>
                                     (None, on_mgr (commitStart op (Some h)) (on_mgr (transition op Activating None) w5))))))"

definition regenerate :: "deps \<Rightarrow> answers \<Rightarrow> profile \<Rightarrow> world \<Rightarrow> gerr option \<times> world" where
  "regenerate e an selected w =
     (let io = an_io an
      in case mgr_Backend (e_registry e) (p_backend selected) of
           Inl er \<Rightarrow> (Some er, w)
         | Inr b \<Rightarrow>
             (case materialize e io b selected w of
                Inl er \<Rightarrow> (Some (core_wrap ErrorInvalidInput er), w)
              | Inr mat \<Rightarrow>
                  (let changed = materializationChanged io mat (w_fs w)
                   in case writeMaterialization io mat (w_fs w) of
                        (Some er, fs) \<Rightarrow> (Some (core_wrap ErrorRuntime er), set_fs fs w)
                      | (None, fs) \<Rightarrow>
                          if \<not> changed then (None, set_fs fs w) else reloadRouter e an b (set_fs fs w))))"

section \<open>Writing profiles\<close>

definition write_profile ::
    "deps \<Rightarrow> io_env \<Rightarrow> string \<Rightarrow> string \<Rightarrow> bool \<Rightarrow> world \<Rightarrow> (gerr + profile_doc) \<times> world" where
  "write_profile e io name yaml createOnly w =
     (let st = e_store e;
          create = (case ps_Create st io name yaml (w_fs w) of (r, fs) \<Rightarrow> (r, set_fs fs w))
      in if createOnly then create
         else case ps_Get st io name (w_fs w) of
             Inl er \<Rightarrow> if errors_is er ErrNotExist then create else (Inl er, w)
           | Inr _ \<Rightarrow>
               (case ps_Replace st io name yaml (w_fs w) of
                  (Inl er, fs) \<Rightarrow> (Inl er, set_fs fs w)
                | (Inr _, fs) \<Rightarrow> (ps_Get st io name fs, set_fs fs w)))"

text \<open>A failing regeneration is returned along with the stored document.\<close>

definition PutProfile ::
    "deps \<Rightarrow> answers \<Rightarrow> string \<Rightarrow> string \<Rightarrow> bool \<Rightarrow> world \<Rightarrow> (profile_doc option \<times> gerr option) \<times> world" where
  "PutProfile e an name yaml createOnly w =
     (case write_profile e (an_io an) name yaml createOnly w of
        (Inl er, w1) \<Rightarrow>
          ((None, Some (mapProfileError er)), recording ''profile.put'' (Some (mapProfileError er)) w1)
      | (Inr doc, w1) \<Rightarrow>
          (case regenerate e an (d_effective doc) w1 of
             (er, w2) \<Rightarrow>
               ((Some doc, map_option mapProfileError er),
                recording ''profile.put'' (map_option mapProfileError er) w2)))"

definition delete_profile :: "deps \<Rightarrow> answers \<Rightarrow> string \<Rightarrow> world \<Rightarrow> gerr option \<times> world" where
  "delete_profile e an name w =
     (let io = an_io an
      in case GetProfile e io name w of
           Inl er \<Rightarrow> (Some er, w)
         | Inr doc \<Rightarrow>
             (case StopRuntime e an name w of
                ((stop_err, r), w1) \<Rightarrow>
                  if stop_err \<noteq> None \<and> Kind stop_err \<noteq> Some ErrorNotFound then (stop_err, w1)
                  else
                    (case ps_Delete (e_store e) io name (w_fs w1) of
                       (Inl er, fs) \<Rightarrow> (Some (mapProfileError er), set_fs fs w1)
                     | (Inr _, fs) \<Rightarrow>
                         (let w2 = set_fs fs w1
                          in case e_config e of
                               None \<Rightarrow> regenerate e an (d_effective doc) w2
                             | Some cs \<Rightarrow>
                                 (case SetProfileAutostart cs io name False (w_fs w2) of
                                    (Inl er, fs') \<Rightarrow> (Some (mapConfigError er), set_fs fs' w2)
                                  | (Inr _, fs') \<Rightarrow> regenerate e an (d_effective doc) (set_fs fs' w2))))))"

definition DeleteProfile :: "deps \<Rightarrow> answers \<Rightarrow> string \<Rightarrow> world \<Rightarrow> gerr option \<times> world" where
  "DeleteProfile e an name w =
     (case delete_profile e an name w of (er, w') \<Rightarrow> (er, recording ''profile.delete'' er w'))"

section \<open>Downloads\<close>

definition resolve_plan :: "backend \<Rightarrow> profile \<Rightarrow> gerr + (resolved_model \<times> artifact_plan)" where
  "resolve_plan b p =
     (case b_resolve b p of
        Inl er \<Rightarrow> Inl (core_wrap ErrorInvalidInput er)
      | Inr model \<Rightarrow>
          (case b_plan b model of
             Inl er \<Rightarrow> Inl (core_wrap ErrorInvalidInput er) | Inr plan \<Rightarrow> Inr (model, plan)))"

definition ResolveProfileModel :: "deps \<Rightarrow> io_env \<Rightarrow> string \<Rightarrow> world \<Rightarrow> gerr + (resolved_model \<times> artifact_plan)" where
  "ResolveProfileModel e io name w =
     (case profileBackend e io name w of Inl er \<Rightarrow> Inl er | Inr (doc, b) \<Rightarrow> resolve_plan b (d_effective doc))"

definition start_download :: "dl_cfg \<Rightarrow> io_env \<Rightarrow> string \<Rightarrow> dl_request \<Rightarrow> world \<Rightarrow> (gerr + job) \<times> world" where
  "start_download dc io jid req w =
     (case dl_Start dc io jid req (w_dl w) (w_fs w) of
        (Inl er, d, fs) \<Rightarrow> (Inl (mapDownloadError er), set_fs fs (w\<lparr>w_dl := d\<rparr>))
      | (Inr (job, _), d, fs) \<Rightarrow> (Inr job, set_fs fs (w\<lparr>w_dl := d\<rparr>)))"

definition StartDownload ::
    "deps \<Rightarrow> io_env \<Rightarrow> string \<Rightarrow> string \<Rightarrow> bool \<Rightarrow> world \<Rightarrow> (gerr + job) \<times> world" where
  "StartDownload e io jid name force w =
     (let (r, w') =
        (case e_downloads e of
           None \<Rightarrow> (Inl errNoDownloads, w)
         | Some dc \<Rightarrow>
             (case ResolveProfileModel e io name w of
                Inl er \<Rightarrow> (Inl er, w)
              | Inr (_, plan) \<Rightarrow>
                  (case profileBackend e io name w of
                     Inl er \<Rightarrow> (Inl er, w)
                   | Inr (doc, _) \<Rightarrow>
                       start_download dc io jid
                         \<lparr>rq_plan = plan, rq_force = force, rq_backend = p_backend (d_effective doc), rq_profile = name\<rparr> w)))
      in (r, recording ''download.start'' (err_of r) w'))"

definition GetDownload :: "deps \<Rightarrow> string \<Rightarrow> world \<Rightarrow> gerr + job" where
  "GetDownload e jid w =
     (case e_downloads e of
        None \<Rightarrow> Inl errNoDownloads
      | Some _ \<Rightarrow> (case dl_Get jid (w_dl w) of Inl er \<Rightarrow> Inl (mapDownloadError er) | Inr j \<Rightarrow> Inr j))"

definition CancelDownload :: "deps \<Rightarrow> string \<Rightarrow> world \<Rightarrow> (gerr + job) \<times> world" where
  "CancelDownload e jid w =
     (case e_downloads e of
        None \<Rightarrow> (Inl errNoDownloads, w)
      | Some _ \<Rightarrow>
          (case dl_Cancel jid (w_dl w) of
             (Inl er, d) \<Rightarrow> (Inl (mapDownloadError er), w\<lparr>w_dl := d\<rparr>)
           | (Inr j, d) \<Rightarrow> (Inr j, w\<lparr>w_dl := d\<rparr>)))"

definition ResolveModel ::
    "deps \<Rightarrow> string \<Rightarrow> string \<Rightarrow> string \<Rightarrow> gerr + (resolved_model \<times> artifact_plan)" where
  "ResolveModel e backend_name reference variant =
     (if backend_name = [] \<or> reference = []
      then Inl (Errorf ErrorInvalidInput ''backend and reference are required'' [])
      else case mgr_Backend (e_registry e) backend_name of
          Inl er \<Rightarrow> Inl er
        | Inr b \<Rightarrow>
            resolve_plan b
              \<lparr>p_version = YNull, p_name = [], p_backend = backend_name,
               p_model = \<lparr>ms_source = reference, ms_reference = variant\<rparr>,
               p_listen = \<lparr>ls_host = [], ls_port = 0\<rparr>, p_engine_args = []\<rparr>)"

definition StartCatalogDownload ::
    "deps \<Rightarrow> io_env \<Rightarrow> string \<Rightarrow> string \<Rightarrow> string \<Rightarrow> string \<Rightarrow> bool \<Rightarrow> world \<Rightarrow> (gerr + job) \<times> world" where
  "StartCatalogDownload e io jid backend_name reference variant force w =
     (let (r, w') =
        (case e_downloads e of
           None \<Rightarrow> (Inl errNoDownloads, w)
         | Some dc \<Rightarrow>
             (case ResolveModel e backend_name reference variant of
                Inl er \<Rightarrow> (Inl er, w)
              | Inr (_, plan) \<Rightarrow>
                  start_download dc io jid
                    \<lparr>rq_plan = plan, rq_force = force, rq_backend = backend_name, rq_profile = []\<rparr> w))
      in (r, recording ''download.start'' (err_of r) w'))"

end
