(* ===== verification/LocalModels.thy ===== *)
theory LocalModels
  imports Backend
begin

text \<open>
  Local model files: the scanner, path containment and removal of \<^verbatim>\<open>core/modelcatalog/local.go\<close>.
  \<^verbatim>\<open>filepath.EvalSymlinks\<close> follows the links at the end of a path; a walk visits what lies below the
  root, a link is never followed.
\<close>

section \<open>Scanning\<close>

record scanner =
  sc_root :: string
  sc_accepts :: "string \<Rightarrow> bool"

definition NewScanner :: "string \<Rightarrow> (string \<Rightarrow> bool) \<Rightarrow> scanner" where
  "NewScanner root accepts = \<lparr>sc_root = Clean root, sc_accepts = accepts\<rparr>"

text \<open>One visited entry: the error of a call on it, or the model it is.\<close>

definition collect :: "scanner \<Rightarrow> io_env \<Rightarrow> string \<times> node \<Rightarrow> gerr + local_model list" where
  "collect sc io e =
     (case e of (path, n) \<Rightarrow>
        (case n of
           NLink q \<Rightarrow> Inr []
         | NDir \<Rightarrow> (case io_fail io (OpReadDir path) of Some er \<Rightarrow> Inl er | None \<Rightarrow> Inr [])
         | NFile data mode \<Rightarrow>
             if \<not> sc_accepts sc (Base path) then Inr []
             else (case io_fail io (OpLstat path) of
                 Some er \<Rightarrow> Inl er
               | None \<Rightarrow> Inr [\<lparr>lm_path = Clean path, lm_filename = Base path, lm_size = length data\<rparr>])))"

fun collect_all :: "scanner \<Rightarrow> io_env \<Rightarrow> (string \<times> node) list \<Rightarrow> gerr + local_model list" where
  "collect_all sc io [] = Inr []"
| "collect_all sc io (e # es) =
     (case collect sc io e of
        Inl er \<Rightarrow> Inl er
      | Inr ms \<Rightarrow> (case collect_all sc io es of Inl er \<Rightarrow> Inl er | Inr ms' \<Rightarrow> Inr (ms @ ms')))"

definition walk :: "string \<Rightarrow> fs \<Rightarrow> (string \<times> node) list" where
  "walk root fs =
     (case map_of fs root of
        Some NDir \<Rightarrow> sort_key fst (filter (\<lambda>e. under root (fst e)) fs)
      | Some n \<Rightarrow> [(root, n)]
      | None \<Rightarrow> [])"

definition ListLocal :: "scanner \<Rightarrow> io_env \<Rightarrow> fs \<Rightarrow> gerr + local_model list" where
  "ListLocal sc io fs =
     (case Lstat io (sc_root sc) fs of
        Inl e \<Rightarrow> if errors_is e ErrNotExist then Inr [] else Inl e
      | Inr n \<Rightarrow>
          (case collect_all sc io (walk (sc_root sc) fs) of
             Inl e \<Rightarrow> Inl e
           | Inr ms \<Rightarrow> Inr (sort_key lm_path ms)))"

section \<open>Removing\<close>

fun eval_links :: "nat \<Rightarrow> fs \<Rightarrow> string \<Rightarrow> string option" where
  "eval_links fuel fs p =
     (case map_of fs p of
        None \<Rightarrow> None
      | Some (NLink q) \<Rightarrow> (case fuel of 0 \<Rightarrow> None | Suc n \<Rightarrow> eval_links n fs q)
      | Some n \<Rightarrow> Some p)"

text \<open>The path is absolute: \<^verbatim>\<open>filepath.Abs\<close> only cleans it.\<close>

definition CanonicalPath :: "fs \<Rightarrow> string \<Rightarrow> string" where
  "CanonicalPath fs path =
     (case eval_links 255 fs (Clean path) of None \<Rightarrow> Clean path | Some p \<Rightarrow> Clean p)"

definition RemoveLocal :: "io_env \<Rightarrow> string \<Rightarrow> string \<Rightarrow> bool \<Rightarrow> fs \<Rightarrow> gerr option \<times> fs" where
  "RemoveLocal io root target directory fs =
     (let r = CanonicalPath fs root; t = CanonicalPath fs target
      in if t = r \<or> \<not> PathContains r t
         then (Some (Errorw (Fmt ''local model path escapes storage root'' []) []), fs)
         else case Lstat io t fs of
             Inl e \<Rightarrow> (Some e, fs)
           | Inr info \<Rightarrow>
               if (case info of NLink q \<Rightarrow> True | _ \<Rightarrow> False)
               then (Some (Errorw (Fmt ''local model path is a symlink'' []) []), fs)
               else if directory \<noteq> (info = NDir)
               then (Some (Errorw (Fmt ''local model artifact has unexpected shape'' []) []), fs)
               else if directory then RemoveAll io t fs
               else Remove io t fs)"

section \<open>Properties\<close>

definition model_of :: "scanner \<Rightarrow> string \<times> node \<Rightarrow> local_model \<Rightarrow> bool" where
  "model_of sc e m \<longleftrightarrow>
     (\<exists>p d k. e = (p, NFile d k) \<and> sc_accepts sc (Base p) \<and>
        m = \<lparr>lm_path = Clean p, lm_filename = Base p, lm_size = length d\<rparr>)"

lemma collect_set: "collect sc io e = Inr ms \<Longrightarrow> m \<in> set ms \<longleftrightarrow> model_of sc e m"
  by (auto simp: collect_def model_of_def split: prod.splits node.splits if_splits option.splits)

lemma collect_all_set: "collect_all sc io es = Inr ms \<Longrightarrow> m \<in> set ms \<longleftrightarrow> (\<exists>e\<in>set es. model_of sc e m)"
proof (induction es arbitrary: ms)
  case (Cons e es)
  then obtain m1 m2 where c: "collect sc io e = Inr m1" "collect_all sc io es = Inr m2" "ms = m1 @ m2"
    by (auto split: sum.splits)
  show ?case using collect_set [OF c(1), of m] Cons.IH [OF c(2)] c(3) by simp
qed simp

text \<open>
  an inventory is exact. A scan that succeeds over a directory lists, in the order of their paths,
  the regular files below the root that the format accepts, each once with its size, and nothing
  else: no directory, no link, no other file.
\<close>

theorem ListLocal_exact:
  assumes "ListLocal sc io fs = Inr ms" and "map_of fs (sc_root sc) = Some NDir" and "io_fail io (OpLstat (sc_root sc)) = None"
  shows "sorted (map lm_path ms) \<and>
    set ms = {\<lparr>lm_path = Clean p, lm_filename = Base p, lm_size = length d\<rparr> | p d m.
                (p, NFile d m) \<in> set fs \<and> under (sc_root sc) p \<and> sc_accepts sc (Base p)}"
proof -
  from assms(1-3) obtain ms0 where "collect_all sc io (walk (sc_root sc) fs) = Inr ms0" "ms = sort_key lm_path ms0"
    by (auto simp: ListLocal_def Lstat_def split: sum.splits)
  then have sorted: "sorted (map lm_path ms)"
    and mem: "\<And>m. m \<in> set ms \<longleftrightarrow> (\<exists>e\<in>set (walk (sc_root sc) fs). model_of sc e m)"
    using collect_all_set [of sc io "walk (sc_root sc) fs" ms0] by simp_all
  have "set (walk (sc_root sc) fs) = {e \<in> set fs. under (sc_root sc) (fst e)}"
    using assms(2) by (simp add: walk_def)
  then have "m \<in> set ms \<longleftrightarrow> (\<exists>e. e \<in> set fs \<and> under (sc_root sc) (fst e) \<and> model_of sc e m)" for m
    unfolding mem by blast
  with sorted show ?thesis by (fastforce simp: model_of_def)
qed

definition ex_models :: fs where
  "ex_models = [(''/s'', NDir), (''/s/b.gguf'', NFile ''bb'' 384), (''/s/a.gguf'', NFile ''a'' 384),
     (''/s/n.txt'', NFile ''x'' 384), (''/s/l.gguf'', NLink ''/etc/passwd'')]"

theorem ListLocal_exact_witness:
  "case ListLocal (NewScanner ''/s'' (\<lambda>n. has_suffix n ''.gguf'')) calm_env ex_models of
     Inl e \<Rightarrow> False | Inr ms \<Rightarrow> map lm_path ms = [''/s/a.gguf'', ''/s/b.gguf''] \<and> sorted (map lm_path ms)"
proof -
  let ?sc = "NewScanner ''/s'' (\<lambda>n. has_suffix n ''.gguf'')"
  have e: "case ListLocal ?sc calm_env ex_models of
      Inl e \<Rightarrow> False | Inr ms \<Rightarrow> map lm_path ms = [''/s/a.gguf'', ''/s/b.gguf'']" by code_simp
  have "sc_root ?sc = ''/s''" by code_simp
  then have "map_of ex_models (sc_root ?sc) = Some NDir" "io_fail calm_env (OpLstat (sc_root ?sc)) = None"
    by (simp_all add: ex_models_def calm_env_def)
  with ListLocal_exact [of ?sc calm_env ex_models] e show ?thesis by (auto split: sum.splits)
qed

lemma PathContains_strict:
  assumes "rooted r" and "Clean r = r" and "Clean t = t" and "PathContains r t" and "t \<noteq> r"
  shows "\<exists>rest. rest \<noteq> [] \<and> elems t = elems r @ rest \<and> rooted t"
proof -
  have "rooted t" using assms by (auto simp: PathContains_def Rel_def Clean_eq_iff split: if_splits)
  moreover obtain ts where ts: "elems t = elems r @ ts" using calculation assms PathContains_iff by blast
  moreover have "ts \<noteq> []"
  proof
    assume "ts = []"
    with ts have "Clean t = Clean r" using \<open>rooted t\<close> assms(1) by (simp add: Clean_eq_iff)
    with assms(2,3,5) show False by simp
  qed
  ultimately show ?thesis by blast
qed

lemma Clean_CanonicalPath [simp]: "Clean (CanonicalPath fs p) = CanonicalPath fs p"
  by (simp add: CanonicalPath_def split: option.splits)

text \<open>
  a removal stays below the storage root. Whatever path is given, with links or dot-dot elements,
  a removal only takes away what lies at or under one path strictly below the canonical root; the
  root, everything outside and every other file keep their contents, also when a call fails.
\<close>

theorem RemoveLocal_contained:
  assumes "RemoveLocal io root target directory fs = (e, fs')" and "rooted (CanonicalPath fs root)"
    and "map_of fs' q \<noteq> map_of fs q"
  shows "under (CanonicalPath fs target) q \<and> map_of fs' q = None \<and>
    (\<exists>rest. rest \<noteq> [] \<and> elems (CanonicalPath fs target) = elems (CanonicalPath fs root) @ rest)"
proof -
  let ?r = "CanonicalPath fs root" and ?t = "CanonicalPath fs target"
  have pc: "?t \<noteq> ?r" "PathContains ?r ?t" and
    rm: "RemoveAll io ?t fs = (e, fs') \<or> Remove io ?t fs = (e, fs')"
    using assms(1,3) by (auto simp: RemoveLocal_def Let_def split: if_splits sum.splits)
  have "under ?t q \<and> map_of fs' q = None"
    using rm assms(3) map_of_filter_keys [of "\<lambda>p. \<not> under ?t p" fs q]
    by (auto simp: RemoveAll_def Remove_def under_def split: option.splits if_splits)
  with PathContains_strict [OF assms(2) _ _ pc(2,1)] show ?thesis by auto
qed


theorem RemoveLocal_contained_witness:
  "map_of (snd (RemoveLocal calm_env ''/s'' ''/s/../s/a.gguf'' False ex_models)) ''/s/a.gguf'' = None \<and>
   (\<exists>rest. elems ''/s/a.gguf'' = elems ''/s'' @ rest)"
proof -
  obtain e fs' where x: "RemoveLocal calm_env ''/s'' ''/s/../s/a.gguf'' False ex_models = (e, fs')" by (metis surj_pair)
  have "map_of (snd (RemoveLocal calm_env ''/s'' ''/s/../s/a.gguf'' False ex_models)) ''/s/a.gguf'' = None"
    "map_of ex_models ''/s/a.gguf'' \<noteq> None" by code_simp+
  with x have d: "map_of fs' ''/s/a.gguf'' = None" "map_of fs' ''/s/a.gguf'' \<noteq> map_of ex_models ''/s/a.gguf''" by auto
  have c: "CanonicalPath ex_models ''/s'' = ''/s''" "CanonicalPath ex_models ''/s/../s/a.gguf'' = ''/s/a.gguf''"
    by code_simp+
  have "rooted (CanonicalPath ex_models ''/s'')" unfolding c by code_simp
  from RemoveLocal_contained [OF x this d(2)] c x d show ?thesis by auto
qed

end
