(* ===== verification/Operations.thy ===== *)
theory Operations
  imports Manager LocalModels
begin

text \<open>
  The operations composed from the handlers: \<^verbatim>\<open>core/control/operations.go\<close>, \<^verbatim>\<open>core/control/localmodels.go\<close> and
  \<^verbatim>\<open>core/control/autostart.go\<close>. \<^verbatim>\<open>profiles.MergeYAML\<close> prints and parses YAML around the merge of theory
  \<open>Yaml\<close>; here it is the parameter \<open>merge_yaml\<close>. Sorting a list of names is \<^verbatim>\<open>sort.Strings\<close>.
\<close>

section \<open>Restarting\<close>

definition RestartRuntime ::
    "deps \<Rightarrow> answers \<Rightarrow> string \<Rightarrow> world \<Rightarrow> (gerr option \<times> (command_result \<times> command_result) option) \<times> world" where
  "RestartRuntime e an name w =
     (case StopRuntime e an name w of
        ((Some er, r), w1) \<Rightarrow> ((Some er, None), recording ''runtime.restart'' (Some er) w1)
      | ((None, down), w1) \<Rightarrow>
          (case StartRuntime e an name False w1 of
             ((er, up), w2) \<Rightarrow> ((er, Some (down, up)), recording ''runtime.restart'' er w2)))"

section \<open>Applying a download\<close>

text \<open>The document and the YAML to write, or the error.\<close>

definition planDownloadApply ::
    "deps \<Rightarrow> (string \<Rightarrow> profile \<Rightarrow> gerr + string) \<Rightarrow> io_env \<Rightarrow> string \<Rightarrow> string \<Rightarrow> world \<Rightarrow> gerr + (profile_doc \<times> string)" where
  "planDownloadApply e merge_yaml io name jid w =
     (case GetDownload e jid w of
        Inl er \<Rightarrow> Inl er
      | Inr job \<Rightarrow>
          if j_state job \<noteq> StateCompleted \<and> j_state job \<noteq> StateAlreadyDownloaded
          then Inl (Errorf ErrorConflict ''download %q is %s'' [Str jid, Str (job_state_text (j_state job))])
          else case profileBackend e io name w of
              Inl er \<Rightarrow> Inl er
            | Inr (doc, b) \<Rightarrow>
                if j_profile job \<noteq> [] \<and> j_profile job \<noteq> name
                then Inl (Errorf ErrorConflict ''download %q does not belong to profile %q'' [Str jid, Str name])
                else if j_backend job \<noteq> b_name b \<or> j_multi_file job \<noteq> cap_multi_file (b_caps b)
                then Inl (Errorf ErrorConflict
                       ''download %q was fetched for backend %q, which profile %q does not use''
                       [Str jid, Str (j_backend job), Str name])
                else (case merge_yaml (d_yaml doc)
                             ((d_parsed doc)\<lparr>p_model := \<lparr>ms_source = j_target job, ms_reference = []\<rparr>\<rparr>) of
                    Inl er \<Rightarrow> Inl (core_wrap ErrorRuntime er)
                  | Inr data \<Rightarrow> Inr (doc, data)))"

definition ApplyDownloadToProfile ::
    "deps \<Rightarrow> (string \<Rightarrow> profile \<Rightarrow> gerr + string) \<Rightarrow> answers \<Rightarrow> string \<Rightarrow> string \<Rightarrow> world \<Rightarrow>
     (profile_doc option \<times> gerr option) \<times> world" where
  "ApplyDownloadToProfile e merge_yaml an name jid w =
     (case planDownloadApply e merge_yaml (an_io an) name jid w of
        Inl er \<Rightarrow> ((None, Some er), recording ''download.apply'' (Some er) w)
      | Inr (_, updated) \<Rightarrow>
          (case PutProfile e an name updated False w of
             ((doc, er), w1) \<Rightarrow> ((doc, er), recording ''download.apply'' er w1)))"

definition PreviewDownloadApply ::
    "deps \<Rightarrow> (string \<Rightarrow> profile \<Rightarrow> gerr + string) \<Rightarrow> io_env \<Rightarrow> string \<Rightarrow> string \<Rightarrow> world \<Rightarrow> gerr + (string \<times> string)" where
  "PreviewDownloadApply e merge_yaml io name jid w =
     (case planDownloadApply e merge_yaml io name jid w of
        Inl er \<Rightarrow> Inl er | Inr (doc, updated) \<Rightarrow> Inr (d_yaml doc, updated))"

section \<open>Cleaning up\<close>

fun unshared :: "deps \<Rightarrow> io_env \<Rightarrow> string \<Rightarrow> string \<Rightarrow> world \<Rightarrow> profile_summary list \<Rightarrow> gerr option" where
  "unshared e io name target w [] = None"
| "unshared e io name target w (item # items) =
     (if sm_name item = name then unshared e io name target w items
      else case ResolveProfileModel e io (sm_name item) w of
          Inl er \<Rightarrow> Some (Errorf ErrorConflict ''cannot verify whether profile %q shares this local model: %v''
                      [Str (sm_name item), error_text er])
        | Inr (_, plan) \<Rightarrow>
            if ap_target_root plan = target
            then Some (Errorf ErrorConflict ''local model is also referenced by profile %q'' [Str (sm_name item)])
            else unshared e io name target w items)"

definition requireUnsharedTarget :: "deps \<Rightarrow> io_env \<Rightarrow> string \<Rightarrow> string \<Rightarrow> world \<Rightarrow> gerr option" where
  "requireUnsharedTarget e io name target w =
     (case ListProfiles e io w of Inl er \<Rightarrow> Some er | Inr items \<Rightarrow> unshared e io name target w items)"

definition cleanup_profile :: "deps \<Rightarrow> answers \<Rightarrow> string \<Rightarrow> world \<Rightarrow> gerr option \<times> world" where
  "cleanup_profile e an name w =
     (let io = an_io an
      in case profileBackend e io name w of
           Inl er \<Rightarrow> (Some er, w)
         | Inr (_, b) \<Rightarrow>
             (case ResolveProfileModel e io name w of
                Inl er \<Rightarrow> (Some er, w)
              | Inr (_, plan) \<Rightarrow>
                  (case requireUnsharedTarget e io name (ap_target_root plan) w of
                     Some er \<Rightarrow> (Some er, w)
                   | None \<Rightarrow>
                       (case DeleteProfile e an name w of
                          (Some er, w1) \<Rightarrow> (Some er, w1)
                        | (None, w1) \<Rightarrow>
                            (case b_delete_local b io (ap_target_root plan) (w_fs w1) of
                               (Some er, fs) \<Rightarrow>
                                 if errors_is er ErrNotExist then (None, set_fs fs w1)
                                 else (Some (CoreError ErrorRuntime
                                        (Fmt ''profile removed but local model cleanup failed'' []) (Some er)),
                                       set_fs fs w1)
                             | (None, fs) \<Rightarrow> (None, set_fs fs w1))))))"

definition CleanupProfile :: "deps \<Rightarrow> answers \<Rightarrow> string \<Rightarrow> world \<Rightarrow> gerr option \<times> world" where
  "CleanupProfile e an name w =
     (case cleanup_profile e an name w of (er, w') \<Rightarrow> (er, recording ''profile.cleanup'' er w'))"

section \<open>Autostart\<close>

text \<open>\<open>first\<close> is the backend of the first profile with its address, once there is one.\<close>

fun validate_each ::
    "deps \<Rightarrow> io_env \<Rightarrow> world \<Rightarrow> bool \<Rightarrow> (backend \<times> string) option \<Rightarrow> string list \<Rightarrow> gerr + (backend \<times> string) option" where
  "validate_each e io w many first [] = Inr first"
| "validate_each e io w many first (name # names) =
     (case profileBackend e io name w of
        Inl er \<Rightarrow> Inl (Errorf ErrorInvalidInput ''autostart profile %q is invalid: %v'' [Str name, error_text er])
      | Inr (doc, b) \<Rightarrow>
          (let l = p_listen (d_effective doc);
               addr = JoinHostPort (ls_host l) (itoa_int (ls_port l));
               chosen = (case first of None \<Rightarrow> (b, addr) | Some f \<Rightarrow> f)
           in if b_name b \<noteq> b_name (fst chosen)
              then Inl (Errorf ErrorInvalidInput ''autostart profiles must use one backend; %q uses %q, not %q''
                     [Str name, Str (b_name b), Str (b_name (fst chosen))])
              else if many \<and> \<not> cap_single_active (b_caps (fst chosen)) \<and> addr \<noteq> snd chosen
              then Inl (Errorf ErrorInvalidInput
                     ''router autostart profiles must share one listen address; %q uses %s, not %s''
                     [Str name, Str addr, Str (snd chosen)])
              else validate_each e io w many (Some chosen) names))"

definition ValidateAutostart :: "deps \<Rightarrow> io_env \<Rightarrow> string list \<Rightarrow> world \<Rightarrow> gerr option" where
  "ValidateAutostart e io names w =
     (case validate_each e io w (length names > 1) None names of
        Inl er \<Rightarrow> Some er
      | Inr None \<Rightarrow> None
      | Inr (Some (b, _)) \<Rightarrow>
          if cap_single_active (b_caps b) \<and> length names > 1
          then Some (Errorf ErrorInvalidInput ''backend %q is single-active; configure only one autostart profile''
                 [Str (b_name b)])
          else None)"

definition autostartAttempts :: nat where
  "autostartAttempts = 3"

definition recordAutostart :: "string \<Rightarrow> msg \<Rightarrow> gerr option \<Rightarrow> world \<Rightarrow> world" where
  "recordAutostart name detail er w =
     on_mgr (record_audit ((core_event ''runtime.autostart'' er)\<lparr>ae_profile := name, ae_detail := detail\<rparr>)) w"

text \<open>
  The retry loop: \<open>left\<close> attempts remain, each with its own answers. The result is the last error, the number
  of attempts made, and whether the context ended during a backoff.
\<close>

fun start_attempts ::
    "deps \<Rightarrow> (nat \<Rightarrow> answers) \<Rightarrow> (nat \<Rightarrow> gerr option) \<Rightarrow> string \<Rightarrow> nat \<Rightarrow> nat \<Rightarrow> world \<Rightarrow>
     (gerr option \<times> nat \<times> gerr option) \<times> world" where
  "start_attempts e an cancelled name made 0 w = ((None, made, None), w)"
| "start_attempts e an cancelled name made (Suc left) w =
     (case StartRuntime e (an made) name False w of
        ((None, r), w1) \<Rightarrow> ((None, Suc made, None), w1)
      | ((Some er, r), w1) \<Rightarrow>
          if left = 0 then ((Some er, Suc made, None), w1)
          else (case cancelled made of
              Some c \<Rightarrow> ((Some er, Suc made, Some c), w1)
            | None \<Rightarrow> start_attempts e an cancelled name (Suc made) left w1))"

definition autostartProfile ::
    "deps \<Rightarrow> io_env \<Rightarrow> (nat \<Rightarrow> answers) \<Rightarrow> (nat \<Rightarrow> gerr option) \<Rightarrow> gerr option \<Rightarrow> string \<Rightarrow> nat \<Rightarrow> world \<Rightarrow>
     gerr option \<times> world" where
  "autostartProfile e io an cancelled ctx name attempts w =
     (case RuntimeStatus e io name w of
        (Inl er, w1) \<Rightarrow> (ctx, recordAutostart name (Fmt ''status failed: %v'' [error_text er]) (Some er) w1)
      | (Inr status, w1) \<Rightarrow>
          if rs_state status = Running
          then (None, recordAutostart name (Fmt ''already running after reconciliation'' []) None w1)
          else
            (case start_attempts e an cancelled name 0 attempts w1 of
               ((er, made, Some c), w2) \<Rightarrow> (Some c, w2)
             | ((er, made, None), w2) \<Rightarrow>
                 (None, recordAutostart name
                    (case er of
                       None \<Rightarrow> Fmt ''started after %d attempt(s)'' [Str (itoa made)]
                     | Some x \<Rightarrow> Fmt ''failed after %d attempt(s): %v'' [Str (itoa made), error_text x])
                    er w2)))"

fun autostart_each ::
    "deps \<Rightarrow> io_env \<Rightarrow> (string \<Rightarrow> nat \<Rightarrow> answers) \<Rightarrow> (string \<Rightarrow> nat \<Rightarrow> gerr option) \<Rightarrow> (string \<Rightarrow> gerr option) \<Rightarrow>
     nat \<Rightarrow> string list \<Rightarrow> world \<Rightarrow> gerr option \<times> world" where
  "autostart_each e io an cancelled ctx attempts [] w = (None, w)"
| "autostart_each e io an cancelled ctx attempts (name # names) w =
     (case autostartProfile e io (an name) (cancelled name) (ctx name) name attempts w of
        (Some er, w1) \<Rightarrow> (Some er, w1)
      | (None, w1) \<Rightarrow> autostart_each e io an cancelled ctx attempts names w1)"

definition AutostartProfiles ::
    "deps \<Rightarrow> io_env \<Rightarrow> (string \<Rightarrow> nat \<Rightarrow> answers) \<Rightarrow> (string \<Rightarrow> nat \<Rightarrow> gerr option) \<Rightarrow> (string \<Rightarrow> gerr option) \<Rightarrow>
     string list \<Rightarrow> world \<Rightarrow> gerr option \<times> world" where
  "AutostartProfiles e io an cancelled ctx names w =
     autostart_each e io an cancelled ctx autostartAttempts (sort names) w"

definition mgr_SetProfileAutostart ::
    "deps \<Rightarrow> io_env \<Rightarrow> string \<Rightarrow> bool \<Rightarrow> world \<Rightarrow> (gerr + write_result) \<times> world" where
  "mgr_SetProfileAutostart e io name enabled w =
     (case e_config e of
        None \<Rightarrow> (Inl (Errorf ErrorInvalidInput ''config store is not configured'' []), w)
      | Some cs \<Rightarrow>
          (let check =
             (if \<not> enabled then None
              else case GetProfile e io name w of
                  Inl er \<Rightarrow> Some er
                | Inr _ \<Rightarrow>
                    (case cs_Read cs io (w_fs w) of
                       Inl er \<Rightarrow> Some (mapConfigError er)
                     | Inr cfg \<Rightarrow>
                         ValidateAutostart e io
                           (if name \<in> set (c_autostart cfg) then c_autostart cfg else c_autostart cfg @ [name]) w))
           in case check of
                Some er \<Rightarrow> (Inl er, w)
              | None \<Rightarrow>
                  (case SetProfileAutostart cs io name enabled (w_fs w) of
                     (Inl er, fs) \<Rightarrow> (Inl (mapConfigError er), set_fs fs w)
                   | (Inr r, fs) \<Rightarrow> (Inr r, set_fs fs w))))"

definition mgr_SetStartupServices ::
    "deps \<Rightarrow> io_env \<Rightarrow> string list \<Rightarrow> world \<Rightarrow> (gerr + write_result) \<times> world" where
  "mgr_SetStartupServices e io services w =
     (case e_config e of
        None \<Rightarrow> (Inl (Errorf ErrorInvalidInput ''config store is not configured'' []), w)
      | Some cs \<Rightarrow>
          (case ValidateStartupServices services of
             Some er \<Rightarrow> (Inl (Errorf ErrorInvalidInput ''%v'' [error_text er]), w)
           | None \<Rightarrow>
               (case SetStartupServices cs io services (w_fs w) of
                  (Inl er, fs) \<Rightarrow> (Inl (mapConfigError er), set_fs fs w)
                | (Inr r, fs) \<Rightarrow> (Inr r, set_fs fs w))))"

section \<open>Information\<close>

record info =
  if_profiles :: nat
  if_backends :: nat
  if_running :: "string list"
  if_autostart :: "string list"
  if_services :: "string list"
  if_active :: string

definition GetInfo :: "deps \<Rightarrow> io_env \<Rightarrow> world \<Rightarrow> gerr + info" where
  "GetInfo e io w =
     (case ListProfiles e io w of
        Inl er \<Rightarrow> Inl er
      | Inr items \<Rightarrow>
          (let cfg = (case e_config e of
                        None \<Rightarrow> None
                      | Some cs \<Rightarrow> (case cs_Read cs io (w_fs w) of Inl er \<Rightarrow> None | Inr c \<Rightarrow> Some c));
               slot = m_slot (w_mgr w)
           in Inr \<lparr>if_profiles = length items, if_backends = length (Names (e_registry e)),
                   if_running = (case slot of None \<Rightarrow> [] | Some s \<Rightarrow> sort (s_profiles s)),
                   if_autostart = (case cfg of None \<Rightarrow> [] | Some c \<Rightarrow> c_autostart c),
                   if_services = (case cfg of None \<Rightarrow> [] | Some c \<Rightarrow> (case c_startup c of None \<Rightarrow> [] | Some l \<Rightarrow> l)),
                   if_active = (case slot of None \<Rightarrow> [] | Some s \<Rightarrow> s_backend s)\<rparr>))"

definition GetBackendParams :: "deps \<Rightarrow> string \<Rightarrow> gerr + parameter list" where
  "GetBackendParams e name =
     (case mgr_Backend (e_registry e) name of
        Inl er \<Rightarrow> Inl er
      | Inr b \<Rightarrow>
          if \<not> cap_parameter_introspection (b_caps b)
          then Inl (Errorf ErrorInvalidInput ''backend %q does not support parameter introspection'' [Str name])
          else (case b_params b of
              None \<Rightarrow> Inl (Errorf ErrorRuntime ''backend %q advertised parameter introspection without an adapter'' [Str name])
            | Some (Inl er) \<Rightarrow> Inl (core_wrap ErrorRuntime er)
            | Some (Inr ps) \<Rightarrow> Inr ps))"

section \<open>Local models\<close>

definition referencesModel :: "string \<Rightarrow> string \<Rightarrow> bool" where
  "referencesModel source path \<longleftrightarrow>
     source \<noteq> [] \<and> (Clean source = Clean path \<or> has_prefix (Clean path) (Clean source @ ''/''))"

definition profileReferencesModel :: "profile \<Rightarrow> string \<Rightarrow> bool" where
  "profileReferencesModel p path \<longleftrightarrow>
     referencesModel (ms_source (p_model p)) path \<or>
     list_ex (\<lambda>(k, v). case v of YStr s \<Rightarrow> referencesModel s path | _ \<Rightarrow> False) (p_engine_args p)"

definition downloadTarget :: "deps \<Rightarrow> profile \<Rightarrow> string" where
  "downloadTarget e p =
     (case mgr_Backend (e_registry e) (p_backend p) of
        Inl er \<Rightarrow> []
      | Inr b \<Rightarrow>
          if cap_multi_file (b_caps b) then []
          else (case b_resolve b p of
              Inl er \<Rightarrow> []
            | Inr model \<Rightarrow> (case b_plan b model of Inl er \<Rightarrow> [] | Inr plan \<Rightarrow> ap_target_root plan)))"

definition uses_model :: "deps \<Rightarrow> string \<Rightarrow> profile_doc \<Rightarrow> bool" where
  "uses_model e path doc \<longleftrightarrow>
     profileReferencesModel (d_effective doc) path \<or> referencesModel (downloadTarget e (d_effective doc)) path"

definition ProfilesUsingModel :: "deps \<Rightarrow> io_env \<Rightarrow> string \<Rightarrow> world \<Rightarrow> gerr + string list" where
  "ProfilesUsingModel e io path w =
     (if path = [] then Inr []
      else case ListProfileDocuments e io w of
          Inl er \<Rightarrow> Inl er
        | Inr docs \<Rightarrow> Inr (sort (map d_name (filter (uses_model e path) docs))))"

definition DeleteLocalModel :: "deps \<Rightarrow> io_env \<Rightarrow> string \<Rightarrow> string \<Rightarrow> world \<Rightarrow> gerr option \<times> world" where
  "DeleteLocalModel e io backend_name path w =
     (let (er, w') =
        (if path = [] then (Some (Errorf ErrorInvalidInput ''local model path is required'' []), w)
         else case mgr_Backend (e_registry e) backend_name of
             Inl er \<Rightarrow> (Some er, w)
           | Inr b \<Rightarrow>
               (case b_delete_local b io path (w_fs w) of
                  (er, fs) \<Rightarrow> (map_option (core_wrap ErrorInvalidInput) er, set_fs fs w)))
      in (er, recording ''model.delete'' er w'))"

fun delete_each :: "deps \<Rightarrow> answers \<Rightarrow> string list \<Rightarrow> world \<Rightarrow> (string list \<times> gerr option) \<times> world" where
  "delete_each e an [] w = (([], None), w)"
| "delete_each e an (name # names) w =
     (case DeleteProfile e an name w of
        (Some er, w1) \<Rightarrow> (([], Some er), w1)
      | (None, w1) \<Rightarrow> (case delete_each e an names w1 of ((removed, er), w2) \<Rightarrow> ((name # removed, er), w2)))"

definition DeleteLocalModelCascade ::
    "deps \<Rightarrow> answers \<Rightarrow> string \<Rightarrow> string \<Rightarrow> bool \<Rightarrow> world \<Rightarrow> (string list \<times> gerr option) \<times> world" where
  "DeleteLocalModelCascade e an backend_name path cascade w =
     (case ProfilesUsingModel e (an_io an) path w of
        Inl er \<Rightarrow> (([], Some er), w)
      | Inr used \<Rightarrow>
          if used \<noteq> [] \<and> \<not> cascade
          then ((used, Some (Errorf ErrorConflict ''local model is used by %s; pass cascade to remove them too''
                  [Str (join_with '', '' used)])), w)
          else (case DeleteLocalModel e (an_io an) backend_name path w of
              (Some er, w1) \<Rightarrow> (([], Some er), w1)
            | (None, w1) \<Rightarrow> delete_each e an used w1))"

definition add_source :: "deps \<Rightarrow> io_env \<Rightarrow> string \<Rightarrow> fs \<Rightarrow> profile_doc \<Rightarrow> local_model list \<Rightarrow> local_model list" where
  "add_source e io backend_name fs doc models =
     (let path = Clean (ExpandHome (e_home e) (ms_source (p_model (d_effective doc))))
      in if p_backend (d_effective doc) \<noteq> backend_name \<or> path \<in> set (map lm_path models) then models
         else case Stat io path fs of
             Inr (NFile data m) \<Rightarrow>
               models @ [\<lparr>lm_path = path, lm_filename = Base path, lm_size = length data\<rparr>]
           | _ \<Rightarrow> models)"

text \<open>An error of the listing is returned along with the models found.\<close>

definition withProfileSources ::
    "deps \<Rightarrow> io_env \<Rightarrow> string \<Rightarrow> local_model list \<Rightarrow> world \<Rightarrow> local_model list \<times> gerr option" where
  "withProfileSources e io backend_name models w =
     (case ListProfileDocuments e io w of
        Inl er \<Rightarrow> (sort_key lm_path models, Some er)
      | Inr docs \<Rightarrow> (sort_key lm_path (fold (add_source e io backend_name (w_fs w)) docs models), None))"

definition ListLocalModels :: "deps \<Rightarrow> io_env \<Rightarrow> string \<Rightarrow> world \<Rightarrow> local_model list \<times> gerr option" where
  "ListLocalModels e io backend_name w =
     (case mgr_Backend (e_registry e) backend_name of
        Inl er \<Rightarrow> ([], Some er)
      | Inr b \<Rightarrow>
          (case b_list_local b io (w_fs w) of
             Inl er \<Rightarrow> ([], Some (core_wrap ErrorRuntime er))
           | Inr models \<Rightarrow> withProfileSources e io backend_name models w))"

end
