(* ===== verification/Active.thy ===== *)
theory Active
  imports Operations
begin

text \<open>
  The abstract specification of the control plane's runtime, and the refinement: a daemon is idle, serves
  profiles of one backend, or is stuck on a backend whose engine may have survived a failed stop.
  \<open>act_step\<close> says which of these changes a request may cause; every handler of theories \<open>Manager\<close> and
  \<open>Operations\<close> performs one of them, whatever the machine, the backend and the file system answer.
\<close>

section \<open>The specification\<close>

datatype active = Idle | Serving string "string list" | Stuck string

datatype request = RStart string string bool | RStop string string | RReset | RReload string

definition without :: "string \<Rightarrow> string \<Rightarrow> string list \<Rightarrow> active" where
  "without b n ps = (let qs = filter (\<lambda>p. p \<noteq> n) ps in if qs = [] then Idle else Serving b qs)"

inductive act_step :: "request \<Rightarrow> active \<Rightarrow> active \<Rightarrow> bool" where
  refused: "act_step q a a"
| begins: "act_step (RStart b n r) Idle (Serving b [n])"
| joins: "act_step (RStart b n r) (Serving b ps) (Serving b (if n \<in> set ps then ps else ps @ [n]))"
| replaces: "act_step (RStart b n True) (Serving b ps) (Serving b [n])"
| replace_lost: "act_step (RStart b n True) (Serving b ps) Idle"
| replace_stuck: "act_step (RStart b n True) (Serving b ps) (Stuck b)"
| stops: "n \<in> set ps \<Longrightarrow> act_step (RStop b n) (Serving b ps) (without b n ps)"
| stop_stuck: "n \<in> set ps \<Longrightarrow> length ps = 1 \<Longrightarrow> act_step (RStop b n) (Serving b ps) (Stuck b)"
| resets: "act_step RReset a Idle"
| reset_stuck: "act_step RReset (Serving b ps) (Stuck b)"
| reload_lost: "act_step (RReload b) (Serving b ps) Idle"
| reload_stuck: "act_step (RReload b) (Serving b ps) (Stuck b)"

definition backend_of :: "active \<Rightarrow> string option" where
  "backend_of a = (case a of Idle \<Rightarrow> None | Serving b ps \<Rightarrow> Some b | Stuck b \<Rightarrow> Some b)"

lemma without_served: "without b n ps = Serving b' qs \<Longrightarrow> n \<notin> set qs"
  by (auto simp: without_def Let_def split: if_splits)

text \<open>The abstract machine never goes from one backend to another without being idle in between.\<close>

lemma act_step_backend: "act_step q a a' \<Longrightarrow> backend_of a = Some b \<Longrightarrow> backend_of a' = Some b \<or> a' = Idle"
  by (induction rule: act_step.induct) (auto simp: backend_of_def without_def Let_def)

section \<open>The abstraction\<close>

definition slot_active :: "slot option \<Rightarrow> active" where
  "slot_active so =
     (case so of
        None \<Rightarrow> Idle
      | Some s \<Rightarrow> if s_state s = Running then Serving (s_backend s) (s_profiles s) else Stuck (s_backend s))"

definition act :: "world \<Rightarrow> active" where
  "act w = slot_active (m_slot (w_mgr w))"

text \<open>Between two handlers no operation owns the slot.\<close>

definition quiet :: "mgr \<Rightarrow> bool" where
  "quiet m \<longleftrightarrow> mgr_inv m \<and> (\<forall>s. m_slot m = Some s \<longrightarrow> s_op s = [])"

definition at_rest :: "world \<Rightarrow> bool" where
  "at_rest w \<longleftrightarrow> quiet (w_mgr w)"

section \<open>What the handlers leave alone\<close>

named_theorems w_simps

lemma w_mgr_frame [simp, w_simps]:
  "w_mgr (set_fs fs w) = w_mgr w" "w_mgr (snd (factory spec w)) = w_mgr w"
  "w_mgr (snd (proc_start oc h w)) = w_mgr w" "w_mgr (snd (proc_stop oc h w)) = w_mgr w"
  "w_mgr (snd (proc_recover oc h w)) = w_mgr w" "w_mgr (snd (proc_status io h w)) = w_mgr w"
  "w_mgr (on_mgr f w) = f (w_mgr w)"
  by (simp_all add: set_fs_def factory_def proc_start_def proc_stop_def proc_recover_def proc_status_def
      on_mgr_def split_beta)

lemma w_mgr_calls:
  "factory spec w = (h, w') \<Longrightarrow> w_mgr w' = w_mgr w"
  "proc_start oc h w = (r, w') \<Longrightarrow> w_mgr w' = w_mgr w"
  "proc_stop oc h w = (r, w') \<Longrightarrow> w_mgr w' = w_mgr w"
  using w_mgr_frame(2) [of spec w] w_mgr_frame(3) [of oc h w] w_mgr_frame(4) [of oc h w] by auto

text \<open>Importing and rendering change nothing but files.\<close>

definition files_only :: "world \<Rightarrow> world \<Rightarrow> bool" where
  "files_only w w' \<longleftrightarrow> (\<exists>fs. w' = set_fs fs w)"

lemma set_fs_set_fs [simp]: "set_fs fs (set_fs fs' w) = set_fs fs w"
  by (simp add: set_fs_def)

lemma files_only_refl [simp]: "files_only w w"
  unfolding files_only_def by (rule exI [of _ "w_fs w"]) (simp add: set_fs_def w_fs_def)

lemma files_only_set_fs [simp]: "files_only w (set_fs fs w)"
  by (auto simp: files_only_def)

lemma files_only_trans: "files_only w v \<Longrightarrow> files_only v w' \<Longrightarrow> files_only w w'"
  by (auto simp: files_only_def)

lemma files_only_mgr: "files_only w w' \<Longrightarrow> w_mgr w' = w_mgr w"
  by (auto simp: files_only_def)

lemma files_adopt: "files_only w (snd (adopt_each e io l w))"
proof (induction e io l w rule: adopt_each.induct)
  case (2 e io name yaml rest w)
  obtain r fs where r: "ps_Replace (e_store e) io name yaml (w_fs w) = (r, fs)" by (metis surj_pair)
  have "files_only (set_fs fs w) (snd (adopt_each e io rest (set_fs fs w)))" using 2 r by (cases r) auto
  then have "files_only w (snd (adopt_each e io rest (set_fs fs w)))" by (rule files_only_trans [OF files_only_set_fs])
  then show ?case by (simp add: r split: sum.split)
qed simp

lemma files_import: "files_only w (snd (importGenerated e io b w))"
  using files_adopt by (simp add: importGenerated_def split: option.splits sum.splits)

lemma files_render: "files_only w (snd (render e io b p w))"
  by (simp add: render_def split: sum.splits prod.splits option.splits)

lemma m_slot_recording [simp]: "m_slot (w_mgr (recording a er w)) = m_slot (w_mgr w)"
  by (simp add: recording_def)

lemma act_recording [simp]: "act (recording a er w) = act w"
  by (simp add: act_def)

lemma at_rest_recording [simp]: "at_rest (recording a er w) = at_rest w"
  by (simp add: at_rest_def quiet_def recording_def)

lemma act_mgr: "w_mgr w' = w_mgr w \<Longrightarrow> act w' = act w" "w_mgr w' = w_mgr w \<Longrightarrow> at_rest w' = at_rest w"
  by (simp_all add: act_def at_rest_def)

section \<open>Starting\<close>

text \<open>A start that has reserved the slot ends in one of three ways.\<close>

lemma run_start_mgr:
  assumes "run_start an b p spec plan w = ((er, r), w')"
  obtains (stop_failed) x m1 where "spl_stop plan \<noteq> None" "er = Some x"
      "w_mgr w' = fail_op (spl_op plan) x True m1" "m_slot m1 = m_slot (w_mgr w)" "m_ops m1 = m_ops (w_mgr w)"
  | (start_failed) x m1 where "spl_spawn plan" "er = Some x"
      "w_mgr w' = fail_op (spl_op plan) x False m1" "m_slot m1 = m_slot (w_mgr w)" "m_ops m1 = m_ops (w_mgr w)"
  | (committed) ho m1 where "er = None" "spl_spawn plan \<longleftrightarrow> ho \<noteq> None"
      "w_mgr w' = commitStart (spl_op plan) ho m1" "m_slot m1 = m_slot (w_mgr w)" "m_ops m1 = m_ops (w_mgr w)"
proof -
  let ?w1 = "case spl_stop plan of None \<Rightarrow> (None, w)
     | Some h \<Rightarrow> (case proc_stop (an_stop an) h (on_mgr (transition (spl_op plan) Stopping None) w) of
          ((se, r), w') \<Rightarrow> (map_option mapRuntimeError se, w'))"
  obtain se w1 where s: "?w1 = (se, w1)" by (metis surj_pair)
  then have m1: "m_slot (w_mgr w1) = m_slot (w_mgr w) \<and> m_ops (w_mgr w1) = m_ops (w_mgr w)"
    by (auto dest: w_mgr_calls split: option.splits prod.splits)
  show ?thesis
  proof (cases se)
    case (Some x)
    with assms s have "er = Some x" "w' = fail (spl_op plan) x True w1" by (simp_all add: run_start_def Let_def)
    moreover have "spl_stop plan \<noteq> None" using s Some by (auto split: option.splits)
    ultimately show ?thesis using stop_failed [of x "w_mgr w1"] m1 by (simp add: fail_def)
  next
    case None
    show ?thesis
    proof (cases "spl_spawn plan")
      case False
      with assms s None have "er = None"
        "w' = on_mgr (commitStart (spl_op plan) None) (on_mgr (transition (spl_op plan) Activating None) w1)"
        by (simp_all add: run_start_def Let_def)
      then show ?thesis using committed [of None "transition (spl_op plan) Activating None (w_mgr w1)"] False m1 by simp
    next
      case True
      obtain h w2 where f: "factory spec (on_mgr (transition (spl_op plan) Starting None) w1) = (h, w2)" by (metis surj_pair)
      obtain se2 r2 w3 where st: "proc_start (an_start an) h w2 = ((se2, r2), w3)" by (metis surj_pair)
      have m3: "m_slot (w_mgr w3) = m_slot (w_mgr w) \<and> m_ops (w_mgr w3) = m_ops (w_mgr w)"
        using w_mgr_calls(1) [OF f] w_mgr_calls(2) [OF st] m1 by simp
      show ?thesis
      proof (cases se2)
        case (Some y)
        with assms s None True f st have "er = Some (mapRuntimeError y)" "w' = fail (spl_op plan) (mapRuntimeError y) False w3"
          by (simp_all add: run_start_def Let_def)
        then show ?thesis using start_failed [of "mapRuntimeError y" "w_mgr w3"] True m3 by (simp add: fail_def)
      next
        case n: None
        with assms s None True f st have "er = None"
          "w' = on_mgr (commitStart (spl_op plan) (Some h)) (on_mgr (transition (spl_op plan) Activating None) w3)"
          by (simp_all add: run_start_def Let_def)
        then show ?thesis
          using committed [of "Some h" "transition (spl_op plan) Activating None (w_mgr w3)"] True m3 by simp
      qed
    qed
  qed
qed

lemma mgr_inv_cong: "m_slot m = m_slot n \<Longrightarrow> m_ops m = m_ops n \<Longrightarrow> mgr_inv m = mgr_inv n"
  by (simp add: mgr_inv_def split: option.split)

text \<open>What a reservation that succeeds has found, and what it leaves in the slot.\<close>

lemma reserveStart_cases:
  assumes "reserveStart b p a r m = (Inr plan, m')"
  obtains (free) s' where "m_slot m = None" "spl_stop plan = None" "spl_spawn plan" "m_slot m' = Some s'"
      "s_op s' = op_id (spl_op plan)" "s_backend s' = b_name b" "s_profiles s' = [p]"
  | (join) s s' where "m_slot m = Some s" "s_state s = Running" "s_backend s = b_name b" "spl_stop plan = None"
      "\<not> spl_spawn plan" "m_slot m' = Some s'" "s_op s' = op_id (spl_op plan)" "s_backend s' = b_name b"
      "s_profiles s' = (if p \<in> set (s_profiles s) then s_profiles s else s_profiles s @ [p])" "s_process s' = s_process s"
  | (replace) s s' where "m_slot m = Some s" "s_state s = Running" "s_backend s = b_name b" "r" "spl_stop plan = s_process s"
      "spl_spawn plan" "m_slot m' = Some s'" "s_op s' = op_id (spl_op plan)" "s_backend s' = b_name b"
      "s_profiles s' = [p]"
proof (cases "m_slot m")
  case None
  with assms show ?thesis by (intro free) (auto simp: reserveStart_def reserveLocked_def Let_def)
next
  case (Some s)
  then have ok: "settled s" "s_backend s = b_name b" "(\<not> cap_single_active (b_caps b) \<and> s_address s = a) \<or> r"
    using reserveStart_accepts [where b = b and p = p and a = a and r = r and m = m] assms by (auto simp: single_active_def)
  show ?thesis
  proof (cases "\<not> cap_single_active (b_caps b) \<and> s_address s = a")
    case True
    with Some ok assms show ?thesis
      by (intro join [of s "the (m_slot m')"]) (auto simp: reserveStart_def reserveLocked_def Let_def settled_def holds_def)
  next
    case False
    with Some ok assms show ?thesis
      by (intro replace [of s "the (m_slot m')"]) (auto simp: reserveStart_def reserveLocked_def Let_def settled_def)
  qed
qed

lemma quiet_running: "quiet m \<Longrightarrow> m_slot m = Some s \<Longrightarrow> s_state s = Running \<Longrightarrow> s_process s \<noteq> None"
  by (simp add: quiet_def mgr_inv_def slot_inv_def)

lemma quiet_commitStart:
  assumes "mgr_inv m" and "m_slot m = Some s" and "s_op s = op_id op" and "h \<noteq> None \<or> s_process s \<noteq> None"
  shows "quiet (commitStart op h m)"
    and "slot_active (m_slot (commitStart op h m)) = Serving (s_backend s) (s_profiles s)"
  using assms mgr_inv_commitStart [of m op h] by (auto simp: quiet_def m_slot_commitStart slot_active_def)

lemma quiet_fail:
  assumes "mgr_inv m" and "m_slot m = Some s" and "s_op s = op_id op"
  shows "quiet (fail_op op e keep m)"
    and "slot_active (m_slot (fail_op op e keep m)) = (if keep then Stuck (s_backend s) else Idle)"
  using assms mgr_inv_fail [of m op e keep] by (auto simp: quiet_def m_slot_fail_op slot_active_def)

lemma run_start_act:
  assumes c: "quiet m" and r: "reserveStart b p a rep m = (Inr plan, w_mgr w)"
    and run: "run_start an b prof spec plan w = ((er, res), w')"
  shows "quiet (w_mgr w') \<and> act_step (RStart (b_name b) p rep) (slot_active (m_slot m)) (act w')
    \<and> (er = None \<longrightarrow> (\<exists>ps. act w' = Serving (b_name b) ps \<and> p \<in> set ps))"
proof -
  have inv: "mgr_inv (w_mgr w)" using mgr_inv_reserveStart [of m b p a rep] c r by (simp add: quiet_def)
  have cong: "mgr_inv m1" if "m_slot m1 = m_slot (w_mgr w)" "m_ops m1 = m_ops (w_mgr w)" for m1
    using mgr_inv_cong [OF that] inv by simp
  show ?thesis using run
  proof (cases rule: run_start_mgr)
    case (stop_failed x m1)
    note m1 = cong [OF stop_failed(4,5)]
    from r show ?thesis
    proof (cases rule: reserveStart_cases)
      case (replace s s')
      then show ?thesis
        using stop_failed quiet_fail [OF m1] by (auto simp: act_def slot_active_def intro: act_step.intros)
    qed (use stop_failed in auto)
  next
    case (start_failed x m1)
    note m1 = cong [OF start_failed(4,5)]
    from r show ?thesis
    proof (cases rule: reserveStart_cases)
      case (free s')
      then show ?thesis
        using start_failed quiet_fail [OF m1] by (auto simp: act_def slot_active_def intro: act_step.intros)
    next
      case (replace s s')
      then show ?thesis
        using start_failed quiet_fail [OF m1] by (auto simp: act_def slot_active_def intro: act_step.intros)
    qed (use start_failed in auto)
  next
    case (committed ho m1)
    note m1 = cong [OF committed(4,5)]
    from r show ?thesis
    proof (cases rule: reserveStart_cases)
      case (free s')
      then show ?thesis
        using committed quiet_commitStart [OF m1, of s'] by (auto simp: act_def slot_active_def intro: act_step.intros)
    next
      case (join s s')
      then show ?thesis
        using committed quiet_commitStart [OF m1, of s'] quiet_running [OF c join(1,2)]
          act_step.joins [of "b_name b" p rep "s_profiles s"]
        by (auto simp: act_def slot_active_def)
    next
      case (replace s s')
      then show ?thesis
        using committed quiet_commitStart [OF m1, of s'] by (auto simp: act_def slot_active_def intro: act_step.intros)
    qed
  qed
qed

lemma start_runtime_cases:
  assumes "start_runtime e an name r w = ((er, res), w')"
  obtains (refused) "files_only w w'" "er \<noteq> None"
  | (runs) b p spec plan w1 m where "reserveStart b name (spec_address spec) r (w_mgr w) = (Inr plan, m)"
      "files_only w w1" "run_start an b p spec plan (w1\<lparr>w_mgr := m\<rparr>) = ((er, res), w')"
proof (cases "profileBackend e (an_io an) name w")
  case (Inl x)
  with assms show ?thesis by (intro refused) (auto simp: start_runtime_def Let_def)
next
  case (Inr db)
  obtain doc0 b where db: "db = (doc0, b)" by (cases db)
  obtain i w1 where imp: "importGenerated e (an_io an) b w = (i, w1)" by (metis surj_pair)
  then have w1: "files_only w w1" using files_import [of w e "an_io an" b] by simp
  note f1 = Inr db imp
  show ?thesis
  proof (cases "if i then GetProfile e (an_io an) name w1 else Inr doc0")
    case (Inl x)
    with assms f1 w1 show ?thesis by (intro refused) (auto simp: start_runtime_def)
  next
    case (Inr doc)
    note f2 = f1 Inr
    show ?thesis
    proof (cases "requireModelFile e (an_io an) (d_effective doc) (w_fs w1)")
      case (Some x)
      with assms f2 have "w' = w1 \<and> er = Some x" by (simp add: start_runtime_def)
      with w1 show ?thesis by (intro refused) simp_all
    next
      case None
      obtain rm w2 where ren: "render e (an_io an) b (d_effective doc) w1 = (rm, w2)" by (metis surj_pair)
      then have w2: "files_only w w2"
        using files_render [of w1 e "an_io an" b "d_effective doc"] files_only_trans [OF w1] by simp
      note f3 = f2 None ren
      show ?thesis
      proof (cases rm)
        case (Inl x)
        with assms f3 w2 show ?thesis by (intro refused) (auto simp: start_runtime_def)
      next
        case (Inr mat)
        note f4 = f3 Inr
        show ?thesis
        proof (cases "b_launch b (d_effective doc) mat")
          case (Inl x)
          with assms f4 w2 show ?thesis by (intro refused) (auto simp: start_runtime_def)
        next
          case (Inr spec)
          obtain rp m where res: "reserveStart b name (spec_address spec) r (w_mgr w2) = (rp, m)" by (metis surj_pair)
          note f5 = f4 Inr res
          show ?thesis
          proof (cases rp)
            case (Inl x)
            with res have "w2\<lparr>w_mgr := m\<rparr> = w2" by (auto dest: reserveStart_error_unchanged)
            with Inl assms f5 w2 show ?thesis by (intro refused) (auto simp: start_runtime_def)
          next
            case (Inr plan)
            with assms f5 w2 show ?thesis
              by (intro runs [of b spec plan m w2 "d_effective doc"])
                (simp_all add: start_runtime_def files_only_mgr [OF w2])
          qed
        qed
      qed
    qed
  qed
qed

lemma start_runtime_act:
  assumes "at_rest w" and "start_runtime e an name r w = ((er, res), w')"
  shows "at_rest w' \<and> (\<exists>b. act_step (RStart b name r) (act w) (act w') \<and>
    (er = None \<longrightarrow> (\<exists>ps. act w' = Serving b ps \<and> name \<in> set ps)))"
  using assms(2)
proof (cases rule: start_runtime_cases)
  case refused
  with assms(1) act_mgr [OF files_only_mgr [OF refused(1)]] show ?thesis by (auto intro: act_step.refused)
next
  case (runs b p spec plan w1 m)
  have "quiet (w_mgr w)" using assms(1) by (simp add: at_rest_def)
  from run_start_act [OF this _ runs(3), of name "spec_address spec" r] runs(1)
  show ?thesis unfolding at_rest_def act_def by auto
qed

text \<open>Stopping.\<close>

lemma slot_active_running: "slot_active (Some s) = Serving (s_backend s) (s_profiles s)" if "s_state s = Running"
  using that by (simp add: slot_active_def)

lemma reserveStop_cases:
  assumes "reserveStop bn p m = (Inr plan, m')"
  obtains (vacant) "m' = m" "op_id (tpl_op plan) = []"
     "\<forall>s. m_slot m = Some s \<longrightarrow> s_backend s \<noteq> bn \<or> p \<notin> set (s_profiles s)"
  | (stop) s where "m_slot m = Some s" "s_state s = Running" "s_backend s = bn" "p \<in> set (s_profiles s)"
      "op_profile (tpl_op plan) = p" "op_id (tpl_op plan) = opid (next_op (m_ops m))"
      "m_slot m' = Some (s\<lparr>s_state := Stopping, s_op := op_id (tpl_op plan)\<rparr>)"
      "tpl_process plan = (if length (s_profiles s) > 1 then None else s_process s)"
proof (cases "m_slot m")
  case None
  with assms show ?thesis by (intro vacant) (auto simp: reserveStop_def zero_op_def)
next
  case (Some s)
  show ?thesis
  proof (cases "s_backend s \<noteq> bn \<or> \<not> holds s p")
    case True
    with Some assms show ?thesis by (intro vacant) (auto simp: reserveStop_def zero_op_def holds_def)
  next
    case False
    with Some assms show ?thesis
      by (intro stop) (auto simp: reserveStop_def reserveLocked_def Let_def settled_def holds_def split: if_splits)
  qed
qed

lemma quiet_commitStop:
  assumes "mgr_inv m" and "m_slot m = Some s" and "s_op s = op_id op" and "s_process s \<noteq> None"
  shows "quiet (commitStop op m)"
    and "slot_active (m_slot (commitStop op m)) = without (s_backend s) (op_profile op) (s_profiles s)"
  using assms mgr_inv_commitStop [of m op]
  by (auto simp: quiet_def m_slot_commitStop slot_active_def without_def Let_def)

text \<open>The blocking part of a stop, given the process to stop.\<close>

definition end_stop :: "answers \<Rightarrow> operation \<Rightarrow> (mgr \<Rightarrow> mgr) \<Rightarrow> nat \<Rightarrow> world \<Rightarrow> (gerr option \<times> command_result) \<times> world" where
  "end_stop an op commit h w =
     (case proc_stop (an_stop an) h (on_mgr (transition op Stopping None) w) of
        ((Some se, r), w2) \<Rightarrow> ((Some (mapRuntimeError se), r), fail op (mapRuntimeError se) True w2)
      | ((None, r), w2) \<Rightarrow> ((None, r), on_mgr commit w2))"

lemma end_stop_cases:
  assumes "end_stop an op commit h w = ((er, r), w')"
  obtains (failed) x m1 where "er = Some x" "w_mgr w' = fail_op op x True m1" "m_slot m1 = m_slot (w_mgr w)"
      "m_ops m1 = m_ops (w_mgr w)"
  | (ended) m1 where "er = None" "w_mgr w' = commit m1" "m_slot m1 = m_slot (w_mgr w)" "m_ops m1 = m_ops (w_mgr w)"
proof -
  obtain se r2 w2 where p: "proc_stop (an_stop an) h (on_mgr (transition op Stopping None) w) = ((se, r2), w2)"
    by (metis surj_pair)
  then have m: "w_mgr w2 = transition op Stopping None (w_mgr w)" using w_mgr_calls(3) by fastforce
  show ?thesis
  proof (cases se)
    case None
    with assms p m show ?thesis by (intro ended [of "w_mgr w2"]) (auto simp: end_stop_def)
  next
    case (Some y)
    with assms p m show ?thesis
      by (intro failed [of "mapRuntimeError y" "w_mgr w2"]) (auto simp: end_stop_def fail_def)
  qed
qed

lemma stop_runtime_unfold:
  "stop_runtime e an name w =
     (case profileBackend e (an_io an) name w of
        Inl er \<Rightarrow> ((Some er, commandResult [] 0 [] None), w)
      | Inr (doc, b) \<Rightarrow>
          (case reserveStop (b_name b) name (w_mgr w) of
             (Inl er, m) \<Rightarrow> ((Some er, commandResult ''stop'' 0 [] None), w\<lparr>w_mgr := m\<rparr>)
           | (Inr plan, m) \<Rightarrow>
               if op_id (tpl_op plan) = [] then ((None, commandResult ''stop'' 0 [] None), w\<lparr>w_mgr := m\<rparr>)
               else case tpl_process plan of
                   None \<Rightarrow> ((None, commandResult ''stop'' 0 [] None), on_mgr (commitStop (tpl_op plan)) (w\<lparr>w_mgr := m\<rparr>))
                 | Some h \<Rightarrow> end_stop an (tpl_op plan) (commitStop (tpl_op plan)) h (w\<lparr>w_mgr := m\<rparr>)))"
  unfolding stop_runtime_def end_stop_def Let_def by simp

lemma stop_runtime_cases:
  assumes "stop_runtime e an n w = ((er, res), w')"
  obtains (refused) "w' = w" "er \<noteq> None"
  | (vacant) doc b where "profileBackend e (an_io an) n w = Inr (doc, b)" "w' = w"
      "\<forall>s. m_slot (w_mgr w) = Some s \<longrightarrow> s_backend s \<noteq> b_name b \<or> n \<notin> set (s_profiles s)"
  | (stop) doc b s op m where "profileBackend e (an_io an) n w = Inr (doc, b)"
      "m_slot (w_mgr w) = Some s" "s_state s = Running" "s_backend s = b_name b" "n \<in> set (s_profiles s)"
      "op_profile op = n" "op_id op \<noteq> []" "m_slot m = Some (s\<lparr>s_state := Stopping, s_op := op_id op\<rparr>)"
      "mgr_inv (w_mgr w) \<Longrightarrow> mgr_inv m"
      "(case (if length (s_profiles s) > 1 then None else s_process s) of
          None \<Rightarrow> ((None, commandResult ''stop'' 0 [] None), on_mgr (commitStop op) (w\<lparr>w_mgr := m\<rparr>))
        | Some h \<Rightarrow> end_stop an op (commitStop op) h (w\<lparr>w_mgr := m\<rparr>)) = ((er, res), w')"
proof (cases "profileBackend e (an_io an) n w")
  case (Inl x)
  with assms show ?thesis by (intro refused) (auto simp: stop_runtime_unfold)
next
  case (Inr db)
  obtain doc b where db: "db = (doc, b)" by (cases db)
  note pb = Inr [unfolded db]
  obtain rp m where rs: "reserveStop (b_name b) n (w_mgr w) = (rp, m)" by (metis surj_pair)
  have inv: "mgr_inv (w_mgr w) \<Longrightarrow> mgr_inv m" using mgr_inv_reserveStop [of "w_mgr w" "b_name b" n] rs by simp
  show ?thesis
  proof (cases rp)
    case (Inl x)
    with rs have "m = w_mgr w" by (auto dest: reserveStop_error_unchanged)
    with assms pb rs Inl show ?thesis by (intro refused) (auto simp: stop_runtime_unfold)
  next
    case r: (Inr plan)
    have run: "(if op_id (tpl_op plan) = [] then ((None, commandResult ''stop'' 0 [] None), w\<lparr>w_mgr := m\<rparr>)
         else case tpl_process plan of
             None \<Rightarrow> ((None, commandResult ''stop'' 0 [] None), on_mgr (commitStop (tpl_op plan)) (w\<lparr>w_mgr := m\<rparr>))
           | Some h \<Rightarrow> end_stop an (tpl_op plan) (commitStop (tpl_op plan)) h (w\<lparr>w_mgr := m\<rparr>)) = ((er, res), w')"
      using assms by (simp add: stop_runtime_unfold pb rs r)
    from rs [unfolded r] show ?thesis
    proof (cases rule: reserveStop_cases)
      case v: vacant
      with run pb show ?thesis by (intro vacant [of doc b]) auto
    next
      case (stop s)
      with run pb inv show ?thesis by (intro that(3) [of doc b s "tpl_op plan" m]) simp_all
    qed
  qed
qed

lemma stop_runtime_act:
  assumes rest: "at_rest w" and "stop_runtime e an name w = ((er, res), w')"
  shows "at_rest w' \<and> (\<exists>b. act_step (RStop b name) (act w) (act w') \<and>
    (er = None \<longrightarrow> (\<forall>ps. act w' = Serving b ps \<longrightarrow> name \<notin> set ps)))"
  using assms(2)
proof (cases rule: stop_runtime_cases)
  case refused
  with rest show ?thesis by (auto intro: act_step.refused)
next
  case (vacant doc b)
  with rest show ?thesis
    by (intro conjI exI [of _ "b_name b"])
      (auto simp: act_def slot_active_def intro: act_step.refused split: option.splits if_splits)
next
  case (stop doc b s op m)
  have c: "quiet (w_mgr w)" using rest by (simp add: at_rest_def)
  then have inv: "mgr_inv m" using stop(9) by (simp add: quiet_def)
  have h: "s_process s \<noteq> None" by (rule quiet_running [OF c stop(2,3)])
  have a: "act w = Serving (b_name b) (s_profiles s)" using stop by (simp add: act_def slot_active_def)
  have ok: ?thesis if "at_rest w'" "act w' = without (b_name b) name (s_profiles s)"
    using that act_step.stops [OF stop(5), of "b_name b"] without_served [of "b_name b" name] a by metis
  show ?thesis
  proof (cases "length (s_profiles s) > 1")
    case True
    then have "w_mgr w' = commitStop op m" using stop(10) by auto
    with stop quiet_commitStop [OF inv stop(8), of op] h
    have "at_rest w'" "act w' = without (b_name b) name (s_profiles s)" by (simp_all add: at_rest_def act_def)
    with ok show ?thesis by blast
  next
    case False
    then have one: "length (s_profiles s) = 1" using stop(5) by (cases "s_profiles s") auto
    from h stop(10) False obtain h' where "end_stop an op (commitStop op) h' (w\<lparr>w_mgr := m\<rparr>) = ((er, res), w')" by auto
    then show ?thesis
    proof (cases rule: end_stop_cases)
      case (failed x m1)
      have "mgr_inv m1" using mgr_inv_cong [of m1 m] failed inv by simp
      from quiet_fail [OF this, of _ op] failed stop
      have "at_rest w'" "act w' = Stuck (b_name b)" by (simp_all add: at_rest_def act_def)
      with failed a act_step.stop_stuck [OF stop(5) one, of "b_name b"] show ?thesis by auto
    next
      case (ended m1)
      have "mgr_inv m1" using mgr_inv_cong [of m1 m] ended inv by simp
      from quiet_commitStop [OF this, of _ op] ended stop h
      have "at_rest w'" "act w' = without (b_name b) name (s_profiles s)" by (simp_all add: at_rest_def act_def)
      with ok show ?thesis by blast
    qed
  qed
qed

section \<open>Resetting and reloading\<close>

lemma reserveReset_cases:
  assumes "quiet m"
  obtains (empty) "m_slot m = None" "reserveReset m = (Inr None, m)"
  | (take) s op m' where "m_slot m = Some s" "reserveReset m = (Inr (Some (op, s_process s)), m')"
      "m_slot m' = Some (s\<lparr>s_state := Stopping, s_op := op_id op\<rparr>)" "mgr_inv m'"
proof (cases "m_slot m")
  case None
  then show ?thesis by (intro empty) (simp_all add: reserveReset_def)
next
  case (Some s)
  obtain op m' where r: "reserveLocked [] (s_backend s) Stopping m = (op, m')" by (metis surj_pair)
  have rr: "reserveReset m = (Inr (Some (op, s_process s)), m')"
    using assms Some r by (simp add: reserveReset_def quiet_def)
  moreover have "mgr_inv m'" using mgr_inv_reserveReset [of m] assms rr by (simp add: quiet_def)
  moreover have "m_slot m' = Some (s\<lparr>s_state := Stopping, s_op := op_id op\<rparr>)"
    using r Some by (auto simp: reserveLocked_def Let_def)
  ultimately show ?thesis using take Some by blast
qed

lemma quiet_commitReset:
  assumes "mgr_inv m" and "m_slot m = Some s" and "s_op s = op_id op"
  shows "quiet (commitReset op m)" and "slot_active (m_slot (commitReset op m)) = Idle"
  using assms mgr_inv_commitReset [of m op] by (auto simp: quiet_def m_slot_commitReset slot_active_def)

lemma reset_runtimes_unfold:
  "reset_runtimes an w =
     (case reserveReset (w_mgr w) of
        (Inl er, m) \<Rightarrow> ((Some er, commandResult ''reset'' 0 [] None), w\<lparr>w_mgr := m\<rparr>)
      | (Inr None, m) \<Rightarrow> ((None, commandResult ''reset'' 0 [] None), w\<lparr>w_mgr := m\<rparr>)
      | (Inr (Some (op, None)), m) \<Rightarrow>
          ((None, commandResult ''reset'' 0 [] None),
           on_mgr (commitReset op) (on_mgr (transition op Stopping None) (w\<lparr>w_mgr := m\<rparr>)))
      | (Inr (Some (op, Some h)), m) \<Rightarrow> end_stop an op (commitReset op) h (w\<lparr>w_mgr := m\<rparr>))"
  unfolding reset_runtimes_def end_stop_def Let_def
  by (auto split: prod.split sum.split option.split)

lemma reset_runtimes_act:
  assumes rest: "at_rest w" and run: "reset_runtimes an w = ((er, res), w')"
  shows "at_rest w' \<and> act_step RReset (act w) (act w') \<and> (er = None \<longrightarrow> act w' = Idle)"
proof -
  have c: "quiet (w_mgr w)" using rest by (simp add: at_rest_def)
  then show ?thesis
  proof (cases rule: reserveReset_cases)
    case empty
    then have "w' = w" "er = None" using run by (simp_all add: reset_runtimes_unfold)
    then show ?thesis using rest empty by (auto simp: act_def slot_active_def intro: act_step.refused)
  next
    case (take s op m')
    show ?thesis
    proof (cases "s_process s")
      case None
      with take run have "w_mgr w' = commitReset op (transition op Stopping None m')"
        by (simp add: reset_runtimes_unfold) (metis w_mgr_frame(7) world.simps(1) world.surjective world.update_convs(1))
      with quiet_commitReset [of "transition op Stopping None m'" _ op] take show ?thesis
        by (auto simp: at_rest_def act_def intro: act_step.resets)
    next
      case (Some h)
      with take run have "end_stop an op (commitReset op) h (w\<lparr>w_mgr := m'\<rparr>) = ((er, res), w')"
        by (simp add: reset_runtimes_unfold)
      then show ?thesis
      proof (cases rule: end_stop_cases)
        case (failed x m1)
        have "mgr_inv m1" using mgr_inv_cong [of m1 m'] failed take by simp
        from quiet_fail [OF this, of _ op] failed take
        have w': "at_rest w'" "act w' = Stuck (s_backend s)" by (simp_all add: at_rest_def act_def)
        moreover have "act_step RReset (act w) (Stuck (s_backend s))"
          using take(1) by (auto simp: act_def slot_active_def intro: act_step.intros)
        ultimately show ?thesis using failed by simp
      next
        case (ended m1)
        have "mgr_inv m1" using mgr_inv_cong [of m1 m'] ended take by simp
        from quiet_commitReset [OF this, of _ op] ended take show ?thesis
          by (auto simp: at_rest_def act_def intro: act_step.resets)
      qed
    qed
  qed
qed

lemma reserveReload_take:
  assumes "quiet m" and "reserveReload b m = (Inr (Some (op, p, held)), m')"
  shows "\<exists>s h. m_slot m = Some s \<and> s_state s = Running \<and> s_backend s = b_name b \<and> p = Some h \<and> held = s_profiles s
    \<and> m_slot m' = Some (s\<lparr>s_state := Stopping, s_op := op_id op\<rparr>) \<and> mgr_inv m'"
proof -
  have inv: "mgr_inv m'" using mgr_inv_reserveReload [of m b] assms by (simp add: quiet_def)
  obtain s where s: "m_slot m = Some s" "s_backend s = b_name b" "s_state s = Running"
      "reserveLocked (hd (s_profiles s)) (s_backend s) Stopping m = (op, m')" "p = s_process s" "held = s_profiles s"
    using assms(2) by (auto simp: reserveReload_def Let_def settled_def split: option.splits if_splits prod.splits)
  moreover obtain h where "s_process s = Some h" using quiet_running [OF assms(1) s(1,3)] by blast
  ultimately show ?thesis using inv by (auto simp: reserveLocked_def Let_def)
qed

lemma reserveReload_other:
  "reserveReload b m = (Inl er, m') \<Longrightarrow> m' = m" "reserveReload b m = (Inr None, m') \<Longrightarrow> m' = m"
  by (auto simp: reserveReload_def Let_def split: option.splits if_splits prod.splits)

definition reload_run ::
    "answers \<Rightarrow> operation \<Rightarrow> nat \<Rightarrow> launch_spec \<Rightarrow> world \<Rightarrow> gerr option \<times> world" where
  "reload_run an op old spec w =
     (case proc_stop (an_reload_stop an) old (on_mgr (transition op Stopping None) w) of
        ((Some se, r), w3) \<Rightarrow> (Some (mapRuntimeError se), fail op (mapRuntimeError se) True w3)
      | ((None, r), w3) \<Rightarrow>
          (case factory spec (on_mgr (transition op Starting None) w3) of
             (h, w4) \<Rightarrow>
               (case proc_start (an_reload_start an) h w4 of
                  ((Some se, r), w5) \<Rightarrow> (Some (mapRuntimeError se), fail op (mapRuntimeError se) False w5)
                | ((None, r), w5) \<Rightarrow>
                    (None, on_mgr (commitStart op (Some h)) (on_mgr (transition op Activating None) w5)))))"

lemma reload_run_cases:
  assumes "reload_run an op old spec w = (er, w')"
  obtains (failed) x keep m1 where "er = Some x" "w_mgr w' = fail_op op x keep m1" "m_slot m1 = m_slot (w_mgr w)"
      "m_ops m1 = m_ops (w_mgr w)"
  | (ended) h m1 where "er = None" "w_mgr w' = commitStart op (Some h) m1" "m_slot m1 = m_slot (w_mgr w)"
      "m_ops m1 = m_ops (w_mgr w)"
proof -
  obtain se r w3 where st: "proc_stop (an_reload_stop an) old (on_mgr (transition op Stopping None) w) = ((se, r), w3)"
    by (metis surj_pair)
  then have m3: "w_mgr w3 = transition op Stopping None (w_mgr w)" using w_mgr_calls(3) by fastforce
  obtain h w4 where f: "factory spec (on_mgr (transition op Starting None) w3) = (h, w4)" by (metis surj_pair)
  obtain se5 r5 w5 where ps: "proc_start (an_reload_start an) h w4 = ((se5, r5), w5)" by (metis surj_pair)
  have m5: "w_mgr w5 = transition op Starting None (w_mgr w3)"
    using w_mgr_calls(1) [OF f] w_mgr_calls(2) [OF ps] by simp
  show ?thesis
  proof (cases se)
    case (Some y)
    with assms st m3 show ?thesis
      by (intro failed [of "mapRuntimeError y" True "w_mgr w3"]) (auto simp: reload_run_def fail_def)
  next
    case None
    show ?thesis
    proof (cases se5)
      case n5: None
      with assms st None f ps m3 m5 show ?thesis
        by (intro ended [of h "transition op Activating None (w_mgr w5)"]) (auto simp: reload_run_def)
    next
      case (Some y)
      with assms st None f ps m3 m5 show ?thesis
        by (intro failed [of "mapRuntimeError y" False "w_mgr w5"]) (auto simp: reload_run_def fail_def)
    qed
  qed
qed

lemma reloadRouter_unfold:
  assumes "reserveReload b (w_mgr w) = (Inr (Some (op, Some old, held)), m)"
  shows "reloadRouter e an b w =
    (case routerSpec e (an_io an) b (hd held) (w\<lparr>w_mgr := m\<rparr>) of
       Inl er \<Rightarrow> (Some er, fail op er True (w\<lparr>w_mgr := m\<rparr>))
     | Inr spec \<Rightarrow> reload_run an op old spec (w\<lparr>w_mgr := m\<rparr>))"
  unfolding reloadRouter_def reload_run_def Let_def assms
  by (auto split: prod.split sum.split option.split)

lemma reloadRouter_act:
  assumes rest: "at_rest w" and run: "reloadRouter e an b w = (er, w')"
  shows "at_rest w' \<and> act_step (RReload (b_name b)) (act w) (act w') \<and> (er = None \<longrightarrow> act w' = act w)"
proof -
  have c: "quiet (w_mgr w)" using rest by (simp add: at_rest_def)
  obtain rp m where rr: "reserveReload b (w_mgr w) = (rp, m)" by (metis surj_pair)
  have same: ?thesis if "w' = w" using that rest by (auto intro: act_step.refused)
  show ?thesis
  proof (cases rp)
    case (Inl x)
    with run rr show ?thesis by (intro same) (auto simp: reloadRouter_def dest: reserveReload_other)
  next
    case (Inr o1)
    show ?thesis
    proof (cases o1)
      case None
      with Inr run rr show ?thesis by (intro same) (auto simp: reloadRouter_def dest: reserveReload_other)
    next
      case (Some t)
      obtain op p held where t: "t = (op, p, held)" by (cases t)
      from reserveReload_take [OF c rr [unfolded Inr Some t]] obtain s h where
        s: "m_slot (w_mgr w) = Some s" "s_state s = Running" "s_backend s = b_name b" "p = Some h"
          "m_slot m = Some (s\<lparr>s_state := Stopping, s_op := op_id op\<rparr>)" "mgr_inv m" by blast
      have a: "act w = Serving (b_name b) (s_profiles s)" using s by (simp add: act_def slot_active_def)
      have bad: ?thesis if "er = Some x" "w_mgr w' = fail_op op x keep m1" "m_slot m1 = m_slot m" "m_ops m1 = m_ops m"
        for x keep m1
      proof -
        have "mgr_inv m1" using mgr_inv_cong [OF that(3,4)] s by simp
        from quiet_fail [OF this, of _ op] that s
        have "at_rest w'" "act w' = (if keep then Stuck (b_name b) else Idle)" by (simp_all add: at_rest_def act_def)
        with a that(1) show ?thesis by (auto intro: act_step.intros)
      qed
      note run' = run [unfolded reloadRouter_unfold [OF rr [unfolded Inr Some t s(4)]]]
      show ?thesis
      proof (cases "routerSpec e (an_io an) b (hd held) (w\<lparr>w_mgr := m\<rparr>)")
        case (Inl x)
        with run' show ?thesis by (intro bad [of x True m]) (auto simp: fail_def on_mgr_def)
      next
        case (Inr spec)
        with run' have "reload_run an op h spec (w\<lparr>w_mgr := m\<rparr>) = (er, w')" by simp
        then show ?thesis
        proof (cases rule: reload_run_cases)
          case (failed x keep m1)
          then show ?thesis by (intro bad [of x keep m1]) simp_all
        next
          case (ended h' m1)
          have "mgr_inv m1" using mgr_inv_cong [of m1 m] ended s by simp
          from quiet_commitStart [OF this, of _ op "Some h'"] ended s a show ?thesis
            by (auto simp: at_rest_def act_def intro: act_step.refused)
        qed
      qed
    qed
  qed
qed

section \<open>The handlers\<close>

text \<open>A request's effect: the daemon is at rest again and took a step the specification allows.\<close>

definition any_step :: "active \<Rightarrow> active \<Rightarrow> bool" where
  "any_step a a' \<longleftrightarrow> (\<exists>q. act_step q a a')"

definition moves :: "request \<Rightarrow> world \<Rightarrow> world \<Rightarrow> bool" where
  "moves q w w' \<longleftrightarrow> at_rest w' \<and> act_step q (act w) (act w')"

lemma moves_mgr: "at_rest w \<Longrightarrow> w_mgr w' = w_mgr w \<Longrightarrow> moves q w w'"
  using act_mgr [of w' w] by (simp add: moves_def act_step.refused)

lemma moves_recording [simp]: "moves q w (recording a er w') = moves q w w'"
  by (simp add: moves_def)

definition serves :: "string \<Rightarrow> string \<Rightarrow> active \<Rightarrow> bool" where
  "serves b n a \<longleftrightarrow> (\<exists>ps. a = Serving b ps \<and> n \<in> set ps)"

lemma StartRuntime_moves:
  assumes "at_rest w" and "StartRuntime e an n r w = ((er, res), w')"
  shows "\<exists>b. moves (RStart b n r) w w' \<and> (er = None \<longrightarrow> serves b n (act w'))"
proof -
  obtain w1 where s: "start_runtime e an n r w = ((er, res), w1)" "w' = recording ''runtime.start'' er w1"
    using assms(2) by (auto simp: StartRuntime_def split: prod.splits)
  show ?thesis using start_runtime_act [OF assms(1) s(1)] by (auto simp: s(2) moves_def serves_def)
qed

lemma StopRuntime_moves:
  assumes "at_rest w" and "StopRuntime e an n w = ((er, res), w')"
  shows "\<exists>b. moves (RStop b n) w w' \<and> (er = None \<longrightarrow> \<not> serves b n (act w'))"
proof -
  obtain w1 where s: "stop_runtime e an n w = ((er, res), w1)" "w' = recording ''runtime.stop'' er w1"
    using assms(2) by (auto simp: StopRuntime_def split: prod.splits)
  show ?thesis using stop_runtime_act [OF assms(1) s(1)] by (auto simp: s(2) moves_def serves_def)
qed

lemma ResetRuntimes_moves:
  assumes "at_rest w" and "ResetRuntimes an w = ((er, res), w')"
  shows "moves RReset w w' \<and> (er = None \<longrightarrow> act w' = Idle)"
proof -
  obtain w1 where s: "reset_runtimes an w = ((er, res), w1)" "w' = recording ''runtime.reset'' er w1"
    using assms(2) by (auto simp: ResetRuntimes_def split: prod.splits)
  show ?thesis using reset_runtimes_act [OF assms(1) s(1)] by (auto simp: s(2) moves_def)
qed

lemma regenerate_moves:
  assumes rest: "at_rest w" and run: "regenerate e an p w = (er, w')"
  shows "\<exists>b. moves (RReload b) w w'"
proof (cases "mgr_Backend (e_registry e) (p_backend p)")
  case (Inl x)
  with run rest show ?thesis by (auto simp: regenerate_def intro: moves_mgr)
next
  case (Inr b)
  show ?thesis
  proof (cases "materialize e (an_io an) b p w")
    case (Inl x)
    with run rest Inr show ?thesis by (auto simp: regenerate_def intro: moves_mgr)
  next
    case mat: (Inr mat)
    obtain we fs where wm: "writeMaterialization (an_io an) mat (w_fs w) = (we, fs)" by (metis surj_pair)
    have rest': "at_rest (set_fs fs w)" "act (set_fs fs w) = act w" using rest by (simp_all add: at_rest_def act_def)
    show ?thesis
    proof (cases "we = None \<and> materializationChanged (an_io an) mat (w_fs w)")
      case False
      with run Inr mat wm have "w' = set_fs fs w" by (auto simp: regenerate_def split: option.splits if_splits)
      with rest show ?thesis by (simp add: moves_mgr)
    next
      case True
      with run Inr mat wm have "reloadRouter e an b (set_fs fs w) = (er, w')" by (auto simp: regenerate_def)
      from reloadRouter_act [OF rest'(1) this] show ?thesis by (auto simp: moves_def rest'(2))
    qed
  qed
qed

lemma w_mgr_write_profile: "w_mgr (snd (write_profile e io n yaml c w)) = w_mgr w"
  by (simp add: write_profile_def Let_def split: prod.splits sum.splits)

lemma PutProfile_moves:
  assumes rest: "at_rest w" and run: "PutProfile e an n yaml c w = (r, w')"
  shows "\<exists>b. moves (RReload b) w w'"
proof -
  obtain wr w1 where wp: "write_profile e (an_io an) n yaml c w = (wr, w1)" by (metis surj_pair)
  then have m: "w_mgr w1 = w_mgr w" using w_mgr_write_profile [of e "an_io an" n yaml c w] by simp
  show ?thesis
  proof (cases wr)
    case (Inl x)
    with run wp m rest show ?thesis by (auto simp: PutProfile_def intro!: moves_mgr)
  next
    case (Inr doc)
    obtain er w2 where rg: "regenerate e an (d_effective doc) w1 = (er, w2)" by (metis surj_pair)
    have "at_rest w1" using rest m by (simp add: at_rest_def)
    from regenerate_moves [OF this rg] obtain b where "moves (RReload b) w1 w2" by blast
    then have "moves (RReload b) w w2" by (simp add: moves_def act_def m)
    with run wp Inr rg show ?thesis by (auto simp: PutProfile_def)
  qed
qed

text \<open>The handlers made of others: deleting stops and reloads, restarting stops and starts.\<close>

definition moves2 :: "request \<Rightarrow> request \<Rightarrow> world \<Rightarrow> world \<Rightarrow> bool" where
  "moves2 q q' w w' \<longleftrightarrow> at_rest w' \<and> (act_step q OO act_step q') (act w) (act w')"

lemma moves_moves2: "moves q w v \<Longrightarrow> moves q' v w' \<Longrightarrow> moves2 q q' w w'"
  by (auto simp: moves_def moves2_def relcompp_apply)

lemma moves2_mgr: "moves q w v \<Longrightarrow> w_mgr w' = w_mgr v \<Longrightarrow> moves2 q q' w w'"
  by (auto simp: moves_def intro: moves_moves2 moves_mgr [of v w' q'])

lemma moves2_recording [simp]: "moves2 q q' w (recording a er w') = moves2 q q' w w'"
  by (simp add: moves2_def)

lemma any_stepI: "act_step q a a' \<Longrightarrow> any_step a a'"
  by (auto simp: any_step_def)

lemma moves_any: "moves q w w' \<Longrightarrow> at_rest w' \<and> any_step\<^sup>*\<^sup>* (act w) (act w')"
  unfolding moves_def by (blast intro: any_stepI r_into_rtranclp)

lemma moves2_any: "moves2 q q' w w' \<Longrightarrow> at_rest w' \<and> any_step\<^sup>*\<^sup>* (act w) (act w')"
  unfolding moves2_def by (blast intro: any_stepI r_into_rtranclp rtranclp.rtrancl_into_rtrancl elim: relcomppE)

lemma moves2_same: "at_rest w \<Longrightarrow> w_mgr w' = w_mgr w \<Longrightarrow> moves2 q q' w w'"
  by (blast intro: moves2_mgr moves_mgr)

lemma RestartRuntime_moves:
  assumes rest: "at_rest w" and run: "RestartRuntime e an n w = (r, w')"
  shows "\<exists>b b'. moves2 (RStop b n) (RStart b' n False) w w'"
proof -
  obtain er down w1 where st: "StopRuntime e an n w = ((er, down), w1)" by (metis surj_pair)
  then obtain b where b: "moves (RStop b n) w w1" using StopRuntime_moves [OF rest st] by blast
  show ?thesis
  proof (cases er)
    case (Some x)
    with run st have "w' = recording ''runtime.restart'' (Some x) w1" by (auto simp: RestartRuntime_def)
    moreover have "moves2 (RStop b n) (RStart b n False) w w1" using b by (rule moves2_mgr) simp
    ultimately show ?thesis by auto
  next
    case None
    obtain er2 up w2 where su: "StartRuntime e an n False w1 = ((er2, up), w2)" by (metis surj_pair)
    have "at_rest w1" using b by (simp add: moves_def)
    from StartRuntime_moves [OF this su] obtain b' where "moves (RStart b' n False) w1 w2" by blast
    with b have "moves2 (RStop b n) (RStart b' n False) w w2" by (rule moves_moves2)
    moreover have "w' = recording ''runtime.restart'' er2 w2"
      using run st None su by (auto simp: RestartRuntime_def)
    ultimately show ?thesis by (intro exI [of _ b] exI [of _ b']) simp
  qed
qed

lemma delete_profile_moves:
  assumes rest: "at_rest w" and run: "delete_profile e an n w = (er, w')"
  shows "\<exists>b b'. moves2 (RStop b n) (RReload b') w w'"
proof (cases "GetProfile e (an_io an) n w")
  case (Inl x)
  with run rest show ?thesis
    by (auto simp: delete_profile_def intro: moves2_same)
next
  case (Inr doc)
  obtain se r w1 where st: "StopRuntime e an n w = ((se, r), w1)" by (metis surj_pair)
  then obtain b where b: "moves (RStop b n) w w1" using StopRuntime_moves [OF rest st] by blast
  have same: ?thesis if "w_mgr w' = w_mgr w1" using moves2_mgr [OF b that] by blast
  have reload: ?thesis if "regenerate e an (d_effective doc) w2 = (er, w')" "w_mgr w2 = w_mgr w1" for w2
  proof -
    have 2: "moves (RStop b n) w w2" using b that(2) by (simp add: moves_def act_def at_rest_def)
    then have "at_rest w2" by (simp add: moves_def)
    from regenerate_moves [OF this that(1)] moves_moves2 [OF 2] show ?thesis by blast
  qed
  obtain dr fs where d: "ps_Delete (e_store e) (an_io an) n (w_fs w1) = (dr, fs)" by (metis surj_pair)
  note facts = run [unfolded delete_profile_def Let_def Inr st, simplified]
  show ?thesis
  proof (cases "(\<exists>y. se = Some y) \<and> Kind se \<noteq> Some ErrorNotFound")
    case True
    with facts show ?thesis by (intro same) auto
  next
    case False
    note facts = facts [unfolded if_not_P [OF False] d, simplified]
    show ?thesis
    proof (cases dr)
      case (Inl x)
      with facts show ?thesis by (intro same) auto
    next
      case dr: (Inr y)
      show ?thesis
      proof (cases "e_config e")
        case None
        with facts dr show ?thesis by (intro reload [of "set_fs fs w1"]) simp_all
      next
        case (Some cs)
        obtain ar fs' where a: "SetProfileAutostart cs (an_io an) n False (w_fs (set_fs fs w1)) = (ar, fs')"
          by (metis surj_pair)
        show ?thesis
        proof (cases ar)
          case (Inl x)
          with facts dr Some a show ?thesis by (intro same) auto
        next
          case (Inr y)
          with facts dr Some a show ?thesis by (intro reload [of "set_fs fs' (set_fs fs w1)"]) simp_all
        qed
      qed
    qed
  qed
qed

lemma DeleteProfile_moves:
  assumes "at_rest w" and "DeleteProfile e an n w = (er, w')"
  shows "\<exists>b b'. moves2 (RStop b n) (RReload b') w w'"
proof -
  obtain w1 where d: "delete_profile e an n w = (er, w1)" "w' = recording ''profile.delete'' er w1"
    using assms(2) by (auto simp: DeleteProfile_def split: prod.splits)
  show ?thesis using delete_profile_moves [OF assms(1) d(1)] by (simp add: d(2))
qed

section \<open>Runs of the daemon\<close>

definition runs_to :: "world \<Rightarrow> world \<Rightarrow> bool" where
  "runs_to w w' \<longleftrightarrow> at_rest w' \<and> any_step\<^sup>*\<^sup>* (act w) (act w')"

lemma runs_to_refl: "at_rest w \<Longrightarrow> runs_to w w"
  by (simp add: runs_to_def)

lemma runs_to_trans: "runs_to w v \<Longrightarrow> runs_to v w' \<Longrightarrow> runs_to w w'"
  unfolding runs_to_def by (blast intro: rtranclp_trans)

lemma runs_to_rest: "runs_to w w' \<Longrightarrow> at_rest w'"
  by (simp add: runs_to_def)

lemma runs_to_slot: "runs_to w v \<Longrightarrow> m_slot (w_mgr w') = m_slot (w_mgr v) \<Longrightarrow> m_ops (w_mgr w') = m_ops (w_mgr v) \<Longrightarrow> runs_to w w'"
  using mgr_inv_cong [of "w_mgr w'" "w_mgr v"] by (auto simp: runs_to_def at_rest_def quiet_def act_def)

lemma runs_to_recording [simp]: "runs_to w (recording a er w') = runs_to w w'"
  by (simp add: runs_to_def)

lemma runs_to_set_fs [simp]: "runs_to w (set_fs fs w') = runs_to w w'"
  by (simp add: runs_to_def at_rest_def act_def)

lemma handler_runs:
  assumes "at_rest w"
  shows "runs_to w (snd (StartRuntime e an n r w))" "runs_to w (snd (StopRuntime e an n w))"
    "runs_to w (snd (ResetRuntimes an w))" "runs_to w (snd (PutProfile e an n yaml c w))"
    "runs_to w (snd (DeleteProfile e an n w))" "runs_to w (snd (RestartRuntime e an n w))"
proof -
  have fact: "\<exists>er res w'. f = ((er, res), w')" for f :: "(gerr option \<times> command_result) \<times> world"
    by (metis surj_pair)
  show "runs_to w (snd (StartRuntime e an n r w))"
    using StartRuntime_moves [OF assms, of e an n r] fact [of "StartRuntime e an n r w"]
    by (auto simp: runs_to_def dest: moves_any)
  show "runs_to w (snd (StopRuntime e an n w))"
    using StopRuntime_moves [OF assms, of e an n] fact [of "StopRuntime e an n w"]
    by (auto simp: runs_to_def dest: moves_any)
  show "runs_to w (snd (ResetRuntimes an w))"
    using ResetRuntimes_moves [OF assms, of an] fact [of "ResetRuntimes an w"]
    by (auto simp: runs_to_def dest: moves_any)
  show "runs_to w (snd (PutProfile e an n yaml c w))"
    unfolding runs_to_def using PutProfile_moves [OF assms prod.collapse [symmetric]] moves_any by blast
  show "runs_to w (snd (DeleteProfile e an n w))"
    unfolding runs_to_def using DeleteProfile_moves [OF assms prod.collapse [symmetric]] moves2_any by blast
  show "runs_to w (snd (RestartRuntime e an n w))"
    unfolding runs_to_def using RestartRuntime_moves [OF assms prod.collapse [symmetric]] moves2_any by blast
qed

lemma delete_each_runs: "at_rest w \<Longrightarrow> runs_to w (snd (delete_each e an names w))"
proof (induction names arbitrary: w)
  case (Cons n names)
  obtain er w1 where d: "DeleteProfile e an n w = (er, w1)" by (metis surj_pair)
  then have 1: "runs_to w w1" using handler_runs(5) [OF Cons.prems, of e an n] by simp
  show ?case
  proof (cases er)
    case None
    from Cons.IH [OF runs_to_rest [OF 1]] have "runs_to w1 (snd (delete_each e an names w1))" .
    with 1 have "runs_to w (snd (delete_each e an names w1))" by (rule runs_to_trans)
    then show ?thesis by (simp add: d None split_beta)
  qed (simp add: d 1)
qed (simp add: runs_to_refl)

lemma DeleteLocalModel_runs: "at_rest w \<Longrightarrow> runs_to w (snd (DeleteLocalModel e io b path w))"
  by (simp add: DeleteLocalModel_def Let_def runs_to_refl split: prod.split sum.split)

lemma DeleteLocalModelCascade_runs:
  assumes "at_rest w" shows "runs_to w (snd (DeleteLocalModelCascade e an b path cascade w))"
proof -
  obtain er w1 where d: "DeleteLocalModel e (an_io an) b path w = (er, w1)" by (metis surj_pair)
  then have 1: "runs_to w w1" using DeleteLocalModel_runs [OF assms, of e "an_io an" b path] by simp
  have 2: "runs_to w (snd (delete_each e an used w1))" for used
    using delete_each_runs [OF runs_to_rest [OF 1]] by (rule runs_to_trans [OF 1])
  show ?thesis
    using 1 2 by (simp add: DeleteLocalModelCascade_def d runs_to_refl assms split: sum.split option.split)
qed

lemma CleanupProfile_runs:
  assumes "at_rest w" shows "runs_to w (snd (CleanupProfile e an n w))"
proof -
  obtain er w1 where d: "DeleteProfile e an n w = (er, w1)" by (metis surj_pair)
  then have 1: "runs_to w w1" using handler_runs(5) [OF assms, of e an n] by simp
  have "runs_to w (snd (cleanup_profile e an n w))"
    using 1 by (simp add: cleanup_profile_def Let_def d runs_to_refl assms split: sum.split option.split prod.split)
  then show ?thesis by (simp add: CleanupProfile_def split_beta)
qed

lemma ApplyDownload_runs:
  assumes "at_rest w" shows "runs_to w (snd (ApplyDownloadToProfile e my an n jid w))"
proof -
  have "runs_to w (snd (PutProfile e an n y False w))" for y by (rule handler_runs(4) [OF assms])
  then show ?thesis
    using assms by (simp add: ApplyDownloadToProfile_def runs_to_refl split_beta split: sum.split)
qed

lemma RuntimeStatus_mgr: "w_mgr (snd (RuntimeStatus e io n w)) = w_mgr w"
proof -
  have "w_mgr w' = w_mgr w" if "proc_status io h w = (ps, w')" for h ps w'
    using w_mgr_frame(6) [of io h w] that by simp
  then show ?thesis
    by (simp add: RuntimeStatus_def split: sum.split prod.split option.split rt_state.split)
qed

text \<open>
  Autostart is a sequence of starts without \<open>replace\<close>, among changes that leave the slot alone. It refines
  the specification's starts, and is one more run of the daemon.
\<close>

definition start_step :: "active \<Rightarrow> active \<Rightarrow> bool" where
  "start_step a a' \<longleftrightarrow> (\<exists>b n. act_step (RStart b n False) a a')"

definition same_slot :: "world \<Rightarrow> world \<Rightarrow> bool" where
  "same_slot w w' \<longleftrightarrow> m_slot (w_mgr w') = m_slot (w_mgr w) \<and> m_ops (w_mgr w') = m_ops (w_mgr w)"

inductive start_only :: "deps \<Rightarrow> world \<Rightarrow> world \<Rightarrow> bool" for e where
  so_start: "start_only e w (snd (StartRuntime e an n False w))"
| so_same: "same_slot w w' \<Longrightarrow> start_only e w w'"

lemma same_slot_mgr: "w_mgr w' = w_mgr w \<Longrightarrow> same_slot w w'"
  by (simp add: same_slot_def)

lemma same_slot_recordAutostart: "same_slot w (recordAutostart n d er w)"
  by (simp add: same_slot_def recordAutostart_def)

lemma same_slot_act: "same_slot w w' \<Longrightarrow> act w' = act w" "same_slot w w' \<Longrightarrow> at_rest w' = at_rest w"
  using mgr_inv_cong [of "w_mgr w'" "w_mgr w"] by (auto simp: same_slot_def act_def at_rest_def quiet_def)

interpretation starts: simulation act at_rest start_step "start_only e" for e
proof
  have start: "\<exists>b. moves (RStart b n False) w (snd (StartRuntime e an n False w))" if "at_rest w" for w an n
    using StartRuntime_moves [OF that] by (metis surj_pair snd_conv)
  show "at_rest w \<Longrightarrow> start_only e w w' \<Longrightarrow> at_rest w'" for w w'
    using start by (fastforce elim: start_only.cases simp: same_slot_act moves_def)
  show "start_step\<^sup>*\<^sup>* (act w) (act w')" if "at_rest w" "start_only e w w'" for w w'
    using that(2)
  proof cases
    case (so_start an n)
    with start [OF that(1), of n an] show ?thesis unfolding moves_def start_step_def by blast
  qed (simp add: same_slot_act)
qed

lemmas start_only_trans = rtranclp_trans [of "start_only e" for e]

lemma start_attempts_steps:
  "(start_only e)\<^sup>*\<^sup>* w (snd (start_attempts e an cancelled n made left w))"
proof (induction e an cancelled n made left w rule: start_attempts.induct)
  case (2 e an cancelled n made left w)
  obtain er r w1 where s: "StartRuntime e (an made) n False w = ((er, r), w1)" by (metis surj_pair)
  then have 1: "start_only e w w1" using so_start [of e w "an made" n] by simp
  show ?case
  proof (cases er)
    case (Some x)
    have "(start_only e)\<^sup>*\<^sup>* w (snd (start_attempts e an cancelled n (Suc made) left w1))"
      if "left \<noteq> 0" "cancelled made = None"
      using 2(1) [OF s [symmetric] refl Some] that 1 by (blast intro: converse_rtranclp_into_rtranclp)
    then show ?thesis using 1 by (auto simp: s Some split: option.split)
  qed (simp add: s 1 r_into_rtranclp)
qed simp

lemma autostartProfile_steps:
  "(start_only e)\<^sup>*\<^sup>* w (snd (autostartProfile e io an cancelled ctx n attempts w))"
proof -
  obtain rs w1 where st: "RuntimeStatus e io n w = (rs, w1)" by (metis surj_pair)
  then have 1: "start_only e w w1" using RuntimeStatus_mgr [of e io n w] by (auto intro: so_same same_slot_mgr)
  obtain er made c w2 where a: "start_attempts e an cancelled n 0 attempts w1 = ((er, made, c), w2)" by (metis surj_pair)
  then have 2: "(start_only e)\<^sup>*\<^sup>* w w2"
    using start_attempts_steps [of e w1 an cancelled n 0 attempts] 1 by (simp add: converse_rtranclp_into_rtranclp)
  have rec: "(start_only e)\<^sup>*\<^sup>* w (recordAutostart n d x v)" if "(start_only e)\<^sup>*\<^sup>* w v" for d x v
    using that same_slot_recordAutostart by (blast intro: rtranclp.rtrancl_into_rtrancl so_same)
  show ?thesis using 1 2 by (simp add: autostartProfile_def st a rec r_into_rtranclp split: sum.split option.split)
qed

lemma autostart_each_steps: "(start_only e)\<^sup>*\<^sup>* w (snd (autostart_each e io an cancelled ctx attempts names w))"
proof (induction names arbitrary: w)
  case (Cons n names)
  obtain er w1 where a: "autostartProfile e io (an n) (cancelled n) (ctx n) n attempts w = (er, w1)" by (metis surj_pair)
  then have 1: "(start_only e)\<^sup>*\<^sup>* w w1"
    using autostartProfile_steps [of e w io "an n" "cancelled n" "ctx n" n attempts] by simp
  with Cons.IH show ?case by (auto simp: a intro: start_only_trans split: option.split)
qed simp

lemma AutostartProfiles_steps: "(start_only e)\<^sup>*\<^sup>* w (snd (AutostartProfiles e io an cancelled ctx names w))"
  by (simp add: AutostartProfiles_def autostart_each_steps)

lemma AutostartProfiles_runs:
  assumes "at_rest w" shows "runs_to w (snd (AutostartProfiles e io an cancelled ctx names w))"
proof -
  have "start_step\<^sup>*\<^sup>* \<le> any_step\<^sup>*\<^sup>*"
    by (rule rtranclp_mono) (auto simp: start_step_def any_step_def)
  with starts.runs_refine [OF AutostartProfiles_steps assms] show ?thesis unfolding runs_to_def by blast
qed

text \<open>
  One handler run to its end, with any answers of the machine; or a change of what is outside the manager:
  the machine, the files, the downloads, the audit trail.
\<close>

inductive daemon_step :: "deps \<Rightarrow> world \<Rightarrow> world \<Rightarrow> bool" for e where
  d_start: "daemon_step e w (snd (StartRuntime e an n r w))"
| d_stop: "daemon_step e w (snd (StopRuntime e an n w))"
| d_reset: "daemon_step e w (snd (ResetRuntimes an w))"
| d_restart: "daemon_step e w (snd (RestartRuntime e an n w))"
| d_put: "daemon_step e w (snd (PutProfile e an n yaml c w))"
| d_delete: "daemon_step e w (snd (DeleteProfile e an n w))"
| d_cleanup: "daemon_step e w (snd (CleanupProfile e an n w))"
| d_apply: "daemon_step e w (snd (ApplyDownloadToProfile e my an n jid w))"
| d_delete_model: "daemon_step e w (snd (DeleteLocalModelCascade e an b path cascade w))"
| d_autostart: "daemon_step e w (snd (AutostartProfiles e io oan cancelled ctx names w))"
| d_outside: "m_slot (w_mgr w') = m_slot (w_mgr w) \<Longrightarrow> m_ops (w_mgr w') = m_ops (w_mgr w) \<Longrightarrow> daemon_step e w w'"

lemma daemon_step_runs: "daemon_step e w w' \<Longrightarrow> at_rest w \<Longrightarrow> runs_to w w'"
  by (induction rule: daemon_step.induct)
    (simp_all add: handler_runs CleanupProfile_runs ApplyDownload_runs DeleteLocalModelCascade_runs
      AutostartProfiles_runs runs_to_slot [OF runs_to_refl])

interpretation daemon: simulation act at_rest any_step "daemon_step e" for e
proof
  show "at_rest w \<Longrightarrow> daemon_step e w w' \<Longrightarrow> at_rest w'" for w w'
    using daemon_step_runs [of e w w'] by (simp add: runs_to_def)
  show "at_rest w \<Longrightarrow> daemon_step e w w' \<Longrightarrow> any_step\<^sup>*\<^sup>* (act w) (act w')" for w w'
    using daemon_step_runs [of e w w'] by (simp add: runs_to_def)
qed

section \<open>A small daemon for examples\<close>

definition ex_deps :: "bool \<Rightarrow> deps" where
  "ex_deps single =
     \<lparr>e_registry = snd (Register (demo_backend single) NewRegistry),
      e_store = ex_cfg\<lparr>ps_lookup := (\<lambda>b. Inr (demo_backend single))\<rparr>,
      e_config = None, e_downloads = None, e_home = None\<rparr>"

definition ex_files :: fs where
  "ex_files = [(''/p'', NDir), (''/p/a'', NDir), (''/p/a/profile.yaml'', NFile ''x'' 384),
     (''/p/b'', NDir), (''/p/b/profile.yaml'', NFile ''x'' 384), (''/m'', NDir), (''/m/a.gguf'', NFile ''g'' 384)]"

definition ex_answers :: answers where
  "ex_answers = \<lparr>an_io = calm_env, an_stop = ex_outcome, an_start = ex_outcome, an_reload_stop = ex_outcome,
     an_reload_start = ex_outcome\<rparr>"

definition ex_world :: world where
  "ex_world = init_world \<lparr>h_procs = [], h_files = ex_files\<rparr>"

definition ex_serving :: world where
  "ex_serving = snd (StartRuntime (ex_deps True) ex_answers ''a'' False ex_world)"

lemma ex_world_rest: "at_rest ex_world" "act ex_world = Idle"
  by (simp_all add: at_rest_def quiet_def act_def slot_active_def ex_world_def init_world_def init_mgr_def mgr_inv_def)

lemma ex_start: "\<exists>res. StartRuntime (ex_deps True) ex_answers ''a'' False ex_world = ((None, res), ex_serving)"
proof -
  have "fst (fst (StartRuntime (ex_deps True) ex_answers ''a'' False ex_world)) = None" by code_simp
  then show ?thesis unfolding ex_serving_def by (metis prod.collapse)
qed

section \<open>Properties\<close>

text \<open>
  C1: the handlers refine the specification. From rest, whatever the machine answers, each of the handlers
  that can change the runtime performs exactly one of the moves the specification gives its request (two in
  turn for deleting and restarting) and leaves the daemon at rest. A start that reports success serves its
  profile, a stop that reports success does not, and a reset that reports success leaves the daemon idle.
\<close>

theorem handlers_refine:
  assumes "at_rest w"
  shows "(case StartRuntime e an n r w of ((er, _), w') \<Rightarrow>
        \<exists>b. moves (RStart b n r) w w' \<and> (er = None \<longrightarrow> serves b n (act w'))) \<and>
    (case StopRuntime e an n w of ((er, _), w') \<Rightarrow>
        \<exists>b. moves (RStop b n) w w' \<and> (er = None \<longrightarrow> \<not> serves b n (act w'))) \<and>
    (case ResetRuntimes an w of ((er, _), w') \<Rightarrow> moves RReset w w' \<and> (er = None \<longrightarrow> act w' = Idle)) \<and>
    (case PutProfile e an n y c w of (_, w') \<Rightarrow> \<exists>b. moves (RReload b) w w') \<and>
    (case DeleteProfile e an n w of (_, w') \<Rightarrow> \<exists>b b'. moves2 (RStop b n) (RReload b') w w') \<and>
    (case RestartRuntime e an n w of (_, w') \<Rightarrow> \<exists>b b'. moves2 (RStop b n) (RStart b' n False) w w')"
  using StartRuntime_moves [OF assms] StopRuntime_moves [OF assms] ResetRuntimes_moves [OF assms]
    PutProfile_moves [OF assms] DeleteProfile_moves [OF assms] RestartRuntime_moves [OF assms]
  by (intro conjI) (simp_all split: prod.split)

theorem handlers_refine_witness: "\<exists>b. serves b ''a'' (act ex_serving) \<and> at_rest ex_serving"
proof -
  obtain res where "StartRuntime (ex_deps True) ex_answers ''a'' False ex_world = ((None, res), ex_serving)"
    using ex_start by blast
  with conjunct1 [OF handlers_refine [where e = "ex_deps True" and an = ex_answers and n = "''a''" and r = False, OF ex_world_rest(1)]]
  show ?thesis by (auto simp: moves_def)
qed



text \<open>
  autostart disturbs nothing. Whatever profiles it is given and whatever fails, it only starts: when the
  daemon already serves profiles, all of them are still served, by the same backend, when it is done.
\<close>

theorem autostart_disturbs_nothing:
  assumes "at_rest w" and "act w = Serving b ps"
  shows "\<exists>ps'. act (snd (AutostartProfiles e io an cancelled ctx names w)) = Serving b ps' \<and> set ps \<subseteq> set ps'"
proof (rule starts.runs_keep [OF AutostartProfiles_steps assms(1)])
  show "\<exists>ps'. a' = Serving b ps' \<and> set ps \<subseteq> set ps'"
    if "\<exists>ps'. a = Serving b ps' \<and> set ps \<subseteq> set ps'" "start_step a a'" for a a'
    using that by (auto simp: start_step_def elim!: act_step.cases)
qed (simp add: assms(2))

theorem autostart_disturbs_nothing_witness:
  "\<exists>ps'. act (snd (AutostartProfiles (ex_deps True) calm_env (\<lambda>_ _. ex_answers) (\<lambda>_ _. None) (\<lambda>_. None)
     [''b''] ex_serving)) = Serving ''demo'' ps' \<and> ''a'' \<in> set ps'"
proof -
  have rest: "at_rest ex_serving"
    using handler_runs(1) [OF ex_world_rest(1)] unfolding ex_serving_def by (rule runs_to_rest)
  have "act ex_serving = Serving ''demo'' [''a'']" unfolding ex_serving_def by code_simp
  from autostart_disturbs_nothing [OF rest this] show ?thesis by simp
qed

end
