(* ===== verification/Recovery.thy ===== *)
theory Recovery
  imports Manager
begin

text \<open>
  Reconciling the engines that survived the previous daemon into the one runtime slot, before the control
  server accepts requests: \<^verbatim>\<open>core/control/recovery.go\<close>. What the machine answers about a candidate is a
  function of its profile; the answers may differ from one candidate to the next.
\<close>

section \<open>Candidates\<close>

record candidate =
  cd_profile :: string
  cd_backend :: backend
  cd_spec :: launch_spec

definition recoveryCandidate :: "deps \<Rightarrow> io_env \<Rightarrow> profile_doc \<Rightarrow> world \<Rightarrow> gerr + candidate" where
  "recoveryCandidate e io doc w =
     (case mgr_Backend (e_registry e) (p_backend (d_effective doc)) of
        Inl er \<Rightarrow> Inl er
      | Inr b \<Rightarrow>
          (case materialize e io b (d_effective doc) w of
             Inl er \<Rightarrow> Inl (core_wrap ErrorInvalidInput er)
           | Inr mat \<Rightarrow>
               (case b_launch b (d_effective doc) mat of
                  Inl er \<Rightarrow> Inl (core_wrap ErrorInvalidInput er)
                | Inr spec \<Rightarrow> Inr \<lparr>cd_profile = d_name doc, cd_backend = b, cd_spec = spec\<rparr>)))"

definition group_key :: "candidate \<Rightarrow> string" where
  "group_key c = Join [sp_pid_dir (cd_spec c), sp_name (cd_spec c) @ ''.pid'']"

text \<open>The groups in the order their keys were first seen, each with its candidates in order.\<close>

fun add_candidate :: "candidate \<Rightarrow> (string \<times> candidate list) list \<Rightarrow> (string \<times> candidate list) list" where
  "add_candidate c [] = [(group_key c, [c])]"
| "add_candidate c ((k, cs) # gs) =
     (if k = group_key c then (k, cs @ [c]) # gs else (k, cs) # add_candidate c gs)"

fun group_docs ::
    "deps \<Rightarrow> io_env \<Rightarrow> world \<Rightarrow> profile_doc list \<Rightarrow> (string \<times> candidate list) list \<Rightarrow>
     gerr + (string \<times> candidate list) list" where
  "group_docs e io w [] gs = Inr gs"
| "group_docs e io w (doc # docs) gs =
     (case recoveryCandidate e io doc w of
        Inl er \<Rightarrow> Inl er
      | Inr c \<Rightarrow> group_docs e io w docs (add_candidate c gs))"

section \<open>One attempt\<close>

record attempt =
  at_candidate :: candidate
  at_process :: nat
  at_op :: operation

definition recovery_slot :: "candidate \<Rightarrow> nat \<Rightarrow> rt_state \<Rightarrow> string \<Rightarrow> slot" where
  "recovery_slot c h state op =
     \<lparr>s_backend = b_name (cd_backend c), s_process = Some h, s_address = spec_address (cd_spec c),
      s_profiles = [cd_profile c], s_state = state, s_op = op\<rparr>"

definition beginRecovery :: "candidate \<Rightarrow> world \<Rightarrow> attempt \<times> world" where
  "beginRecovery c w =
     (let (h, w1) = factory (cd_spec c) w;
          m = (w_mgr w1)\<lparr>m_slot := Some (recovery_slot c h Stopped [])\<rparr>;
          (op, m') = reserveLocked (cd_profile c) (b_name (cd_backend c)) Reconciling m
      in (\<lparr>at_candidate = c, at_process = h, at_op = op\<rparr>, w1\<lparr>w_mgr := m'\<rparr>))"

definition clearRecovery :: "operation \<Rightarrow> world \<Rightarrow> world" where
  "clearRecovery op w = on_mgr (if_owner op (\<lambda>s. None)) w"

definition restoreRouterProfiles :: "attempt \<Rightarrow> candidate list \<Rightarrow> world \<Rightarrow> world" where
  "restoreRouterProfiles a cs w =
     (let c = at_candidate a
      in if cap_single_active (b_caps (cd_backend c)) then w
         else
           (let ps = map cd_profile
                  (filter (\<lambda>d. b_name (cd_backend d) = b_name (cd_backend c) \<and>
                               spec_address (cd_spec d) = spec_address (cd_spec c)) cs)
            in on_mgr (if_owner (at_op a) (\<lambda>s. Some (s\<lparr>s_profiles := ps\<rparr>))) w))"

definition restoreRecovery :: "attempt \<Rightarrow> rt_state \<Rightarrow> world \<Rightarrow> world" where
  "restoreRecovery a state w =
     on_mgr (\<lambda>m. m\<lparr>m_slot := Some (recovery_slot (at_candidate a) (at_process a) state (op_id (at_op a)))\<rparr>) w"

definition recover_event :: "attempt \<Rightarrow> rt_state \<Rightarrow> recovery_class option \<Rightarrow> gerr option \<Rightarrow> audit_event" where
  "recover_event a state class er =
     (core_event ''runtime.recover'' (map_option mapRuntimeError er))
       \<lparr>ae_success := (class = Some RecoveryValidAdoptee), ae_operation_id := op_id (at_op a),
        ae_profile := cd_profile (at_candidate a), ae_backend := b_name (cd_backend (at_candidate a)),
        ae_state := Some state, ae_recovery := class\<rparr>"

definition finishRecovery ::
    "attempt \<Rightarrow> rt_state \<Rightarrow> recovery_class option \<Rightarrow> gerr option \<Rightarrow> world \<Rightarrow> world" where
  "finishRecovery a state class er w =
     on_mgr (\<lambda>m. record_audit (recover_event a state class er)
               (if_owner (at_op a)
                  (\<lambda>s. if state = Stopped then None else Some (s\<lparr>s_state := state, s_op := []\<rparr>))
                  (transition (at_op a) Reconciling None m))) w"

section \<open>Groups\<close>

text \<open>Every candidate of a group names the same PID file. The last failed attempt decides.\<close>

fun recover_loop ::
    "(string \<Rightarrow> outcome) \<Rightarrow> candidate list \<Rightarrow> candidate list \<Rightarrow> (attempt \<times> gerr) option \<Rightarrow> world \<Rightarrow>
     (bool \<times> gerr option) \<times> world" where
  "recover_loop oc all [] failed w =
     (case failed of
        None \<Rightarrow> ((False, None), w)
      | Some (a, er) \<Rightarrow>
          (let class = RecoveryClass (Some er);
               state = (if class = Some RecoveryStalePIDFile then Stopped else Orphaned)
           in ((state = Orphaned, None), finishRecovery a state class (Some er) (restoreRecovery a state w))))"
| "recover_loop oc all (c # cs) failed w =
     (let (a, w1) = beginRecovery c w
      in case proc_recover (oc (cd_profile c)) (at_process a) w1 of
           ((True, er), w2) \<Rightarrow>
             ((True, None),
              finishRecovery a Running (Some RecoveryValidAdoptee) None (restoreRouterProfiles a all w2))
         | ((False, None), w2) \<Rightarrow> recover_loop oc all cs failed (clearRecovery (at_op a) w2)
         | ((False, Some er), w2) \<Rightarrow>
             if RecoveryClass (Some er) \<noteq> None
             then recover_loop oc all cs (Some (a, er)) (clearRecovery (at_op a) w2)
             else ((False, Some (mapRuntimeError er)), clearRecovery (at_op a) w2))"

definition recoverGroup :: "(string \<Rightarrow> outcome) \<Rightarrow> candidate list \<Rightarrow> world \<Rightarrow> (bool \<times> gerr option) \<times> world" where
  "recoverGroup oc cs w = recover_loop oc cs cs None w"

fun recover_groups ::
    "(string \<Rightarrow> outcome) \<Rightarrow> (string \<times> candidate list) list \<Rightarrow> world \<Rightarrow> gerr option \<times> world" where
  "recover_groups oc [] w = (None, w)"
| "recover_groups oc ((k, cs) # gs) w =
     (case recoverGroup oc cs w of
        ((done, er), w1) \<Rightarrow> if er \<noteq> None \<or> done then (er, w1) else recover_groups oc gs w1)"

definition RecoverRuntimes :: "deps \<Rightarrow> io_env \<Rightarrow> (string \<Rightarrow> outcome) \<Rightarrow> world \<Rightarrow> gerr option \<times> world" where
  "RecoverRuntimes e io oc w =
     (case ps_ListDocuments (e_store e) io (w_fs w) of
        Inl er \<Rightarrow> (Some (mapProfileError er), w)
      | Inr docs \<Rightarrow>
          (case group_docs e io w docs [] of
             Inl er \<Rightarrow> (Some er, w)
           | Inr gs \<Rightarrow> recover_groups oc gs w))"

end
