(* ===== verification/Handlers.thy ===== *)
theory Handlers
  imports Active Recovery
begin

text \<open>
  What single requests guarantee, end to end: the error of a missing profile, a preview and the write it
  previews, the models a deletion may take, the processes a start may end, and what autostart records.
\<close>

section \<open>Missing profiles\<close>

text \<open>The profile's directory is absent and the call that looks for it works.\<close>

definition missing :: "deps \<Rightarrow> io_env \<Rightarrow> string \<Rightarrow> world \<Rightarrow> bool" where
  "missing e io n w \<longleftrightarrow>
     store_ok (e_store e) \<and> ValidateName n = None \<and> io_fail io (OpLstat (pdir (e_store e) n)) = None \<and>
     map_of (w_fs w) (pdir (e_store e) n) = None"

lemma GetProfile_missing:
  assumes "missing e io n w"
  shows "\<exists>er. GetProfile e io n w = Inl er \<and> Kind (Some er) = Some ErrorNotFound"
proof -
  have "ps_rejectSymlink io (pdir (e_store e) n) (w_fs w) = Some (not_exist (pdir (e_store e) n))"
    using assms by (simp add: missing_def ps_rejectSymlink_def RejectSymlink_def Lstat_def not_exist_def)
  then have "ps_Get (e_store e) io n (w_fs w) = Inl (not_exist (pdir (e_store e) n))"
    using assms by (simp add: missing_def Get_def_ok)
  then show ?thesis
    by (simp add: GetProfile_def mapProfileError_def profileErrorKinds_def not_exist_def Kind_def)
qed

lemma GetProfile_missing_handlers:
  assumes "GetProfile e (an_io an) n w = Inl er"
  shows "StartRuntime e an n r w = ((Some er, commandResult [] 0 [] None), recording ''runtime.start'' (Some er) w)"
    and "StopRuntime e an n w = ((Some er, commandResult [] 0 [] None), recording ''runtime.stop'' (Some er) w)"
    and "RestartRuntime e an n w = ((Some er, None),
           recording ''runtime.restart'' (Some er) (recording ''runtime.stop'' (Some er) w))"
    and "DeleteProfile e an n w = (Some er, recording ''profile.delete'' (Some er) w)"
    and "CleanupProfile e an n w = (Some er, recording ''profile.cleanup'' (Some er) w)"
    and "RuntimeStatus e (an_io an) n w = (Inl er, w)"
    and "ResolveProfileModel e (an_io an) n w = Inl er"
  using assms
  by (simp_all add: StartRuntime_def start_runtime_def StopRuntime_def stop_runtime_def RestartRuntime_def
      DeleteProfile_def delete_profile_def CleanupProfile_def cleanup_profile_def RuntimeStatus_def
      ResolveProfileModel_def profileBackend_def Let_def)

lemma recording_audit: "m_audit (w_mgr (recording a er w)) = m_audit (w_mgr w) @ [core_event a er]"
  by (simp add: recording_def record_audit_def)

definition only_audit :: "world \<Rightarrow> world \<Rightarrow> bool" where
  "only_audit w w' \<longleftrightarrow> (\<exists>a. w' = on_mgr (\<lambda>m. m\<lparr>m_audit := a\<rparr>) w)"

lemma only_audit_recording [simp]: "only_audit w (recording a er w)"
  by (auto simp: only_audit_def recording_def record_audit_def on_mgr_def)

lemma only_audit_recording2 [simp]: "only_audit w (recording a er (recording b er' w))"
  by (auto simp: only_audit_def recording_def record_audit_def on_mgr_def)

section \<open>Writing\<close>

lemma write_profile_content:
  assumes ok: "store_ok (e_store e)" "io_ok io" and w: "write_profile e io n y c w = (Inr doc, w')"
  shows "d_yaml doc = normalize y \<and> GetProfile e io n w' = Inr doc"
proof -
  let ?st = "e_store e"
  have create: ?thesis if "ps_Create ?st io n y (w_fs w) = (Inr doc, fs)" "w' = set_fs fs w" for fs
    using Create_content [OF ok that(1)] that(2) by (simp add: GetProfile_def w_fs_def set_fs_def)
  have get: ?thesis if "ps_Replace ?st io n y (w_fs w) = (Inr r, fs)" "ps_Get ?st io n fs = Inr doc" "w' = set_fs fs w" for r fs
    using Replace_content [OF ok(1) that(1)] that(2,3) by (auto simp: GetProfile_def w_fs_def set_fs_def)
  from w have "(\<exists>fs. ps_Create ?st io n y (w_fs w) = (Inr doc, fs) \<and> w' = set_fs fs w) \<or>
      (\<exists>r fs. ps_Replace ?st io n y (w_fs w) = (Inr r, fs) \<and> ps_Get ?st io n fs = Inr doc \<and> w' = set_fs fs w)"
    by (auto simp: write_profile_def Let_def split: if_splits sum.splits prod.splits)
  then show ?thesis using create get by blast
qed

lemma PutProfile_doc:
  assumes "store_ok (e_store e)" "io_ok (an_io an)" and "PutProfile e an n y c w = ((Some doc, er), w')"
  shows "d_yaml doc = normalize y"
proof -
  obtain r w1 where wp: "write_profile e (an_io an) n y c w = (r, w1)" by (metis surj_pair)
  with assms(3) have "r = Inr doc" by (cases r) (auto simp: PutProfile_def split: prod.splits)
  with write_profile_content [OF assms(1,2)] wp show ?thesis by blast
qed

section \<open>Deleting models\<close>

lemma unshared_conflict:
  assumes "item \<in> set items" and "sm_name item \<noteq> n"
    and "\<forall>m p. ResolveProfileModel e io (sm_name item) w = Inr (m, p) \<longrightarrow> ap_target_root p = t"
  shows "\<exists>er. unshared e io n t w items = Some er \<and> Kind (Some er) = Some ErrorConflict"
  using assms
proof (induction items)
  case (Cons i items)
  show ?case
  proof (cases "sm_name i = n \<or> i \<noteq> item \<and> unshared e io n t w (i # items) = unshared e io n t w items")
    case True
    then show ?thesis using Cons by (auto split: sum.splits prod.splits if_splits)
  next
    case False
    then show ?thesis using Cons.prems
      by (auto simp: Errorf_def Kind_def split: sum.splits prod.splits if_splits)
  qed
qed simp

lemma delete_each_all: "delete_each e an names w = ((removed, None), w') \<Longrightarrow> removed = names"
proof (induction names arbitrary: w removed)
  case (Cons n names)
  then show ?case by (auto split: prod.splits option.splits)
qed simp

lemma ProfilesUsingModel_set:
  assumes "ListProfileDocuments e io w = Inr docs" and "path \<noteq> []"
  shows "\<exists>used. ProfilesUsingModel e io path w = Inr used \<and> set used = d_name ` {d \<in> set docs. uses_model e path d}"
  using assms by (auto simp: ProfilesUsingModel_def)

section \<open>Properties\<close>



text \<open>
  a preview predicts the write. A preview fails exactly when applying the download fails before it
  writes, with the same error. Otherwise its download is complete, belongs to the profile, and the preview
  shows the profile's present text and the text that applying hands to the profile's store; when applying
  returns a document, that document holds the previewed text.
\<close>

theorem preview_predicts_apply:
  assumes "store_ok (e_store e)" and "io_ok (an_io an)"
  shows "case PreviewDownloadApply e my (an_io an) n jid w of
      Inl er \<Rightarrow> ApplyDownloadToProfile e my an n jid w = ((None, Some er), recording ''download.apply'' (Some er) w)
    | Inr (current, updated) \<Rightarrow>
        (\<exists>doc. GetProfile e (an_io an) n w = Inr doc \<and> d_yaml doc = current) \<and>
        (\<exists>job. GetDownload e jid w = Inr job \<and> j_state job \<in> {StateCompleted, StateAlreadyDownloaded} \<and>
           (j_profile job = [] \<or> j_profile job = n)) \<and>
        fst (ApplyDownloadToProfile e my an n jid w) = fst (PutProfile e an n updated False w) \<and>
        (\<forall>doc er. fst (ApplyDownloadToProfile e my an n jid w) = (Some doc, er) \<longrightarrow> d_yaml doc = normalize updated)"
proof (cases "planDownloadApply e my (an_io an) n jid w")
  case (Inl er)
  then show ?thesis by (simp add: PreviewDownloadApply_def ApplyDownloadToProfile_def)
next
  case (Inr du)
  obtain doc updated where du: "du = (doc, updated)" by (cases du)
  have "GetProfile e (an_io an) n w = Inr doc \<and> (\<exists>job. GetDownload e jid w = Inr job \<and>
      j_state job \<in> {StateCompleted, StateAlreadyDownloaded} \<and> (j_profile job = [] \<or> j_profile job = n))"
    using Inr by (auto simp: du planDownloadApply_def profileBackend_def split: sum.splits if_splits)
  moreover have "fst (ApplyDownloadToProfile e my an n jid w) = fst (PutProfile e an n updated False w)"
    by (simp add: ApplyDownloadToProfile_def Inr du split: prod.split)
  moreover have "d_yaml d = normalize updated" if "fst (PutProfile e an n updated False w) = (Some d, er)" for d er
    using PutProfile_doc [OF assms, of n updated False w d er] that by (metis prod.collapse)
  ultimately show ?thesis by (auto simp: PreviewDownloadApply_def Inr du)
qed

definition ex_job :: job where
  "ex_job = \<lparr>j_id = ''j'', j_state = StateCompleted, j_multi_file = False, j_target = ''/m/a.gguf'', j_items = 1,
     j_received = 3, j_total = 3, j_revision = [], j_error = None, j_backend = ''demo'', j_profile = ''a''\<rparr>"

definition ex_dl_world :: world where
  "ex_dl_world = ex_world\<lparr>w_dl := init_dl\<lparr>d_jobs := [(''j'', ex_job)]\<rparr>\<rparr>"

definition ex_dl_deps :: deps where
  "ex_dl_deps = (ex_deps True)\<lparr>e_downloads := Some ex_dl_cfg\<rparr>"

theorem preview_predicts_apply_witness:
  "\<exists>doc er. fst (ApplyDownloadToProfile ex_dl_deps (\<lambda>s p. Inr ''y'') ex_answers ''a'' ''j'' ex_dl_world) = (Some doc, er) \<and>
     d_yaml doc = normalize ''y''"
proof -
  have ok: "store_ok (e_store ex_dl_deps)" "io_ok (an_io ex_answers)"
  proof -
    have "base_dir (ps_root (e_store ex_dl_deps))" unfolding base_dir_def by code_simp
    then show "store_ok (e_store ex_dl_deps)" by (simp add: store_ok_def)
  qed (simp add: ex_answers_def)
  have p: "PreviewDownloadApply ex_dl_deps (\<lambda>s p. Inr ''y'') (an_io ex_answers) ''a'' ''j'' ex_dl_world = Inr (''x'', ''y'')"
    by code_simp
  have "fst (fst (ApplyDownloadToProfile ex_dl_deps (\<lambda>s p. Inr ''y'') ex_answers ''a'' ''j'' ex_dl_world)) \<noteq> None"
    by code_simp
  then obtain doc er where
    "fst (ApplyDownloadToProfile ex_dl_deps (\<lambda>s p. Inr ''y'') ex_answers ''a'' ''j'' ex_dl_world) = (Some doc, er)"
    by (metis option.exhaust prod.collapse)
  moreover have "\<forall>doc er. fst (ApplyDownloadToProfile ex_dl_deps (\<lambda>s p. Inr ''y'') ex_answers ''a'' ''j'' ex_dl_world) =
      (Some doc, er) \<longrightarrow> d_yaml doc = normalize ''y''"
    using preview_predicts_apply [OF ok, of "\<lambda>s p. Inr ''y''" "''a''" "''j''" ex_dl_world] p by simp
  ultimately show ?thesis by blast
qed



text \<open>
  C16: cleaning up spares shared models. When another profile resolves to the same local model, or cannot be
  resolved at all, the cleanup of a profile is refused as a conflict and changes nothing but the audit trail.
\<close>

theorem cleanup_spares_shared_model:
  assumes "profileBackend e (an_io an) n w = Inr db" and "ResolveProfileModel e (an_io an) n w = Inr (m, plan)"
    and "ListProfiles e (an_io an) w = Inr items" and "item \<in> set items" and "sm_name item \<noteq> n"
    and "\<forall>m' p. ResolveProfileModel e (an_io an) (sm_name item) w = Inr (m', p) \<longrightarrow> ap_target_root p = ap_target_root plan"
  shows "\<exists>er w'. CleanupProfile e an n w = (Some er, w') \<and> Kind (Some er) = Some ErrorConflict \<and> only_audit w w'"
proof -
  obtain er where "requireUnsharedTarget e (an_io an) n (ap_target_root plan) w = Some er" "Kind (Some er) = Some ErrorConflict"
    using unshared_conflict [OF assms(4-6)] assms(3) by (auto simp: requireUnsharedTarget_def)
  moreover obtain doc b where "db = (doc, b)" by (cases db)
  ultimately show ?thesis using assms(1,2) by (simp add: CleanupProfile_def cleanup_profile_def)
qed

text \<open>A backend whose every profile uses the model \<open>/m/a.gguf\<close>.\<close>

definition ex_shared_deps :: deps where
  "ex_shared_deps = (ex_deps True)\<lparr>e_registry := snd (Register
     ((demo_backend True)\<lparr>b_resolve := (\<lambda>p. Inr \<lparr>rm_source = ''/m/a.gguf'', rm_reference = [], rm_multi_file = False,
        rm_artifacts = [], rm_metadata = []\<rparr>), b_plan := (\<lambda>r. Inr ex_plan)\<rparr>) NewRegistry)\<rparr>"

theorem cleanup_spares_shared_model_witness:
  "\<exists>er w'. CleanupProfile ex_shared_deps ex_answers ''a'' ex_world = (Some er, w') \<and> Kind (Some er) = Some ErrorConflict"
proof -
  let ?io = "an_io ex_answers"
  have "\<not> isl (profileBackend ex_shared_deps ?io ''a'' ex_world)" by code_simp
  then obtain db where db: "profileBackend ex_shared_deps ?io ''a'' ex_world = Inr db"
    by (cases "profileBackend ex_shared_deps ?io ''a'' ex_world") auto
  have res: "map_sum (\<lambda>_. ()) snd (ResolveProfileModel ex_shared_deps ?io n ex_world) = Inr ex_plan"
    if "n \<in> {''a'', ''b''}" for n using that by (elim insertE emptyE; hypsubst; code_simp)
  have "map_sum (\<lambda>_. ()) snd (ResolveProfileModel ex_shared_deps ?io ''a'' ex_world) = Inr ex_plan"
    by (rule res) simp
  then obtain m where m: "ResolveProfileModel ex_shared_deps ?io ''a'' ex_world = Inr (m, ex_plan)"
    by (cases "ResolveProfileModel ex_shared_deps ?io ''a'' ex_world") auto
  have names: "map_sum (\<lambda>_. ()) (map sm_name) (ListProfiles ex_shared_deps ?io ex_world) = Inr [''a'', ''b'']" by code_simp
  then obtain items where l: "ListProfiles ex_shared_deps ?io ex_world = Inr items" "map sm_name items = [''a'', ''b'']"
    by (cases "ListProfiles ex_shared_deps ?io ex_world") auto
  then have "''b'' \<in> sm_name ` set items" by (metis list.set_intros(1,2) set_map)
  then obtain item where i: "item \<in> set items" "sm_name item = ''b''" by (metis imageE)
  have "\<forall>m' p. ResolveProfileModel ex_shared_deps ?io (sm_name item) ex_world = Inr (m', p) \<longrightarrow>
      ap_target_root p = ap_target_root ex_plan" using res [of "''b''"] i by auto
  from cleanup_spares_shared_model [OF db m l(1) i(1) _ this] i(2) show ?thesis by auto
qed

section \<open>Processes\<close>

definition procs :: "world \<Rightarrow> nat set" where
  "procs w = pids (w_host w)"

lemma procs_frame [simp]:
  "procs (set_fs fs w) = procs w" "procs (on_mgr f w) = procs w" "procs (recording a er w) = procs w"
  "procs (w\<lparr>w_mgr := m\<rparr>) = procs w" "procs (fail op x k w) = procs w" "procs (snd (factory spec w)) = procs w"
  by (simp_all add: procs_def set_fs_def on_mgr_def recording_def fail_def factory_def)

lemma procs_files: "files_only w w' \<Longrightarrow> procs w' = procs w"
  by (auto simp: files_only_def)

lemma procs_start:
  assumes "proc_start oc h w = (r, w')" and "oc_spawn oc \<noteq> Inr 0"
    and "\<forall>p. new_pid oc = Some p \<longrightarrow> p \<notin> procs w"
  shows "procs w \<subseteq> procs w'" "procs w' \<subseteq> procs w \<union> set_option (new_pid oc)"
proof -
  obtain er res s' h' where s: "sup_start oc (w_sups w ! h) (w_host w) = ((er, res), s', h')" by (metis surj_pair)
  then have "procs w' = pids h'" using assms(1) by (auto simp: proc_start_def procs_def)
  with sup_start_spec [OF s assms(2)] assms(3) show "procs w \<subseteq> procs w'" "procs w' \<subseteq> procs w \<union> set_option (new_pid oc)"
    by (auto simp: procs_def)
qed

lemma run_start_procs:
  assumes run: "run_start an b p spec plan w = (r, w')" and "spl_stop plan = None"
    and new: "oc_spawn (an_start an) \<noteq> Inr 0" "\<forall>p. new_pid (an_start an) = Some p \<longrightarrow> p \<notin> procs w"
  shows "procs w \<subseteq> procs w' \<and> procs w' \<subseteq> procs w \<union> set_option (new_pid (an_start an)) \<and>
    (\<not> spl_spawn plan \<longrightarrow> procs w' = procs w)"
proof (cases "spl_spawn plan")
  case False
  with run assms(2) show ?thesis by (auto simp: run_start_def Let_def)
next
  case True
  obtain h w1 where f: "factory spec (on_mgr (transition (spl_op plan) Starting None) w) = (h, w1)" by (metis surj_pair)
  then have w1: "procs w1 = procs w" using procs_frame(6) [of spec "on_mgr (transition (spl_op plan) Starting None) w"] by simp
  obtain se res w2 where s: "proc_start (an_start an) h w1 = ((se, res), w2)" by (metis surj_pair)
  have "procs w' = procs w2"
    using run assms(2) True f s by (cases se) (auto simp: run_start_def Let_def)
  with procs_start [OF s new(1)] new(2) w1 True show ?thesis by auto
qed

text \<open>
  C7: a start ends no engine. Without \<open>replace\<close>, a start ends no process of the machine, whether it succeeds
  or fails, and creates at most the one it spawned; when the daemon already has a runtime it leaves the
  processes as they are.
\<close>

theorem start_ends_no_engine:
  assumes "StartRuntime e an n False w = (r, w')"
    and new: "oc_spawn (an_start an) \<noteq> Inr 0" "\<forall>p. new_pid (an_start an) = Some p \<longrightarrow> p \<notin> procs w"
  shows "procs w \<subseteq> procs w' \<and> procs w' \<subseteq> procs w \<union> set_option (new_pid (an_start an)) \<and>
    (act w \<noteq> Idle \<longrightarrow> procs w' = procs w)"
proof -
  obtain er res w1 where s: "start_runtime e an n False w = ((er, res), w1)" "procs w' = procs w1"
    using assms(1) by (auto simp: StartRuntime_def split: prod.splits)
  from s(1) show ?thesis
  proof (cases rule: start_runtime_cases)
    case refused
    then show ?thesis using s(2) procs_files by auto
  next
    case (runs b p spec plan w2 m)
    have p2: "procs (w2\<lparr>w_mgr := m\<rparr>) = procs w" using procs_files [OF runs(2)] by simp
    from runs(1) have "spl_stop plan = None \<and> (spl_spawn plan \<longrightarrow> act w = Idle)"
      by (cases rule: reserveStart_cases) (auto simp: act_def slot_active_def)
    with run_start_procs [OF runs(3) _ new(1)] new(2) p2 s(2) show ?thesis by auto
  qed
qed

theorem start_ends_no_engine_witness:
  "procs (snd (StartRuntime (ex_deps True) ex_answers ''a'' False ex_world)) \<subseteq> {7}"
proof -
  have "procs ex_world = {}" by (simp add: procs_def pids_def alive_def ex_world_def init_world_def)
  moreover have "new_pid (an_start ex_answers) = Some 7" "oc_spawn (an_start ex_answers) \<noteq> Inr 0"
    by (simp_all add: ex_answers_def ex_outcome_def new_pid_def)
  ultimately show ?thesis using start_ends_no_engine [OF prod.collapse [symmetric], of ex_answers ex_world] by simp
qed

lemma end_stop_procs:
  assumes "end_stop an op c h w = ((er, r), w')" and wf: "sup_wf (w_sups w ! h) (w_host w)"
  shows "procs w - set_option (knows (w_sups w ! h) (w_host w)) \<subseteq> procs w' \<and> procs w' \<subseteq> procs w \<and>
    (er = None \<longrightarrow> procs w' = procs w - set_option (knows (w_sups w ! h) (w_host w)))"
proof -
  obtain se res s' h' where s: "sup_stop (an_stop an) (w_sups w ! h) (w_host w) = ((se, res), s', h')" by (metis surj_pair)
  have "procs w' = pids h' \<and> (er = None \<longleftrightarrow> se = None)"
    using assms(1) s by (auto simp: end_stop_def proc_stop_def on_mgr_def procs_def fail_def split: option.splits)
  with sup_stop_spec [OF s wf] show ?thesis by (simp add: procs_def)
qed

text \<open>
  C8: a stop ends at most its engine. Stopping a profile ends no process but the one the slot's supervisor
  knows, starts none, and ends none while other profiles remain on the engine; when it stops the engine's
  only profile and reports success, the process the supervisor knew is gone.
\<close>

theorem stop_ends_at_most_its_engine:
  assumes "StopRuntime e an n w = ((er, res), w')" and slot: "m_slot (w_mgr w) = Some s" "s_process s = Some h"
    and wf: "sup_wf (w_sups w ! h) (w_host w)"
  shows "procs w - set_option (knows (w_sups w ! h) (w_host w)) \<subseteq> procs w' \<and> procs w' \<subseteq> procs w \<and>
    (1 < length (s_profiles s) \<longrightarrow> procs w' = procs w) \<and>
    (er = None \<and> s_profiles s = [n] \<and> (\<exists>doc b. profileBackend e (an_io an) n w = Inr (doc, b) \<and> b_name b = s_backend s) \<longrightarrow>
       procs w' = procs w - set_option (knows (w_sups w ! h) (w_host w)))"
proof -
  let ?K = "set_option (knows (w_sups w ! h) (w_host w))"
  obtain w1 where run: "stop_runtime e an n w = ((er, res), w1)" "procs w' = procs w1"
    using assms(1) by (auto simp: StopRuntime_def split: prod.splits)
  from run(1) show ?thesis
  proof (cases rule: stop_runtime_cases)
    case refused
    then show ?thesis using run(2) by auto
  next
    case (vacant doc b)
    then show ?thesis using run(2) slot by auto
  next
    case (stop doc b s' op m)
    then have s': "s' = s" using slot by simp
    show ?thesis
    proof (cases "1 < length (s_profiles s)")
      case True
      with stop(10) s' have "procs w1 = procs w" by auto
      then show ?thesis using run(2) True by auto
    next
      case False
      with stop(10) s' slot(2) have "end_stop an op (commitStop op) h (w\<lparr>w_mgr := m\<rparr>) = ((er, res), w1)" by simp
      from end_stop_procs [OF this] wf run(2) False show ?thesis by simp
    qed
  qed
qed

theorem stop_ends_at_most_its_engine_witness:
  "procs (snd (StopRuntime (ex_deps True) ex_answers ''a'' ex_serving)) = {}"
proof -
  have slot: "m_slot (w_mgr ex_serving) = Some (the (m_slot (w_mgr ex_serving)))"
    "s_process (the (m_slot (w_mgr ex_serving))) = Some 0" "s_profiles (the (m_slot (w_mgr ex_serving))) = [''a'']"
    unfolding ex_serving_def by code_simp+
  have wf: "sup_wf (w_sups ex_serving ! 0) (w_host ex_serving)"
  proof -
    have "sv_done (w_sups ex_serving ! 0) = None" unfolding ex_serving_def by code_simp
    then show ?thesis by (simp add: sup_wf_def)
  qed
  obtain er res w' where st: "StopRuntime (ex_deps True) ex_answers ''a'' ex_serving = ((er, res), w')" by (metis surj_pair)
  have "fst (fst (StopRuntime (ex_deps True) ex_answers ''a'' ex_serving)) = None"
    "map_sum (\<lambda>_. ()) (b_name \<circ> snd) (profileBackend (ex_deps True) (an_io ex_answers) ''a'' ex_serving) =
       Inr (s_backend (the (m_slot (w_mgr ex_serving))))"
    "map fst (h_procs (w_host ex_serving)) = [7]" "knows (w_sups ex_serving ! 0) (w_host ex_serving) = Some 7"
    unfolding ex_serving_def by code_simp+
  note facts = this
  obtain doc b where "profileBackend (ex_deps True) (an_io ex_answers) ''a'' ex_serving = Inr (doc, b)"
      "b_name b = s_backend (the (m_slot (w_mgr ex_serving)))"
    using facts(2) by (cases "profileBackend (ex_deps True) (an_io ex_answers) ''a'' ex_serving") auto
  with stop_ends_at_most_its_engine [OF st slot(1,2) wf] facts(1,4) slot(3) st
  have "procs w' = procs ex_serving - {7}" by auto
  moreover have "procs ex_serving \<subseteq> set (map fst (h_procs (w_host ex_serving)))"
    by (auto simp: procs_def pids_def alive_def dest!: map_of_SomeD intro: rev_image_eqI)
  ultimately show ?thesis using facts(3) st by auto
qed

section \<open>The audit trail of starts\<close>

definition logs :: "(audit_event list \<Rightarrow> bool) \<Rightarrow> world \<Rightarrow> world \<Rightarrow> bool" where
  "logs P w w' \<longleftrightarrow> (\<exists>new. m_audit (w_mgr w') = m_audit (w_mgr w) @ new \<and> P new)"

definition transitions :: "audit_event list \<Rightarrow> bool" where
  "transitions es \<longleftrightarrow> (\<forall>x\<in>set es. ae_action x = ''runtime.transition'')"

definition named :: "string \<Rightarrow> audit_event list \<Rightarrow> audit_event list" where
  "named a = filter (\<lambda>x. ae_action x = a)"

lemma named_simps [simp]: "named a [] = []" "named a (x # xs) = (if ae_action x = a then x # named a xs else named a xs)"
  "named a (xs @ ys) = named a xs @ named a ys"
  by (simp_all add: named_def)

lemma named_transitions: "transitions es \<Longrightarrow> a \<noteq> ''runtime.transition'' \<Longrightarrow> named a es = []"
  by (auto simp: transitions_def named_def filter_empty_conv)

lemma logs_trans:
  "logs P w v \<Longrightarrow> logs Q v w' \<Longrightarrow> (\<And>xs ys. P xs \<Longrightarrow> Q ys \<Longrightarrow> R (xs @ ys)) \<Longrightarrow> logs R w w'"
  unfolding logs_def by (metis append.assoc)

lemma logs_refl: "m_audit (w_mgr w') = m_audit (w_mgr w) \<Longrightarrow> P [] \<Longrightarrow> logs P w w'"
  by (simp add: logs_def)

lemma transitions_append: "transitions xs \<Longrightarrow> transitions ys \<Longrightarrow> transitions (xs @ ys)"
  by (auto simp: transitions_def)

lemmas logs_transitions = logs_trans [where P = transitions and Q = transitions and R = transitions, OF _ _ transitions_append]

lemma logs_mgr [simp]:
  "logs transitions w (on_mgr (transition op st er) w)" "logs transitions w (on_mgr (commitStart op h) w)"
  "logs transitions w (fail op x k w)"
  by (simp_all add: logs_def transitions_def transition_event_def commitStart_def fail_op_def fail_def)

lemma logs_same: "w_mgr w' = w_mgr w \<Longrightarrow> logs transitions w w'"
  by (simp add: logs_def transitions_def)

lemma run_start_logs:
  assumes "run_start an b p spec plan w = (r, w')" and "spl_stop plan = None"
  shows "logs transitions w w'"
proof (cases "spl_spawn plan")
  case False
  with assms have "w' = on_mgr (commitStart (spl_op plan) None) (on_mgr (transition (spl_op plan) Activating None) w)"
    by (auto simp: run_start_def Let_def)
  then show ?thesis using logs_transitions [OF logs_mgr(1) logs_mgr(2)] by simp
next
  case True
  let ?w0 = "on_mgr (transition (spl_op plan) Starting None) w"
  obtain h w1 where f: "factory spec ?w0 = (h, w1)" by (metis surj_pair)
  obtain se res w2 where s: "proc_start (an_start an) h w1 = ((se, res), w2)" by (metis surj_pair)
  have "w_mgr w2 = w_mgr ?w0" using w_mgr_calls(1) [OF f] w_mgr_calls(2) [OF s] by simp
  then have 2: "logs transitions w w2" by (rule logs_transitions [OF logs_mgr(1) logs_same])
  show ?thesis
  proof (cases se)
    case None
    with assms True f s have "w' = on_mgr (commitStart (spl_op plan) (Some h)) (on_mgr (transition (spl_op plan) Activating None) w2)"
      by (auto simp: run_start_def Let_def)
    then show ?thesis using logs_transitions [OF 2 logs_transitions [OF logs_mgr(1) logs_mgr(2)]] by simp
  next
    case (Some x)
    with assms True f s have "w' = fail (spl_op plan) (mapRuntimeError x) False w2"
      by (auto simp: run_start_def Let_def)
    then show ?thesis using logs_transitions [OF 2 logs_mgr(3)] by simp
  qed
qed

text \<open>A start without \<open>replace\<close> records its transitions and then itself.\<close>

lemma StartRuntime_logs:
  assumes "StartRuntime e an n False w = ((er, res), w')"
  shows "logs (\<lambda>new. \<exists>ts. transitions ts \<and> new = ts @ [core_event ''runtime.start'' er]) w w'"
proof -
  obtain w1 where s: "start_runtime e an n False w = ((er, res), w1)" "w' = recording ''runtime.start'' er w1"
    using assms by (auto simp: StartRuntime_def split: prod.splits)
  have "logs transitions w w1" using s(1)
  proof (cases rule: start_runtime_cases)
    case refused
    then show ?thesis by (simp add: logs_same files_only_mgr)
  next
    case (runs b p spec plan w2 m)
    from runs(1) have "spl_stop plan = None" by (cases rule: reserveStart_cases) simp_all
    from run_start_logs [OF runs(3) this] have "logs transitions (w2\<lparr>w_mgr := m\<rparr>) w1" .
    moreover have "m_audit m = m_audit (w_mgr w)"
      using runs(1) by (auto simp: reserveStart_def reserveLocked_def Let_def split: option.splits if_splits)
    ultimately show ?thesis by (simp add: logs_def)
  qed
  then show ?thesis by (auto simp: logs_def s(2) recording_audit)
qed

definition starts_at_most :: "nat \<Rightarrow> audit_event list \<Rightarrow> bool" where
  "starts_at_most k new \<longleftrightarrow> named ''runtime.autostart'' new = [] \<and> length (named ''runtime.start'' new) \<le> k"

lemma starts_at_most_one: "transitions ts \<Longrightarrow> starts_at_most (Suc k) (ts @ [core_event ''runtime.start'' er])"
  by (simp add: starts_at_most_def named_transitions core_event_def)

lemma start_attempts_logs:
  assumes "\<forall>k. cancelled k = None"
  shows "logs (starts_at_most left) w (snd (start_attempts e an cancelled n made left w)) \<and>
    snd (snd (fst (start_attempts e an cancelled n made left w))) = None"
proof (induction left arbitrary: made w)
  case 0
  show ?case by (simp add: logs_refl starts_at_most_def)
next
  case (Suc left)
  obtain er r w1 where s: "StartRuntime e (an made) n False w = ((er, r), w1)" by (metis surj_pair)
  have 1: "logs (starts_at_most (Suc k)) w w1" for k
    using StartRuntime_logs [OF s] starts_at_most_one by (auto simp: logs_def)
  have 2: "logs (starts_at_most (Suc left)) w (snd (start_attempts e an cancelled n (Suc made) left w1))"
    by (rule logs_trans [OF 1 [of 0] conjunct1 [OF Suc.IH]]) (auto simp: starts_at_most_def)
  have "cancelled made = None" using assms by simp
  then show ?case using 1 [of left] 2 Suc.IH [where made = "Suc made" and w = w1] by (cases er; cases "left = 0") (simp_all add: s)
qed

definition one_record :: "string \<Rightarrow> nat \<Rightarrow> audit_event list \<Rightarrow> bool" where
  "one_record n k new \<longleftrightarrow>
     map ae_profile (named ''runtime.autostart'' new) = [n] \<and> length (named ''runtime.start'' new) \<le> k"

lemma recordAutostart_logs:
  assumes "logs (starts_at_most k) w v" shows "logs (one_record n k) w (recordAutostart n d er v)"
proof -
  have "logs (one_record n 0) v (recordAutostart n d er v)"
    by (simp add: logs_def recordAutostart_def record_audit_def one_record_def core_event_def)
  then show ?thesis by (rule logs_trans [OF assms]) (auto simp: starts_at_most_def one_record_def)
qed

lemma autostartProfile_logs:
  assumes "\<forall>k. cancelled k = None" and "ctx = None"
  shows "fst (autostartProfile e io an cancelled ctx n k w) = None \<and>
    logs (one_record n k) w (snd (autostartProfile e io an cancelled ctx n k w))"
proof -
  obtain rs w1 where st: "RuntimeStatus e io n w = (rs, w1)" by (metis surj_pair)
  then have m: "w_mgr w1 = w_mgr w" using RuntimeStatus_mgr [of e io n w] by simp
  then have 1: "logs (starts_at_most k) w w1" by (simp add: logs_refl starts_at_most_def)
  obtain er made c w2 where a: "start_attempts e an cancelled n 0 k w1 = ((er, made, c), w2)" by (metis surj_pair)
  then have 2: "logs (starts_at_most k) w w2" "c = None"
    using start_attempts_logs [OF assms(1), where left = k and w = w1 and e = e and an = an and n = n and made = 0] m by (simp_all add: logs_def)
  show ?thesis using recordAutostart_logs [OF 1] recordAutostart_logs [OF 2(1)] 2(2) assms(2)
    by (simp add: autostartProfile_def st a split: sum.split)
qed

lemma autostart_each_logs:
  assumes "\<forall>n k. cancelled n k = None" and "\<forall>n. ctx n = None"
  shows "fst (autostart_each e io an cancelled ctx k names w) = None \<and>
    logs (\<lambda>new. map ae_profile (named ''runtime.autostart'' new) = names \<and> length (named ''runtime.start'' new) \<le> k * length names)
      w (snd (autostart_each e io an cancelled ctx k names w))"
proof (induction names arbitrary: w)
  case Nil
  show ?case by (simp add: logs_refl)
next
  case (Cons n names)
  obtain er w1 where a: "autostartProfile e io (an n) (cancelled n) (ctx n) n k w = (er, w1)" by (metis surj_pair)
  have "\<forall>k. cancelled n k = None" "ctx n = None" using assms by simp_all
  from autostartProfile_logs [OF this, where k = k and w = w and e = e and io = io and an = "an n" and n = n] a
  have 1: "er = None" "logs (one_record n k) w w1" by simp_all
  have "logs (\<lambda>new. map ae_profile (named ''runtime.autostart'' new) = n # names \<and>
        length (named ''runtime.start'' new) \<le> k * length (n # names))
      w (snd (autostart_each e io an cancelled ctx k names w1))"
    by (rule logs_trans [OF 1(2) conjunct2 [OF Cons.IH]]) (auto simp: one_record_def)
  then show ?case using Cons.IH 1(1) by (simp add: a)
qed



text \<open>
  Deleting a profile while the configuration file is missing removes the profile, and then fails on the
  configuration: the caller sees an error, and the generated files still name the profile.
\<close>

lemma delete_without_config_file:
  "let e = (ex_deps True)\<lparr>e_config := Some ex_store\<rparr>; (er, w') = DeleteProfile e ex_answers ''a'' ex_serving
   in \<not> isl (GetProfile e calm_env ''a'' ex_serving) \<and> er \<noteq> None \<and> isl (GetProfile e calm_env ''a'' w')"
  unfolding ex_serving_def by code_simp

end
