(* ===== verification/Reconcile.thy ===== *)
theory Reconcile
  imports Active Recovery "HOL-Library.Multiset"
begin

text \<open>
  What reconciling at startup achieves: it ends no process, and leaves the one slot empty, or holding a
  process that was proved to be the recorded engine, or marked as orphaned, ready for the first request.
\<close>

section \<open>Candidates\<close>

definition grouped :: "(string \<times> candidate list) list \<Rightarrow> string list" where
  "grouped gs = map cd_profile (concat (map snd gs))"

lemma grouped_add: "mset (grouped (add_candidate c gs)) = add_mset (cd_profile c) (mset (grouped gs))"
  by (induction c gs rule: add_candidate.induct) (auto simp: grouped_def)

lemma recoveryCandidate_profile: "recoveryCandidate e io doc w = Inr c \<Longrightarrow> cd_profile c = d_name doc"
  by (auto simp: recoveryCandidate_def split: sum.splits)

lemma group_docs_names:
  "group_docs e io w docs gs = Inr gs' \<Longrightarrow> mset (grouped gs') = mset (map d_name docs) + mset (grouped gs)"
proof (induction docs arbitrary: gs)
  case (Cons doc docs)
  then show ?case by (auto simp: grouped_add recoveryCandidate_profile split: sum.splits)
qed simp

section \<open>Attempts\<close>

lemma beginRecovery_spec:
  assumes "beginRecovery c w = (a, w')"
  shows "at_candidate a = c" "at_process a = length (w_sups w)" "w_host w' = w_host w" "op_id (at_op a) \<noteq> []"
    "m_slot (w_mgr w') = Some (recovery_slot c (at_process a) Reconciling (op_id (at_op a)))"
  using assms by (auto simp: beginRecovery_def factory_def reserveLocked_def recovery_slot_def Let_def)

lemma proc_recover_spec:
  assumes "proc_recover oc p w = ((b, er), w')" and "p < length (w_sups w)"
  shows "w_mgr w' = w_mgr w" "h_procs (w_host w') = h_procs (w_host w)" "length (w_sups w') = length (w_sups w)"
    "b \<Longrightarrow> \<exists>pid. knows (w_sups w' ! p) (w_host w') = Some pid \<and> alive pid (w_host w)"
proof -
  obtain s' h' where r: "sup_Recover oc (w_sups w ! p) (w_host w) = ((b, er), s', h')"
    using assms(1) by (auto simp: proc_recover_def split: prod.splits)
  then have w': "w' = w\<lparr>w_sups := (w_sups w)[p := s'], w_host := h'\<rparr>" using assms(1) by (simp add: proc_recover_def)
  show "w_mgr w' = w_mgr w" "h_procs (w_host w') = h_procs (w_host w)" "length (w_sups w') = length (w_sups w)"
    using sup_Recover_spec [OF r] by (simp_all add: w')
  show "\<exists>pid. knows (w_sups w' ! p) (w_host w') = Some pid \<and> alive pid (w_host w)" if b
    using sup_Recover_spec [OF r] that assms(2) by (auto simp: w')
qed

text \<open>What a finished reconciliation leaves: \<open>done\<close> when the slot was taken.\<close>

definition reconciled :: "host \<Rightarrow> bool \<Rightarrow> world \<Rightarrow> bool" where
  "reconciled h0 finished w \<longleftrightarrow>
     h_procs (w_host w) = h_procs h0 \<and>
     (case m_slot (w_mgr w) of
        None \<Rightarrow> \<not> finished
      | Some s \<Rightarrow> finished \<and> s_op s = [] \<and> s_profiles s \<noteq> [] \<and> distinct (s_profiles s) \<and>
          (\<exists>p. s_process s = Some p \<and>
             (s_state s = Orphaned \<or>
              s_state s = Running \<and> (\<exists>pid. knows (w_sups w ! p) (w_host w) = Some pid \<and> alive pid h0))))"

lemma alive_procs: "h_procs h = h_procs h' \<Longrightarrow> alive p h = alive p h'"
  by (simp add: alive_def)

lemma finish_orphan:
  assumes "h_procs (w_host w) = h_procs h0" and "op_id (at_op a) \<noteq> []"
    and "state = (if class = Some RecoveryStalePIDFile then Stopped else Orphaned)"
  shows "reconciled h0 (state = Orphaned) (finishRecovery a state class er (restoreRecovery a state w))"
  using assms
  by (auto simp: reconciled_def finishRecovery_def restoreRecovery_def on_mgr_def m_slot_if_owner recovery_slot_def)

lemma finish_adopted:
  assumes w: "h_procs (w_host w) = h_procs h0" and a: "at_candidate a = c" "op_id (at_op a) \<noteq> []"
    and slot: "m_slot (w_mgr w) = Some (recovery_slot c (at_process a) Reconciling (op_id (at_op a)))"
    and k: "knows (w_sups w ! at_process a) (w_host w) = Some pid" "alive pid h0"
    and c: "c \<in> set cs" "distinct (map cd_profile cs)"
  shows "reconciled h0 True (finishRecovery a Running class er (restoreRouterProfiles a cs w))"
proof -
  let ?ps = "if cap_single_active (b_caps (cd_backend c)) then [cd_profile c]
    else map cd_profile (filter (\<lambda>d. b_name (cd_backend d) = b_name (cd_backend c) \<and>
      spec_address (cd_spec d) = spec_address (cd_spec c)) cs)"
  have ps: "?ps \<noteq> [] \<and> distinct ?ps" using c by (auto simp: filter_empty_conv distinct_map_filter)
  have "m_slot (w_mgr (finishRecovery a Running class er (restoreRouterProfiles a cs w))) =
      Some ((recovery_slot c (at_process a) Running [])\<lparr>s_profiles := ?ps\<rparr>)"
    using slot a by (simp add: finishRecovery_def restoreRouterProfiles_def on_mgr_def m_slot_if_owner recovery_slot_def Let_def)
  moreover have "w_sups (finishRecovery a Running class er (restoreRouterProfiles a cs w)) = w_sups w"
    "w_host (finishRecovery a Running class er (restoreRouterProfiles a cs w)) = w_host w"
    by (simp_all add: finishRecovery_def restoreRouterProfiles_def on_mgr_def Let_def)
  ultimately show ?thesis using w k ps by (simp add: reconciled_def recovery_slot_def)
qed

section \<open>Groups\<close>

lemma recover_loop_reconciled:
  assumes "recover_loop oc all cs failed w = ((fin, er), w')"
    and "h_procs (w_host w) = h_procs h0" and "m_slot (w_mgr w) = None"
    and "set cs \<subseteq> set all" and "distinct (map cd_profile all)"
    and "\<And>a x. failed = Some (a, x) \<Longrightarrow> op_id (at_op a) \<noteq> []"
  shows "reconciled h0 fin w'"
  using assms
proof (induction oc all cs failed w arbitrary: fin er w' rule: recover_loop.induct)
  case (1 oc all failed w)
  show ?case
  proof (cases failed)
    case None
    with 1 show ?thesis by (simp add: reconciled_def)
  next
    case (Some ax)
    obtain a x where ax: "ax = (a, x)" by (cases ax)
    have "reconciled h0 fin w'" if "state = (if RecoveryClass (Some x) = Some RecoveryStalePIDFile then Stopped else Orphaned)" for state
      using finish_orphan [OF "1.prems"(2) _ that, of a "Some x"] "1.prems"(1,6) that by (simp add: Some ax Let_def)
    then show ?thesis by blast
  qed
next
  case (2 oc all c cs failed w)
  obtain a w1 where b: "beginRecovery c w = (a, w1)" by (metis surj_pair)
  note a = beginRecovery_spec [OF b]
  obtain ok er2 w2 where p: "proc_recover (oc (cd_profile c)) (at_process a) w1 = ((ok, er2), w2)" by (metis surj_pair)
  have len: "at_process a < length (w_sups w1)"
    using b by (auto simp: beginRecovery_def factory_def reserveLocked_def Let_def)
  note r = proc_recover_spec [OF p len]
  have h2: "h_procs (w_host w2) = h_procs h0" using r(2) a(3) "2.prems"(2) by simp
  have c2: "h_procs (w_host (clearRecovery (at_op a) w2)) = h_procs h0" "m_slot (w_mgr (clearRecovery (at_op a) w2)) = None"
    using h2 r(1) a(5) by (simp_all add: clearRecovery_def on_mgr_def m_slot_if_owner recovery_slot_def)
  show ?case
  proof (cases ok)
    case True
    with r(4) obtain pid where pid: "knows (w_sups w2 ! at_process a) (w_host w2) = Some pid" "alive pid (w_host w1)" by blast
    have "alive pid h0" using pid(2) alive_procs [of "w_host w1" h0] a(3) "2.prems"(2) by simp
    with finish_adopted [OF h2 a(1,4) _ pid(1) _ _ "2.prems"(5)] a(5) r(1) "2.prems"(4) True "2.prems"(1) b p
    show ?thesis by auto
  next
    case False
    show ?thesis
    proof (cases er2)
      case None
      with False "2.prems"(1) b p
      have "recover_loop oc all cs failed (clearRecovery (at_op a) w2) = ((fin, er), w')" by simp
      from "2.IH"(1) [OF b [symmetric] refl p [symmetric] refl _ None this c2] False None "2.prems"(4-6) show ?thesis by auto
    next
      case (Some x)
      show ?thesis
      proof (cases "RecoveryClass (Some x) = None")
        case True
        with False Some "2.prems"(1) b p have "fin = False" "w' = clearRecovery (at_op a) w2" by simp_all
        with c2 show ?thesis by (simp add: reconciled_def)
      next
        case nc: False
        with False Some "2.prems"(1) b p
        have "recover_loop oc all cs (Some (a, x)) (clearRecovery (at_op a) w2) = ((fin, er), w')" by simp
        from "2.IH"(2) [OF b [symmetric] refl p [symmetric] refl _ Some nc this c2] False "2.prems"(4,5) a(4) show ?thesis by auto
      qed
    qed
  qed
qed

lemma recover_groups_reconciled:
  assumes "recover_groups oc gs w = (er, w')" and "h_procs (w_host w) = h_procs h0" and "m_slot (w_mgr w) = None"
    and "\<forall>(k, cs)\<in>set gs. distinct (map cd_profile cs)"
  shows "\<exists>fin. reconciled h0 fin w'"
  using assms
proof (induction oc gs w rule: recover_groups.induct)
  case (1 oc w)
  then show ?case by (auto simp: reconciled_def)
next
  case (2 oc k cs gs w)
  obtain fin er1 w1 where g: "recoverGroup oc cs w = ((fin, er1), w1)" by (metis surj_pair)
  have r: "reconciled h0 fin w1"
    by (rule recover_loop_reconciled [OF g [unfolded recoverGroup_def] "2.prems"(2,3)]) (use "2.prems"(4) in auto)
  show ?case
  proof (cases "er1 \<noteq> None \<or> fin")
    case True
    with "2.prems"(1) g r show ?thesis by auto
  next
    case False
    then have "m_slot (w_mgr w1) = None" "h_procs (w_host w1) = h_procs h0" "recover_groups oc gs w1 = (er, w')"
      using r "2.prems"(1) g by (auto simp: reconciled_def split: option.splits)
    with "2.IH" [OF g [symmetric] refl] False "2.prems"(4) show ?thesis by auto
  qed
qed

section \<open>The profiles listed\<close>

text \<open>A listing names each profile once, because a file system has each path once.\<close>

lemma below_Some: "below p q = Some name \<Longrightarrow> q = p @ ''/'' @ name"
  by (auto simp: below_def has_prefix_iff split: if_splits)

lemma dir_entries_distinct:
  assumes "distinct (map fst fs)" shows "distinct (map fst (dir_entries p fs))"
proof -
  let ?f = "\<lambda>(q, n). map_option (\<lambda>name. (name, n)) (below p q)"
  have "distinct (map fst (List.map_filter ?f fs)) \<and>
      (\<forall>name. name \<in> set (map fst (List.map_filter ?f fs)) \<longrightarrow> p @ ''/'' @ name \<in> fst ` set fs)"
    if "distinct (map fst fs)" for fs using that
  proof (induction fs)
    case (Cons e fs)
    obtain q n where e: "e = (q, n)" by (cases e)
    show ?case
    proof (cases "below p q")
      case (Some name)
      then have "q = p @ ''/'' @ name" by (rule below_Some)
      then have "name \<notin> set (map fst (List.map_filter ?f fs))" using Cons e by auto
      with Cons e Some \<open>q = p @ ''/'' @ name\<close> show ?thesis by (auto simp: List.map_filter_simps)
    qed (use Cons e in \<open>auto simp: List.map_filter_simps\<close>)
  qed (simp add: List.map_filter_simps)
  with assms have "distinct (map fst (List.map_filter ?f fs))" by blast
  then show ?thesis by (simp add: dir_entries_def distinct_map inj_on_def)
qed

lemma get_each_names:
  "store_ok st \<Longrightarrow> get_each st io fs es = Inr docs \<Longrightarrow>
     distinct (map fst es) \<Longrightarrow> distinct (map d_name docs) \<and> d_name ` set docs \<subseteq> fst ` set es"
proof (induction es arbitrary: docs)
  case (Cons e es)
  obtain name n where e: "e = (name, n)" by (cases e)
  show ?case
  proof (cases "n = NDir")
    case False
    with Cons e show ?thesis by auto
  next
    case True
    with Cons.prems e obtain d ds where d: "ps_Get st io name fs = Inr d" "get_each st io fs es = Inr ds" "docs = d # ds"
      by (auto split: sum.splits)
    have "d_name d = name" by (rule Get_doc_name [OF Cons.prems(1) d(1)])
    with Cons.IH [OF Cons.prems(1) d(2)] Cons.prems(3) d(3) e show ?thesis by auto
  qed
qed simp

lemma ListDocuments_names:
  assumes "store_ok st" and "ps_ListDocuments st io fs = Inr docs" and "distinct (map fst fs)"
  shows "distinct (map d_name docs)"
  using assms get_each_names [OF assms(1)] dir_entries_distinct [OF assms(3)]
  by (auto simp: ps_ListDocuments_def ReadDir_def split: option.splits sum.splits if_splits node.splits)

section \<open>Properties\<close>

text \<open>
  C9: reconciliation is safe and leaves the daemon ready. Started on an empty slot, whatever it finds and
  whatever the machine answers, it touches no process, and ends at rest: the slot is empty, or orphaned, or
  running with a supervisor that knows a process which was alive before.
\<close>

theorem recovery_reconciles:
  assumes "RecoverRuntimes e io oc w = (er, w')" and "m_slot (w_mgr w) = None"
    and "store_ok (e_store e)" and "distinct (map fst (w_fs w))"
  shows "h_procs (w_host w') = h_procs (w_host w) \<and> at_rest w' \<and>
    (case m_slot (w_mgr w') of
       None \<Rightarrow> True
     | Some s \<Rightarrow> (\<exists>p. s_process s = Some p \<and>
         (s_state s = Orphaned \<or>
          s_state s = Running \<and> (\<exists>pid. knows (w_sups w' ! p) (w_host w') = Some pid \<and> alive pid (w_host w)))))"
proof -
  have same: "reconciled (w_host w) False w" using assms(2) by (simp add: reconciled_def)
  have "\<exists>fin. reconciled (w_host w) fin w'"
  proof (cases "ps_ListDocuments (e_store e) io (w_fs w)")
    case (Inl x)
    with assms(1) same show ?thesis by (auto simp: RecoverRuntimes_def)
  next
    case (Inr docs)
    show ?thesis
    proof (cases "group_docs e io w docs []")
      case (Inl x)
      with assms(1) same Inr show ?thesis by (auto simp: RecoverRuntimes_def)
    next
      case gs: (Inr gs)
      have "distinct (map d_name docs)" by (rule ListDocuments_names [OF assms(3) Inr assms(4)])
      then have "distinct (grouped gs)"
        using mset_eq_imp_distinct_iff [of "grouped gs" "map d_name docs"] group_docs_names [OF gs]
        by (simp add: grouped_def)
      then have "\<forall>(k, cs)\<in>set gs. distinct (map cd_profile cs)"
        by (auto simp: grouped_def distinct_concat_iff map_concat)
      then show ?thesis
        using recover_groups_reconciled [of oc gs w er w' "w_host w"] assms(1,2) Inr gs by (simp add: RecoverRuntimes_def)
    qed
  qed
  then show ?thesis
    by (auto simp: reconciled_def at_rest_def quiet_def mgr_inv_def slot_inv_def split: option.splits)
qed

text \<open>The machine of the small daemon after the daemon has died and its engine has not.\<close>

definition ex_survivor :: world where
  "ex_survivor = init_world
     \<lparr>h_procs = [(7, \<lparr>pr_pgid = 7, pr_exe = ''/bin/srv'', pr_ports = [8080]\<rparr>)], h_files = w_fs ex_serving\<rparr>"

theorem recovery_reconciles_witness:
  "let (er, w') = RecoverRuntimes (ex_deps True) calm_env (\<lambda>_. ex_outcome) ex_survivor
   in at_rest w' \<and> h_procs (w_host w') = h_procs (w_host ex_survivor) \<and>
     (\<exists>s pid p. m_slot (w_mgr w') = Some s \<and> s_process s = Some p \<and> s_state s = Running \<and>
        knows (w_sups w' ! p) (w_host w') = Some pid)"
proof -
  obtain er w' where r: "RecoverRuntimes (ex_deps True) calm_env (\<lambda>_. ex_outcome) ex_survivor = (er, w')" by (metis surj_pair)
  have "map_option s_state (m_slot (w_mgr (snd (RecoverRuntimes (ex_deps True) calm_env (\<lambda>_. ex_outcome) ex_survivor)))) = Some Running"
    unfolding ex_survivor_def ex_serving_def by code_simp
  then obtain s where s: "m_slot (w_mgr w') = Some s" "s_state s = Running" by (auto simp: r)
  have "m_slot (w_mgr ex_survivor) = None" by (simp add: ex_survivor_def init_world_def init_mgr_def)
  moreover have "store_ok (e_store (ex_deps True))"
  proof -
    have "base_dir (ps_root (e_store (ex_deps True)))" unfolding base_dir_def by code_simp
    then show ?thesis by (simp add: store_ok_def)
  qed
  moreover have "distinct (map fst (w_fs ex_survivor))"
    unfolding ex_survivor_def ex_serving_def by code_simp
  ultimately show ?thesis using recovery_reconciles [OF r] r s by auto
qed

end
