(* ===== verification/AuditLogs.thy ===== *)
theory AuditLogs
  imports Config Files
begin

text \<open>
  The log files of services, \<^verbatim>\<open>platform/audit/logs.go\<close>: the log of a service under \<^verbatim>\<open>run\<close>, its archives
  under \<^verbatim>\<open>logs/archive\<close> named by service and time, the tail of a file read backwards in chunks, and a
  follower that polls a file while it grows and is rotated. \<open>home\<close> is the result of \<^verbatim>\<open>config.Home\<close>. A time
  is its calendar fields in UTC; \<open>instant\<close> counts its nanoseconds. Opening a service's log for its process
  (\<^verbatim>\<open>AttachLogs\<close>) ends in a file descriptor of the child and is left out.
\<close>

section \<open>Names and times\<close>

definition ascii_digit :: "char \<Rightarrow> bool" where
  "ascii_digit c \<longleftrightarrow> digit_of c \<noteq> None"

definition log_char :: "char \<Rightarrow> bool" where
  "log_char c \<longleftrightarrow> ascii_digit c \<or> c = CHR ''_'' \<or> c = CHR ''-''
     \<or> (65 \<le> (of_char c :: nat) \<and> (of_char c :: nat) \<le> 90) \<or> (97 \<le> (of_char c :: nat) \<and> (of_char c :: nat) \<le> 122)"

text \<open>The pattern \<^verbatim>\<open>^[A-Za-z0-9_-]+$\<close>.\<close>

definition ValidLogName :: "string \<Rightarrow> bool" where
  "ValidLogName name \<longleftrightarrow> name \<noteq> [] \<and> list_all log_char name"

text \<open>
  The pattern of an archive, \<^verbatim>\<open>^([A-Za-z0-9_-]+)-(\d{8}T\d{6}\.\d{9}Z)\.log$\<close>. What follows the service has
  one length, so there is one way to match; the result is the two groups.
\<close>

definition stamp_shape :: string where
  "stamp_shape = ''ddddddddTdddddd.dddddddddZ''"

definition stamp_shaped :: "string \<Rightarrow> bool" where
  "stamp_shaped s \<longleftrightarrow> list_all2 (\<lambda>t c. if t = CHR ''d'' then ascii_digit c else c = t) stamp_shape s"

definition archive_match :: "string \<Rightarrow> (string \<times> string) option" where
  "archive_match i =
     (let n = length i - 31; service = take n i; stamp = take 26 (drop (n + 1) i)
      in if ValidLogName service \<and> i ! n = CHR ''-'' \<and> stamp_shaped stamp \<and> drop (n + 27) i = ''.log''
         then Some (service, stamp) else None)"

definition ValidArchiveID :: "string \<Rightarrow> bool" where
  "ValidArchiveID i \<longleftrightarrow> Base i = i \<and> archive_match i \<noteq> None"

definition ArchiveService :: "string \<Rightarrow> string" where
  "ArchiveService i = (case archive_match i of None \<Rightarrow> [] | Some (service, _) \<Rightarrow> service)"

text \<open>A time in UTC, printed and parsed with the layout \<^verbatim>\<open>20060102T150405.000000000Z\<close>.\<close>

record utc =
  tm_year :: nat
  tm_month :: nat
  tm_day :: nat
  tm_hour :: nat
  tm_minute :: nat
  tm_second :: nat
  tm_nano :: nat

definition leap_year :: "nat \<Rightarrow> bool" where
  "leap_year y \<longleftrightarrow> y mod 4 = 0 \<and> (y mod 100 \<noteq> 0 \<or> y mod 400 = 0)"

definition daysIn :: "nat \<Rightarrow> nat \<Rightarrow> nat" where
  "daysIn y m = (if m = 2 then (if leap_year y then 29 else 28) else if m \<in> {4, 6, 9, 11} then 30 else 31)"

definition valid_utc :: "utc \<Rightarrow> bool" where
  "valid_utc t \<longleftrightarrow> tm_year t \<le> 9999 \<and> 1 \<le> tm_month t \<and> tm_month t \<le> 12 \<and> 1 \<le> tm_day t
     \<and> tm_day t \<le> daysIn (tm_year t) (tm_month t) \<and> tm_hour t < 24 \<and> tm_minute t < 60 \<and> tm_second t < 60
     \<and> tm_nano t < 1000000000"

definition pad :: "nat \<Rightarrow> nat \<Rightarrow> string" where
  "pad w n = replicate (w - length (itoa n)) (CHR ''0'') @ itoa n"

definition format_stamp :: "utc \<Rightarrow> string" where
  "format_stamp t =
     pad 4 (tm_year t) @ pad 2 (tm_month t) @ pad 2 (tm_day t) @ ''T'' @ pad 2 (tm_hour t) @ pad 2 (tm_minute t)
       @ pad 2 (tm_second t) @ ''.'' @ pad 9 (tm_nano t) @ ''Z''"

definition num_at :: "nat \<Rightarrow> nat \<Rightarrow> string \<Rightarrow> nat" where
  "num_at i w s = (case digits_value 0 (take w (drop i s)) of Some n \<Rightarrow> n | None \<Rightarrow> 0)"

text \<open>\<^verbatim>\<open>time.Parse\<close> on a text of the stamp's shape: only fields out of range are errors.\<close>

definition parse_stamp :: "string \<Rightarrow> utc option" where
  "parse_stamp s =
     (let t = \<lparr>tm_year = num_at 0 4 s, tm_month = num_at 4 2 s, tm_day = num_at 6 2 s, tm_hour = num_at 9 2 s,
               tm_minute = num_at 11 2 s, tm_second = num_at 13 2 s, tm_nano = num_at 16 9 s\<rparr>
      in if valid_utc t then Some t else None)"

text \<open>Days since the first of March of the year 0, counting years from March.\<close>

definition day_number :: "nat \<Rightarrow> nat \<Rightarrow> nat \<Rightarrow> int" where
  "day_number y m d =
     (let y1 = (if m \<le> 2 then int y - 1 else int y); mp = (int m + 9) mod 12
      in 365 * y1 + y1 div 4 - y1 div 100 + y1 div 400 + (153 * mp + 2) div 5 + int d - 1)"

definition instant :: "utc \<Rightarrow> int" where
  "instant t =
     (((day_number (tm_year t) (tm_month t) (tm_day t) * 24 + int (tm_hour t)) * 60 + int (tm_minute t)) * 60
        + int (tm_second t)) * 1000000000 + int (tm_nano t)"

section \<open>Paths\<close>

definition no_log_home :: gerr where
  "no_log_home = Errorw (Fmt ''resolve user home: %w'' []) []"

definition GetArchiveDir :: "string option \<Rightarrow> gerr + string" where
  "GetArchiveDir home = (case home of None \<Rightarrow> Inl no_log_home | Some h \<Rightarrow> Inr (Join [h, ''logs'', ''archive'']))"

definition GetLogPath :: "string option \<Rightarrow> string \<Rightarrow> gerr + string" where
  "GetLogPath home name =
     (case home of None \<Rightarrow> Inl no_log_home | Some h \<Rightarrow> Inr (Join [Join [h, ''run''], name @ ''.log'']))"

definition servicePath :: "string option \<Rightarrow> string \<Rightarrow> gerr + string" where
  "servicePath home name =
     (if \<not> ValidLogName name then Inl (Errorw (Fmt ''invalid log name %q'' [Str name]) []) else GetLogPath home name)"

definition not_regular :: "string \<Rightarrow> string \<Rightarrow> gerr" where
  "not_regular f p = Errorw (Fmt f [Str p]) []"

definition archivePath :: "io_env \<Rightarrow> string option \<Rightarrow> string \<Rightarrow> fs \<Rightarrow> gerr + string" where
  "archivePath io home i fs =
     (if \<not> ValidArchiveID i then Inl (Errorw (Fmt ''invalid log archive %q'' [Str i]) [])
      else case GetArchiveDir home of
          Inl e \<Rightarrow> Inl e
        | Inr dir \<Rightarrow>
            (case Lstat io (Join [dir, i]) fs of
               Inl e \<Rightarrow> Inl e
             | Inr (NFile _ _) \<Rightarrow> Inr (Join [dir, i])
             | Inr _ \<Rightarrow> Inl (not_regular ''log archive %q is not a regular file'' i)))"

definition LogExists :: "io_env \<Rightarrow> string option \<Rightarrow> string \<Rightarrow> fs \<Rightarrow> gerr + bool" where
  "LogExists io home name fs =
     (case servicePath home name of
        Inl e \<Rightarrow> Inl e
      | Inr path \<Rightarrow>
          (case Lstat io path fs of
             Inl e \<Rightarrow> if errors_is e ErrNotExist then Inr False else Inl e
           | Inr n \<Rightarrow> Inr (case n of NFile _ _ \<Rightarrow> True | _ \<Rightarrow> False)))"

section \<open>Archiving\<close>

definition cross_device :: sentinel where
  "cross_device = OtherSentinel ''EXDEV''"

text \<open>
  When the archive is on another device: copied into a new file that replaces none, then the source is
  removed. A copy that fails is removed again; what it had written by then is not modelled.
\<close>

definition copyAndDelete :: "io_env \<Rightarrow> string \<Rightarrow> string \<Rightarrow> fs \<Rightarrow> gerr option \<times> fs" where
  "copyAndDelete io source target fs =
     (case io_fail io (OpOpen source) of
        Some e \<Rightarrow> (Some e, fs)
      | None \<Rightarrow>
          (case follow 40 fs source of
             Some (NFile data _) \<Rightarrow>
               (case io_fail io (OpWriteFile target) of
                  Some e \<Rightarrow> (Some e, fs)
                | None \<Rightarrow>
                    if map_of fs target \<noteq> None then (Some (wrong_kind target), fs)
                    else
                      (let fs1 = al_put target (NFile [] 384) fs; fs2 = al_put target (NFile data 384) fs
                       in case (io_fail io (OpRead source), io_fail io (OpWrite target), io_fail io (OpClose target)) of
                            (Some e, _, _) \<Rightarrow> (Some e, snd (Remove io target fs1))
                          | (None, Some e, _) \<Rightarrow> (Some e, snd (Remove io target fs1))
                          | (None, None, Some e) \<Rightarrow> (Some e, snd (Remove io target fs2))
                          | (None, None, None) \<Rightarrow> Remove io source fs2))
           | Some _ \<Rightarrow> (Some (wrong_kind source), fs)
           | None \<Rightarrow> (Some (not_exist source), fs)))"

definition moveLog :: "io_env \<Rightarrow> string \<Rightarrow> string \<Rightarrow> fs \<Rightarrow> gerr option \<times> fs" where
  "moveLog io source target fs =
     (case Rename io source target fs of
        (None, fs') \<Rightarrow> (None, fs')
      | (Some e, fs') \<Rightarrow> if errors_is e cross_device then copyAndDelete io source target fs' else (Some e, fs'))"

text \<open>The ID of the archive, or the empty string when there was nothing to keep.\<close>

definition ArchiveLog :: "io_env \<Rightarrow> string option \<Rightarrow> string \<Rightarrow> utc \<Rightarrow> fs \<Rightarrow> (gerr + string) \<times> fs" where
  "ArchiveLog io home name now fs =
     (case servicePath home name of
        Inl e \<Rightarrow> (Inl e, fs)
      | Inr path \<Rightarrow>
          (case Lstat io path fs of
             Inl e \<Rightarrow> (if errors_is e ErrNotExist then Inr [] else Inl e, fs)
           | Inr (NFile data _) \<Rightarrow>
               if data = [] then (Inr [], snd (Remove io path fs))
               else
                 (case GetArchiveDir home of
                    Inl e \<Rightarrow> (Inl e, fs)
                  | Inr dir \<Rightarrow>
                      (case MkdirAll io dir fs of
                         (Some e, fs1) \<Rightarrow> (Inl e, fs1)
                       | (None, fs1) \<Rightarrow>
                           (let i = name @ ''-'' @ format_stamp now @ ''.log''; target = Join [dir, i]
                            in case Lstat io target fs1 of
                                 Inr _ \<Rightarrow> (Inl (Errorw (Fmt ''log archive %q already exists'' [Str i]) []), fs1)
                               | Inl e \<Rightarrow>
                                   if \<not> errors_is e ErrNotExist then (Inl e, fs1)
                                   else
                                     (case moveLog io path target fs1 of
                                        (Some e2, fs2) \<Rightarrow> (Inl e2, fs2)
                                      | (None, fs2) \<Rightarrow> (Inr i, fs2)))))
           | Inr _ \<Rightarrow> (Inl (not_regular ''log path %q is not a regular file'' path), fs)))"

section \<open>The archives\<close>

record archive =
  av_id :: string
  av_service :: string
  av_size :: nat
  av_at :: utc

definition archiveEntry :: "io_env \<Rightarrow> string \<Rightarrow> fs \<Rightarrow> string \<times> node \<Rightarrow> archive option" where
  "archiveEntry io dir fs entry =
     (case snd entry of
        NFile _ _ \<Rightarrow>
          (case archive_match (fst entry) of
             None \<Rightarrow> None
           | Some (service, stamp) \<Rightarrow>
               (case parse_stamp stamp of
                  None \<Rightarrow> None
                | Some at \<Rightarrow>
                    (case Lstat io (Join [dir, fst entry]) fs of
                       Inr (NFile data _) \<Rightarrow>
                         Some \<lparr>av_id = fst entry, av_service = service, av_size = length data, av_at = at\<rparr>
                     | _ \<Rightarrow> None)))
      | _ \<Rightarrow> None)"

text \<open>The latest first; archives of one instant keep the order of their names.\<close>

definition ListArchives :: "io_env \<Rightarrow> string option \<Rightarrow> fs \<Rightarrow> gerr + archive list" where
  "ListArchives io home fs =
     (case GetArchiveDir home of
        Inl e \<Rightarrow> Inl e
      | Inr dir \<Rightarrow>
          (case ReadDir io dir fs of
             Inl e \<Rightarrow> if errors_is e ErrNotExist then Inr [] else Inl e
           | Inr entries \<Rightarrow>
               Inr (sort_key (\<lambda>a. - instant (av_at a)) (List.map_filter (archiveEntry io dir fs) entries))))"

definition RemoveArchive :: "io_env \<Rightarrow> string option \<Rightarrow> string \<Rightarrow> fs \<Rightarrow> (gerr + bool) \<times> fs" where
  "RemoveArchive io home i fs =
     (case archivePath io home i fs of
        Inl e \<Rightarrow> (if errors_is e ErrNotExist then Inr False else Inl e, fs)
      | Inr path \<Rightarrow>
          (case Remove io path fs of
             (Some e, fs') \<Rightarrow> (if errors_is e ErrNotExist then Inr False else Inl e, fs')
           | (None, fs') \<Rightarrow> (Inr True, fs')))"

definition join_errors :: "gerr option \<Rightarrow> gerr \<Rightarrow> gerr option" where
  "join_errors errs e =
     Some (case errs of None \<Rightarrow> Errorw (error_text e) [e] | Some es \<Rightarrow> Errorw (Fmt ''join'' [error_text es, error_text e]) [es, e])"

fun delete_logs :: "io_env \<Rightarrow> string option \<Rightarrow> archive list \<Rightarrow> nat \<Rightarrow> gerr option \<Rightarrow> fs \<Rightarrow> (nat \<times> gerr option) \<times> fs" where
  "delete_logs io home [] deleted errs fs = ((deleted, errs), fs)"
| "delete_logs io home (a # as) deleted errs fs =
     (case RemoveArchive io home (av_id a) fs of
        (Inl e, fs') \<Rightarrow> delete_logs io home as deleted (join_errors errs e) fs'
      | (Inr _, fs') \<Rightarrow> delete_logs io home as (deleted + 1) errs fs')"

definition deleteArchives :: "io_env \<Rightarrow> string option \<Rightarrow> archive list \<Rightarrow> fs \<Rightarrow> (nat \<times> gerr option) \<times> fs" where
  "deleteArchives io home as fs = delete_logs io home as 0 None fs"

definition ClearArchives :: "io_env \<Rightarrow> string option \<Rightarrow> fs \<Rightarrow> (nat \<times> gerr option) \<times> fs" where
  "ClearArchives io home fs =
     (case ListArchives io home fs of Inl e \<Rightarrow> ((0, Some e), fs) | Inr as \<Rightarrow> deleteArchives io home as fs)"

definition CleanupArchives :: "io_env \<Rightarrow> string option \<Rightarrow> int \<Rightarrow> int \<Rightarrow> fs \<Rightarrow> (nat \<times> gerr option) \<times> fs" where
  "CleanupArchives io home retention now fs =
     (if retention = 0 then ((0, None), fs)
      else case ListArchives io home fs of
          Inl e \<Rightarrow> ((0, Some e), fs)
        | Inr as \<Rightarrow> deleteArchives io home (filter (\<lambda>a. instant (av_at a) < now - retention) as) fs)"

section \<open>The tail of a log\<close>

definition MaxTailLines :: int where "MaxTailLines = 5000"
definition maxTailReadBytes :: nat where "maxTailReadBytes = 10 * 1024 * 1024"
definition chunkSize :: nat where "chunkSize = 64 * 1024"

function tail_chunks :: "string \<Rightarrow> nat \<Rightarrow> nat \<Rightarrow> nat \<Rightarrow> nat \<Rightarrow> string \<Rightarrow> string" where
  "tail_chunks data lines fin got newlines chunks =
     (if fin > 0 \<and> got < maxTailReadBytes \<and> newlines < lines then
        (let readSize = min chunkSize (maxTailReadBytes - got); start = fin - readSize;
             chunk = take (fin - start) (drop start data)
         in tail_chunks data lines start (got + length chunk) (newlines + count_list chunk newline) (chunk @ chunks))
      else chunks)"
  by pat_completeness auto
termination
  by (relation "measure (\<lambda>(data, lines, fin, got, newlines, chunks). fin)") (auto simp: chunkSize_def)

declare tail_chunks.simps [simp del]

definition readTailChunks :: "io_env \<Rightarrow> string \<Rightarrow> string \<Rightarrow> nat \<Rightarrow> gerr + string" where
  "readTailChunks io path data lines =
     (case io_fail io (OpRead path) of
        Some e \<Rightarrow> if data \<noteq> [] \<and> lines > 0 then Inl e else Inr []
      | None \<Rightarrow> Inr (tail_chunks data lines (length data) 0 0 []))"

definition formatTail :: "string \<Rightarrow> nat \<Rightarrow> string" where
  "formatTail data lines =
     (let trailing = (data \<noteq> [] \<and> last data = newline);
          parts = split_on newline data;
          parts = (if trailing then butlast parts else parts);
          parts = drop (length parts - lines) parts;
          result = join_with [newline] parts
      in if trailing \<and> result \<noteq> [] then result @ [newline] else result)"

definition tailFile :: "io_env \<Rightarrow> string \<Rightarrow> nat \<Rightarrow> fs \<Rightarrow> gerr + string" where
  "tailFile io path lines fs =
     (case io_fail io (OpOpen path) of
        Some e \<Rightarrow> if errors_is e ErrNotExist then Inr [] else Inl e
      | None \<Rightarrow>
          (case follow 40 fs path of
             None \<Rightarrow> Inr []
           | Some (NFile data _) \<Rightarrow>
               (case io_fail io (OpStat path) of
                  Some e \<Rightarrow> Inl e
                | None \<Rightarrow>
                    (case readTailChunks io path data lines of
                       Inl e \<Rightarrow> Inl e | Inr d \<Rightarrow> Inr (formatTail d lines)))
           | Some _ \<Rightarrow> Inl (wrong_kind path)))"

definition tailFileLines :: "io_env \<Rightarrow> string \<Rightarrow> int \<Rightarrow> fs \<Rightarrow> gerr + string" where
  "tailFileLines io path lines fs =
     (if lines < 1 \<or> lines > MaxTailLines
      then Inl (Errorw (Fmt ''log lines must be between 1 and %d'' [Str (itoa_int MaxTailLines)]) [])
      else tailFile io path (nat lines) fs)"

definition TailLogLines :: "io_env \<Rightarrow> string option \<Rightarrow> string \<Rightarrow> int \<Rightarrow> fs \<Rightarrow> gerr + string" where
  "TailLogLines io home name lines fs =
     (case servicePath home name of Inl e \<Rightarrow> Inl e | Inr path \<Rightarrow> tailFileLines io path lines fs)"

definition TailArchive :: "io_env \<Rightarrow> string option \<Rightarrow> string \<Rightarrow> int \<Rightarrow> fs \<Rightarrow> gerr + string" where
  "TailArchive io home i lines fs =
     (case archivePath io home i fs of Inl e \<Rightarrow> Inl e | Inr path \<Rightarrow> tailFileLines io path lines fs)"

section \<open>Following a log\<close>

text \<open>A directory has the size of one block.\<close>

definition file_size :: "node \<Rightarrow> nat" where
  "file_size n = (case n of NFile data _ \<Rightarrow> length data | NLink q \<Rightarrow> length q | NDir \<Rightarrow> 4096)"

definition logEnd :: "io_env \<Rightarrow> string \<Rightarrow> fs \<Rightarrow> gerr + nat" where
  "logEnd io path fs =
     (case Lstat io path fs of
        Inl e \<Rightarrow> if errors_is e ErrNotExist then Inr 0 else Inl e
      | Inr n \<Rightarrow> Inr (file_size n))"

text \<open>The complete lines of the data, and what is left after the last of them.\<close>

function take_lines :: "string \<Rightarrow> string list \<times> string" where
  "take_lines data =
     (case cut newline data of
        (line, rest, True) \<Rightarrow> (case take_lines rest of (ls, r) \<Rightarrow> (line # ls, r))
      | (_, _, False) \<Rightarrow> ([], data))"
  by pat_completeness auto
termination
  by (relation "measure length") (auto dest!: cut_found [OF sym])

declare take_lines.simps [simp del]

definition readNewLines :: "io_env \<Rightarrow> string \<Rightarrow> nat \<Rightarrow> string \<Rightarrow> fs \<Rightarrow> gerr + (string list \<times> nat \<times> string)" where
  "readNewLines io path off partial fs =
     (case io_fail io (OpOpen path) of
        Some e \<Rightarrow> if errors_is e ErrNotExist then Inr ([], 0, []) else Inl e
      | None \<Rightarrow>
          (case follow 40 fs path of
             None \<Rightarrow> Inr ([], 0, [])
           | Some (NFile data _) \<Rightarrow>
               (case io_fail io (OpStat path) of
                  Some e \<Rightarrow> Inl e
                | None \<Rightarrow>
                    (let size = length data;
                         (off, partial) = (if size < off then (0, []) else (off, partial));
                         (off, partial) = (if size - off > maxTailReadBytes then (size - maxTailReadBytes, [])
                                           else (off, partial))
                     in if size = off then Inr ([], off, partial)
                        else (case io_fail io (OpRead path) of
                            Some e \<Rightarrow> Inl e
                          | None \<Rightarrow>
                              (case take_lines (partial @ drop off data) of (ls, r) \<Rightarrow> Inr (ls, size, r)))))
           | Some _ \<Rightarrow> Inl (wrong_kind path)))"

text \<open>\<open>emit\<close> sees what was delivered before and the line; an error ends the stream.\<close>

fun emit_all :: "(string list \<Rightarrow> string \<Rightarrow> gerr option) \<Rightarrow> string list \<Rightarrow> string list \<Rightarrow> string list \<times> gerr option" where
  "emit_all emit [] out = (out, None)"
| "emit_all emit (l # ls) out =
     (case emit out l of Some e \<Rightarrow> (out, Some e) | None \<Rightarrow> emit_all emit ls (out @ [l]))"

text \<open>One element of the list per tick of the poll: the file system then. The end of the list ends the context.\<close>

fun follow_polls ::
    "string \<Rightarrow> (string list \<Rightarrow> string \<Rightarrow> gerr option) \<Rightarrow> (io_env \<times> fs) list \<Rightarrow> nat \<Rightarrow> string \<Rightarrow> string list
       \<Rightarrow> string list \<times> gerr option" where
  "follow_polls path emit [] off partial out = (out, None)"
| "follow_polls path emit ((io, fs) # ticks) off partial out =
     (case readNewLines io path off partial fs of
        Inl e \<Rightarrow> (out, Some e)
      | Inr (ls, off', partial') \<Rightarrow>
          (case emit_all emit ls out of
             (out', Some e) \<Rightarrow> (out', Some e)
           | (out', None) \<Rightarrow> follow_polls path emit ticks off' partial' out'))"

definition FollowLog ::
    "io_env \<Rightarrow> string option \<Rightarrow> string \<Rightarrow> (string list \<Rightarrow> string \<Rightarrow> gerr option) \<Rightarrow> fs \<Rightarrow> (io_env \<times> fs) list
       \<Rightarrow> string list \<times> gerr option" where
  "FollowLog io home name emit fs ticks =
     (case servicePath home name of
        Inl e \<Rightarrow> ([], Some e)
      | Inr path \<Rightarrow>
          (case logEnd io path fs of
             Inl e \<Rightarrow> ([], Some e)
           | Inr off \<Rightarrow> follow_polls path emit ticks off [] []))"

section \<open>Lines of a file\<close>

lemma join_with_char: "join_with sep ((c # p) # ps) = c # join_with sep (p # ps)"
  by (cases ps) simp_all

lemma join_split_on: "join_with [sep] (split_on sep s) = s"
proof (induction s)
  case (Cons c cs)
  then show ?case
    by (cases "split_on sep cs") (auto simp: join_with_Cons join_with_char)
qed simp

lemma split_on_snoc: "split_on sep (x @ [sep]) = split_on sep x @ [[]]"
  by (induction x) (auto split: list.splits)

lemma split_on_plus: "split_on sep (a @ sep # b) = split_on sep a @ split_on sep b"
proof (induction a)
  case (Cons c cs)
  then show ?case by (cases "split_on sep cs") (auto split: list.splits)
qed simp

lemma join_append:
  "xs \<noteq> [] \<Longrightarrow> ys \<noteq> [] \<Longrightarrow> join_with sep (xs @ ys) = join_with sep xs @ sep @ join_with sep ys"
  by (induction xs rule: induct_list012) (auto simp: join_with_Cons)

lemma join_drop_suffix: "\<exists>pre. join_with sep xs = pre @ join_with sep (drop k xs)"
proof (cases "k = 0 \<or> length xs \<le> k")
  case True
  then show ?thesis by auto
next
  case False
  then have "join_with sep (take k xs @ drop k xs) = join_with sep (take k xs) @ sep @ join_with sep (drop k xs)"
    by (intro join_append) auto
  then have "join_with sep xs = (join_with sep (take k xs) @ sep) @ join_with sep (drop k xs)" by simp
  then show ?thesis by blast
qed

lemma count_join:
  "\<forall>x\<in>set xs. sep \<notin> set x \<Longrightarrow> count_list (join_with [sep] xs) sep = length xs - 1"
  by (induction xs rule: induct_list012) (auto simp: count_notin)

lemma length_split: "length (split_on sep s) = count_list s sep + 1"
proof -
  have "count_list s sep = length (split_on sep s) - 1"
    using count_join [of "split_on sep s" sep] split_on_clean [of _ sep s] by (auto simp: join_split_on)
  then show ?thesis by (cases "split_on sep s") auto
qed

lemma take_lines_split: "take_lines d = (butlast (split_on newline d), last (split_on newline d))"
proof (induction d rule: take_lines.induct)
  case (1 d)
  obtain a b f where c: "cut newline d = (a, b, f)" by (cases "cut newline d") auto
  show ?case
  proof (cases f)
    case True
    then have d: "d = a @ newline # b" "newline \<notin> set a" using cut_found c by auto
    have "take_lines d = (a # fst (take_lines b), snd (take_lines b))"
      using c True by (subst take_lines.simps) (simp split: prod.splits)
    then show ?thesis using "1.IH" [OF c [symmetric] refl] True d by (simp add: split_on_append)
  next
    case False
    then have "newline \<notin> set d" using c by (metis cut_append prod.inject split_list_first)
    then show ?thesis using c False by (subst take_lines.simps) (simp add: split_on_none)
  qed
qed

text \<open>Reading a file in two pieces, the unfinished line of the first put before the second, reads the whole.\<close>

lemma take_lines_append:
  "take_lines a = (ls, r) \<Longrightarrow> take_lines (r @ b) = (ms, q) \<Longrightarrow> take_lines (a @ b) = (ls @ ms, q)"
proof -
  assume a: "take_lines a = (ls, r)" and b: "take_lines (r @ b) = (ms, q)"
  have s: "split_on newline (a @ b) = ls @ split_on newline (r @ b)"
  proof -
    have r: "r = last (split_on newline a)" and l: "ls = butlast (split_on newline a)"
      using a by (simp_all add: take_lines_split)
    show ?thesis
    proof (cases "ls = []")
      case True
      then have "split_on newline a = [r]"
        using r l by (metis append_butlast_last_id append_Nil split_on_nonempty)
      then show ?thesis using True join_split_on [of newline a] by simp
    next
      case False
      then have "a = join_with [newline] ls @ newline # r"
        using join_append [of ls "[r]" "[newline]"] join_split_on [of newline a] r l
        by (metis append_butlast_last_id append_Cons append_Nil join_with.simps(2) not_Cons_self2 split_on_nonempty)
      moreover have "split_on newline (join_with [newline] ls) = ls"
        using False l split_on_clean [of _ newline a] by (intro split_on_join) (auto dest: in_set_butlastD)
      ultimately show ?thesis by (simp add: split_on_plus)
    qed
  qed
  show ?thesis using b by (simp add: take_lines_split s butlast_append)
qed

lemma take_lines_rest: "newline \<notin> set (snd (take_lines d))"
  using split_on_clean [of "last (split_on newline d)" newline d] by (simp add: take_lines_split)

lemma take_lines_none: "newline \<notin> set d \<Longrightarrow> take_lines d = ([], d)"
  by (simp add: take_lines_split split_on_none)

section \<open>The tail\<close>

lemma take_drop_join: "s \<le> f \<Longrightarrow> take (f - s) (drop s d) @ drop f d = drop s d"
  by (metis append_take_drop_id drop_drop le_add_diff_inverse2)

lemma tail_chunks_stop:
  "fin = 0 \<or> maxTailReadBytes \<le> got \<or> lines \<le> newlines \<Longrightarrow> tail_chunks data lines fin got newlines chunks = chunks"
  by (subst tail_chunks.simps) auto

lemma tail_chunks_first:
  assumes "data \<noteq> []" "lines > 0"
  shows "tail_chunks data lines (length data) 0 0 [] =
    (let chunk = drop (length data - chunkSize) data
     in tail_chunks data lines (length data - chunkSize) (length chunk) (count_list chunk newline) chunk)"
proof -
  have "min chunkSize maxTailReadBytes = chunkSize" "0 < maxTailReadBytes"
    by (simp_all add: chunkSize_def maxTailReadBytes_def)
  then show ?thesis using assms by (subst tail_chunks.simps) (simp add: Let_def)
qed

lemma tail_chunks_suffix:
  assumes "chunks = drop fin data" "fin \<le> length data" "got = length chunks" "newlines = count_list chunks newline"
  shows "\<exists>k\<le>fin. tail_chunks data lines fin got newlines chunks = drop k data \<and>
           (k = 0 \<or> maxTailReadBytes \<le> length data - k \<or> lines \<le> count_list (drop k data) newline)"
  using assms
proof (induction data lines fin got newlines chunks rule: tail_chunks.induct)
  case (1 data lines fin got newlines chunks)
  let ?go = "fin > 0 \<and> got < maxTailReadBytes \<and> newlines < lines"
  show ?case
  proof (cases ?go)
    case True
    let ?start = "fin - min chunkSize (maxTailReadBytes - got)"
    let ?chunk = "take (fin - ?start) (drop ?start data)"
    have c: "?chunk @ chunks = drop ?start data"
      unfolding "1.prems"(1) by (rule take_drop_join) simp
    have step: "tail_chunks data lines fin got newlines chunks =
        tail_chunks data lines ?start (got + length ?chunk) (newlines + count_list ?chunk newline) (?chunk @ chunks)"
      using True by (subst tail_chunks.simps) (simp add: Let_def)
    have "\<exists>k\<le>?start. tail_chunks data lines ?start (got + length ?chunk) (newlines + count_list ?chunk newline)
             (?chunk @ chunks) = drop k data \<and>
           (k = 0 \<or> maxTailReadBytes \<le> length data - k \<or> lines \<le> count_list (drop k data) newline)"
    proof (rule "1.IH" [OF True refl refl refl])
      show "?start \<le> length data" using "1.prems"(2) by simp
      show "got + length ?chunk = length (?chunk @ chunks)" using "1.prems"(3) by simp
      show "newlines + count_list ?chunk newline = count_list (?chunk @ chunks) newline" using "1.prems"(4) by simp
    qed (rule c)
    then obtain k where "k \<le> ?start" and k: "tail_chunks data lines fin got newlines chunks = drop k data"
      "k = 0 \<or> maxTailReadBytes \<le> length data - k \<or> lines \<le> count_list (drop k data) newline"
      unfolding step by blast
    then have "k \<le> fin" by linarith
    then show ?thesis using k by blast
  next
    case False
    then show ?thesis using "1.prems" by (subst tail_chunks.simps) (intro exI [of _ fin], auto)
  qed
qed

lemma formatTail_snoc:
  "formatTail (x @ [newline]) n =
     (let r = join_with [newline] (drop (length (split_on newline x) - n) (split_on newline x))
      in if r = [] then [] else r @ [newline])"
  by (simp add: formatTail_def Let_def split_on_snoc)

lemma formatTail_open:
  "data = [] \<or> last data \<noteq> newline \<Longrightarrow>
     formatTail data n = join_with [newline] (drop (length (split_on newline data) - n) (split_on newline data))"
  by (auto simp: formatTail_def Let_def)

lemma last_parts_few:
  "n > 0 \<Longrightarrow> count_list (join_with [newline] (drop (length (split_on newline x) - n) (split_on newline x))) newline < n"
  using split_on_clean [of _ newline x] by (subst count_join) (auto dest: in_set_dropD)

lemma formatTail_suffix:
  assumes "n > 0"
  shows "\<exists>pre. d = pre @ formatTail d n \<and> count_list (formatTail d n) newline \<le> n"
proof (cases "d = [] \<or> last d \<noteq> newline")
  case True
  then show ?thesis
    using join_drop_suffix [of "[newline]" "split_on newline d" "length (split_on newline d) - n"] last_parts_few [OF assms, of d]
    by (auto simp: formatTail_open join_split_on)
next
  case False
  then obtain x where d: "d = x @ [newline]" by (cases d rule: rev_cases) auto
  show ?thesis
    using join_drop_suffix [of "[newline]" "split_on newline x" "length (split_on newline x) - n"] last_parts_few [OF assms, of x]
    by (auto simp: d formatTail_snoc join_split_on Let_def)
qed

definition log_text :: "string list \<Rightarrow> string" where
  "log_text ls = concat (map (\<lambda>l. l @ [newline]) ls)"

lemma log_text_join: "ls \<noteq> [] \<Longrightarrow> log_text ls = join_with [newline] ls @ [newline]"
  by (induction ls rule: induct_list012) (auto simp: log_text_def)

lemma join_nonempty: "xs \<noteq> [] \<Longrightarrow> xs \<noteq> [[]] \<Longrightarrow> sep \<noteq> [] \<Longrightarrow> join_with sep xs \<noteq> []"
  by (cases xs; cases "tl xs") auto

lemma formatTail_text:
  assumes "\<forall>l\<in>set ls. newline \<notin> set l" and "drop (length ls - n) ls \<noteq> [[]]" and "n > 0"
  shows "formatTail (log_text ls) n = log_text (drop (length ls - n) ls)"
proof (cases "ls = []")
  case True
  then show ?thesis by (cases "Suc 0 - n") (simp_all add: log_text_def formatTail_def)
next
  case False
  let ?k = "drop (length ls - n) ls"
  have "?k \<noteq> []" using False assms(3) by (cases ls) auto
  moreover have "join_with [newline] ?k \<noteq> []"
    using assms(2) \<open>?k \<noteq> []\<close> by (intro join_nonempty) auto
  ultimately show ?thesis
    using False assms(1) by (simp add: log_text_join formatTail_snoc split_on_join)
qed

lemma tailFile_whole:
  assumes "servicePath home name = Inr path" "map_of fs path = Some (NFile d m)" "calm io" "length d \<le> chunkSize"
    "1 \<le> n" "n \<le> MaxTailLines"
  shows "TailLogLines io home name n fs = Inr (formatTail d (nat n))"
proof -
  have "tail_chunks d (nat n) (length d) 0 0 [] = d"
  proof (cases "d = []")
    case False
    then show ?thesis using assms(4,5) by (simp add: tail_chunks_first tail_chunks_stop)
  qed (simp add: tail_chunks_stop)
  then show ?thesis
    using assms by (simp add: TailLogLines_def tailFileLines_def tailFile_def readTailChunks_def follow_plain)
qed

text \<open>
  The tail of a log of complete lines that fits into one chunk is exactly its last lines, however many
  there are; only a tail that would be one empty line is returned as the empty text.
\<close>

theorem tail_is_the_last_lines:
  assumes "servicePath home name = Inr path" "map_of fs path = Some (NFile (log_text ls) m)"
    "\<forall>l\<in>set ls. newline \<notin> set l" "length (log_text ls) \<le> chunkSize" "calm io" "1 \<le> n" "n \<le> MaxTailLines"
  shows "TailLogLines io home name n fs =
           Inr (if drop (length ls - nat n) ls = [[]] then [] else log_text (drop (length ls - nat n) ls))"
proof (cases "drop (length ls - nat n) ls = [[]]")
  case True
  then have ls: "ls = take (length ls - nat n) ls @ [[]]" by (metis append_take_drop_id)
  then have "formatTail (log_text ls) (nat n) = []"
    using True assms(3) by (cases "ls = []") (auto simp: log_text_join formatTail_snoc split_on_join)
  then show ?thesis using True tailFile_whole [OF assms(1,2,5,4,6,7)] by simp
next
  case False
  then show ?thesis
    using tailFile_whole [OF assms(1,2,5,4,6,7)] assms(3,6) by (simp add: formatTail_text)
qed

definition ex_log_fs :: "string \<Rightarrow> fs" where
  "ex_log_fs d = [(''/h'', NDir), (''/h/run'', NDir), (''/h/run/engine.log'', NFile d 384)]"

lemma ex_log_path: "servicePath (Some ''/h'') ''engine'' = Inr ''/h/run/engine.log''"
  by code_simp

theorem tail_is_the_last_lines_witness:
  "TailLogLines calm_env (Some ''/h'') ''engine'' 2 (ex_log_fs (log_text [''one'', ''two'', ''three''])) =
     Inr (log_text [''two'', ''three''])"
  using tail_is_the_last_lines [OF ex_log_path, of "ex_log_fs (log_text [''one'', ''two'', ''three''])"
      "[''one'', ''two'', ''three'']" 384 calm_env 2]
  by (simp add: ex_log_fs_def log_text_def newline_def chunkSize_def MaxTailLines_def)

text \<open>
  Whatever the size of the file, a tail that is returned is the end of the log and has at most the lines
  asked for; a missing log has the empty tail.
\<close>

theorem tail_is_the_end:
  assumes "servicePath home name = Inr path" "TailLogLines io home name n fs = Inr r"
  shows "(\<forall>d. follow 40 fs path = Some (NFile d m) \<longrightarrow> (\<exists>pre. d = pre @ r)) \<and> int (count_list r newline) \<le> n"
proof -
  have n: "nat n > 0" "\<not> n < 1" "1 \<le> n"
    using assms by (auto simp: TailLogLines_def tailFileLines_def split: if_splits)
  have t: "tailFile io path (nat n) fs = Inr r"
    using assms by (auto simp: TailLogLines_def tailFileLines_def split: if_splits)
  have *: "\<exists>pre. d = pre @ formatTail e (nat n)" "count_list (formatTail e (nat n)) newline \<le> nat n"
    if "readTailChunks io path d (nat n) = Inr e" for d e
  proof -
    obtain k where "tail_chunks d (nat n) (length d) 0 0 [] = drop k d"
      using tail_chunks_suffix [of "[]" "length d" d 0 0 "nat n"] by auto
    then have "e = [] \<or> e = drop k d"
      using that by (auto simp: readTailChunks_def split: option.splits if_splits)
    then obtain p where p: "d = p @ e" by (metis append_take_drop_id append_Nil2)
    obtain q where "e = q @ formatTail e (nat n)" "count_list (formatTail e (nat n)) newline \<le> nat n"
      using formatTail_suffix [OF n(1), of e] by blast
    then show "\<exists>pre. d = pre @ formatTail e (nat n)" "count_list (formatTail e (nat n)) newline \<le> nat n"
      using p by (metis append_assoc)+
  qed
  from t consider "r = []" | d e m' where "follow 40 fs path = Some (NFile d m')" "readTailChunks io path d (nat n) = Inr e"
      "r = formatTail e (nat n)"
    by (auto simp: tailFile_def split: option.splits node.splits sum.splits if_splits)
  then show ?thesis
  proof cases
    case 1
    then show ?thesis using n by simp
  next
    case 2
    then show ?thesis using * [OF 2(2)] n(3) by auto
  qed
qed

text \<open>
  A tail of one line of a chunk or more starts in the middle of the line: the line break at the end of the
  file is counted as one of the lines, and reading stops after the first chunk.
\<close>

theorem tail_cuts_a_long_line:
  assumes "servicePath home name = Inr path" "map_of fs path = Some (NFile (l @ [newline]) m)" "calm io"
    "newline \<notin> set l" "chunkSize \<le> length l"
  shows "TailLogLines io home name 1 fs = Inr (drop (length l + 1 - chunkSize) l @ [newline])"
proof -
  have chunk: "chunkSize \<le> maxTailReadBytes" "1 < chunkSize" by (simp_all add: chunkSize_def maxTailReadBytes_def)
  let ?s = "Suc (length l) - chunkSize"
  let ?c = "drop ?s l @ [newline]"
  have n: "count_list ?c newline = 1" using assms(4) by (auto simp: count_list_0_iff dest: in_set_dropD)
  have "tail_chunks (l @ [newline]) 1 (Suc (length l)) 0 0 [] = ?c"
    using chunk assms(5) n tail_chunks_first [of "l @ [newline]" 1] by (simp add: Let_def tail_chunks_stop)
  moreover have "formatTail ?c 1 = ?c"
  proof -
    have d: "newline \<notin> set (drop ?s l)" using assms(4) by (auto dest: in_set_dropD)
    have "drop ?s l \<noteq> []" using chunk assms(5) by simp
    then show ?thesis by (simp add: formatTail_snoc split_on_none [OF d])
  qed
  ultimately show ?thesis
    using assms by (simp add: TailLogLines_def tailFileLines_def tailFile_def readTailChunks_def follow_plain MaxTailLines_def)
qed

theorem tail_cuts_a_long_line_witness:
  "TailLogLines calm_env (Some ''/h'') ''engine'' 1 (ex_log_fs (replicate 70000 (CHR ''x'') @ [newline])) =
     Inr (replicate 65535 (CHR ''x'') @ [newline])"
  using tail_cuts_a_long_line [OF ex_log_path, of "ex_log_fs (replicate 70000 (CHR ''x'') @ [newline])"
      "replicate 70000 (CHR ''x'')" 384 calm_env]
  by (simp add: ex_log_fs_def newline_def chunkSize_def)

section \<open>Following\<close>

lemma emit_all_quiet: "(\<And>x l. emit x l = None) \<Longrightarrow> emit_all emit ls out = (out @ ls, None)"
  by (induction ls arbitrary: out) auto

text \<open>A log that only grows from tick to tick, by no more than one read may take.\<close>

definition content_at :: "string \<Rightarrow> fs \<Rightarrow> string option" where
  "content_at path fs = (case map_of fs path of Some (NFile d _) \<Rightarrow> Some d | _ \<Rightarrow> None)"

fun grows :: "string \<Rightarrow> string \<Rightarrow> (io_env \<times> fs) list \<Rightarrow> bool" where
  "grows path d [] = True"
| "grows path d ((io, fs) # ticks) =
     (case content_at path fs of
        None \<Rightarrow> False
      | Some d' \<Rightarrow> calm io \<and> take (length d) d' = d \<and> length d' - length d \<le> maxTailReadBytes \<and> grows path d' ticks)"

fun final_content :: "string \<Rightarrow> string \<Rightarrow> (io_env \<times> fs) list \<Rightarrow> string" where
  "final_content path d [] = d"
| "final_content path d ((io, fs) # ticks) =
     final_content path (case content_at path fs of None \<Rightarrow> d | Some d' \<Rightarrow> d') ticks"

lemma content_at_Some: "content_at path fs = Some d \<longleftrightarrow> (\<exists>m. map_of fs path = Some (NFile d m))"
  by (auto simp: content_at_def split: option.splits node.splits)

lemma readNewLines_growth:
  assumes "content_at path fs = Some d'" "calm io" "take (length d) d' = d" "length d' - length d \<le> maxTailReadBytes"
    "newline \<notin> set partial"
  shows "readNewLines io path (length d) partial fs =
    Inr (fst (take_lines (partial @ drop (length d) d')), length d', snd (take_lines (partial @ drop (length d) d')))"
proof -
  obtain m where f: "follow 40 fs path = Some (NFile d' m)"
    using assms(1) by (auto simp: content_at_Some follow_plain)
  have l: "length d \<le> length d'" using assms(3) by (metis length_take min.cobounded2 min.commute)
  then show ?thesis
    using assms(2,4,5) f by (auto simp: readNewLines_def Let_def take_lines_none split: prod.splits)
qed

lemma take_length_trans: "take (length a) b = a \<Longrightarrow> take (length b) c = b \<Longrightarrow> take (length a) c = a"
  by (metis append_take_drop_id append_assoc append_eq_conv_conj)

lemma follow_polls_growth:
  assumes "take_lines (drop n d) = (out, partial)" "n \<le> length d" "grows path d ticks"
  shows "follow_polls path (\<lambda>_ _. None) ticks (length d) partial out =
           (fst (take_lines (drop n (final_content path d ticks))), None)"
  using assms
proof (induction ticks arbitrary: d out partial)
  case (Cons t ticks)
  obtain io fs where tick: "t = (io, fs)" by fastforce
  from Cons.prems(3) obtain d' where d': "content_at path fs = Some d'" "calm io" "take (length d) d' = d"
    "length d' - length d \<le> maxTailReadBytes" "grows path d' ticks" by (auto simp: tick split: option.splits)
  have p: "newline \<notin> set partial" using Cons.prems(1) take_lines_rest [of "drop n d"] by simp
  obtain ls q where t: "take_lines (partial @ drop (length d) d') = (ls, q)" by fastforce
  have r: "readNewLines io path (length d) partial fs = Inr (ls, length d', q)"
    using readNewLines_growth [OF d'(1-4) p] t by simp
  have "d' = d @ drop (length d) d'" using d'(3) by (metis append_take_drop_id)
  then have "drop n d' = drop n d @ drop (length d) d'" "n \<le> length d'"
    using Cons.prems(2) by (metis drop_append diff_is_0_eq drop0, metis length_append trans_le_add1)
  moreover from this have "take_lines (drop n d') = (out @ ls, q)"
    using take_lines_append [OF Cons.prems(1) t] by simp
  ultimately show ?case using Cons.IH [of d' "out @ ls" q] d' r by (simp add: tick emit_all_quiet)
qed simp

lemma emit_all_cases:
  "emit_all emit ls out = (out @ ls, None) \<or> (\<exists>k e. emit_all emit ls out = (out @ take k ls, Some e))"
proof (induction ls arbitrary: out)
  case (Cons l ls)
  show ?case
  proof (cases "emit out l")
    case None
    consider "emit_all emit ls (out @ [l]) = ((out @ [l]) @ ls, None)"
      | k e where "emit_all emit ls (out @ [l]) = ((out @ [l]) @ take k ls, Some e)" using Cons by blast
    then show ?thesis
    proof cases
      case (2 k e)
      then show ?thesis using None by (intro disjI2 exI [of _ "Suc k"]) simp
    qed (simp add: None)
  next
    case (Some e)
    then show ?thesis by (intro disjI2 exI [of _ 0]) simp
  qed
qed simp

lemma follow_polls_extends: "\<exists>more. fst (follow_polls path emit ticks off partial out) = out @ more"
proof (induction path emit ticks off partial out rule: follow_polls.induct)
  case (2 path emit io fs ticks off partial out)
  show ?case
  proof (cases "readNewLines io path off partial fs")
    case (Inr a)
    then obtain ls off' p' where r: "readNewLines io path off partial fs = Inr (ls, off', p')" by (cases a) auto
    consider "emit_all emit ls out = (out @ ls, None)" | k e where "emit_all emit ls out = (out @ take k ls, Some e)"
      using emit_all_cases by blast
    then show ?thesis
    proof cases
      case 1
      then show ?thesis using "2.IH" [OF r refl refl 1 [symmetric] refl] r by auto
    qed (auto simp: r)
  qed simp
qed simp

lemma follow_polls_prefix:
  "\<exists>rest. fst (follow_polls path emit ticks off partial out) @ rest = fst (follow_polls path (\<lambda>_ _. None) ticks off partial out)
     \<and> (snd (follow_polls path emit ticks off partial out) = None \<longrightarrow> rest = [])"
proof (induction path emit ticks off partial out rule: follow_polls.induct)
  case (2 path emit io fs ticks off partial out)
  show ?case
  proof (cases "readNewLines io path off partial fs")
    case (Inr a)
    then obtain ls off' p' where r: "readNewLines io path off partial fs = Inr (ls, off', p')" by (cases a) auto
    consider "emit_all emit ls out = (out @ ls, None)" | k e where "emit_all emit ls out = (out @ take k ls, Some e)"
      using emit_all_cases by blast
    then show ?thesis
    proof cases
      case 1
      then show ?thesis using "2.IH" [OF r refl refl 1 [symmetric] refl] by (simp add: r emit_all_quiet)
    next
      case (2 k e)
      obtain more where "fst (follow_polls path (\<lambda>_ _. None) ticks off' p' (out @ ls)) = (out @ ls) @ more"
        using follow_polls_extends by blast
      then show ?thesis using 2 by (auto simp: r emit_all_quiet intro: exI [of _ "drop k ls @ more"])
    qed
  qed simp
qed simp


definition ex_ticks :: "(io_env \<times> fs) list" where
  "ex_ticks = [(calm_env, ex_log_fs (''a'' @ [newline] @ ''b'')), (calm_env, ex_log_fs (''a'' @ [newline] @ ''bc'' @ [newline] @ ''d''))]"


text \<open>
  A log that was replaced and has grown past the old position by the next poll is read on from there: what
  the replacement starts with is never delivered.
\<close>

lemma rotation_can_lose_lines:
  "FollowLog calm_env (Some ''/h'') ''engine'' (\<lambda>_ _. None) (ex_log_fs (''old'' @ [newline]))
     [(calm_env, ex_log_fs (''new'' @ [newline] @ ''x'' @ [newline]))] = ([''x''], None)"
  by (simp add: FollowLog_def ex_log_path logEnd_def Lstat_calm ex_log_fs_def file_size_def readNewLines_def
      follow_plain maxTailReadBytes_def newline_def take_lines_split)

section \<open>Archive names\<close>

lemma length_itoa: "n < 10 ^ Suc w \<Longrightarrow> length (itoa n) \<le> Suc w"
proof (induction w arbitrary: n)
  case (Suc w)
  show ?case
  proof (cases "n < 10")
    case False
    have "n div 10 < 10 ^ Suc w" using Suc.prems by (simp add: less_mult_imp_div_less mult.commute)
    then show ?thesis using Suc.IH [of "n div 10"] False by (simp add: itoa.simps [of n])
  qed (simp add: itoa.simps [of n])
qed (subst itoa.simps, simp)

lemma pad_length [simp]: "n < 10 ^ w \<Longrightarrow> 0 < w \<Longrightarrow> length (pad w n) = w"
  using length_itoa [of n "w - 1"] by (simp add: pad_def)

lemma digits_value_zeros: "digits_value 0 (replicate k (CHR ''0'')) = Some 0"
  by (induction k) (simp_all add: digit_of_def)

lemma digits_value_pad [simp]: "digits_value 0 (pad w n) = Some n"
  by (simp add: pad_def digits_value_append digits_value_zeros digits_value_itoa)

lemma digits_value_digits: "digits_value a s = Some v \<Longrightarrow> list_all ascii_digit s"
  by (induction a s rule: digits_value.induct) (auto simp: ascii_digit_def split: option.splits)

lemma shaped_digits:
  "list_all ascii_digit s \<Longrightarrow> length s = n \<Longrightarrow>
     list_all2 (\<lambda>t c. if t = CHR ''d'' then ascii_digit c else c = t) (replicate n (CHR ''d'')) s"
  by (auto simp: list_all2_conv_all_nth list_all_length)

lemma valid_utc_bounds:
  assumes "valid_utc t"
  shows "tm_year t < 10 ^ 4" "tm_month t < 10 ^ 2" "tm_day t < 10 ^ 2" "tm_hour t < 10 ^ 2" "tm_minute t < 10 ^ 2"
    "tm_second t < 10 ^ 2" "tm_nano t < 10 ^ 9"
proof -
  have "daysIn (tm_year t) (tm_month t) \<le> 31" by (simp add: daysIn_def)
  then show "tm_day t < 10 ^ 2" using assms by (simp add: valid_utc_def)
qed (use assms in \<open>simp_all add: valid_utc_def\<close>)

lemma format_stamp_length: "valid_utc t \<Longrightarrow> length (format_stamp t) = 26"
  using valid_utc_bounds [of t] by (simp add: format_stamp_def)

lemma stamp_shape_eq:
  "stamp_shape = replicate 4 (CHR ''d'') @ replicate 2 (CHR ''d'') @ replicate 2 (CHR ''d'') @ ''T'' @
     replicate 2 (CHR ''d'') @ replicate 2 (CHR ''d'') @ replicate 2 (CHR ''d'') @ ''.'' @ replicate 9 (CHR ''d'') @ ''Z''"
  by code_simp

lemma format_stamp_shaped:
  assumes "valid_utc t"
  shows "stamp_shaped (format_stamp t)"
proof -
  note b = valid_utc_bounds [OF assms]
  have d: "list_all2 (\<lambda>t c. if t = CHR ''d'' then ascii_digit c else c = t) (replicate w (CHR ''d'')) (pad w n)"
    if "n < 10 ^ w" "0 < w" for w n
    using that shaped_digits digits_value_digits [OF digits_value_pad] by simp
  show ?thesis
    unfolding stamp_shaped_def stamp_shape_eq format_stamp_def
    by (intro list_all2_appendI d b) simp_all
qed

lemma num_at_skip: "length a \<le> i \<Longrightarrow> num_at i w (a @ s) = num_at (i - length a) w s"
  by (simp add: num_at_def)

lemma num_at_pad: "n < 10 ^ w \<Longrightarrow> 0 < w \<Longrightarrow> num_at 0 w (pad w n @ s) = n"
  by (simp add: num_at_def)

lemma parse_format_stamp:
  assumes "valid_utc t"
  shows "parse_stamp (format_stamp t) = Some t"
proof -
  note b = valid_utc_bounds [OF assms]
  have "num_at 0 4 (format_stamp t) = tm_year t" "num_at 4 2 (format_stamp t) = tm_month t"
    "num_at 6 2 (format_stamp t) = tm_day t" "num_at 9 2 (format_stamp t) = tm_hour t"
    "num_at 11 2 (format_stamp t) = tm_minute t" "num_at 13 2 (format_stamp t) = tm_second t"
    "num_at 16 9 (format_stamp t) = tm_nano t"
    unfolding format_stamp_def using b by (simp_all add: num_at_skip num_at_pad num_at_skip [of "[_]", simplified])
  then show ?thesis using assms by (cases t) (simp add: parse_stamp_def)
qed

lemma log_char_plain: "log_char c \<Longrightarrow> c \<noteq> slash"
  by (auto simp: log_char_def ascii_digit_def digit_of_def slash_def)

lemma archive_match_name:
  assumes "ValidLogName name" "length s = 26" "stamp_shaped s"
  shows "archive_match (name @ ''-'' @ s @ ''.log'') = Some (name, s)"
  using assms by (simp add: archive_match_def Let_def nth_append)

lemma stamp_shaped_plain: "stamp_shaped s \<Longrightarrow> slash \<notin> set s"
proof
  assume s: "stamp_shaped s" and "slash \<in> set s"
  then obtain i where i: "i < length s" "s ! i = slash" by (auto simp: in_set_conv_nth)
  then have "if stamp_shape ! i = CHR ''d'' then ascii_digit slash else slash = stamp_shape ! i" "i < length stamp_shape"
    using s by (auto simp: stamp_shaped_def list_all2_conv_all_nth)
  moreover have "slash \<notin> set stamp_shape" "\<not> ascii_digit slash" by code_simp+
  ultimately show False by (metis nth_mem)
qed

lemma archive_match_split:
  assumes "archive_match i = Some (name, s)"
  shows "i = name @ ''-'' @ s @ ''.log''" "ValidLogName name" "stamp_shaped s" "length s = 26"
proof -
  let ?n = "length i - 31"
  have m: "name = take ?n i" "s = take 26 (drop (?n + 1) i)" "ValidLogName name" "i ! ?n = CHR ''-''" "stamp_shaped s"
    "drop (?n + 27) i = ''.log''"
    using assms by (auto simp: archive_match_def Let_def split: if_splits)
  show nm: "ValidLogName name" "stamp_shaped s" using m by auto
  show "length s = 26"
    using nm(2) list_all2_lengthD [of _ stamp_shape s] by (simp add: stamp_shaped_def) (simp add: stamp_shape_eq)
  have l: "length i = ?n + 31" using arg_cong [OF m(6), of length] by simp
  then have "i = take ?n i @ i ! ?n # drop (?n + 1) i" by (simp add: Cons_nth_drop_Suc)
  moreover have "drop (?n + 1) i = s @ drop (?n + 27) i"
    unfolding m(2) by (metis append_take_drop_id drop_drop add.assoc add.commute numeral_plus_one numeral_eq_iff
        semiring_norm(2,4,5,8))
  ultimately show "i = name @ ''-'' @ s @ ''.log''" using m(1,4,6) by simp
qed

section \<open>The archive directory\<close>

lemma ValidArchiveID_plain: "ValidArchiveID i \<Longrightarrow> plain_elem i"
proof -
  assume "ValidArchiveID i"
  then obtain name s where m: "archive_match i = Some (name, s)" by (auto simp: ValidArchiveID_def)
  note a = archive_match_split [OF m]
  have "slash \<notin> set name" using a(2) log_char_plain by (auto simp: ValidLogName_def list_all_iff)
  then show ?thesis using a stamp_shaped_plain [OF a(3)]
    by (auto simp: plain_elem_def slash_def dotdot_def)
qed

lemma archive_match_valid:
  assumes "archive_match i = Some (name, s)"
  shows "ValidArchiveID i"
proof -
  note a = archive_match_split [OF assms]
  have "slash \<notin> set name" using a(2) log_char_plain by (auto simp: ValidLogName_def list_all_iff)
  then have "i \<noteq> []" "slash \<notin> set i" using a(1) stamp_shaped_plain [OF a(3)] by (auto simp: slash_def)
  then have "Base i = i" by (rule Base_plain)
  then show ?thesis using assms by (simp add: ValidArchiveID_def)
qed

lemma archive_dir: "base_dir h \<Longrightarrow> base_dir (Join [h, ''logs'', ''archive''])"
  by (rule Join_two) (auto simp: plain_elem_def slash_def dotdot_def)

lemma follow_put:
  assumes "follow k fs p = Some NDir" "map_of fs q = None \<or> (\<exists>d m. map_of fs q = Some (NFile d m))"
    "\<forall>r. r \<noteq> q \<longrightarrow> map_of fs' r = map_of fs r"
  shows "follow k fs' p = Some NDir"
  using assms(1)
proof (induction k arbitrary: p)
  case 0
  then show ?case using assms(2,3) by (cases "p = q") (auto simp: follow.simps split: option.splits node.splits)
next
  case (Suc k)
  then show ?case using assms(2,3)
    by (cases "p = q") (auto simp: follow.simps [of "Suc k"] split: option.splits node.splits)
qed

lemma mkdirs_last:
  "mkdirs io (ps @ [p]) fs = (None, fs') \<Longrightarrow> follow 40 fs' p = Some NDir"
proof (induction io "ps @ [p]" fs arbitrary: ps rule: mkdirs.induct)
  case (2 io q qs fs)
  show ?case
  proof (cases ps)
    case Nil
    then show ?thesis using "2.prems" "2.hyps"(3)
      by (auto split: option.splits node.splits if_splits simp: follow_plain)
  next
    case (Cons a as)
    then have qs: "qs = as @ [p]" using "2.hyps"(3) by simp
    from "2.prems" Cons "2.hyps"(3) consider "follow 40 fs q = Some NDir" "mkdirs io qs fs = (None, fs')"
      | "follow 40 fs q = None" "\<not> map_of fs q \<noteq> None" "io_fail io (OpMkdir q) = None" "mkdirs io qs (al_put q NDir fs) = (None, fs')"
      by (auto split: option.splits node.splits if_splits)
    then show ?thesis
    proof cases
      case 1
      then show ?thesis using "2.hyps"(2) [OF _ _ qs] qs by auto
    next
      case 2
      then show ?thesis using "2.hyps"(1) [OF _ _ _ qs] qs by auto
    qed
  qed
qed simp

lemma MkdirAll_dir:
  assumes "MkdirAll io d fs = (None, fs')" "base_dir d"
  shows "follow 40 fs' d = Some NDir"
proof -
  have "elems d \<noteq> []" "mk_path (rooted d) (elems d) = d"
    using assms(2) by (auto simp: base_dir_def Clean_def)
  then have "ancestors d = map (\<lambda>i. mk_path (rooted d) (take i (elems d))) [1..<length (elems d)] @ [d]"
    by (simp add: ancestors_def Suc_le_eq)
  then show ?thesis using assms(1) mkdirs_last by (simp add: MkdirAll_def)
qed

lemma dir_entries_member:
  assumes "base_dir d" "plain_elem c" "map_of fs (Join [d, c]) = Some n"
  shows "(c, n) \<in> set (dir_entries d fs)"
proof -
  have j: "Join [d, c] = d @ slash # c" using assms(1,2) by (rule Join_base)
  then have "below d (Join [d, c]) = Some c"
    using assms(2) has_prefix_append [of "d @ ''/''" c] by (simp add: below_def plain_elem_def slash_def)
  then show ?thesis
    using map_of_SomeD [OF assms(3)] by (force simp: dir_entries_def List.map_filter_def)
qed

lemma archiveEntry_listed:
  assumes "archive_match i = Some (name, s)" "parse_stamp s = Some at" "calm io" "map_of fs (Join [dir, i]) = Some (NFile d m)"
  shows "archiveEntry io dir fs (i, NFile d m) = Some \<lparr>av_id = i, av_service = name, av_size = length d, av_at = at\<rparr>"
  using assms by (simp add: archiveEntry_def Lstat_calm)

lemma ListArchives_member:
  assumes "home = Some h" "base_dir h" "calm io" "follow 40 fs (Join [h, ''logs'', ''archive'']) = Some NDir"
    "archive_match i = Some (name, s)" "parse_stamp s = Some at"
    "map_of fs (Join [Join [h, ''logs'', ''archive''], i]) = Some (NFile d m)"
  shows "\<exists>as. ListArchives io home fs = Inr as \<and> \<lparr>av_id = i, av_service = name, av_size = length d, av_at = at\<rparr> \<in> set as"
proof -
  let ?dir = "Join [h, ''logs'', ''archive'']"
  have "(i, NFile d m) \<in> set (dir_entries ?dir fs)"
    using dir_entries_member [OF archive_dir [OF assms(2)] ValidArchiveID_plain [OF archive_match_valid [OF assms(5)]] assms(7)] .
  then have "\<lparr>av_id = i, av_service = name, av_size = length d, av_at = at\<rparr>
      \<in> set (List.map_filter (archiveEntry io ?dir fs) (dir_entries ?dir fs))"
    using archiveEntry_listed [OF assms(5,6,3,7)] by (force simp: List.map_filter_def)
  then show ?thesis using assms(1,3,4) by (simp add: ListArchives_def GetArchiveDir_def ReadDir_def)
qed

text \<open>
  An archived log is gone from its place, its bytes are in the archive, and the list of archives names it
  with its service, size and time: the name of the archive is parsed back to what it was made of.
\<close>

theorem archived_log_is_listed:
  assumes "ArchiveLog io (Some h) name now fs = (Inr i, fs')" "servicePath (Some h) name = Inr path"
    "map_of fs path = Some (NFile d m)" "d \<noteq> []" "calm io" "base_dir h" "valid_utc now"
  shows "map_of fs' path = None \<and> map_of fs' (Join [Join [h, ''logs'', ''archive''], i]) = Some (NFile d m) \<and>
    (\<exists>as. ListArchives io (Some h) fs' = Inr as \<and>
       \<lparr>av_id = i, av_service = name, av_size = length d, av_at = now\<rparr> \<in> set as)"
proof -
  let ?dir = "Join [h, ''logs'', ''archive'']"
  let ?i = "name @ ''-'' @ format_stamp now @ ''.log''"
  let ?t = "Join [?dir, ?i]"
  have v: "ValidLogName name" using assms(2) by (auto simp: servicePath_def split: if_splits)
  obtain fs1 where mk: "MkdirAll io ?dir fs = (None, fs1)" and i: "i = ?i" and none: "map_of fs1 ?t = None"
    and mv: "moveLog io path ?t fs1 = (None, fs')"
    using assms(1-5)
    by (auto simp: ArchiveLog_def GetArchiveDir_def Lstat_calm Let_def split: prod.splits option.splits if_splits)
  have p: "map_of fs1 path = Some (NFile d m)"
    using mkdirs_frame [of io "ancestors ?dir" fs None fs1 path] mk assms(3) by (auto simp: MkdirAll_def)
  have fs': "fs' = al_put ?t (NFile d m) (al_del path fs1)"
    using mv p none assms(5) by (auto simp: moveLog_def Rename_def split: prod.splits)
  have pt: "path \<noteq> ?t" using p none by auto
  have m: "archive_match ?i = Some (name, format_stamp now)"
    using v assms(7) by (intro archive_match_name format_stamp_length format_stamp_shaped)
  have "follow 40 (al_del path fs1) ?dir = Some NDir"
    by (rule follow_put [of _ fs1 _ path]) (use MkdirAll_dir [OF mk archive_dir [OF assms(6)]] p in auto)
  then have "follow 40 fs' ?dir = Some NDir"
    by (rule follow_put [of _ _ _ ?t]) (use none pt in \<open>auto simp: fs'\<close>)
  moreover have "map_of fs' ?t = Some (NFile d m)" "map_of fs' path = None" using pt by (simp_all add: fs')
  ultimately show ?thesis
    using ListArchives_member [OF refl assms(6,5) _ m parse_format_stamp [OF assms(7)]] i by simp
qed

theorem archived_log_is_listed_witness:
  "let fs' = snd (ArchiveLog calm_env (Some ''/h'') ''engine'' \<lparr>tm_year = 2026, tm_month = 7, tm_day = 3, tm_hour = 12,
       tm_minute = 30, tm_second = 0, tm_nano = 123\<rparr> (ex_log_fs ''boot''))
   in map_of fs' ''/h/run/engine.log'' = None \<and>
      map_of fs' ''/h/logs/archive/engine-20260703T123000.000000123Z.log'' = Some (NFile ''boot'' 384)"
proof -
  let ?now = "\<lparr>tm_year = 2026, tm_month = 7, tm_day = 3, tm_hour = 12, tm_minute = 30, tm_second = 0, tm_nano = 123\<rparr>"
  let ?i = "''engine-20260703T123000.000000123Z.log''"
  have s: "format_stamp ?now = ''20260703T123000.000000123Z''"
    by code_simp
  have d: "Join [''/h'', ''logs'', ''archive''] = ''/h/logs/archive''" "Join [''/h/logs/archive'', ?i] = ''/h/logs/archive/'' @ ?i"
    "ancestors ''/h/logs/archive'' = [''/h'', ''/h/logs'', ''/h/logs/archive'']" by code_simp+
  have a: "fst (ArchiveLog calm_env (Some ''/h'') ''engine'' ?now (ex_log_fs ''boot'')) = Inr ?i"
    by (simp add: ArchiveLog_def ex_log_path GetArchiveDir_def Lstat_calm ex_log_fs_def MkdirAll_def d s follow.simps
        not_exist_def moveLog_def Rename_def Let_def)
  have "valid_utc ?now" by (simp add: valid_utc_def daysIn_def)
  moreover have "base_dir ''/h''" by code_simp
  ultimately show ?thesis
    using archived_log_is_listed [of calm_env "''/h''" "''engine''" ?now "ex_log_fs ''boot''" ?i
        "snd (ArchiveLog calm_env (Some ''/h'') ''engine'' ?now (ex_log_fs ''boot''))" "''/h/run/engine.log''" "''boot''" 384]
      a d by (simp add: prod_eq_iff ex_log_path Let_def) (simp add: ex_log_fs_def)
qed

section \<open>Deleting archives\<close>

lemma RemoveArchive_cases:
  assumes "RemoveArchive io home i fs = (r, fs')"
  shows "fs' = fs \<or> (\<exists>dir d m. GetArchiveDir home = Inr dir \<and> ValidArchiveID i \<and>
           map_of fs (Join [dir, i]) = Some (NFile d m) \<and> fs' = al_del (Join [dir, i]) fs \<and> r = Inr True)"
  using assms by (auto simp: RemoveArchive_def archivePath_def Lstat_def Remove_def split: if_splits sum.splits option.splits node.splits prod.splits)

lemma RemoveArchive_calm:
  assumes "calm io" "GetArchiveDir home = Inr dir" "ValidArchiveID i"
    "map_of fs (Join [dir, i]) = None \<or> map_of fs (Join [dir, i]) = Some (NFile d m)"
  shows "\<exists>b fs'. RemoveArchive io home i fs = (Inr b, fs') \<and> map_of fs' = (map_of fs)(Join [dir, i] := None)"
  using assms
  by (intro exI [of _ "map_of fs (Join [dir, i]) \<noteq> None"])
    (auto simp: RemoveArchive_def archivePath_def Lstat_calm Remove_def not_exist_def fun_upd_idem)

lemma delete_logs_frame:
  assumes "delete_logs io home as n errs fs = (r, fs')" "map_of fs' p \<noteq> map_of fs p"
  shows "\<exists>a\<in>set as. \<exists>dir d m. GetArchiveDir home = Inr dir \<and> p = Join [dir, av_id a] \<and> map_of fs' p = None \<and>
           map_of fs p = Some (NFile d m)"
  using assms
proof (induction io home as n errs fs rule: delete_logs.induct)
  case (2 io home a as n errs fs)
  obtain q fs1 where r: "RemoveArchive io home (av_id a) fs = (q, fs1)" by fastforce
  obtain n2 errs2 where d: "delete_logs io home as n2 errs2 fs1 = (r, fs')"
    "(\<exists>e. q = Inl e \<and> n2 = n \<and> errs2 = join_errors errs e) \<or> (\<exists>b. q = Inr b \<and> n2 = n + 1 \<and> errs2 = errs)"
    using "2.prems"(1) r by (cases q) auto
  have ih: "map_of fs' p \<noteq> map_of fs1 p \<Longrightarrow> \<exists>a\<in>set as. \<exists>dir d m. GetArchiveDir home = Inr dir \<and>
      p = Join [dir, av_id a] \<and> map_of fs' p = None \<and> map_of fs1 p = Some (NFile d m)"
    using d r "2.IH" by (cases q) auto
  show ?case
    using RemoveArchive_cases [OF r] ih "2.prems"(2)
    by (cases "map_of fs' p = map_of fs1 p") (force split: if_splits)+
qed simp

lemma delete_logs_calm:
  assumes "calm io" "GetArchiveDir home = Inr dir"
    "\<forall>a\<in>set as. ValidArchiveID (av_id a) \<and> (map_of fs (Join [dir, av_id a]) = None \<or>
       (\<exists>d m. map_of fs (Join [dir, av_id a]) = Some (NFile d m)))"
  shows "\<exists>fs'. delete_logs io home as n errs fs = ((n + length as, errs), fs') \<and>
    (\<forall>p. map_of fs' p = (if p \<in> (\<lambda>a. Join [dir, av_id a]) ` set as then None else map_of fs p))"
  using assms(3)
proof (induction as arbitrary: n fs)
  case (Cons a as)
  obtain b fs1 where r: "RemoveArchive io home (av_id a) fs = (Inr b, fs1)"
    "map_of fs1 = (map_of fs)(Join [dir, av_id a] := None)"
    using RemoveArchive_calm [OF assms(1,2), of "av_id a" fs] Cons.prems by auto
  then have "\<forall>a\<in>set as. ValidArchiveID (av_id a) \<and> (map_of fs1 (Join [dir, av_id a]) = None \<or>
       (\<exists>d m. map_of fs1 (Join [dir, av_id a]) = Some (NFile d m)))"
    using Cons.prems by auto
  from Cons.IH [OF this, of "n + 1"] show ?case using r by auto
qed simp

lemma ListArchives_sound:
  assumes "ListArchives io home fs = Inr as" "a \<in> set as" "GetArchiveDir home = Inr dir"
  shows "\<exists>s d m. archive_match (av_id a) = Some (av_service a, s) \<and> parse_stamp s = Some (av_at a) \<and>
           map_of fs (Join [dir, av_id a]) = Some (NFile d m)"
proof -
  obtain entry where e: "archiveEntry io dir fs entry = Some a"
    using assms by (auto simp: ListArchives_def List.map_filter_def split: sum.splits if_splits)
  then show ?thesis
    by (auto simp: archiveEntry_def Lstat_def split: node.splits option.splits prod.splits sum.splits)
qed

definition archive_time :: "string \<Rightarrow> utc option" where
  "archive_time i = (case archive_match i of None \<Rightarrow> None | Some (_, s) \<Rightarrow> parse_stamp s)"

text \<open>
  A cleanup removes files of the archive directory only, each named as an archive whose time is before the
  retention, whatever calls fail; when none fails it removes all of those, changes nothing else, and counts them.
\<close>

theorem cleanup_removes_the_expired:
  assumes "CleanupArchives io home retention now fs = ((n, err), fs')" "GetArchiveDir home = Inr dir"
  shows "(map_of fs' p \<noteq> map_of fs p \<longrightarrow> retention \<noteq> 0 \<and> map_of fs' p = None \<and>
            (\<exists>i at. p = Join [dir, i] \<and> ValidArchiveID i \<and> archive_time i = Some at \<and> instant at < now - retention)) \<and>
         (calm io \<and> retention \<noteq> 0 \<and> ListArchives io home fs = Inr as \<longrightarrow>
            (let expired = filter (\<lambda>a. instant (av_at a) < now - retention) as
             in err = None \<and> n = length expired \<and>
                map_of fs' p = (if p \<in> (\<lambda>a. Join [dir, av_id a]) ` set expired then None else map_of fs p)))"
proof
  show "map_of fs' p \<noteq> map_of fs p \<longrightarrow> retention \<noteq> 0 \<and> map_of fs' p = None \<and>
            (\<exists>i at. p = Join [dir, i] \<and> ValidArchiveID i \<and> archive_time i = Some at \<and> instant at < now - retention)"
  proof
    assume ch: "map_of fs' p \<noteq> map_of fs p"
    then obtain as where l: "ListArchives io home fs = Inr as" "retention \<noteq> 0"
      "delete_logs io home (filter (\<lambda>a. instant (av_at a) < now - retention) as) 0 None fs = ((n, err), fs')"
      using assms(1) by (auto simp: CleanupArchives_def deleteArchives_def split: if_splits sum.splits)
    from delete_logs_frame [OF l(3) ch] obtain a where a: "a \<in> set as" "instant (av_at a) < now - retention"
      "p = Join [dir, av_id a]" "map_of fs' p = None" using assms(2) by auto
    then show "retention \<noteq> 0 \<and> map_of fs' p = None \<and>
            (\<exists>i at. p = Join [dir, i] \<and> ValidArchiveID i \<and> archive_time i = Some at \<and> instant at < now - retention)"
      using ListArchives_sound [OF l(1) a(1) assms(2)] archive_match_valid l(2) by (fastforce simp: archive_time_def)
  qed
  show "calm io \<and> retention \<noteq> 0 \<and> ListArchives io home fs = Inr as \<longrightarrow>
            (let expired = filter (\<lambda>a. instant (av_at a) < now - retention) as
             in err = None \<and> n = length expired \<and>
                map_of fs' p = (if p \<in> (\<lambda>a. Join [dir, av_id a]) ` set expired then None else map_of fs p))"
  proof
    assume c: "calm io \<and> retention \<noteq> 0 \<and> ListArchives io home fs = Inr as"
    let ?ex = "filter (\<lambda>a. instant (av_at a) < now - retention) as"
    have "\<forall>a\<in>set ?ex. ValidArchiveID (av_id a) \<and> (map_of fs (Join [dir, av_id a]) = None \<or>
       (\<exists>d m. map_of fs (Join [dir, av_id a]) = Some (NFile d m)))"
      using c ListArchives_sound [of io home fs as _ dir] assms(2) archive_match_valid by fastforce
    from delete_logs_calm [OF _ assms(2) this, of io 0 None]
    show "let expired = ?ex in err = None \<and> n = length expired \<and>
                map_of fs' p = (if p \<in> (\<lambda>a. Join [dir, av_id a]) ` set expired then None else map_of fs p)"
      using c assms(1) by (auto simp: CleanupArchives_def deleteArchives_def Let_def)
  qed
qed

definition ex_old_id :: string where "ex_old_id = ''engine-20260702T000000.000000000Z.log''"
definition ex_new_id :: string where "ex_new_id = ''engine-20260709T000000.000000000Z.log''"

definition ex_day :: "nat \<Rightarrow> utc" where
  "ex_day d = \<lparr>tm_year = 2026, tm_month = 7, tm_day = d, tm_hour = 0, tm_minute = 0, tm_second = 0, tm_nano = 0\<rparr>"

definition ex_archive_fs :: fs where
  "ex_archive_fs = [(''/h/logs/archive'', NDir), (''/h/logs/archive/'' @ ex_old_id, NFile ''old'' 384),
     (''/h/logs/archive/'' @ ex_new_id, NFile ''new'' 384)]"

lemma ex_archives:
  "ListArchives calm_env (Some ''/h'') ex_archive_fs =
     Inr [\<lparr>av_id = ex_new_id, av_service = ''engine'', av_size = 3, av_at = ex_day 9\<rparr>,
          \<lparr>av_id = ex_old_id, av_service = ''engine'', av_size = 3, av_at = ex_day 2\<rparr>]"
proof -
  have v: "valid_utc (ex_day 2)" "valid_utc (ex_day 9)" by (simp_all add: valid_utc_def ex_day_def daysIn_def)
  have s: "format_stamp (ex_day 2) = ''20260702T000000.000000000Z''" "format_stamp (ex_day 9) = ''20260709T000000.000000000Z''"
    by code_simp+
  have p: "parse_stamp ''20260702T000000.000000000Z'' = Some (ex_day 2)" "parse_stamp ''20260709T000000.000000000Z'' = Some (ex_day 9)"
    using parse_format_stamp [OF v(1)] parse_format_stamp [OF v(2)] by (simp_all add: s)
  have m: "archive_match ex_old_id = Some (''engine'', ''20260702T000000.000000000Z'')"
    "archive_match ex_new_id = Some (''engine'', ''20260709T000000.000000000Z'')" by code_simp+
  have d: "Join [''/h'', ''logs'', ''archive''] = ''/h/logs/archive''"
    "dir_entries ''/h/logs/archive'' ex_archive_fs = [(ex_old_id, NFile ''old'' 384), (ex_new_id, NFile ''new'' 384)]"
    by code_simp+
  have f: "map_of ex_archive_fs ''/h/logs/archive'' = Some NDir"
    "map_of ex_archive_fs (Join [''/h/logs/archive'', ex_old_id]) = Some (NFile ''old'' 384)"
    "map_of ex_archive_fs (Join [''/h/logs/archive'', ex_new_id]) = Some (NFile ''new'' 384)" by code_simp+
  show ?thesis
    by (simp add: ListArchives_def GetArchiveDir_def ReadDir_def d f follow_plain archiveEntry_def m p Lstat_calm
        List.map_filter_simps instant_def day_number_def ex_day_def)
qed

theorem cleanup_removes_the_expired_witness:
  "let r = CleanupArchives calm_env (Some ''/h'') (604800000000000) (instant (ex_day 10)) ex_archive_fs
   in fst r = (1, None) \<and> map_of (snd r) (Join [''/h/logs/archive'', ex_old_id]) = None \<and>
      map_of (snd r) (Join [''/h/logs/archive'', ex_new_id]) = Some (NFile ''new'' 384)"
proof -
  let ?r = "CleanupArchives calm_env (Some ''/h'') (604800000000000) (instant (ex_day 10)) ex_archive_fs"
  let ?p = "\<lambda>i. Join [''/h/logs/archive'', i]"
  have d: "GetArchiveDir (Some ''/h'') = Inr ''/h/logs/archive''" by code_simp
  have n: "?p ex_new_id \<noteq> ?p ex_old_id" "map_of ex_archive_fs (?p ex_new_id) = Some (NFile ''new'' 384)"
    by code_simp+
  have t: "(instant (ex_day 9) < instant (ex_day 10) - 604800000000000) = False"
    "instant (ex_day 2) < instant (ex_day 10) - 604800000000000"
    by (simp_all add: instant_def day_number_def ex_day_def)
  obtain n err fs' where r: "?r = ((n, err), fs')" by (metis prod.exhaust)
  note c = cleanup_removes_the_expired [OF r d, where as = "[\<lparr>av_id = ex_new_id, av_service = ''engine'', av_size = 3,
      av_at = ex_day 9\<rparr>, \<lparr>av_id = ex_old_id, av_service = ''engine'', av_size = 3, av_at = ex_day 2\<rparr>]",
      THEN conjunct2, THEN mp]
  show ?thesis
    using c [of "?p ex_old_id"] c [of "?p ex_new_id"] n
    by (simp add: r ex_archives t Let_def)
qed

end
