(* ===== verification/ModelsIni.thy ===== *)
theory ModelsIni
  imports Errors "HOL-Library.Multiset"
begin

text \<open>
  The generated configuration file of the llama.cpp router, \<^verbatim>\<open>backends/llamacpp/models_ini.go\<close>: the
  renderer that produces \<^verbatim>\<open>models.ini\<close> from sections of key/value pairs, the canonical form of a
  key, and the parser that reads an edited file back. A section's values are a Go map, here an
  association list in the order \<^verbatim>\<open>range\<close> visits it; every error wraps \<^const>\<open>ErrInvalidINI\<close>.
\<close>

section \<open>The file format\<close>

record ini_section =
  sec_name :: string
  sec_values :: "(string \<times> string) list"

definition ini_err :: "string \<Rightarrow> msg list \<Rightarrow> gerr" where
  "ini_err f args = Errorw (Fmt f args) [Sentinel ErrInvalidINI]"

text \<open>Each element followed by a line feed.\<close>

definition unlines :: "string list \<Rightarrow> string" where
  "unlines ls = concat (map (\<lambda>l. l @ [newline]) ls)"

definition em_dash :: string where
  "em_dash = [CHR 0xE2, CHR 0x80, CHR 0x94]"

definition header_lines :: "string list" where
  "header_lines =
     [''; InferenceRig materialized runtime file.'',
      ''; Edits inside a profile's own section are imported back into that profile's'',
      ''; canonical YAML on the next materialization, leaving the rest of that'',
      ''; profile.yaml '' @ em_dash @ '' comments included '' @ em_dash @ '' exactly as it is. Where the YAML changed'',
      ''; too, the YAML wins and the edit is reported. Edits to [*], to a section'',
      ''; naming no profile, and comments and ordering here are not imported.'',
      ''version = 1'']"

definition generatedHeader :: string where
  "generatedHeader = unlines header_lines"

definition globalSection :: string where
  "globalSection = ''*''"

section \<open>Keys\<close>

definition keyAliases :: "(string \<times> string) list" where
  "keyAliases =
     [(''batch'', ''batch-size''), (''ubatch'', ''ubatch-size''), (''n-parallel'', ''parallel''),
      (''endpoint-metrics'', ''metrics''), (''endpoint-props'', ''props''), (''endpoint-slots'', ''slots''),
      (''think'', ''reasoning-format''), (''think-budget'', ''reasoning-budget''),
      (''models_dir'', ''models-dir''), (''models_preset'', ''models-preset''),
      (''models_max'', ''models-max'')]"

text \<open>The regular expression \<^verbatim>\<open>^[a-z_][a-z0-9_.-]*$\<close>.\<close>

definition key_start :: "char \<Rightarrow> bool" where
  "key_start c = (let n = of_char c :: nat in 97 \<le> n \<and> n \<le> 122 \<or> c = CHR ''_'')"

definition key_rest :: "char \<Rightarrow> bool" where
  "key_rest c =
     (let n = of_char c :: nat
      in 97 \<le> n \<and> n \<le> 122 \<or> 48 \<le> n \<and> n \<le> 57 \<or> c = CHR ''_'' \<or> c = CHR ''.'' \<or> c = CHR ''-'')"

definition canonicalKeyPattern :: "string \<Rightarrow> bool" where
  "canonicalKeyPattern s = (case s of [] \<Rightarrow> False | c # cs \<Rightarrow> key_start c \<and> list_all key_rest cs)"

definition env_prefix :: string where
  "env_prefix = ''LLAMA_ARG_''"

text \<open>The key in lower-case command-line form: an upper-case environment name is folded to it.\<close>

definition fold_key :: "string \<Rightarrow> string \<Rightarrow> gerr + string" where
  "fold_key key tidy =
     (if has_prefix tidy env_prefix then
        if tidy \<noteq> to_upper tidy
        then Inl (ini_err ''%w: environment key %q must be uppercase'' [Str key])
        else Inr (to_lower (map (\<lambda>c. if c = CHR ''_'' then CHR ''-'' else c) (trim_prefix tidy env_prefix)))
      else if tidy \<noteq> to_lower tidy
      then Inl (ini_err ''%w: key %q must use lowercase CLI form or exact LLAMA_ARG_* form'' [Str key])
      else Inr tidy)"

definition canonicalKey :: "string \<Rightarrow> gerr + string" where
  "canonicalKey key =
     (let tidy = trim_space key
      in if tidy = [] then Inl (ini_err ''%w: empty key'' [])
         else case fold_key key tidy of
             Inl e \<Rightarrow> Inl e
           | Inr folded \<Rightarrow>
               if \<not> canonicalKeyPattern folded then Inl (ini_err ''%w: invalid key %q'' [Str key])
               else (case map_of keyAliases folded of Some alias \<Rightarrow> Inr alias | None \<Rightarrow> Inr folded))"

section \<open>Rendering\<close>

definition validateSectionName :: "string \<Rightarrow> gerr option" where
  "validateSectionName name =
     (if trim_space name = [] \<or> contains_any name (''[]'' @ [CHR 0x0D, newline] @ '';#='')
      then Some (ini_err ''%w: section name %q'' [Str name]) else None)"

fun canonicalize_each ::
    "(string \<times> string) list \<Rightarrow> (string \<times> string) list \<Rightarrow> gerr + (string \<times> string) list" where
  "canonicalize_each [] vals = Inr vals"
| "canonicalize_each ((key, value) # raw) vals =
     (case canonicalKey key of
        Inl e \<Rightarrow> Inl e
      | Inr canonical \<Rightarrow>
          if map_of vals canonical \<noteq> None then Inl (ini_err ''%w: duplicate key %q'' [Str canonical])
          else if contains_any value [CHR 0x0D, newline]
          then Inl (ini_err ''%w: value for key %q contains a newline'' [Str key])
          else canonicalize_each raw (al_put canonical value vals))"

definition canonicalizeValues :: "(string \<times> string) list \<Rightarrow> gerr + (string \<times> string) list" where
  "canonicalizeValues raw = canonicalize_each raw []"

definition value_line :: "(string \<times> string) list \<Rightarrow> string \<Rightarrow> string" where
  "value_line vals key = key @ '' = '' @ (case map_of vals key of None \<Rightarrow> [] | Some v \<Rightarrow> v)"

definition renderSection :: "ini_section \<Rightarrow> gerr + string" where
  "renderSection s =
     (case validateSectionName (sec_name s) of
        Some e \<Rightarrow> Inl e
      | None \<Rightarrow>
          (case canonicalizeValues (sec_values s) of
             Inl e \<Rightarrow> Inl e
           | Inr vals \<Rightarrow>
               Inr (unlines ([] # (''['' @ sec_name s @ '']'') #
                  map (value_line vals) (sort (al_keys vals))))))"

fun render_each :: "string list \<Rightarrow> ini_section list \<Rightarrow> gerr + string" where
  "render_each seen [] = Inr []"
| "render_each seen (s # ss) =
     (if sec_name s = globalSection
      then Inl (ini_err ''%w: named section may not be %q'' [Str globalSection])
      else if sec_name s \<in> set seen then Inl (ini_err ''%w: duplicate section %q'' [Str (sec_name s)])
      else case renderSection s of
          Inl e \<Rightarrow> Inl e
        | Inr block \<Rightarrow>
            (case render_each (sec_name s # seen) ss of Inl e \<Rightarrow> Inl e | Inr rest \<Rightarrow> Inr (block @ rest)))"

text \<open>The backend-wide defaults come first as \<^verbatim>\<open>[*]\<close>, then the named sections in name order.\<close>

definition renderModelsINI :: "(string \<times> string) list \<Rightarrow> ini_section list \<Rightarrow> gerr + string" where
  "renderModelsINI defaults sections =
     (case (if defaults = [] then Inr []
            else renderSection \<lparr>sec_name = globalSection, sec_values = defaults\<rparr>) of
        Inl e \<Rightarrow> Inl e
      | Inr block \<Rightarrow>
          (case render_each [] (sort_key sec_name sections) of
             Inl e \<Rightarrow> Inl e
           | Inr rest \<Rightarrow> Inr (generatedHeader @ block @ rest)))"

section \<open>Parsing\<close>

text \<open>What precedes the first match of \<^verbatim>\<open>[ \t][;#]\<close>.\<close>

fun cut_comment :: "string \<Rightarrow> string" where
  "cut_comment [] = []"
| "cut_comment [c] = [c]"
| "cut_comment (c # d # cs) =
     (if (c = CHR '' '' \<or> c = CHR 0x09) \<and> (d = CHR '';'' \<or> d = CHR ''#'') then []
      else c # cut_comment (d # cs))"

type_synonym ini_sections = "(string \<times> ini_section) list"

definition parseHeader :: "string \<Rightarrow> ini_sections \<Rightarrow> gerr + (string \<times> ini_sections)" where
  "parseHeader tidy sections =
     (if \<not> has_suffix tidy '']''
      then Inl (ini_err ''%w: malformed section header %q'' [Str tidy])
      else
        (let name = trim_space (butlast (tl tidy))
         in case validateSectionName name of
              Some e \<Rightarrow> Inl e
            | None \<Rightarrow>
                if map_of sections name \<noteq> None
                then Inl (ini_err ''%w: duplicate section %q'' [Str name])
                else Inr (name, al_put name \<lparr>sec_name = name, sec_values = []\<rparr> sections)))"

definition parseValueLine :: "string \<Rightarrow> (string \<times> string) list \<Rightarrow> gerr + (string \<times> string) list" where
  "parseValueLine tidy vals =
     (case cut (CHR ''='') tidy of
        (key, value, found) \<Rightarrow>
          if \<not> found then Inl (ini_err ''%w: expected key = value, got %q'' [Str tidy])
          else (case canonicalKey (trim_space key) of
                  Inl e \<Rightarrow> Inl e
                | Inr canonical \<Rightarrow> Inr (al_put canonical (trim_space (cut_comment value)) vals)))"

definition parse_line :: "string \<Rightarrow> string \<times> ini_sections \<Rightarrow> gerr + (string \<times> ini_sections)" where
  "parse_line line st =
     (case st of
        (current, sections) \<Rightarrow>
          (let tidy = trim_space line
           in if tidy = [] \<or> has_prefix tidy '';'' \<or> has_prefix tidy ''#'' then Inr st
              else if has_prefix tidy ''['' then parseHeader tidy sections
              else if current = [] then Inr st
              else case map_of sections current of
                  None \<Rightarrow> Inr st
                | Some s \<Rightarrow>
                    (case parseValueLine tidy (sec_values s) of
                       Inl e \<Rightarrow> Inl e
                     | Inr vals \<Rightarrow> Inr (current, al_put current (s\<lparr>sec_values := vals\<rparr>) sections))))"

fun parse_lines :: "string list \<Rightarrow> string \<times> ini_sections \<Rightarrow> gerr + (string \<times> ini_sections)" where
  "parse_lines [] st = Inr st"
| "parse_lines (l # ls) st = (case parse_line l st of Inl e \<Rightarrow> Inl e | Inr st' \<Rightarrow> parse_lines ls st')"

definition parseINI :: "string \<Rightarrow> gerr + ini_sections" where
  "parseINI data =
     (case parse_lines (split_on newline data) ([], []) of Inl e \<Rightarrow> Inl e | Inr (cur, sections) \<Rightarrow> Inr sections)"

section \<open>Canonical keys\<close>

lemma key_restD:
  assumes "key_rest c"
  shows "\<not> is_space c" "c \<noteq> newline" "c \<noteq> CHR ''=''" "c \<noteq> CHR 0x0D" "ch_lower c = c"
  using assms by (auto simp: key_rest_def is_space_def newline_def ch_lower_def Let_def)

lemma key_start_rest: "key_start c \<Longrightarrow> key_rest c"
  by (auto simp: key_start_def key_rest_def Let_def)

lemma key_startD:
  assumes "key_start c"
  shows "c \<noteq> CHR '';''" "c \<noteq> CHR ''#''" "c \<noteq> CHR ''[''" "c \<noteq> CHR ''L''"
  using assms by (auto simp: key_start_def Let_def)

lemma patternD:
  assumes "canonicalKeyPattern k"
  shows "k \<noteq> []" "key_start (hd k)" "\<forall>c\<in>set k. key_rest c"
  using assms key_start_rest by (auto simp: canonicalKeyPattern_def list_all_iff split: list.splits)

lemma pattern_trimmed: "canonicalKeyPattern k \<Longrightarrow> trimmed k"
  by (auto simp: trimmed_def dest: patternD key_restD(1) intro: hd_in_set last_in_set)

lemma pattern_lower: "canonicalKeyPattern k \<Longrightarrow> to_lower k = k"
  by (auto simp: to_lower_def dest!: patternD(3) intro!: map_idI key_restD(5))

lemma pattern_not_env: "canonicalKeyPattern k \<Longrightarrow> \<not> has_prefix k env_prefix"
  using patternD(1,2) [of k] key_startD(4) [of "hd k"] by (cases k) (auto simp: env_prefix_def)

lemma keyAliases_targets:
  "\<forall>p\<in>set keyAliases. canonicalKeyPattern (snd p) \<and> map_of keyAliases (snd p) = None"
  by code_simp

lemma canonicalKey_Inr:
  assumes "canonicalKey k = Inr c"
  shows "canonicalKeyPattern c" "map_of keyAliases c = None"
proof -
  obtain f where f: "canonicalKeyPattern f"
    "c = (case map_of keyAliases f of Some alias \<Rightarrow> alias | None \<Rightarrow> f)"
    using assms by (auto simp: canonicalKey_def Let_def split: if_splits sum.splits option.splits)
  then show "canonicalKeyPattern c" "map_of keyAliases c = None"
    using keyAliases_targets by (auto split: option.splits dest!: map_of_SomeD)
qed

lemma canonicalKey_id:
  "canonicalKeyPattern c \<Longrightarrow> map_of keyAliases c = None \<Longrightarrow> canonicalKey c = Inr c"
  by (simp add: canonicalKey_def fold_key_def pattern_not_env pattern_lower patternD(1)
      trim_space_trimmed pattern_trimmed)

lemma canonicalKey_idem: "canonicalKey k = Inr c \<Longrightarrow> canonicalKey c = Inr c"
  by (simp add: canonicalKey_id canonicalKey_Inr)

section \<open>Canonical values\<close>

definition ck :: "string \<Rightarrow> string" where
  "ck k = (case canonicalKey k of Inl e \<Rightarrow> [] | Inr c \<Rightarrow> c)"

definition one_line :: "string \<Rightarrow> bool" where
  "one_line v \<longleftrightarrow> CHR 0x0D \<notin> set v \<and> newline \<notin> set v"

definition canon :: "(string \<times> string) list \<Rightarrow> (string \<times> string) list" where
  "canon raw = map (\<lambda>(k, v). (ck k, v)) raw"

definition canonical :: "(string \<times> string) list \<Rightarrow> bool" where
  "canonical raw \<longleftrightarrow>
     (\<forall>(k, v)\<in>set raw. (\<exists>c. canonicalKey k = Inr c) \<and> one_line v) \<and> distinct (al_keys (canon raw))"

lemma al_put_fresh: "k \<notin> fst ` set ps \<Longrightarrow> al_put k v ps = ps @ [(k, v)]"
  by (induction k v ps rule: al_put.induct) auto

lemma contains_newline: "contains_any v [CHR 0x0D, newline] \<longleftrightarrow> \<not> one_line v"
  by (auto simp: contains_any_iff one_line_def)

lemma canonicalize_each_Inr:
  "canonicalize_each raw vals = Inr vs \<longleftrightarrow>
     (\<forall>(k, v)\<in>set raw. (\<exists>c. canonicalKey k = Inr c) \<and> one_line v) \<and>
     distinct (al_keys (canon raw)) \<and> set (al_keys (canon raw)) \<inter> fst ` set vals = {} \<and>
     vs = vals @ canon raw"
proof (induction raw arbitrary: vals)
  case Nil
  then show ?case by (auto simp: canon_def al_keys_def)
next
  case (Cons p raw)
  obtain k v where p: "p = (k, v)" by (cases p)
  show ?case
  proof (cases "canonicalKey k")
    case (Inr c)
    then have ck: "ck k = c" by (simp add: ck_def)
    show ?thesis
    proof (cases "map_of vals c")
      case None
      then have "al_put c v vals = vals @ [(c, v)]" by (simp add: al_put_fresh map_of_eq_None_iff)
      then show ?thesis
        using Cons.IH [of "vals @ [(c, v)]"] p ck Inr None
        by (auto simp: contains_newline canon_def al_keys_def map_of_eq_None_iff)
    next
      case (Some x)
      then have "c \<in> fst ` set vals" by (metis map_of_eq_None_iff option.distinct(1))
      then show ?thesis using p ck Inr Some by (simp add: canon_def al_keys_def)
    qed
  qed (use p in simp)
qed

lemma canonicalizeValues_Inr: "canonicalizeValues raw = Inr vs \<longleftrightarrow> canonical raw \<and> vs = canon raw"
  by (simp add: canonicalizeValues_def canonicalize_each_Inr canonical_def)

lemma canon_keys: "canonical raw \<Longrightarrow> k \<in> set (al_keys (canon raw)) \<Longrightarrow> canonicalKeyPattern k \<and> map_of keyAliases k = None"
  by (fastforce simp: canonical_def canon_def al_keys_def ck_def dest: canonicalKey_Inr split: sum.splits)

lemma canon_one_line: "canonical raw \<Longrightarrow> map_of (canon raw) k = Some v \<Longrightarrow> one_line v"
  by (fastforce simp: canonical_def canon_def dest: map_of_SomeD)

lemma canonicalizeValues_idem:
  assumes "canonical raw"
  shows "canonical (canon raw) \<and> canon (canon raw) = canon raw"
proof -
  have e: "canonicalKey k = Inr k" "ck k = k" if "(k, v) \<in> set (canon raw)" for k v
  proof -
    have "k \<in> set (al_keys (canon raw))" using that by (force simp: al_keys_def)
    then show "canonicalKey k = Inr k" using canon_keys [OF assms] canonicalKey_id by blast
    then show "ck k = k" by (simp add: ck_def)
  qed
  have c: "canon (canon raw) = canon raw"
    unfolding canon_def [of "canon raw"] using e(2) by (intro map_idI) auto
  moreover have "\<forall>(k, v)\<in>set (canon raw). (\<exists>c. canonicalKey k = Inr c) \<and> one_line v"
    using e(1) assms by (fastforce simp: canonical_def canon_def)
  ultimately show ?thesis using assms by (simp add: canonical_def)
qed

section \<open>What the renderer writes\<close>

definition block_lines :: "string \<Rightarrow> (string \<times> string) list \<Rightarrow> string list" where
  "block_lines name vals = [] # (''['' @ name @ '']'') # map (value_line vals) (sort (al_keys vals))"

definition name_ok :: "string \<Rightarrow> bool" where
  "name_ok name \<longleftrightarrow> validateSectionName name = None"

lemma name_okD:
  assumes "name_ok name"
  shows "trim_space name \<noteq> []" "name \<noteq> []" "newline \<notin> set name"
    "CHR '']'' \<notin> set name" "CHR ''['' \<notin> set name"
  using assms
  by (auto simp: name_ok_def validateSectionName_def contains_any_iff trim_space_def trim_left_def
      trim_right_def split: if_splits)

lemma renderSection_Inr:
  "renderSection s = Inr b \<longleftrightarrow>
     name_ok (sec_name s) \<and> canonical (sec_values s) \<and>
     b = unlines (block_lines (sec_name s) (canon (sec_values s)))"
  by (auto simp: renderSection_def name_ok_def block_lines_def canonicalizeValues_Inr
      split: option.splits sum.splits)
    (metis canonicalizeValues_Inr sum.distinct(1))

lemma unlines_append [simp]: "unlines (xs @ ys) = unlines xs @ unlines ys"
  by (simp add: unlines_def)

lemma unlines_Nil [simp]: "unlines [] = []"
  by (simp add: unlines_def)

definition section_ok :: "ini_section \<Rightarrow> bool" where
  "section_ok s \<longleftrightarrow> name_ok (sec_name s) \<and> canonical (sec_values s)"

definition section_lines :: "ini_section \<Rightarrow> string list" where
  "section_lines s = block_lines (sec_name s) (canon (sec_values s))"

lemma render_each_Inr:
  "render_each seen ss = Inr out \<longleftrightarrow>
     list_all section_ok ss \<and> globalSection \<notin> sec_name ` set ss \<and> distinct (map sec_name ss) \<and>
     sec_name ` set ss \<inter> set seen = {} \<and> out = unlines (concat (map section_lines ss))"
proof (induction seen ss arbitrary: out rule: render_each.induct)
  case (2 seen s ss)
  show ?case
  proof (cases "sec_name s = globalSection \<or> sec_name s \<in> set seen \<or> \<not> section_ok s")
    case True
    then show ?thesis
      by (cases "renderSection s") (auto simp: section_ok_def renderSection_Inr)
  next
    case False
    then have r: "renderSection s = Inr (unlines (section_lines s))"
      by (simp add: renderSection_Inr section_ok_def section_lines_def)
    let ?P = "list_all section_ok ss \<and> globalSection \<notin> sec_name ` set ss \<and>
      distinct (map sec_name ss) \<and> sec_name ` set ss \<inter> set (sec_name s # seen) = {}"
    have ih: "render_each (sec_name s # seen) ss = Inr rest \<longleftrightarrow>
        ?P \<and> rest = unlines (concat (map section_lines ss))" for rest
      using "2.IH" [OF _ _ r] False by simp
    have "render_each seen (s # ss) = Inr out \<longleftrightarrow>
        (\<exists>rest. render_each (sec_name s # seen) ss = Inr rest \<and> out = unlines (section_lines s) @ rest)"
      using False r by (auto split: sum.splits)
    also have "\<dots> \<longleftrightarrow> ?P \<and> out = unlines (concat (map section_lines (s # ss)))"
      unfolding ih by auto
    also have "?P \<longleftrightarrow> list_all section_ok (s # ss) \<and> globalSection \<notin> sec_name ` set (s # ss) \<and>
        distinct (map sec_name (s # ss)) \<and> sec_name ` set (s # ss) \<inter> set seen = {}"
      using False by auto
    finally show ?thesis by simp
  qed
qed auto

definition default_sections :: "(string \<times> string) list \<Rightarrow> ini_section list" where
  "default_sections defaults =
     (if defaults = [] then [] else [\<lparr>sec_name = globalSection, sec_values = defaults\<rparr>])"

lemma renderModelsINI_Inr:
  "renderModelsINI defaults sections = Inr out \<longleftrightarrow>
     list_all section_ok (default_sections defaults @ sections) \<and>
     distinct (map sec_name sections) \<and> globalSection \<notin> sec_name ` set sections \<and>
     out = generatedHeader @
       unlines (concat (map section_lines (default_sections defaults @ sort_key sec_name sections)))"
proof -
  let ?d = "\<lparr>sec_name = globalSection, sec_values = defaults\<rparr>"
  have d: "distinct (map sec_name (sort_key sec_name sections)) = distinct (map sec_name sections)"
    using mset_eq_imp_distinct_iff [of "map sec_name (sort_key sec_name sections)" "map sec_name sections"]
    by simp
  have r: "render_each [] (sort_key sec_name sections) = Inr rest \<longleftrightarrow>
      list_all section_ok sections \<and> globalSection \<notin> sec_name ` set sections \<and>
      distinct (map sec_name sections) \<and>
      rest = unlines (concat (map section_lines (sort_key sec_name sections)))" for rest
    unfolding render_each_Inr d by (simp add: list_all_iff)
  show ?thesis
  proof (cases "defaults = []")
    case True
    then show ?thesis
      using r by (cases "render_each [] (sort_key sec_name sections)")
        (auto simp: renderModelsINI_def default_sections_def)
  next
    case False
    show ?thesis
    proof (cases "section_ok ?d")
      case True
      then have "renderSection ?d = Inr (unlines (section_lines ?d))"
        by (simp add: renderSection_Inr section_ok_def section_lines_def)
      then show ?thesis
        using r True False by (cases "render_each [] (sort_key sec_name sections)")
          (auto simp: renderModelsINI_def default_sections_def)
    next
      case bad: False
      then show ?thesis
        using False by (cases "renderSection ?d")
          (auto simp: renderModelsINI_def default_sections_def renderSection_Inr section_ok_def)
    qed
  qed
qed

section \<open>The order of a map does not show\<close>

definition section_view :: "ini_section \<Rightarrow> string \<times> (string \<times> string) multiset" where
  "section_view s = (sec_name s, mset (sec_values s))"

lemma canonical_mset: "mset raw = mset raw' \<Longrightarrow> canonical raw \<longleftrightarrow> canonical raw'"
proof -
  assume m: "mset raw = mset raw'"
  then have "mset (al_keys (canon raw)) = mset (al_keys (canon raw'))"
    by (simp add: al_keys_def canon_def)
  then have "distinct (al_keys (canon raw)) \<longleftrightarrow> distinct (al_keys (canon raw'))"
    by (rule mset_eq_imp_distinct_iff)
  then show ?thesis using mset_eq_setD [OF m] by (simp only: canonical_def)
qed

lemma section_view_lines:
  assumes "section_view s = section_view t" and "section_ok s"
  shows "section_ok t" "section_lines s = section_lines t"
proof -
  have n: "sec_name t = sec_name s" and m: "mset (sec_values s) = mset (sec_values t)"
    using assms(1) by (simp_all add: section_view_def)
  show "section_ok t" using assms(2) n canonical_mset [OF m] by (simp add: section_ok_def)
  have c: "mset (canon (sec_values s)) = mset (canon (sec_values t))" using m by (simp add: canon_def)
  have d: "distinct (map fst (canon (sec_values s)))"
    using assms(2) by (simp add: section_ok_def canonical_def al_keys_def)
  have "distinct (map fst (canon (sec_values t)))"
    using d c by (metis mset_eq_imp_distinct_iff mset_map)
  then have "map_of (canon (sec_values s)) = map_of (canon (sec_values t))"
    using d mset_eq_setD [OF c] by (simp add: map_of_inject_set)
  then have "value_line (canon (sec_values s)) = value_line (canon (sec_values t))"
    by (simp add: value_line_def fun_eq_iff)
  moreover have "sort (al_keys (canon (sec_values s))) = sort (al_keys (canon (sec_values t)))"
    using c by (intro properties_for_sort) (simp_all add: al_keys_def)
  ultimately show "section_lines s = section_lines t"
    by (simp add: section_lines_def block_lines_def n)
qed

lemma map_insort_key: "map f (insort_key (\<lambda>x. g (f x)) x xs) = insort_key g (f x) (map f xs)"
  by (induction xs) auto

lemma map_sort_key: "map f (sort_key (\<lambda>x. g (f x)) xs) = sort_key g (map f xs)"
  by (induction xs) (simp_all add: map_insort_key)

lemma map_eq_through:
  "map f xs = map f ys \<Longrightarrow> (\<And>x y. x \<in> set xs \<Longrightarrow> f x = f y \<Longrightarrow> g x = g y) \<Longrightarrow> map g xs = map g ys"
proof (induction xs arbitrary: ys)
  case (Cons x xs)
  then obtain y zs where "ys = y # zs" "f x = f y" "map f xs = map f zs" by (cases ys) auto
  then show ?case using Cons by auto
qed simp

text \<open>
  The text of models.ini does not depend on the order in which Go visits a map. Whenever rendering
  succeeds, any other order of the sections, of the keys inside each section and of the backend's
  defaults renders the same bytes.
\<close>

theorem rendering_ignores_order:
  assumes "renderModelsINI defaults sections = Inr out"
    and "mset defaults' = mset defaults"
    and "image_mset section_view (mset sections') = image_mset section_view (mset sections)"
  shows "renderModelsINI defaults' sections' = Inr out"
proof -
  let ?k = "sort_key sec_name"
  have ok: "list_all section_ok (default_sections defaults @ sections)" "distinct (map sec_name sections)"
    "globalSection \<notin> sec_name ` set sections"
    and out: "out = generatedHeader @
      unlines (concat (map section_lines (default_sections defaults @ ?k sections)))"
    using assms(1) by (auto simp: renderModelsINI_Inr)
  have v: "mset (map section_view sections') = mset (map section_view sections)" using assms(3) by simp
  have fst: "(\<lambda>s. fst (section_view s)) = sec_name" by (simp add: section_view_def fun_eq_iff)
  have dv: "inj_on fst (set (map section_view sections))"
    using ok(2) by (auto simp: inj_on_def section_view_def distinct_map)
  have "sort_key fst (map section_view sections) = sort_key fst (map section_view sections')"
    by (rule sort_key_inj_key_eq) (use v dv in simp_all)
  then have "map section_view (?k sections) = map section_view (?k sections')"
    using map_sort_key [of section_view fst] by (simp add: fst)
  then have named: "map section_lines (?k sections) = map section_lines (?k sections')"
  proof (rule map_eq_through)
    fix s t assume "s \<in> set (?k sections)" "section_view s = section_view t"
    then show "section_lines s = section_lines t"
      using section_view_lines(2) ok(1) by (simp add: list_all_iff)
  qed
  have names: "mset (map sec_name sections') = mset (map sec_name sections)"
    using arg_cong [OF v, of "image_mset fst"] by (simp add: multiset.map_comp comp_def section_view_def)
  have sok: "section_ok t" if t: "t \<in> set sections'" for t
  proof -
    have "section_view t \<in> set (map section_view sections)" using t mset_eq_setD [OF v] by auto
    then obtain s where "s \<in> set sections" "section_view s = section_view t" by auto
    then show ?thesis using ok(1) section_view_lines(1) by (auto simp: list_all_iff)
  qed
  have defs: "list_all section_ok (default_sections defaults') \<and>
      map section_lines (default_sections defaults') = map section_lines (default_sections defaults)"
  proof (cases "defaults = []")
    case False
    then have "defaults' \<noteq> []" using assms(2) by auto
    with False show ?thesis
      using ok(1) assms(2) section_view_lines [of "\<lparr>sec_name = globalSection, sec_values = defaults\<rparr>"
          "\<lparr>sec_name = globalSection, sec_values = defaults'\<rparr>"]
      by (simp add: default_sections_def section_view_def)
  qed (use assms(2) in \<open>simp add: default_sections_def\<close>)
  show ?thesis
    unfolding renderModelsINI_Inr out
    using defs named sok ok mset_eq_imp_distinct_iff [OF names] mset_eq_setD [OF names]
    by (simp add: list_all_iff ball_Un)
qed

section \<open>Reading back what was written\<close>

text \<open>What a rendered value is read as: the blanks around it and a trailing comment are lost.\<close>

definition read_value :: "string \<Rightarrow> string" where
  "read_value v = trim_space (cut_comment (trim_right is_space (CHR '' '' # v)))"

lemma trim_right_append:
  "x \<noteq> [] \<Longrightarrow> \<not> p (last x) \<Longrightarrow> trim_right p (x @ y) = x @ trim_right p y"
proof -
  assume x: "x \<noteq> []" "\<not> p (last x)"
  then obtain l where l: "rev x = last x # l" by (cases x rule: rev_cases) auto
  then have d: "dropWhile p (rev x) = rev x" unfolding l using x(2) by simp
  show ?thesis
  proof (cases "\<forall>c\<in>set (rev y). p c")
    case True
    then have "dropWhile p (rev y @ rev x) = dropWhile p (rev x)" "dropWhile p (rev y) = []"
      using dropWhile_append2 [of "rev y" p "rev x"] by simp_all
    then show ?thesis using d by (simp add: trim_right_def)
  next
    case False
    then show ?thesis by (auto simp: trim_right_def dropWhile_append1)
  qed
qed

lemma parse_lines_append:
  "parse_lines (xs @ ys) st =
     (case parse_lines xs st of Inl e \<Rightarrow> Inl e | Inr st' \<Rightarrow> parse_lines ys st')"
  by (induction xs arbitrary: st) (auto split: sum.splits)

lemma split_unlines:
  "\<forall>l\<in>set ls. newline \<notin> set l \<Longrightarrow> split_on newline (unlines ls @ t) = ls @ split_on newline t"
proof (induction ls)
  case (Cons l ls)
  have "split_on newline (unlines (l # ls) @ t) = split_on newline (l @ newline # (unlines ls @ t))"
    by (simp add: unlines_def)
  then show ?case using Cons by (simp add: split_on_append)
qed simp

lemma value_line_trim:
  assumes "canonicalKeyPattern k"
  shows "trim_space (k @ '' = '' @ v) = (k @ '' ='') @ trim_right is_space (CHR '' '' # v)"
proof -
  have "trim_left is_space (k @ '' = '' @ v) = k @ '' = '' @ v"
    using patternD [OF assms] key_restD(1) by (intro trim_left_id) (auto simp: hd_append)
  moreover have "trim_right is_space ((k @ '' ='') @ (CHR '' '' # v)) =
      (k @ '' ='') @ trim_right is_space (CHR '' '' # v)"
    by (rule trim_right_append) (simp_all add: is_space_def)
  ultimately show ?thesis by (simp add: trim_space_def)
qed

lemma parse_value_line:
  assumes k: "canonicalKeyPattern k" "map_of keyAliases k = None"
    and "map_of secs cur = Some s" and "cur \<noteq> []"
  shows "parse_line (k @ '' = '' @ v) (cur, secs) =
    Inr (cur, al_put cur (s\<lparr>sec_values := al_put k (read_value v) (sec_values s)\<rparr>) secs)"
proof -
  let ?t = "(k @ '' ='') @ trim_right is_space (CHR '' '' # v)"
  obtain c cs where c: "k = c # cs" "key_start c" using patternD [OF k(1)] by (cases k) auto
  have "CHR ''='' \<notin> set (k @ '' '')" using patternD(3) [OF k(1)] key_restD(3) by auto
  then have "cut (CHR ''='') ((k @ '' '') @ CHR ''='' # trim_right is_space (CHR '' '' # v)) =
      (k @ '' '', trim_right is_space (CHR '' '' # v), True)"
    by (rule cut_append)
  then have cut: "cut (CHR ''='') ?t = (k @ '' '', trim_right is_space (CHR '' '' # v), True)" by simp
  have sp: "trim_space (k @ '' '') = k"
  proof -
    have "trim_space (k @ '' '') = trim_right is_space (k @ '' '')"
      using patternD [OF k(1)] key_restD(1)
      by (auto simp: trim_space_def trim_left_id hd_append)
    also have "\<dots> = k @ trim_right is_space '' ''"
      using patternD [OF k(1)] key_restD(1) by (intro trim_right_append) auto
    finally show ?thesis by (simp add: trim_right_def is_space_def)
  qed
  have "canonicalKey (trim_space (k @ '' '')) = Inr k" using k sp canonicalKey_id by simp
  then have pv: "parseValueLine ?t (sec_values s) = Inr (al_put k (read_value v) (sec_values s))"
    unfolding parseValueLine_def cut by (simp add: read_value_def)
  have "\<not> has_prefix ?t '';''" "\<not> has_prefix ?t ''#''" "\<not> has_prefix ?t ''[''" "?t \<noteq> []"
    using c key_startD by auto
  then show ?thesis
    unfolding parse_line_def prod.case value_line_trim [OF k(1)] Let_def
    using assms(3,4) pv by simp
qed

lemma parse_header_line:
  assumes "name_ok name" and "trimmed name" and "map_of secs name = None"
  shows "parse_line (''['' @ name @ '']'') (cur, secs) =
    Inr (name, al_put name \<lparr>sec_name = name, sec_values = []\<rparr> secs)"
proof -
  let ?t = "''['' @ name @ '']''"
  have t: "trim_space ?t = ?t" by (rule trim_space_trimmed) (simp add: trimmed_def is_space_def)
  have "has_suffix ?t '']''" unfolding has_suffix_iff by (rule exI [of _ "''['' @ name"]) simp
  moreover have "butlast (tl ?t) = name" by (simp add: butlast_append)
  ultimately show ?thesis
    unfolding parse_line_def prod.case t Let_def
    using assms by (simp add: parseHeader_def trim_space_trimmed name_ok_def)
qed

lemma parse_value_lines:
  assumes "\<forall>k\<in>set ks. canonicalKeyPattern k \<and> map_of keyAliases k = None"
    and "map_of secs cur = Some t" and "cur \<noteq> []"
  shows "\<exists>t' secs'. parse_lines (map (value_line vs) ks) (cur, secs) = Inr (cur, secs') \<and>
     map_of secs' = (map_of secs)(cur \<mapsto> t') \<and> sec_name t' = sec_name t \<and>
     (\<forall>k. map_of (sec_values t') k =
        (if k \<in> set ks then Some (read_value (case map_of vs k of None \<Rightarrow> [] | Some v \<Rightarrow> v))
         else map_of (sec_values t) k))"
  using assms
proof (induction ks arbitrary: secs t)
  case Nil
  then show ?case by (intro exI [of _ t] exI [of _ secs]) (simp add: fun_upd_idem)
next
  case (Cons k ks)
  let ?v = "read_value (case map_of vs k of None \<Rightarrow> [] | Some v \<Rightarrow> v)"
  let ?t = "t\<lparr>sec_values := al_put k ?v (sec_values t)\<rparr>"
  let ?secs = "al_put cur ?t secs"
  have step: "parse_line (value_line vs k) (cur, secs) = Inr (cur, ?secs)"
    unfolding value_line_def using Cons.prems by (intro parse_value_line) simp_all
  have q: "\<forall>k\<in>set ks. canonicalKeyPattern k \<and> map_of keyAliases k = None" "map_of ?secs cur = Some ?t"
    using Cons.prems by simp_all
  from Cons.IH [OF q Cons.prems(3)]
  obtain t' secs' where t': "parse_lines (map (value_line vs) ks) (cur, ?secs) = Inr (cur, secs')"
    "map_of secs' = (map_of ?secs)(cur \<mapsto> t')" "sec_name t' = sec_name ?t"
    "\<forall>k. map_of (sec_values t') k =
        (if k \<in> set ks then Some (read_value (case map_of vs k of None \<Rightarrow> [] | Some v \<Rightarrow> v))
         else map_of (sec_values ?t) k)"
    by blast
  show ?case
    using step t' by (intro exI [of _ t'] exI [of _ secs']) auto
qed

definition reads_back :: "ini_sections \<Rightarrow> ini_section \<Rightarrow> bool" where
  "reads_back secs s \<longleftrightarrow>
     (\<exists>t. map_of secs (sec_name s) = Some t \<and> sec_name t = sec_name s \<and>
        (\<forall>k. map_of (sec_values t) k = map_option read_value (map_of (canon (sec_values s)) k)))"

lemma parse_block:
  assumes "section_ok s" and "trimmed (sec_name s)" and "map_of secs (sec_name s) = None"
  shows "\<exists>t secs'. parse_lines (section_lines s) (cur, secs) = Inr (sec_name s, secs') \<and>
     map_of secs' = (map_of secs)(sec_name s \<mapsto> t) \<and> reads_back secs' s"
proof -
  let ?n = "sec_name s" and ?vs = "canon (sec_values s)"
  let ?ks = "sort (al_keys ?vs)" and ?t = "\<lparr>sec_name = sec_name s, sec_values = []\<rparr>"
  let ?secs = "al_put ?n ?t secs"
  have ok: "name_ok ?n" "canonical (sec_values s)" using assms(1) by (simp_all add: section_ok_def)
  have n: "?n \<noteq> []" using name_okD(2) [OF ok(1)] .
  have ks: "\<forall>k\<in>set ?ks. canonicalKeyPattern k \<and> map_of keyAliases k = None"
    using canon_keys [OF ok(2)] by simp
  have "map_of ?secs ?n = Some ?t" by simp
  from parse_value_lines [OF ks this n, of ?vs]
  obtain t secs' where t: "parse_lines (map (value_line ?vs) ?ks) (?n, ?secs) = Inr (?n, secs')"
    "map_of secs' = (map_of ?secs)(?n \<mapsto> t)" "sec_name t = ?n"
    "\<forall>k. map_of (sec_values t) k =
       (if k \<in> set ?ks then Some (read_value (case map_of ?vs k of None \<Rightarrow> [] | Some v \<Rightarrow> v)) else None)"
    by auto
  have vals: "map_of (sec_values t) k = map_option read_value (map_of ?vs k)" for k
  proof (cases "map_of ?vs k")
    case None
    then have "k \<notin> set ?ks" by (simp add: al_keys_def map_of_eq_None_iff)
    then show ?thesis using t(4) None by simp
  next
    case (Some v)
    then have "k \<in> set ?ks" using map_of_SomeD by (force simp: al_keys_def)
    then show ?thesis using t(4) Some by simp
  qed
  have blank: "parse_line [] (cur, secs) = Inr (cur, secs)"
    by (simp add: parse_line_def trim_space_def trim_left_def trim_right_def)
  have "parse_lines (section_lines s) (cur, secs) = Inr (?n, secs')"
    using parse_header_line [OF ok(1) assms(2,3), of cur] t(1)
    by (simp add: section_lines_def block_lines_def blank)
  moreover have "reads_back secs' s" using t(2,3) vals by (auto simp: reads_back_def)
  ultimately show ?thesis using t(2) by auto
qed

lemma parse_blocks:
  assumes "list_all section_ok ss" and "\<forall>s\<in>set ss. trimmed (sec_name s)" and "distinct (map sec_name ss)"
    and "\<forall>s\<in>set ss. map_of secs (sec_name s) = None"
  shows "\<exists>cur' secs'. parse_lines (concat (map section_lines ss)) (cur, secs) = Inr (cur', secs') \<and>
     dom (map_of secs') = dom (map_of secs) \<union> sec_name ` set ss \<and> (\<forall>s\<in>set ss. reads_back secs' s) \<and>
     (\<forall>n. n \<notin> sec_name ` set ss \<longrightarrow> map_of secs' n = map_of secs n)"
  using assms
proof (induction ss arbitrary: cur secs)
  case (Cons s ss)
  obtain t secs1 where s: "parse_lines (section_lines s) (cur, secs) = Inr (sec_name s, secs1)"
    "map_of secs1 = (map_of secs)(sec_name s \<mapsto> t)" "reads_back secs1 s"
    using parse_block [of s secs cur] Cons.prems by auto
  have "sec_name u \<noteq> sec_name s" if "u \<in> set ss" for u
    using that Cons.prems(3) by (metis distinct.simps(2) image_eqI list.set_map list.simps(9))
  then have "\<forall>u\<in>set ss. map_of secs1 (sec_name u) = None" using s(2) Cons.prems by simp
  then obtain cur' secs' where ss: "parse_lines (concat (map section_lines ss)) (sec_name s, secs1) = Inr (cur', secs')"
    "dom (map_of secs') = dom (map_of secs1) \<union> sec_name ` set ss" "\<forall>u\<in>set ss. reads_back secs' u"
    "\<forall>n. n \<notin> sec_name ` set ss \<longrightarrow> map_of secs' n = map_of secs1 n"
    using Cons.IH [of secs1 "sec_name s"] Cons.prems by auto
  have "reads_back secs' s"
    using s(3) ss(4) Cons.prems(3) by (auto simp: reads_back_def)
  then show ?case
    using s(1,2) ss by (auto simp: parse_lines_append)
qed auto

lemma parse_header_lines: "parse_lines header_lines ([], []) = Inr ([], [])"
  by code_simp

lemma header_one_line: "\<forall>l\<in>set header_lines. newline \<notin> set l"
  by code_simp

lemma section_lines_one_line:
  assumes "section_ok s" and "l \<in> set (section_lines s)"
  shows "newline \<notin> set l"
proof -
  have ok: "name_ok (sec_name s)" "canonical (sec_values s)" using assms(1) by (simp_all add: section_ok_def)
  have "newline \<notin> set (value_line (canon (sec_values s)) k)" if "k \<in> set (al_keys (canon (sec_values s)))" for k
  proof -
    have "newline \<notin> set k" using canon_keys [OF ok(2) that] patternD(3) key_restD(2) by blast
    then show ?thesis
      using canon_one_line [OF ok(2), of k]
      by (auto simp: value_line_def one_line_def newline_def split: option.splits)
  qed
  then show ?thesis
    using assms(2) name_okD(3) [OF ok(1)] by (auto simp: section_lines_def block_lines_def newline_def)
qed

lemma models_ini_parses:
  assumes "renderModelsINI defaults sections = Inr out" and "\<forall>s\<in>set sections. trimmed (sec_name s)"
  shows "\<exists>secs. parseINI out = Inr secs \<and>
     dom (map_of secs) = sec_name ` set (default_sections defaults @ sections) \<and>
     (\<forall>s\<in>set (default_sections defaults @ sections). reads_back secs s)"
proof -
  let ?ss = "default_sections defaults @ sort_key sec_name sections"
  have ok: "list_all section_ok (default_sections defaults @ sections)" "distinct (map sec_name sections)"
    "globalSection \<notin> sec_name ` set sections" and out: "out = generatedHeader @ unlines (concat (map section_lines ?ss))"
    using assms(1) by (auto simp: renderModelsINI_Inr)
  have "distinct (map sec_name (sort_key sec_name sections))"
    using mset_eq_imp_distinct_iff [of "map sec_name (sort_key sec_name sections)" "map sec_name sections"]
      ok(2) by simp
  then have d: "distinct (map sec_name ?ss)" using ok(3) by (simp add: default_sections_def)
  have sok: "list_all section_ok ?ss" using ok(1) by (auto simp: list_all_iff)
  have tr: "\<forall>s\<in>set ?ss. trimmed (sec_name s)"
    using assms(2) by (auto simp: default_sections_def trimmed_def globalSection_def is_space_def)
  have "\<forall>l\<in>set (header_lines @ concat (map section_lines ?ss)). newline \<notin> set l"
    using header_one_line section_lines_one_line sok by (fastforce simp: list_all_iff)
  from split_unlines [OF this, of "[]"]
  have lines: "split_on newline out = header_lines @ concat (map section_lines ?ss) @ [[]]"
    by (simp add: out generatedHeader_def)
  obtain cur secs where p: "parse_lines (concat (map section_lines ?ss)) ([], []) = Inr (cur, secs)"
    "dom (map_of secs) = sec_name ` set ?ss" "\<forall>s\<in>set ?ss. reads_back secs s"
    using parse_blocks [OF sok tr d, of "[]" "[]"] by auto
  have blank: "parse_lines [[]] (cur, secs) = Inr (cur, secs)"
    by (simp add: parse_line_def trim_space_def trim_left_def trim_right_def)
  have "parse_lines (split_on newline out) ([], []) = Inr (cur, secs)"
    unfolding lines parse_lines_append parse_header_lines using p(1) blank
    by (simp add: parse_lines_append)
  then have "parseINI out = Inr secs" by (simp add: parseINI_def)
  then show ?thesis using p(2,3) by auto
qed

text \<open>
  C30: What is rendered is read back. Parsing the text of any successful rendering succeeds; it finds
  exactly the sections that were rendered, the defaults as \<^verbatim>\<open>[*]\<close>, under each name exactly the
  canonical keys of its section, and under each key the value as \<^const>\<open>read_value\<close> reads it.
\<close>

theorem models_ini_reads_back:
  assumes "renderModelsINI defaults sections = Inr out" and "\<forall>s\<in>set sections. trimmed (sec_name s)"
  shows "\<exists>secs. parseINI out = Inr secs \<and>
     dom (map_of secs) = sec_name ` set (default_sections defaults @ sections) \<and>
     (\<forall>s\<in>set (default_sections defaults @ sections). reads_back secs s)"
  by (rule models_ini_parses [OF assms])

text \<open>A value without surrounding blanks and comment markers is read exactly as it was written.\<close>

definition plain_value :: "string \<Rightarrow> bool" where
  "plain_value v \<longleftrightarrow> trimmed v \<and> cut_comment (CHR '' '' # v) = CHR '' '' # v"

lemma read_plain_value:
  assumes "plain_value v"
  shows "read_value v = v"
proof (cases "v = []")
  case True
  then show ?thesis by (simp add: read_value_def trim_right_def trim_space_def trim_left_def is_space_def)
next
  case False
  then have "trim_right is_space (CHR '' '' # v) = CHR '' '' # v"
    using assms by (intro trim_right_id) (simp add: plain_value_def trimmed_def)
  then show ?thesis
    using assms by (simp add: read_value_def plain_value_def trim_space_pad_left trim_space_trimmed is_space_def)
qed

definition ex_sections :: "ini_section list" where
  "ex_sections =
     [\<lparr>sec_name = ''qwen'', sec_values = [(''LLAMA_ARG_N_PARALLEL'', ''4''), (''model'', ''/m/q.gguf'')]\<rparr>,
      \<lparr>sec_name = ''gemma'', sec_values = [(''chat-template'', ''a #b'')]\<rparr>]"

definition ex_ini :: string where
  "ex_ini = generatedHeader @ unlines
     [[], ''[*]'', ''ctx-size = 4096'', [], ''[gemma]'', ''chat-template = a #b'',
      [], ''[qwen]'', ''model = /m/q.gguf'', ''parallel = 4'']"

lemma ex_ini: "renderModelsINI [(''ctx-size'', ''4096'')] ex_sections = Inr ex_ini"
  by code_simp

theorem models_ini_reads_back_witness:
  "\<exists>secs. parseINI ex_ini = Inr secs \<and> dom (map_of secs) = {''*'', ''qwen'', ''gemma''} \<and>
     (\<forall>s\<in>set ex_sections. reads_back secs s)"
proof -
  have "\<forall>s\<in>set ex_sections. trimmed (sec_name s)"
    by (simp add: ex_sections_def trimmed_def is_space_def)
  from models_ini_reads_back [OF ex_ini this]
  show ?thesis by (auto simp: default_sections_def ex_sections_def globalSection_def)
qed

theorem rendering_ignores_order_witness:
  "renderModelsINI [(''ctx-size'', ''4096'')] (rev ex_sections) = Inr ex_ini"
  by (rule rendering_ignores_order [OF ex_ini]) simp_all

end
