(* ===== verification/Quant.thy ===== *)
theory Quant
  imports GoPath
begin

text \<open>
  The quantization tag of a GGUF file name, \<^verbatim>\<open>backends/llamacpp/quant.go\<close>. The regular expression is a
  matcher that lists, in the order of preference of Go's leftmost-first search, what can be consumed at a
  place and what is left; letters match in either case.
\<close>

type_synonym matcher = "string \<Rightarrow> (string \<times> string) list"

definition lit :: "string \<Rightarrow> matcher" where
  "lit w s = (if length w \<le> length s \<and> to_upper (take (length w) s) = w
              then [(take (length w) s, drop (length w) s)] else [])"

definition one :: "(char \<Rightarrow> bool) \<Rightarrow> matcher" where
  "one p s = (case s of [] \<Rightarrow> [] | c # cs \<Rightarrow> if p c then [([c], cs)] else [])"

text \<open>One or more bytes of a class, as many as possible first.\<close>

definition run :: "(char \<Rightarrow> bool) \<Rightarrow> matcher" where
  "run p s = map (\<lambda>n. (take n s, drop n s)) (rev [1..<Suc (length (takeWhile p s))])"

definition seq :: "matcher \<Rightarrow> matcher \<Rightarrow> matcher" where
  "seq m1 m2 s = concat (map (\<lambda>(a, r). map (\<lambda>(b, r'). (a @ b, r')) (m2 r)) (m1 s))"

definition alt :: "matcher \<Rightarrow> matcher \<Rightarrow> matcher" where
  "alt m1 m2 s = m1 s @ m2 s"

definition opt :: "matcher \<Rightarrow> matcher" where
  "opt m s = m s @ [([], s)]"

definition digit :: "char \<Rightarrow> bool" where
  "digit c \<longleftrightarrow> digit_of c \<noteq> None"

definition letter :: "char \<Rightarrow> bool" where
  "letter c = (let n = of_char (ch_upper c) :: nat in 65 \<le> n \<and> n \<le> 90)"

definition quant_tag :: matcher where
  "quant_tag =
     seq (opt (lit ''UD-''))
       (alt (seq (lit ''Q'') (seq (one digit) (seq (lit ''_K'') (opt (seq (lit ''_'') (run letter))))))
       (alt (seq (lit ''IQ'') (seq (one digit) (seq (lit ''_'') (run (\<lambda>c. letter c \<or> digit c)))))
       (alt (seq (lit ''Q'') (seq (one digit) (seq (lit ''_'') (one digit))))
       (alt (seq (lit ''Q'') (one digit))
       (alt (lit ''BF16'') (alt (lit ''F16'') (lit ''F32'')))))))"

definition quant_end :: matcher where
  "quant_end = alt (lit ''.GGUF'') (one (\<lambda>c. c \<in> set ''-_/''))"

definition quant_at :: "bool \<Rightarrow> string \<Rightarrow> string option" where
  "quant_at at_start s =
     (let starts = (if at_start then [s] else []) @ map snd (one (\<lambda>c. c \<in> set ''-_/.'') s);
          tags = filter (\<lambda>(t, r). quant_end r \<noteq> []) (concat (map quant_tag starts))
      in case tags of [] \<Rightarrow> None | (t, r) # more \<Rightarrow> Some t)"

fun find_quant :: "bool \<Rightarrow> string \<Rightarrow> string option" where
  "find_quant at_start [] = None"
| "find_quant at_start (c # cs) =
     (case quant_at at_start (c # cs) of Some t \<Rightarrow> Some t | None \<Rightarrow> find_quant False cs)"

definition InferQuant :: "string \<Rightarrow> string" where
  "InferQuant filename = (case find_quant True (Base filename) of None \<Rightarrow> [] | Some t \<Rightarrow> to_upper t)"

lemma ch_upper_idem: "ch_upper (ch_upper c) = ch_upper c"
proof -
  have "ch_upper c = c \<or> (97 \<le> (of_char c :: nat) \<and> (of_char c :: nat) \<le> 122 \<and> ch_upper c = char_of ((of_char c :: nat) - 32))"
    by (auto simp: ch_upper_def Let_def)
  then show ?thesis
  proof
    assume a: "97 \<le> (of_char c :: nat) \<and> (of_char c :: nat) \<le> 122 \<and> ch_upper c = char_of ((of_char c :: nat) - 32)"
    then have "(of_char c :: nat) - 32 < 256" by arith
    with a have "(of_char (ch_upper c) :: nat) = of_char c - 32" by simp
    with a have "\<not> 97 \<le> (of_char (ch_upper c) :: nat)" by arith
    then show ?thesis unfolding ch_upper_def [of "ch_upper c"] Let_def by simp
  qed simp
qed

lemma InferQuant_upper: "to_upper (InferQuant filename) = InferQuant filename"
  by (simp add: InferQuant_def to_upper_def comp_def ch_upper_idem split: option.splits)

end
