(* ===== verification/LlamaCpp.thy ===== *)
theory LlamaCpp
  imports ModelsIni Profiles LocalModels Quant
begin

text \<open>
  The llama.cpp backend, \<^verbatim>\<open>backends/llamacpp\<close>: \<^verbatim>\<open>resolve.go\<close> (which file a model source names),
  \<^verbatim>\<open>materialize.go\<close> (profiles to \<^verbatim>\<open>models.ini\<close>), \<^verbatim>\<open>validate.go\<close>, \<^verbatim>\<open>launch.go\<close>, \<^verbatim>\<open>activate.go\<close> and
  the neutral part of \<^verbatim>\<open>backend.go\<close>. The backend's value is the record \<open>llama\<close>: its options, what the
  installer reports as the active executable, the directories of \<^verbatim>\<open>config\<close> (\<^const>\<open>None\<close> when the home
  directory is unknown), and the library functions it calls as parameters: \<^verbatim>\<open>url.Parse\<close>, and the decoding
  of a YAML scalar used by the import.
\<close>

section \<open>URLs and sources\<close>

record url =
  u_scheme :: string
  u_host :: string
  u_path :: string
  u_escaped :: string

record llama_opts =
  lo_storage :: string
  lo_ini_path :: string
  lo_pid_dir :: string
  lo_executable :: string
  lo_models_max :: int
  lo_expose :: bool
  lo_defaults :: "(string \<times> string) list"

text \<open>What the GGUF library answers for a file and a context length: the KV-cache bytes of each device
  (unsigned), an error, or a panic.\<close>

datatype gguf_run = GgufDevices "nat list" | GgufError | GgufPanic

text \<open>What running an external tool gives: no such program, a failure, or its output.\<close>

datatype 'a tool_reply = ToolMissing | ToolFailed gerr | ToolOutput 'a

record llama =
  ll_opts :: llama_opts
  ll_home :: "string option"
  ll_user_home :: "string option"
  ll_active_exe :: "string option"
  ll_parse_url :: "string \<Rightarrow> url option"
  ll_scalar :: "string \<Rightarrow> yval option"
  ll_mtime :: "string \<Rightarrow> int option"
  ll_gguf :: "string \<Rightarrow> int \<Rightarrow> gguf_run"
  ll_nvidia :: "string tool_reply"
  ll_rocm :: "(gerr + (string \<times> (string \<times> string) list) list) tool_reply"

definition llama_name :: string where
  "llama_name = ''llamacpp''"

definition llama_New :: "llama \<Rightarrow> llama" where
  "llama_New b =
     (let opts = ll_opts b
      in b\<lparr>ll_opts := opts
        \<lparr>lo_executable := (if lo_executable opts = [] then ''llama-server'' else lo_executable opts),
         lo_models_max := (if lo_models_max opts \<le> 0 then 1 else lo_models_max opts)\<rparr>\<rparr>)"

text \<open>\<^verbatim>\<open>url.PathEscape\<close> and \<^verbatim>\<open>url.PathUnescape\<close> of one path segment.\<close>

definition hex_digit :: "nat \<Rightarrow> char" where
  "hex_digit n = char_of (if n < 10 then 48 + n else 55 + n)"

definition hex_value :: "char \<Rightarrow> nat option" where
  "hex_value c =
     (let n = of_char c :: nat
      in if 48 \<le> n \<and> n \<le> 57 then Some (n - 48)
         else if 65 \<le> n \<and> n \<le> 70 then Some (n - 55)
         else if 97 \<le> n \<and> n \<le> 102 then Some (n - 87)
         else None)"

definition keeps_segment :: "char \<Rightarrow> bool" where
  "keeps_segment c =
     (let n = of_char c :: nat
      in 48 \<le> n \<and> n \<le> 57 \<or> 65 \<le> n \<and> n \<le> 90 \<or> 97 \<le> n \<and> n \<le> 122 \<or> c \<in> set ''-_.~$&+:=@'')"

definition PathEscape :: "string \<Rightarrow> string" where
  "PathEscape s =
     concat (map (\<lambda>c. if keeps_segment c then [c]
       else [CHR ''%'', hex_digit (of_char c div 16), hex_digit (of_char c mod 16)]) s)"

fun PathUnescape :: "string \<Rightarrow> string option" where
  "PathUnescape [] = Some []"
| "PathUnescape (c # cs) =
     (if c = CHR ''%'' then
        (case cs of
           a # b # r \<Rightarrow>
             (case (hex_value a, hex_value b) of
                (Some x, Some y) \<Rightarrow> map_option ((#) (char_of (16 * x + y))) (PathUnescape r)
              | _ \<Rightarrow> None)
         | _ \<Rightarrow> None)
      else map_option ((#) c) (PathUnescape cs))"

definition encodePath :: "string \<Rightarrow> string" where
  "encodePath reference = join_with [slash] (map PathEscape (split_on slash reference))"

definition safeSegment :: "string \<Rightarrow> bool" where
  "safeSegment v \<longleftrightarrow> v \<noteq> [] \<and> v \<noteq> ''.'' \<and> v \<noteq> dotdot \<and> \<not> contains_any v [slash, CHR 0x5C]"

definition hfHost :: string where
  "hfHost = ''huggingface.co''"

definition trim_slashes :: "string \<Rightarrow> string" where
  "trim_slashes s = trim_right (\<lambda>c. c = slash) (trim_left (\<lambda>c. c = slash) s)"

definition parseHuggingFaceRepo :: "llama \<Rightarrow> string \<Rightarrow> string option" where
  "parseHuggingFaceRepo b raw_url =
     (let raw = trim_space raw_url
      in case ll_parse_url b raw of
           None \<Rightarrow> None
         | Some parsed \<Rightarrow>
             (case (if u_scheme parsed = ''https'' \<and> u_host parsed = hfHost then Some (u_escaped parsed)
                    else if u_scheme parsed = [] \<and> u_host parsed = [] then Some raw
                    else None) of
                None \<Rightarrow> None
              | Some p \<Rightarrow>
                  (case split_on slash (trim_slashes p) of
                     [a, r] \<Rightarrow>
                       (case (PathUnescape a, PathUnescape r) of
                          (Some owner, Some repo) \<Rightarrow>
                            if safeSegment owner \<and> safeSegment repo
                            then Some (''https://'' @ hfHost @ ''/'' @ owner @ ''/'' @ repo) else None
                        | _ \<Rightarrow> None)
                   | _ \<Rightarrow> None)))"

text \<open>The artifact's file name and the URI it is fetched from.\<close>

definition resolve_plain :: "llama \<Rightarrow> string \<Rightarrow> string \<Rightarrow> string \<times> string" where
  "resolve_plain b source reference =
     (let expanded = ExpandHome (ll_user_home b) source
      in case ll_parse_url b source of
           Some parsed \<Rightarrow>
             if u_scheme parsed = ''http'' \<or> u_scheme parsed = ''https'' then (Base (u_path parsed), source)
             else if IsAbs expanded then (Base expanded, expanded)
             else if reference \<noteq> [] then (Base reference, source)
             else (Base source, source)
         | None \<Rightarrow>
             if IsAbs expanded then (Base expanded, expanded)
             else if reference \<noteq> [] then (Base reference, source)
             else (Base source, source))"

definition resolveArtifact :: "llama \<Rightarrow> string \<Rightarrow> string \<Rightarrow> string \<times> string" where
  "resolveArtifact b source reference =
     (case parseHuggingFaceRepo b source of
        Some hf \<Rightarrow>
          if reference \<noteq> [] then (Base reference, hf @ ''/resolve/main/'' @ encodePath reference)
          else resolve_plain b source reference
      | None \<Rightarrow> resolve_plain b source reference)"

definition llama_Resolve :: "llama \<Rightarrow> profile \<Rightarrow> gerr + resolved_model" where
  "llama_Resolve b p =
     (if ms_source (p_model p) = [] then Inl (Errorw (Fmt ''model.source is required'' []) [])
      else
        (let (name, uri) = resolveArtifact b (ms_source (p_model p)) (ms_reference (p_model p))
         in Inr \<lparr>rm_source = ms_source (p_model p), rm_reference = ms_reference (p_model p),
                 rm_multi_file = False,
                 rm_artifacts = [\<lparr>ar_name = name, ar_uri = uri, ar_size = 0, ar_sha256 = []\<rparr>],
                 rm_metadata = (if InferQuant name = [] then [] else [(''quant'', InferQuant name)])\<rparr>))"

section \<open>Directories\<close>

definition no_home :: gerr where
  "no_home = Errorw (Fmt ''resolve user home: %w'' []) []"

definition or_no_home :: "string option \<Rightarrow> gerr + string" where
  "or_no_home d = (case d of None \<Rightarrow> Inl no_home | Some p \<Rightarrow> Inr p)"

definition modelStorageDir :: "llama \<Rightarrow> gerr + string" where
  "modelStorageDir b =
     (if lo_storage (ll_opts b) \<noteq> [] then Inr (lo_storage (ll_opts b))
      else or_no_home (homePath (ll_home b) [''models'']))"

definition generatedININPath :: "llama \<Rightarrow> gerr + string" where
  "generatedININPath b =
     (if lo_ini_path (ll_opts b) \<noteq> [] then Inr (lo_ini_path (ll_opts b))
      else case GeneratedDir (ll_home b) llama_name of
          Inl e \<Rightarrow> Inl e
        | Inr dir \<Rightarrow> Inr (Join [dir, ''models.ini'']))"

definition llama_pidDir :: "llama \<Rightarrow> gerr + string" where
  "llama_pidDir b =
     (if lo_pid_dir (ll_opts b) \<noteq> [] then Inr (lo_pid_dir (ll_opts b))
      else case ll_home b of None \<Rightarrow> Inl no_home | Some h \<Rightarrow> Inr (Join [h, ''run'']))"

fun plan_items :: "string \<Rightarrow> artifact_ref list \<Rightarrow> artifact_item list" where
  "plan_items storage [] = []"
| "plan_items storage (a # rest) =
     \<lparr>ai_uri = ar_uri a, ai_filename = ar_name a, ai_target_path = Join [storage, ar_name a],
      ai_size = ar_size a, ai_sha256 = ar_sha256 a\<rparr> # plan_items storage rest"

definition llama_Plan :: "llama \<Rightarrow> resolved_model \<Rightarrow> gerr + artifact_plan" where
  "llama_Plan b r =
     (if rm_artifacts r = [] then Inl (Errorw (Fmt ''resolved model has no artifacts'' []) [])
      else case modelStorageDir b of
          Inl e \<Rightarrow> Inl e
        | Inr storage \<Rightarrow>
            (let items = plan_items storage (rm_artifacts r)
             in Inr \<lparr>ap_multi_file = rm_multi_file r,
                     ap_target_root = (case items of [i] \<Rightarrow> ai_target_path i | _ \<Rightarrow> []),
                     ap_items = items, ap_total_bytes = sum_list (map ar_size (rm_artifacts r)),
                     ap_revision = []\<rparr>))"

section \<open>Profiles as sections\<close>

definition modelKey :: string where
  "modelKey = ''model''"

text \<open>An integer that does not fit an \<^verbatim>\<open>int\<close> decodes as \<^verbatim>\<open>uint64\<close>, which is not supported.\<close>

fun scalarString :: "yval \<Rightarrow> gerr + string" where
  "scalarString (YStr v) = Inr v"
| "scalarString (YBool v) = Inr (if v then ''true'' else ''false'')"
| "scalarString (YInt v) =
     (if v < 2 ^ 63 then Inr (itoa_int v) else Inl (ini_err ''%w: unsupported value type %T'' []))"
| "scalarString (YFloat v) = Inr v"
| "scalarString YNull = Inl (ini_err ''%w: value is null'' [])"
| "scalarString (YList vs) = Inl (ini_err ''%w: unsupported value type %T'' [])"
| "scalarString (YOther v) = Inl (ini_err ''%w: unsupported value type %T'' [])"

fun engine_each :: "(string \<times> yval) list \<Rightarrow> (string \<times> string) list \<Rightarrow> gerr + (string \<times> string) list" where
  "engine_each [] vals = Inr vals"
| "engine_each ((key, raw) # args) vals =
     (case canonicalKey key of
        Inl e \<Rightarrow> Inl e
      | Inr ckey \<Rightarrow>
          if map_of vals ckey \<noteq> None
          then Inl (ini_err ''%w: duplicate engine_arg %q'' [Str ckey])
          else case scalarString raw of
              Inl e \<Rightarrow> Inl (Errorw (Fmt ''engine_arg %q: %w'' [Str key, error_text e]) [e])
            | Inr v \<Rightarrow> engine_each args (al_put ckey v vals))"

definition engineArgValues :: "(string \<times> yval) list \<Rightarrow> gerr + (string \<times> string) list" where
  "engineArgValues args = engine_each args []"

definition modelPath :: "llama \<Rightarrow> model_spec \<Rightarrow> string \<Rightarrow> string" where
  "modelPath b m storage =
     (let expanded = ExpandHome (ll_user_home b) (ms_source m)
      in if IsAbs expanded then expanded
         else Join [storage, fst (resolveArtifact b (ms_source m) (ms_reference m))])"

definition profileSection :: "llama \<Rightarrow> profile \<Rightarrow> string \<Rightarrow> gerr + ini_section" where
  "profileSection b p storage =
     (case validateSectionName (p_name p) of
        Some e \<Rightarrow> Inl e
      | None \<Rightarrow>
          (case engineArgValues (p_engine_args p) of
             Inl e \<Rightarrow> Inl e
           | Inr vals \<Rightarrow>
               Inr \<lparr>sec_name = p_name p,
                    sec_values = (if ms_source (p_model p) \<noteq> []
                      then al_put modelKey (modelPath b (p_model p) storage) vals else vals)\<rparr>))"

fun profile_sections :: "llama \<Rightarrow> string \<Rightarrow> profile list \<Rightarrow> gerr + ini_section list" where
  "profile_sections b storage [] = Inr []"
| "profile_sections b storage (p # ps) =
     (case profileSection b p storage of
        Inl e \<Rightarrow> Inl e
      | Inr s \<Rightarrow>
          (case profile_sections b storage ps of Inl e \<Rightarrow> Inl e | Inr ss \<Rightarrow> Inr (s # ss)))"

definition llama_render :: "llama \<Rightarrow> profile list \<Rightarrow> gerr + string" where
  "llama_render b ps =
     (case modelStorageDir b of
        Inl e \<Rightarrow> Inl e
      | Inr storage \<Rightarrow>
          (case profile_sections b storage ps of
             Inl e \<Rightarrow> Inl e
           | Inr sections \<Rightarrow> renderModelsINI (lo_defaults (ll_opts b)) sections))"

definition baselineSuffix :: string where
  "baselineSuffix = ''.base''"

definition MaterializeProfiles :: "llama \<Rightarrow> profile list \<Rightarrow> gerr + materialization" where
  "MaterializeProfiles b ps =
     (case generatedININPath b of
        Inl e \<Rightarrow> Inl e
      | Inr path \<Rightarrow>
          (case llama_render b ps of
             Inl e \<Rightarrow> Inl e
           | Inr content \<Rightarrow>
               Inr \<lparr>mat_files =
                      [\<lparr>gf_path = path, gf_content = content, gf_mode = 384\<rparr>,
                       \<lparr>gf_path = path @ baselineSuffix, gf_content = content, gf_mode = 384\<rparr>],
                    mat_summary = Fmt ''rendered %d models.ini sections'' [Str (itoa (length ps))]\<rparr>))"

definition llama_Materialize :: "llama \<Rightarrow> profile \<Rightarrow> gerr + materialization" where
  "llama_Materialize b p = MaterializeProfiles b [p]"

definition defaultListenHost :: string where
  "defaultListenHost = ''127.0.0.1''"

definition llama_ValidateProfile :: "llama \<Rightarrow> profile \<Rightarrow> gerr + profile" where
  "llama_ValidateProfile b p =
     (if ms_source (p_model p) = [] then Inl (Errorw (Fmt ''model.source is required'' []) [])
      else if ls_port (p_listen p) < 1 \<or> ls_port (p_listen p) > 65535
      then Inl (Errorw (Fmt ''listen.port %d out of range'' [Str (itoa_int (ls_port (p_listen p)))]) [])
      else case engineArgValues (p_engine_args p) of
          Inl e \<Rightarrow> Inl e
        | Inr vals \<Rightarrow>
            (case profileSection b p [] of
               Inl e \<Rightarrow> Inl e
             | Inr s \<Rightarrow>
                 Inr (if ls_host (p_listen p) = []
                      then p\<lparr>p_listen := (p_listen p)\<lparr>ls_host := defaultListenHost\<rparr>\<rparr> else p)))"

section \<open>Launching and activating\<close>

definition routerExecutable :: "llama \<Rightarrow> string" where
  "routerExecutable b = (case ll_active_exe b of Some exe \<Rightarrow> exe | None \<Rightarrow> lo_executable (ll_opts b))"

definition router_spec :: "llama \<Rightarrow> profile \<Rightarrow> launch_spec" where
  "router_spec b p =
     \<lparr>sp_name = ''router'', sp_executable = routerExecutable b, sp_argv = [], sp_host = ls_host (p_listen p),
      sp_port = ls_port (p_listen p), sp_readiness_path = ''/health'', sp_pid_dir = [],
      sp_log_name = ''engine'', sp_env = [], sp_readiness_timeout = 0, sp_build_err = None\<rparr>"

definition router_argv :: "llama \<Rightarrow> profile \<Rightarrow> string \<Rightarrow> string list" where
  "router_argv b p ini =
     [''--models-preset'', ini, ''--models-max'', itoa_int (lo_models_max (ll_opts b)),
      ''--host'', ls_host (p_listen p), ''--port'', itoa_int (ls_port (p_listen p))]"

definition llama_LaunchSpec :: "llama \<Rightarrow> profile \<Rightarrow> materialization \<Rightarrow> gerr + launch_spec" where
  "llama_LaunchSpec b p mat =
     (let spec = router_spec b p
      in case generatedININPath b of
           Inl e \<Rightarrow> Inr (spec\<lparr>sp_build_err := Some e\<rparr>)
         | Inr ini \<Rightarrow>
             (case llama_pidDir b of
                Inl e \<Rightarrow> Inr (spec\<lparr>sp_build_err := Some e\<rparr>)
              | Inr pid_dir \<Rightarrow>
                  (if lo_expose (ll_opts b) then
                     (case modelStorageDir b of
                        Inl e \<Rightarrow> Inr (spec\<lparr>sp_pid_dir := pid_dir, sp_build_err := Some e\<rparr>)
                      | Inr dir \<Rightarrow> Inr (spec\<lparr>sp_pid_dir := pid_dir,
                          sp_argv := [''--models-dir'', dir] @ router_argv b p ini\<rparr>))
                   else Inr (spec\<lparr>sp_pid_dir := pid_dir, sp_argv := router_argv b p ini\<rparr>))))"

text \<open>The router's answer: its status code and line, and the error message of a body of the known shape.\<close>

record http_reply =
  hr_code :: int
  hr_status :: string
  hr_message :: "string option"

definition activateHost :: "string \<Rightarrow> string" where
  "activateHost host = (if host = [] \<or> host = ''0.0.0.0'' \<or> host = ''::'' then ''127.0.0.1'' else host)"

definition errorMessage :: "http_reply \<Rightarrow> string" where
  "errorMessage r =
     (case hr_message r of Some m \<Rightarrow> if m \<noteq> [] then m else hr_status r | None \<Rightarrow> hr_status r)"

definition activate_endpoint :: "profile \<Rightarrow> string" where
  "activate_endpoint p =
     ''http://'' @ JoinHostPort (activateHost (ls_host (p_listen p))) (itoa_int (ls_port (p_listen p)))
       @ ''/models/load''"

text \<open>\<open>post\<close> sends the model name to an endpoint, as a JSON body.\<close>

definition ActivateRuntime :: "(string \<Rightarrow> string \<Rightarrow> gerr + http_reply) \<Rightarrow> profile \<Rightarrow> gerr option" where
  "ActivateRuntime post p =
     (case post (activate_endpoint p) (p_name p) of
        Inl e \<Rightarrow> Some e
      | Inr r \<Rightarrow>
          if hr_code r < 300 then None
          else if contains_str (errorMessage r) ''already running'' then None
          else Some (Errorw (Fmt ''load %q: %s'' [Str (p_name p), Str (errorMessage r)]) []))"

section \<open>Local models\<close>

text \<open>\<^verbatim>\<open>filepath.Ext\<close>: from the last dot of the last element on; \<^verbatim>\<open>strings.EqualFold\<close> over ASCII.\<close>

definition path_ext :: "string \<Rightarrow> string" where
  "path_ext name =
     (let b = last (split_on slash name)
      in if CHR ''.'' \<in> set b then CHR ''.'' # rev (takeWhile (\<lambda>c. c \<noteq> CHR ''.'') (rev b)) else [])"

definition equal_fold :: "string \<Rightarrow> string \<Rightarrow> bool" where
  "equal_fold a b \<longleftrightarrow> to_lower a = to_lower b"

definition is_gguf :: "string \<Rightarrow> bool" where
  "is_gguf name \<longleftrightarrow> equal_fold (path_ext name) ''.gguf''"

definition llama_Variants :: "remote_file list \<Rightarrow> variant list" where
  "llama_Variants files =
     sort_key vr_name (map (\<lambda>f. \<lparr>vr_name = Base (rf_name f), vr_reference = rf_name f, vr_size = rf_size f,
       vr_multi_file = False\<rparr>) (filter (\<lambda>f. is_gguf (rf_name f)) files))"

definition llama_ListLocal :: "llama \<Rightarrow> io_env \<Rightarrow> fs \<Rightarrow> gerr + local_model list" where
  "llama_ListLocal b io fs =
     (case modelStorageDir b of Inl e \<Rightarrow> Inl e | Inr root \<Rightarrow> ListLocal (NewScanner root is_gguf) io fs)"

definition llama_DeleteLocal :: "llama \<Rightarrow> io_env \<Rightarrow> string \<Rightarrow> fs \<Rightarrow> gerr option \<times> fs" where
  "llama_DeleteLocal b io target fs =
     (case modelStorageDir b of Inl e \<Rightarrow> (Some e, fs) | Inr root \<Rightarrow> RemoveLocal io root target False fs)"

section \<open>Escaping\<close>

lemma hex_value_digit: "n < 16 \<Longrightarrow> hex_value (hex_digit n) = Some n"
  by (auto simp: hex_value_def hex_digit_def Let_def)

lemma hex_byte: "hex_value (hex_digit (of_char c div 16)) = Some (of_char c div 16)"
  "hex_value (hex_digit (of_char c mod 16)) = Some (of_char c mod 16)" 
proof -
  have "(of_char c :: nat) < 256" by (rule nat_of_char_less_256)
  then have "(of_char c :: nat) div 16 < 16" by (intro less_mult_imp_div_less) simp
  then show "hex_value (hex_digit (of_char c div 16)) = Some (of_char c div 16)" by (rule hex_value_digit)
  show "hex_value (hex_digit (of_char c mod 16)) = Some (of_char c mod 16)" by (rule hex_value_digit) simp
qed

text \<open>Unescaping a path segment undoes escaping it, whatever bytes it has.\<close>

theorem segment_escapes_back: "PathUnescape (PathEscape s) = Some s"
proof (induction s)
  case (Cons c s)
  then show ?case
  proof (cases "keeps_segment c")
    case True
    then have "c \<noteq> CHR ''%''" by (auto simp: keeps_segment_def Let_def)
    then show ?thesis using Cons True by (simp add: PathEscape_def)
  next
    case False
    have "(16 * (of_char c div 16) + of_char c mod 16 :: nat) = of_char c" by simp
    then show ?thesis using Cons False hex_byte [of c] by (simp add: PathEscape_def)
  qed
qed (simp add: PathEscape_def)

section \<open>Sections of profiles\<close>

definition scalar_text :: "yval \<Rightarrow> string" where
  "scalar_text v = (case scalarString v of Inl e \<Rightarrow> [] | Inr t \<Rightarrow> t)"

definition arg_texts :: "(string \<times> yval) list \<Rightarrow> (string \<times> string) list" where
  "arg_texts args = map (\<lambda>(k, v). (ck k, scalar_text v)) args"

definition args_ok :: "(string \<times> yval) list \<Rightarrow> bool" where
  "args_ok args \<longleftrightarrow>
     (\<forall>(k, v)\<in>set args. (\<exists>c. canonicalKey k = Inr c) \<and> (\<exists>t. scalarString v = Inr t)) \<and>
     distinct (map (ck \<circ> fst) args)"

lemma arg_keys: "map fst (arg_texts args) = map (ck \<circ> fst) args"
  by (auto simp: arg_texts_def)

lemma engine_each_Inr:
  "engine_each args vals = Inr vs \<longleftrightarrow>
     args_ok args \<and> set (map (ck \<circ> fst) args) \<inter> fst ` set vals = {} \<and> vs = vals @ arg_texts args"
proof (induction args arbitrary: vals)
  case Nil
  then show ?case by (auto simp: args_ok_def arg_texts_def)
next
  case (Cons a args)
  obtain k v where a: "a = (k, v)" by (cases a)
  show ?case
  proof (cases "canonicalKey k")
    case (Inr c)
    then have ck: "ck k = c" by (simp add: ck_def)
    show ?thesis
    proof (cases "map_of vals c")
      case None
      then have put: "al_put c t vals = vals @ [(c, t)]" for t
        by (simp add: al_put_fresh map_of_eq_None_iff)
      have none: "c \<notin> fst ` set vals" using None by (simp add: map_of_eq_None_iff)
      show ?thesis
      proof (cases "scalarString v")
        case (Inl e)
        then show ?thesis using a Inr None by (simp add: args_ok_def)
      next
        case (Inr t)
        have "engine_each (a # args) vals = engine_each args (vals @ [(c, t)])"
          using a \<open>canonicalKey k = Inr c\<close> None Inr put by simp
        then show ?thesis
          using Cons.IH [of "vals @ [(c, t)]"] a ck \<open>canonicalKey k = Inr c\<close> Inr none
          by (auto simp: args_ok_def arg_texts_def scalar_text_def)
      qed
    next
      case (Some x)
      then have "c \<in> fst ` set vals" by (metis map_of_eq_None_iff option.distinct(1))
      then show ?thesis using a ck Inr Some by simp
    qed
  qed (use a in \<open>simp add: args_ok_def\<close>)
qed

lemma engineArgValues_Inr: "engineArgValues args = Inr vs \<longleftrightarrow> args_ok args \<and> vs = arg_texts args"
  by (simp add: engineArgValues_def engine_each_Inr)

lemma engineArgValues_Inl: "engineArgValues args = Inl e \<Longrightarrow> \<not> args_ok args"
  by (metis engineArgValues_Inr sum.distinct(1))

definition section_values :: "llama \<Rightarrow> profile \<Rightarrow> string \<Rightarrow> (string \<times> string) list" where
  "section_values b p storage =
     (if ms_source (p_model p) \<noteq> [] then al_put modelKey (modelPath b (p_model p) storage) (arg_texts (p_engine_args p))
      else arg_texts (p_engine_args p))"

lemma profileSection_Inr:
  "profileSection b p storage = Inr s \<longleftrightarrow>
     name_ok (p_name p) \<and> args_ok (p_engine_args p) \<and>
     s = \<lparr>sec_name = p_name p, sec_values = section_values b p storage\<rparr>"
  using engineArgValues_Inl
  by (auto simp: profileSection_def name_ok_def engineArgValues_Inr section_values_def
      split: option.splits sum.splits)

lemma canonicalKey_model: "canonicalKey modelKey = Inr modelKey"
  by (simp add: modelKey_def) code_simp

lemma ck_fixed:
  assumes "canonicalKey k = Inr c"
  shows "ck k = c" "ck c = c" "canonicalKey c = Inr c"
  using assms canonicalKey_idem [OF assms] by (simp_all add: ck_def)

lemma section_keys:
  assumes "args_ok (p_engine_args p)"
  shows "distinct (al_keys (section_values b p storage))"
    "(k, v) \<in> set (section_values b p storage) \<Longrightarrow> canonicalKey k = Inr k"
proof -
  have d: "distinct (al_keys (arg_texts (p_engine_args p)))"
    using assms by (simp add: args_ok_def al_keys_def arg_keys)
  then show "distinct (al_keys (section_values b p storage))" by (simp add: section_values_def)
  have "\<forall>(k, v)\<in>set (arg_texts (p_engine_args p)). canonicalKey k = Inr k"
    using assms ck_fixed by (fastforce simp: args_ok_def arg_texts_def)
  then show "(k, v) \<in> set (section_values b p storage) \<Longrightarrow> canonicalKey k = Inr k"
    using set_al_put [of modelKey "modelPath b (p_model p) storage" "arg_texts (p_engine_args p)"] canonicalKey_model
    by (auto simp: section_values_def split: if_splits)
qed

lemma section_canon:
  assumes "args_ok (p_engine_args p)"
  shows "canon (section_values b p storage) = section_values b p storage"
    "canonical (section_values b p storage) \<longleftrightarrow> (\<forall>(k, v)\<in>set (section_values b p storage). one_line v)"
proof -
  show c: "canon (section_values b p storage) = section_values b p storage"
    unfolding canon_def using section_keys(2) [OF assms] ck_fixed by (intro map_idI) auto
  show "canonical (section_values b p storage) \<longleftrightarrow> (\<forall>(k, v)\<in>set (section_values b p storage). one_line v)"
    unfolding canonical_def c using section_keys [OF assms] by fastforce
qed

lemma profile_sections_Inr:
  "profile_sections b storage ps = Inr ss \<longleftrightarrow>
     (\<forall>p\<in>set ps. name_ok (p_name p) \<and> args_ok (p_engine_args p)) \<and>
     ss = map (\<lambda>p. \<lparr>sec_name = p_name p, sec_values = section_values b p storage\<rparr>) ps"
proof (induction ps arbitrary: ss)
  case (Cons p ps)
  let ?s = "\<lparr>sec_name = p_name p, sec_values = section_values b p storage\<rparr>"
  show ?case
  proof (cases "name_ok (p_name p) \<and> args_ok (p_engine_args p)")
    case True
    then have "profileSection b p storage = Inr ?s" by (simp add: profileSection_Inr)
    then have "profile_sections b storage (p # ps) = Inr ss \<longleftrightarrow>
        (\<exists>rest. profile_sections b storage ps = Inr rest \<and> ss = ?s # rest)"
      by (auto split: sum.splits)
    then show ?thesis unfolding Cons.IH using True by auto
  next
    case False
    then have "profileSection b p storage \<noteq> Inr s" for s by (auto simp: profileSection_Inr)
    then have "\<exists>e. profileSection b p storage = Inl e" by (cases "profileSection b p storage") auto
    then have "profile_sections b storage (p # ps) \<noteq> Inr ss" by auto
    then show ?thesis using False by (auto simp del: profile_sections.simps)
  qed
qed auto

lemma validate_Inr:
  "llama_ValidateProfile b q = Inr p \<Longrightarrow>
     name_ok (p_name p) \<and> args_ok (p_engine_args p) \<and> ms_source (p_model p) \<noteq> [] \<and>
     ls_host (p_listen p) \<noteq> [] \<and> 1 \<le> ls_port (p_listen p) \<and> ls_port (p_listen p) \<le> 65535"
  by (auto simp: llama_ValidateProfile_def profileSection_Inr defaultListenHost_def
      split: if_splits sum.splits)

lemma ValidateName_section:
  assumes "ValidateName name = None"
  shows "trimmed name" "name \<noteq> globalSection"
proof -
  have safe: "\<forall>c\<in>set name. safe_char c" and "name \<noteq> []"
    using assms by (auto simp: ValidateName_def list_all_iff split: if_splits)
  moreover have "\<not> is_space c" if "safe_char c" for c
    using that by (auto simp: safe_char_def is_space_def Let_def)
  ultimately show "trimmed name" by (auto simp: trimmed_def)
  have "\<not> safe_char (CHR ''*'')" by (simp add: safe_char_def)
  then show "name \<noteq> globalSection" using safe by (auto simp: globalSection_def)
qed

text \<open>A section is read back as the profile's values, each as the reader reads it.\<close>

definition reads_profile :: "llama \<Rightarrow> string \<Rightarrow> ini_sections \<Rightarrow> profile \<Rightarrow> bool" where
  "reads_profile b storage secs p \<longleftrightarrow>
     (\<exists>t. map_of secs (p_name p) = Some t \<and>
        (\<forall>k. map_of (sec_values t) k = map_option read_value (map_of (section_values b p storage) k)))"

definition lines_ok :: "llama \<Rightarrow> string \<Rightarrow> profile \<Rightarrow> bool" where
  "lines_ok b storage p \<longleftrightarrow> (\<forall>(k, v)\<in>set (section_values b p storage). one_line v)"


text \<open>
  One profile can block the whole backend. Validation accepts an engine argument of several lines,
  but no such value can be rendered; and all profiles of the backend are rendered into the one file, so
  while the profile exists nothing is materialized for any of them.
\<close>

theorem multi_line_argument_blocks_all:
  assumes "map_of (section_values b p storage) k = Some v" and "\<not> one_line v" and "p \<in> set ps"
    and "modelStorageDir b = Inr storage"
  shows "\<exists>e. MaterializeProfiles b ps = Inl e"
proof -
  have "renderModelsINI (lo_defaults (ll_opts b)) ss \<noteq> Inr out"
    if ss: "profile_sections b storage ps = Inr ss" for ss out
  proof
    assume "renderModelsINI (lo_defaults (ll_opts b)) ss = Inr out"
    then have "\<forall>s\<in>set ss. canonical (sec_values s)" by (simp add: renderModelsINI_Inr list_all_iff section_ok_def)
    then have "canonical (section_values b p storage)" and "args_ok (p_engine_args p)"
      using ss assms(3) by (auto simp: profile_sections_Inr)
    then show False using assms(1,2) section_canon(2) [of p b storage] by (fastforce dest: map_of_SomeD)
  qed
  then show ?thesis
    using assms(4) by (auto simp: MaterializeProfiles_def llama_render_def split: sum.splits)
qed

section \<open>Examples\<close>

definition ex_llama :: llama where
  "ex_llama =
     \<lparr>ll_opts = \<lparr>lo_storage = ''/m'', lo_ini_path = ''/g/models.ini'', lo_pid_dir = ''/run'',
        lo_executable = ''llama-server'', lo_models_max = 1, lo_expose = False,
        lo_defaults = [(''ctx-size'', ''4096'')]\<rparr>,
      ll_home = None, ll_user_home = None, ll_active_exe = None,
      ll_parse_url = (\<lambda>s. Some \<lparr>u_scheme = [], u_host = [], u_path = s, u_escaped = s\<rparr>),
      ll_scalar = (\<lambda>s. Some (YStr s)), ll_mtime = (\<lambda>p. if p = ''/m/a.gguf'' then Some 7 else None),
      ll_gguf = (\<lambda>p n. GgufError),
      ll_nvidia = ToolOutput (''24, 1, A'' @ [newline] @ ''24, 0, A'' @ [newline]), ll_rocm = ToolMissing\<rparr>"

definition ex_profile :: "string \<Rightarrow> (string \<times> yval) list \<Rightarrow> profile" where
  "ex_profile name args =
     \<lparr>p_version = YInt 1, p_name = name, p_backend = llama_name,
      p_model = \<lparr>ms_source = ''owner/repo'', ms_reference = ''sub/a.gguf''\<rparr>,
      p_listen = \<lparr>ls_host = [], ls_port = 8080\<rparr>, p_engine_args = args\<rparr>"

definition ex_args :: "(string \<times> yval) list" where
  "ex_args = [(''threads'', YInt 8), (''LLAMA_ARG_FLASH_ATTN'', YBool True)]"

definition validated :: "profile \<Rightarrow> profile" where
  "validated p = p\<lparr>p_listen := (p_listen p)\<lparr>ls_host := defaultListenHost\<rparr>\<rparr>"

lemma ex_validates:
  "llama_ValidateProfile ex_llama (ex_profile ''q'' ex_args) = Inr (validated (ex_profile ''q'' ex_args))"
  "llama_ValidateProfile ex_llama (ex_profile ''t'' [(''grammar'', YStr [CHR ''a'', newline, CHR ''b''])]) =
     Inr (validated (ex_profile ''t'' [(''grammar'', YStr [CHR ''a'', newline, CHR ''b''])]))"
  by code_simp+

lemma ex_section:
  "section_values ex_llama (validated (ex_profile ''q'' ex_args)) ''/m'' =
     [(''threads'', ''8''), (''flash-attn'', ''true''), (''model'', ''/m/a.gguf'')]"
  by code_simp


theorem multi_line_argument_blocks_all_witness:
  "\<exists>q p. llama_ValidateProfile ex_llama q = Inr p \<and>
     (\<exists>e. MaterializeProfiles ex_llama [validated (ex_profile ''q'' ex_args), p] = Inl e)"
proof -
  let ?q = "ex_profile ''t'' [(''grammar'', YStr [CHR ''a'', newline, CHR ''b''])]"
  have "map_of (section_values ex_llama (validated ?q) ''/m'') ''grammar'' = Some [CHR ''a'', newline, CHR ''b'']"
    by code_simp
  moreover have "\<not> one_line [CHR ''a'', newline, CHR ''b'']" by (simp add: one_line_def)
  moreover have "modelStorageDir ex_llama = Inr ''/m''" by code_simp
  ultimately have "\<exists>e. MaterializeProfiles ex_llama [validated (ex_profile ''q'' ex_args), validated ?q] = Inl e"
    by (intro multi_line_argument_blocks_all [where p = "validated ?q"]) simp_all
  with ex_validates(2) show ?thesis by blast
qed

end
