(* ===== verification/LlamaImport.thy ===== *)
theory LlamaImport
  imports LlamaCpp Yaml
begin

text \<open>
  Carrying manual edits of the generated \<^verbatim>\<open>models.ini\<close> back into the profiles: \<^verbatim>\<open>import.go\<close> of
  \<^verbatim>\<open>backends/llamacpp\<close>, and \<^verbatim>\<open>MergeYAML\<close> of \<^verbatim>\<open>core/profiles/store.go\<close>, by which an adopted edit is written
  into the YAML its author wrote. Parsing, encoding and printing YAML are the library's
  (\<open>yaml_lib\<close>). A panic of the code is \<^const>\<open>None\<close>.
\<close>

section \<open>Merging a profile into its YAML\<close>

record yaml_lib =
  yl_parse :: "string \<Rightarrow> gerr + ynode"
  yl_encode :: "profile \<Rightarrow> gerr + ynode"
  yl_print :: "nat \<Rightarrow> ynode \<Rightarrow> gerr + string"

text \<open>The regular expression \<^verbatim>\<open>(?m)^( +)\S\<close>: the indentation of the first indented line.\<close>

fun nested_line :: "string list \<Rightarrow> nat option" where
  "nested_line [] = None"
| "nested_line (l # ls) =
     (let blanks = length (takeWhile (\<lambda>c. c = CHR '' '') l); rest = drop blanks l
      in if blanks > 0 \<and> rest \<noteq> [] \<and> hd rest \<notin> {CHR 0x09, CHR 0x0C, CHR 0x0D} then Some blanks
         else nested_line ls)"

definition documentIndent :: "string \<Rightarrow> nat" where
  "documentIndent yaml = (case nested_line (split_on newline yaml) of Some n \<Rightarrow> n | None \<Rightarrow> 2)"

definition MergeYAML :: "yaml_lib \<Rightarrow> string \<Rightarrow> profile \<Rightarrow> gerr + string" where
  "MergeYAML y yaml updated =
     (case yl_parse y yaml of
        Inl e \<Rightarrow> Inl (invalid ''%w: %v'' [error_text e])
      | Inr document \<Rightarrow>
          (case yl_encode y updated of
             Inl e \<Rightarrow> Inl (invalid ''%w: %v'' [error_text e])
           | Inr want \<Rightarrow>
               (case y_content document of
                  [] \<Rightarrow> Inl (invalid ''%w: profile.yaml is empty'' [])
                | root # others \<Rightarrow>
                    yl_print y (documentIndent yaml) (set_content (merge root want # others) document))))"

section \<open>The three-way merge of a section\<close>

definition scalarValue :: "llama \<Rightarrow> string \<Rightarrow> yval" where
  "scalarValue b t =
     (case ll_scalar b t of
        Some (YBool v) \<Rightarrow> YBool v
      | Some (YInt v) \<Rightarrow> if v < 2 ^ 63 then YInt v else YStr t
      | Some (YFloat v) \<Rightarrow> YFloat v
      | _ \<Rightarrow> YStr t)"

definition adopt :: "llama \<Rightarrow> profile \<Rightarrow> string \<Rightarrow> string option \<Rightarrow> profile" where
  "adopt b p key value =
     (if key = modelKey
      then p\<lparr>p_model := (p_model p)\<lparr>ms_source := (case value of None \<Rightarrow> [] | Some v \<Rightarrow> v)\<rparr>\<rparr>
      else (case value of
          None \<Rightarrow> p\<lparr>p_engine_args := al_del key (p_engine_args p)\<rparr>
        | Some v \<Rightarrow> p\<lparr>p_engine_args := al_put key (scalarValue b v) (p_engine_args p)\<rparr>))"

text \<open>A key is untouched by hand when the file has it exactly as the baseline has it, or neither has it.\<close>

fun merge_keys_each ::
    "llama \<Rightarrow> (string \<times> string) list \<Rightarrow> (string \<times> string) list \<Rightarrow> (string \<times> string) list \<Rightarrow>
     string list \<Rightarrow> profile \<times> bool \<times> string list \<Rightarrow> profile \<times> bool \<times> string list" where
  "merge_keys_each b base edited want [] st = st"
| "merge_keys_each b base edited want (key # ks) (merged, adopted, conflicts) =
     (if map_of edited key = map_of base key
      then merge_keys_each b base edited want ks (merged, adopted, conflicts)
      else if map_of want key \<noteq> map_of base key
      then merge_keys_each b base edited want ks (merged, adopted, conflicts @ [key])
      else merge_keys_each b base edited want ks (adopt b merged key (map_of edited key), True, conflicts))"

definition union_keys :: "(string \<times> string) list \<Rightarrow> (string \<times> string) list \<Rightarrow> string list" where
  "union_keys base edited = sort (al_keys (fold (\<lambda>(k, v) m. al_put k v m) edited base))"

text \<open>
  Without a section of that name the baseline's map is nil. \<^verbatim>\<open>maps.Clone\<close> keeps it nil, and copying a
  key of the file into it panics.
\<close>

definition mergeSection ::
    "llama \<Rightarrow> (string \<times> string) list option \<Rightarrow> (string \<times> string) list \<Rightarrow> (string \<times> string) list \<Rightarrow>
     profile \<Rightarrow> (profile \<times> bool \<times> string list) option" where
  "mergeSection b base edited want parsed =
     (case base of
        None \<Rightarrow> if edited \<noteq> [] then None else Some (parsed, False, [])
      | Some bs \<Rightarrow>
          Some (merge_keys_each b bs edited want (union_keys bs edited) (parsed, False, [])))"

definition maps_equal :: "(string \<times> string) list \<Rightarrow> (string \<times> string) list \<Rightarrow> bool" where
  "maps_equal m1 m2 \<longleftrightarrow> length m1 = length m2 \<and> list_all (\<lambda>(k, v). map_of m2 k = Some v) m1"

section \<open>Importing\<close>

fun import_each ::
    "llama \<Rightarrow> yaml_lib \<Rightarrow> ini_sections \<Rightarrow> ini_sections \<Rightarrow> string \<Rightarrow> profile_doc list \<Rightarrow>
     (string \<times> string) list \<times> string list \<Rightarrow> (gerr + ((string \<times> string) list \<times> string list)) option" where
  "import_each b y edited base storage [] acc = Some (Inr acc)"
| "import_each b y edited base storage (doc # docs) (adopts, conflicts) =
     (if p_backend (d_effective doc) \<noteq> llama_name
      then import_each b y edited base storage docs (adopts, conflicts)
      else case map_of edited (d_name doc) of
          None \<Rightarrow> import_each b y edited base storage docs (adopts, conflicts)
        | Some s \<Rightarrow>
            (case profileSection b (d_effective doc) storage of
               Inl e \<Rightarrow> Some (Inl e)
             | Inr want \<Rightarrow>
                 if maps_equal (sec_values s) (sec_values want)
                 then import_each b y edited base storage docs (adopts, conflicts)
                 else
                   (case mergeSection b (map_option sec_values (map_of base (d_name doc)))
                           (sec_values s) (sec_values want) (d_parsed doc) of
                      None \<Rightarrow> None
                    | Some (merged, adopted, clashes) \<Rightarrow>
                        (let conflicts' = conflicts @ map (\<lambda>k. d_name doc @ ''.'' @ k) clashes
                         in if \<not> adopted
                            then import_each b y edited base storage docs (adopts, conflicts')
                            else (case MergeYAML y (d_yaml doc) merged of
                                Inl e \<Rightarrow> Some (Inl (Errorw (Fmt ''profile %q: %w''
                                  [Str (d_name doc), error_text e]) [e]))
                              | Inr yaml \<Rightarrow>
                                  import_each b y edited base storage docs
                                    (al_put (d_name doc) yaml adopts, conflicts'))))))"

definition importSections ::
    "llama \<Rightarrow> yaml_lib \<Rightarrow> profile_doc list \<Rightarrow> ini_sections \<Rightarrow> ini_sections \<Rightarrow> string \<Rightarrow>
     (gerr + ((string \<times> string) list \<times> string list)) option" where
  "importSections b y docs edited base storage = import_each b y edited base storage docs ([], [])"

definition readOptional :: "io_env \<Rightarrow> string \<Rightarrow> fs \<Rightarrow> gerr + string option" where
  "readOptional io path fs =
     (case ReadFile io path fs of
        Inl e \<Rightarrow> if errors_is e ErrNotExist then Inr None else Inl e
      | Inr data \<Rightarrow> Inr (Some data))"

definition ImportGenerated ::
    "llama \<Rightarrow> yaml_lib \<Rightarrow> io_env \<Rightarrow> fs \<Rightarrow> profile_doc list \<Rightarrow>
     (gerr + ((string \<times> string) list \<times> string list)) option" where
  "ImportGenerated b y io fs docs =
     (case generatedININPath b of
        Inl e \<Rightarrow> Some (Inl e)
      | Inr path \<Rightarrow>
          (case readOptional io path fs of
             Inl e \<Rightarrow> Some (Inl e)
           | Inr current \<Rightarrow>
               (case readOptional io (path @ baselineSuffix) fs of
                  Inl e \<Rightarrow> Some (Inl e)
                | Inr baseline \<Rightarrow>
                    (case (current, baseline) of
                       (Some cur, Some bl) \<Rightarrow>
                         if cur = bl then Some (Inr ([], []))
                         else
                           (case parseINI cur of
                              Inl e \<Rightarrow> Some (Inl (Errorw (Fmt ''read edited %s: %w'' [Str path, error_text e]) [e]))
                            | Inr edited \<Rightarrow>
                                (case parseINI bl of
                                   Inl e \<Rightarrow> Some (Inl (Errorw (Fmt ''read baseline %s%s: %w''
                                     [Str path, Str baselineSuffix, error_text e]) [e]))
                                 | Inr base \<Rightarrow>
                                     (case modelStorageDir b of
                                        Inl e \<Rightarrow> Some (Inl e)
                                      | Inr storage \<Rightarrow> importSections b y docs edited base storage)))
                     | _ \<Rightarrow> Some (Inr ([], []))))))"

section \<open>What the merge decides\<close>

text \<open>A key the file changed and the profile did not, and a key both changed.\<close>

definition file_only ::
    "(string \<times> string) list \<Rightarrow> (string \<times> string) list \<Rightarrow> (string \<times> string) list \<Rightarrow> string \<Rightarrow> bool" where
  "file_only base edited want k \<longleftrightarrow> map_of edited k \<noteq> map_of base k \<and> map_of want k = map_of base k"

definition clash ::
    "(string \<times> string) list \<Rightarrow> (string \<times> string) list \<Rightarrow> (string \<times> string) list \<Rightarrow> string \<Rightarrow> bool" where
  "clash base edited want k \<longleftrightarrow> map_of edited k \<noteq> map_of base k \<and> map_of want k \<noteq> map_of base k"

lemma merge_keys_each_eq:
  "merge_keys_each b base edited want ks (p, ad, cs) =
     (fold (\<lambda>k q. adopt b q k (map_of edited k)) (filter (file_only base edited want) ks) p,
      ad \<or> (\<exists>k\<in>set ks. file_only base edited want k), cs @ filter (clash base edited want) ks)"
  by (induction ks arbitrary: p ad cs) (auto simp: file_only_def clash_def)

lemma keys_fold_put: "set (al_keys (fold (\<lambda>(k, v) m. al_put k v m) xs m)) = set (al_keys xs) \<union> set (al_keys m)"
  by (induction xs arbitrary: m) (auto simp: al_put_keys, auto simp: al_keys_def)

lemma distinct_fold_put: "distinct (al_keys m) \<Longrightarrow> distinct (al_keys (fold (\<lambda>(k, v) m. al_put k v m) xs m))"
  by (induction xs arbitrary: m) auto

lemma union_keys_set: "set (union_keys base edited) = fst ` set edited \<union> fst ` set base"
  by (simp add: union_keys_def keys_fold_put) (simp add: al_keys_def)

lemma union_keys_distinct: "distinct (al_keys base) \<Longrightarrow> distinct (union_keys base edited)"
  by (simp add: union_keys_def distinct_fold_put)

lemma moved_in_union: "map_of edited k \<noteq> map_of base k \<Longrightarrow> k \<in> set (union_keys base edited)"
  by (metis UnI1 UnI2 map_of_eq_None_iff union_keys_set)

lemma adopt_simps:
  "p_version (adopt b p k v) = p_version p" "p_name (adopt b p k v) = p_name p"
  "p_backend (adopt b p k v) = p_backend p" "p_listen (adopt b p k v) = p_listen p"
  "ms_reference (p_model (adopt b p k v)) = ms_reference (p_model p)"
  "ms_source (p_model (adopt b p k v)) =
     (if k = modelKey then (case v of None \<Rightarrow> [] | Some t \<Rightarrow> t) else ms_source (p_model p))"
  "map_of (p_engine_args (adopt b p k v)) =
     (if k = modelKey then map_of (p_engine_args p)
      else (map_of (p_engine_args p))(k := map_option (scalarValue b) v))"
  by (auto simp: adopt_def split: option.splits)

lemma adopt_distinct: "distinct (al_keys (p_engine_args p)) \<Longrightarrow> distinct (al_keys (p_engine_args (adopt b p k v)))"
  by (auto simp: adopt_def split: option.splits)

lemma fold_adopt:
  fixes ed :: "string \<Rightarrow> string option" and p :: profile and b :: llama
  assumes "distinct ks"
  defines "q \<equiv> fold (\<lambda>k q. adopt b q k (ed k)) ks p"
  shows "p_version q = p_version p" "p_name q = p_name p" "p_backend q = p_backend p"
    "p_listen q = p_listen p" "ms_reference (p_model q) = ms_reference (p_model p)"
    "ms_source (p_model q) = (if modelKey \<in> set ks then (case ed modelKey of None \<Rightarrow> [] | Some t \<Rightarrow> t)
       else ms_source (p_model p))"
    "map_of (p_engine_args q) k = (if k \<noteq> modelKey \<and> k \<in> set ks then map_option (scalarValue b) (ed k)
       else map_of (p_engine_args p) k)"
    "distinct (al_keys (p_engine_args p)) \<Longrightarrow> distinct (al_keys (p_engine_args q))"
  unfolding q_def using assms(1)
  by (induction ks arbitrary: p) (auto simp: adopt_simps adopt_distinct)

text \<open>
  C26: An edit of the generated file is merged three ways. With the baseline at hand the merge never
  panics. It reports in key order exactly the keys that both sides changed; it adopts something exactly
  when some key was changed in the file alone; and of the profile it changes only those keys: each
  engine argument so changed becomes the scalar the file says or is removed with it, the model source
  follows \<^verbatim>\<open>model\<close>, and every other field and argument stays what it was.
\<close>

theorem edits_are_merged_three_ways:
  assumes "distinct (al_keys base)" and "mergeSection b (Some base) edited want parsed = Some (merged, adopted, conflicts)"
  shows "sorted conflicts \<and> distinct conflicts \<and> set conflicts = {k. clash base edited want k} \<and>
     (adopted \<longleftrightarrow> (\<exists>k. file_only base edited want k)) \<and>
     p_version merged = p_version parsed \<and> p_name merged = p_name parsed \<and>
     p_backend merged = p_backend parsed \<and> p_listen merged = p_listen parsed \<and>
     ms_reference (p_model merged) = ms_reference (p_model parsed) \<and>
     ms_source (p_model merged) =
       (if file_only base edited want modelKey then (case map_of edited modelKey of None \<Rightarrow> [] | Some t \<Rightarrow> t)
        else ms_source (p_model parsed)) \<and>
     (\<forall>k. map_of (p_engine_args merged) k =
        (if k \<noteq> modelKey \<and> file_only base edited want k then map_option (scalarValue b) (map_of edited k)
         else map_of (p_engine_args parsed) k))"
proof -
  let ?ks = "union_keys base edited"
  let ?fs = "filter (file_only base edited want) ?ks"
  have d: "distinct ?ks" using union_keys_distinct [OF assms(1)] .
  have e: "merged = fold (\<lambda>k q. adopt b q k (map_of edited k)) ?fs parsed"
    "adopted = (\<exists>k\<in>set ?ks. file_only base edited want k)" "conflicts = filter (clash base edited want) ?ks"
    using assms(2) by (simp_all add: mergeSection_def merge_keys_each_eq)
  have in_ks: "file_only base edited want k \<Longrightarrow> k \<in> set ?ks" "clash base edited want k \<Longrightarrow> k \<in> set ?ks" for k
    using moved_in_union by (auto simp: file_only_def clash_def)
  have fs: "k \<in> set ?fs \<longleftrightarrow> file_only base edited want k" for k using in_ks(1) by auto
  have df: "distinct ?fs" using d by simp
  have "sorted conflicts" by (simp add: e(3) union_keys_def sorted_filter [where f = id, simplified])
  moreover have "distinct conflicts" "set conflicts = {k. clash base edited want k}"
    using d in_ks(2) by (auto simp: e(3))
  moreover have "adopted \<longleftrightarrow> (\<exists>k. file_only base edited want k)" using in_ks(1) e(2) by blast
  ultimately show ?thesis
    using fold_adopt [OF df, where b = b and ed = "map_of edited" and p = parsed] fs unfolding e(1) by simp
qed

section \<open>What an import achieves\<close>

lemma arg_texts_lookup:
  assumes "args_ok args" and "\<forall>k\<in>fst ` set args. canonicalKey k = Inr k"
  shows "map_of (arg_texts args) k = map_option scalar_text (map_of args k)"
proof -
  have "arg_texts args = map (\<lambda>(k, v). (k, scalar_text v)) args"
    unfolding arg_texts_def
  proof (rule map_cong [OF refl])
    fix a assume "a \<in> set args"
    then have "canonicalKey (fst a) = Inr (fst a)" using assms(2) by blast
    from ck_fixed(1) [OF this]
    show "(case a of (k, v) \<Rightarrow> (ck k, scalar_text v)) = (case a of (k, v) \<Rightarrow> (k, scalar_text v))"
      by (simp add: split_beta)
  qed
  then show ?thesis by (simp add: map_of_map comp_def option.map_comp)
qed

lemma args_okI:
  assumes "\<forall>(k, v)\<in>set args. canonicalKey k = Inr k \<and> (\<exists>t. scalarString v = Inr t)" and "distinct (al_keys args)"
  shows "args_ok args"
proof -
  have "map (ck \<circ> fst) args = map fst args"
  proof (rule map_cong [OF refl])
    fix a assume "a \<in> set args"
    then have "canonicalKey (fst a) = Inr (fst a)" using bspec [OF assms(1)] by (simp add: split_beta)
    from ck_fixed(1) [OF this] show "(ck \<circ> fst) a = fst a" by simp
  qed
  then have "distinct (map (ck \<circ> fst) args)" using assms(2) by (simp only: al_keys_def)
  moreover have "\<forall>(k, v)\<in>set args. (\<exists>c. canonicalKey k = Inr c) \<and> (\<exists>t. scalarString v = Inr t)"
    using assms(1) by blast
  ultimately show ?thesis by (simp add: args_ok_def)
qed

lemma modelPath_abs:
  "IsAbs v \<Longrightarrow> modelPath b \<lparr>ms_source = v, ms_reference = r\<rparr> storage = v"
  by (cases v) (auto simp: modelPath_def ExpandHome_def IsAbs_def rooted_def slash_def)


section \<open>Examples, and where an edit is lost\<close>

text \<open>Read as YAML, the digits of a number are a number; everything else stays text.\<close>

definition im_llama :: llama where
  "im_llama = ex_llama\<lparr>ll_scalar := (\<lambda>t. case atoi t of Some i \<Rightarrow> Some (YInt i) | None \<Rightarrow> Some (YStr t))\<rparr>"

definition im_profile :: profile where
  "im_profile = ex_profile ''q'' [(''threads'', YInt 8), (''flash-attn'', YBool True)]"

definition im_base :: "(string \<times> string) list" where
  "im_base = [(''threads'', ''8''), (''flash-attn'', ''on''), (''model'', ''/m/a.gguf'')]"

definition im_edited :: "(string \<times> string) list" where
  "im_edited = [(''threads'', ''12''), (''flash-attn'', ''auto''), (''model'', ''/m/a.gguf''), (''ngl'', ''99'')]"

definition im_merged :: profile where
  "im_merged = im_profile\<lparr>p_engine_args := [(''threads'', YInt 12), (''flash-attn'', YBool True), (''ngl'', YInt 99)]\<rparr>"

lemma im_want: "section_values im_llama im_profile ''/m'' =
    [(''threads'', ''8''), (''flash-attn'', ''true''), (''model'', ''/m/a.gguf'')]"
  by code_simp

lemma im_merge:
  "mergeSection im_llama (Some im_base) im_edited (section_values im_llama im_profile ''/m'') im_profile =
     Some (im_merged, True, [''flash-attn''])"
  by code_simp

theorem edits_are_merged_three_ways_witness:
  "set [''flash-attn''] = {k. clash im_base im_edited (section_values im_llama im_profile ''/m'') k} \<and>
   p_listen im_merged = p_listen im_profile"
proof -
  have "distinct (al_keys im_base)" by (simp add: im_base_def al_keys_def)
  from edits_are_merged_three_ways [OF this im_merge] show ?thesis by blast
qed


text \<open>
  An edit can be lost without a conflict. The profile says \<^verbatim>\<open>think\<close>, which the renderer writes under
  its canonical name; an edit of that line is adopted beside the alias instead of over it, so the
  merged profile has the key twice and is refused by validation, though only the file had changed.
\<close>

theorem aliased_edit_is_lost:
  "\<exists>p base edited merged. llama_ValidateProfile im_llama p = Inr (validated p) \<and>
     base = section_values im_llama p ''/m'' \<and>
     mergeSection im_llama (Some base) edited (section_values im_llama p ''/m'') p = Some (merged, True, []) \<and>
     (\<exists>e. llama_ValidateProfile im_llama merged = Inl e)"
proof (intro exI conjI)
  let ?p = "ex_profile ''q'' [(''think'', YStr ''none'')]"
  let ?edited = "[(''reasoning-format'', ''deepseek''), (''model'', ''/m/a.gguf'')]"
  show "llama_ValidateProfile im_llama ?p = Inr (validated ?p)" by code_simp
  show "section_values im_llama ?p ''/m'' = section_values im_llama ?p ''/m''" ..
  show "mergeSection im_llama (Some (section_values im_llama ?p ''/m'')) ?edited (section_values im_llama ?p ''/m'') ?p =
      Some (?p\<lparr>p_engine_args := [(''think'', YStr ''none''), (''reasoning-format'', YStr ''deepseek'')]\<rparr>, True, [])"
    by code_simp
  show "llama_ValidateProfile im_llama (?p\<lparr>p_engine_args := [(''think'', YStr ''none''), (''reasoning-format'', YStr ''deepseek'')]\<rparr>) =
      Inl (ini_err ''%w: duplicate engine_arg %q'' [Str ''reasoning-format''])"
    by code_simp
qed

text \<open>
  A value with a comment marker can never be edited in the file. The baseline is read without what
  follows the marker, so it differs from what the profile renders, and every edit of that key is
  reported as a conflict although the profile has not changed.
\<close>

theorem marked_value_always_conflicts:
  assumes "map_of want k = Some v" "map_of base k = Some (read_value v)" "read_value v \<noteq> v"
    and "map_of edited k \<noteq> map_of base k"
  shows "clash base edited want k \<and> \<not> file_only base edited want k"
  using assms by (simp add: clash_def file_only_def)

text \<open>
  A section the baseline does not have panics the import as soon as it differs from what the profile
  renders: a profile that was never rendered, or whose first rendering was interrupted between
  the file and its baseline.
\<close>

theorem unknown_section_panics:
  assumes "p_backend (d_effective doc) = llama_name" and "map_of edited (d_name doc) = Some s"
    and "sec_values s \<noteq> []" and "map_of base (d_name doc) = None"
    and "profileSection b (d_effective doc) storage = Inr want"
    and "\<not> maps_equal (sec_values s) (sec_values want)"
  shows "importSections b y (doc # docs) edited base storage = None"
  using assms by (simp add: importSections_def mergeSection_def)

end
