(* ===== verification/Mlx.thy ===== *)
theory Mlx
  imports Profiles LlamaCpp
begin

text \<open>
  The MLX backend, \<^verbatim>\<open>backends/mlx\<close>: \<^verbatim>\<open>command.go\<close> (a profile as a command line), \<^verbatim>\<open>profile.go\<close>,
  \<^verbatim>\<open>resolve.go\<close> (a repository as a snapshot of many files, and where each is downloaded to) and the
  neutral part of \<^verbatim>\<open>backend.go\<close>. \<open>mx_fetch\<close> is the hub's answer to a request: the repository's revision
  and its files.
\<close>

section \<open>Command lines from engine arguments\<close>

text \<open>
  The arguments in key order; a list gives its flag once for each element. \<^verbatim>\<open>renderArgs\<close> of the MLX and
  of the Strata backend differ in the function that makes a flag of a key and the one that renders a value.
\<close>

fun render_values :: "(yval \<Rightarrow> gerr + string list) \<Rightarrow> yval list \<Rightarrow> gerr + string list" where
  "render_values render [] = Inr []"
| "render_values render (v # vs) =
     (case render v of
        Inl e \<Rightarrow> Inl e
      | Inr a \<Rightarrow> (case render_values render vs of Inl e \<Rightarrow> Inl e | Inr r \<Rightarrow> Inr (a @ r)))"

definition as_values :: "yval \<Rightarrow> yval list" where
  "as_values v = (case v of YList vs \<Rightarrow> vs | _ \<Rightarrow> [v])"

fun render_keys ::
    "(string \<Rightarrow> gerr + string) \<Rightarrow> (string \<Rightarrow> string \<Rightarrow> yval \<Rightarrow> gerr + string list) \<Rightarrow>
     (string \<times> yval) list \<Rightarrow> string list \<Rightarrow> gerr + string list" where
  "render_keys flag_of render args [] = Inr []"
| "render_keys flag_of render args (key # ks) =
     (case flag_of key of
        Inl e \<Rightarrow> Inl e
      | Inr flag \<Rightarrow>
          (case render_values (render key flag)
                  (as_values (case map_of args key of None \<Rightarrow> YNull | Some v \<Rightarrow> v)) of
             Inl e \<Rightarrow> Inl e
           | Inr a \<Rightarrow>
               (case render_keys flag_of render args ks of Inl e \<Rightarrow> Inl e | Inr r \<Rightarrow> Inr (a @ r))))"

definition renderArgs ::
    "(string \<Rightarrow> gerr + string) \<Rightarrow> (string \<Rightarrow> string \<Rightarrow> yval \<Rightarrow> gerr + string list) \<Rightarrow>
     (string \<times> yval) list \<Rightarrow> gerr + string list" where
  "renderArgs flag_of render args = render_keys flag_of render args (sort (al_keys args))"

definition plain_error :: "string \<Rightarrow> msg list \<Rightarrow> gerr" where
  "plain_error f args = Errorw (Fmt f args) []"

definition bad_key :: "string \<Rightarrow> bool" where
  "bad_key k \<longleftrightarrow> k = [] \<or> has_prefix k ''-'' \<or> contains_any k [CHR '' '', CHR 0x09, CHR 0x0D, newline]"

definition mlxFlag :: "string \<Rightarrow> gerr + string" where
  "mlxFlag key =
     (let k = trim_space key
      in if bad_key k then Inl (plain_error ''engine_args contains invalid key %q'' [Str k])
         else if k \<in> {''model'', ''host'', ''port''}
         then Inl (plain_error ''engine_args.%s conflicts with a profile field'' [Str k])
         else Inr (''--'' @ k))"

text \<open>Numbers and the values neither backend renders.\<close>

definition render_other :: "string \<Rightarrow> string \<Rightarrow> yval \<Rightarrow> gerr + string list" where
  "render_other key flag v =
     (case v of
        YInt i \<Rightarrow> Inr [flag, itoa_int i]
      | YFloat f \<Rightarrow> Inr [flag, f]
      | YNull \<Rightarrow> Inl (plain_error ''engine_args.%s is null'' [Str key])
      | _ \<Rightarrow> Inl (plain_error ''engine_args.%s has unsupported type %T'' [Str key]))"

definition mlx_renderArg :: "string option \<Rightarrow> string \<Rightarrow> string \<Rightarrow> yval \<Rightarrow> gerr + string list" where
  "mlx_renderArg user_home key flag v =
     (case v of
        YBool b \<Rightarrow> Inr [if b then flag else ''--no-'' @ trim_prefix flag ''--'']
      | YStr s \<Rightarrow> Inr [flag, ExpandHome user_home s]
      | _ \<Rightarrow> render_other key flag v)"

record command =
  cm_executable :: string
  cm_argv :: "string list"
  cm_display :: string

definition listen_args :: "profile \<Rightarrow> string list" where
  "listen_args p =
     (if ls_host (p_listen p) \<noteq> [] then [''--host'', ls_host (p_listen p)] else []) @
     (if ls_port (p_listen p) > 0 then [''--port'', itoa_int (ls_port (p_listen p))] else [])"

definition errMissingModel :: gerr where
  "errMissingModel = Sentinel (OtherSentinel ''model source is required'')"

definition mlx_buildCommand :: "string option \<Rightarrow> string \<Rightarrow> profile \<Rightarrow> gerr + command" where
  "mlx_buildCommand user_home executable p =
     (if ms_source (p_model p) = [] then Inl errMissingModel
      else case renderArgs mlxFlag (mlx_renderArg user_home) (p_engine_args p) of
          Inl e \<Rightarrow> Inl e
        | Inr extra \<Rightarrow>
            (let argv = [''-m'', ''mlx_lm'', ''server'', ''--model'', ExpandHome user_home (ms_source (p_model p))]
                   @ listen_args p @ extra
             in Inr \<lparr>cm_executable = executable, cm_argv = argv,
                     cm_display = join_with '' '' (executable # argv)\<rparr>))"

section \<open>The backend\<close>

record hf_sibling =
  hf_name :: string
  hf_size :: int
  hf_lfs :: "(int \<times> string) option"

record mlx =
  mx_storage :: string
  mx_pid_dir :: string
  mx_executable :: string
  mx_home :: "string option"
  mx_user_home :: "string option"
  mx_active_exe :: "string option"
  mx_hub :: string
  mx_parse_url :: "string \<Rightarrow> url option"
  mx_fetch :: "string \<Rightarrow> gerr + (hf_sibling list \<times> string)"
  mx_apple :: bool

definition mlx_name :: string where
  "mlx_name = ''mlx''"

definition mlx_exe :: "mlx \<Rightarrow> string" where
  "mlx_exe b = (case mx_active_exe b of Some p \<Rightarrow> p | None \<Rightarrow> mx_executable b)"

definition mlx_storageDir :: "mlx \<Rightarrow> gerr + string" where
  "mlx_storageDir b =
     (if mx_storage b \<noteq> [] then Inr (mx_storage b) else or_no_home (homePath (mx_home b) [''models'']))"

definition mlx_pidDir :: "mlx \<Rightarrow> gerr + string" where
  "mlx_pidDir b =
     (if mx_pid_dir b \<noteq> [] then Inr (mx_pid_dir b)
      else case mx_home b of None \<Rightarrow> Inl no_home | Some h \<Rightarrow> Inr (Join [h, ''run'']))"

definition with_default_host :: "profile \<Rightarrow> profile" where
  "with_default_host p =
     (if ls_host (p_listen p) = [] then p\<lparr>p_listen := (p_listen p)\<lparr>ls_host := ''127.0.0.1''\<rparr>\<rparr> else p)"

definition port_error :: "profile \<Rightarrow> gerr" where
  "port_error p = plain_error ''listen.port %d out of range'' [Str (itoa_int (ls_port (p_listen p)))]"

definition mlx_ValidateProfile :: "mlx \<Rightarrow> profile \<Rightarrow> gerr + profile" where
  "mlx_ValidateProfile b p =
     (if ms_source (p_model p) = [] then Inl errMissingModel
      else if ls_port (p_listen p) < 1 \<or> ls_port (p_listen p) > 65535 then Inl (port_error p)
      else
        (let q = with_default_host p
         in case mlx_buildCommand (mx_user_home b) (mlx_exe b) q of Inl e \<Rightarrow> Inl e | Inr c \<Rightarrow> Inr q))"

definition mlx_Materialize :: "mlx \<Rightarrow> profile \<Rightarrow> gerr + materialization" where
  "mlx_Materialize b p =
     (case mlx_buildCommand (mx_user_home b) (mlx_exe b) p of
        Inl e \<Rightarrow> Inl e
      | Inr c \<Rightarrow> Inr \<lparr>mat_files = [], mat_summary = Str (cm_display c)\<rparr>)"

definition mlx_LaunchSpec :: "mlx \<Rightarrow> profile \<Rightarrow> materialization \<Rightarrow> gerr + launch_spec" where
  "mlx_LaunchSpec b p mat =
     (let spec = \<lparr>sp_name = ''mlx-'' @ p_name p, sp_executable = [], sp_argv = [],
            sp_host = ls_host (p_listen p), sp_port = ls_port (p_listen p),
            sp_readiness_path = ''/v1/models'', sp_pid_dir = [], sp_log_name = ''engine'', sp_env = [],
            sp_readiness_timeout = 0, sp_build_err = None\<rparr>
      in case mlx_buildCommand (mx_user_home b) (mlx_exe b) p of
           Inl e \<Rightarrow> Inr (spec\<lparr>sp_build_err := Some (wrap ''render MLX command: %w'' e)\<rparr>)
         | Inr c \<Rightarrow>
             (let spec' = spec\<lparr>sp_executable := cm_executable c, sp_argv := cm_argv c\<rparr>
              in case mlx_pidDir b of
                   Inl e \<Rightarrow> Inr (spec'\<lparr>sp_build_err := Some e\<rparr>)
                 | Inr dir \<Rightarrow> Inr (spec'\<lparr>sp_pid_dir := dir\<rparr>)))"

section \<open>Snapshots\<close>

definition mlx_parseRepository :: "mlx \<Rightarrow> string \<Rightarrow> (string \<times> string) option" where
  "mlx_parseRepository b raw =
     (let source = trim_space raw
      in case mx_parse_url b source of
           None \<Rightarrow> None
         | Some parsed \<Rightarrow>
             (case (if u_scheme parsed = ''https'' \<and> u_host parsed = hfHost then Some (u_path parsed)
                    else if u_scheme parsed = [] \<and> u_host parsed = [] then Some source
                    else None) of
                None \<Rightarrow> None
              | Some path \<Rightarrow>
                  (case split_on slash (trim_slashes path) of
                     [owner, repo] \<Rightarrow> if safeSegment owner \<and> safeSegment repo then Some (owner, repo) else None
                   | _ \<Rightarrow> None)))"

definition safeRelativePath :: "string \<Rightarrow> bool" where
  "safeRelativePath v =
     (let c = Clean v
      in c \<noteq> ''.'' \<and> c \<noteq> [] \<and> \<not> IsAbs c \<and> c \<noteq> dotdot \<and> \<not> has_prefix c (dotdot @ [slash]))"

definition safeTargetName :: "string \<Rightarrow> string" where
  "safeTargetName v = (let t = trim_space v in if safeRelativePath t then t else ''model'')"

definition hub_root :: "mlx \<Rightarrow> string" where
  "hub_root b = trim_right (\<lambda>c. c = slash) (mx_hub b)"

definition pinnedRevision :: "string \<Rightarrow> string" where
  "pinnedRevision revision = (if revision = [] then ''main'' else revision)"

definition snapshot_artifact :: "mlx \<Rightarrow> string \<Rightarrow> string \<Rightarrow> string \<Rightarrow> hf_sibling \<Rightarrow> artifact_ref" where
  "snapshot_artifact b owner repo revision s =
     (let name = trim_prefix (hf_name s) [slash]
      in \<lparr>ar_name = name,
          ar_uri = hub_root b @ ''/'' @ owner @ ''/'' @ repo @ ''/resolve/'' @ pinnedRevision revision @ ''/''
            @ encodePath name,
          ar_size = (case hf_lfs s of Some (sz, oid) \<Rightarrow> if sz > 0 then sz else hf_size s | None \<Rightarrow> hf_size s),
          ar_sha256 = (case hf_lfs s of Some (sz, oid) \<Rightarrow> oid | None \<Rightarrow> [])\<rparr>)"

fun snapshot_each ::
    "mlx \<Rightarrow> string \<Rightarrow> string \<Rightarrow> string \<Rightarrow> hf_sibling list \<Rightarrow> gerr + artifact_ref list" where
  "snapshot_each b owner repo revision [] = Inr []"
| "snapshot_each b owner repo revision (s # ss) =
     (if \<not> safeRelativePath (hf_name s) then Inl (plain_error ''unsafe snapshot path %q'' [Str (hf_name s)])
      else case snapshot_each b owner repo revision ss of
          Inl e \<Rightarrow> Inl e
        | Inr as' \<Rightarrow> Inr (snapshot_artifact b owner repo revision s # as'))"

definition has_weights :: "string \<Rightarrow> bool" where
  "has_weights name \<longleftrightarrow> equal_fold (path_ext name) ''.safetensors''"

definition snapshotArtifacts ::
    "mlx \<Rightarrow> string \<Rightarrow> string \<Rightarrow> string \<Rightarrow> hf_sibling list \<Rightarrow> gerr + artifact_ref list" where
  "snapshotArtifacts b owner repo revision siblings =
     (case snapshot_each b owner repo revision siblings of
        Inl e \<Rightarrow> Inl e
      | Inr artifacts \<Rightarrow>
          if \<not> list_ex (\<lambda>a. ar_name a = ''config.json'') artifacts \<or> \<not> list_ex (has_weights \<circ> ar_name) artifacts
          then Inl (plain_error ''repository is not a complete MLX snapshot'' [])
          else Inr artifacts)"

definition siblings_endpoint :: "mlx \<Rightarrow> string \<Rightarrow> string \<Rightarrow> string" where
  "siblings_endpoint b owner repo =
     hub_root b @ ''/api/models/'' @ PathEscape owner @ ''/'' @ PathEscape repo @ ''?blobs=true''"

definition mlx_Resolve :: "mlx \<Rightarrow> profile \<Rightarrow> gerr + resolved_model" where
  "mlx_Resolve b p =
     (let source = ms_source (p_model p); reference = ms_reference (p_model p)
      in if source = [] then Inl errMissingModel
         else case mlx_parseRepository b source of
             None \<Rightarrow>
               (let name = (if reference = [] then Base source else reference)
                in Inr \<lparr>rm_source = source, rm_reference = reference, rm_multi_file = True,
                        rm_artifacts = [\<lparr>ar_name = name, ar_uri = source, ar_size = 0, ar_sha256 = []\<rparr>],
                        rm_metadata = [(''target_dir'', safeTargetName name)]\<rparr>)
           | Some (owner, repo) \<Rightarrow>
               (case mx_fetch b (siblings_endpoint b owner repo) of
                  Inl e \<Rightarrow> Inl e
                | Inr (siblings, revision) \<Rightarrow>
                    (case snapshotArtifacts b owner repo revision siblings of
                       Inl e \<Rightarrow> Inl e
                     | Inr artifacts \<Rightarrow>
                         Inr \<lparr>rm_source = source, rm_reference = reference, rm_multi_file = True,
                              rm_artifacts = artifacts,
                              rm_metadata = (''target_dir'', Join [owner, repo]) #
                                (if revision \<noteq> [] then [(''revision'', revision)] else [])\<rparr>)))"

definition meta_value :: "(string \<times> string) list \<Rightarrow> string \<Rightarrow> string" where
  "meta_value m k = (case map_of m k of None \<Rightarrow> [] | Some v \<Rightarrow> v)"

fun snapshot_items :: "string \<Rightarrow> string \<Rightarrow> artifact_ref list \<Rightarrow> gerr + artifact_item list" where
  "snapshot_items root target [] = Inr []"
| "snapshot_items root target (a # rest) =
     (if \<not> safeRelativePath (ar_name a) then Inl (plain_error ''unsafe artifact path %q'' [Str (ar_name a)])
      else case snapshot_items root target rest of
          Inl e \<Rightarrow> Inl e
        | Inr items \<Rightarrow>
            Inr (\<lparr>ai_uri = ar_uri a, ai_filename = ar_name a,
                  ai_target_path = Join [root, target, ar_name a],
                  ai_size = ar_size a, ai_sha256 = ar_sha256 a\<rparr> # items))"

definition mlx_Plan :: "mlx \<Rightarrow> resolved_model \<Rightarrow> gerr + artifact_plan" where
  "mlx_Plan b r =
     (if rm_artifacts r = [] then Inl (plain_error ''resolved model has no artifacts'' [])
      else case mlx_storageDir b of
          Inl e \<Rightarrow> Inl e
        | Inr root \<Rightarrow>
            (let dir = meta_value (rm_metadata r) ''target_dir'';
                 target = (if dir = [] then safeTargetName (rm_reference r) else dir)
             in if \<not> safeRelativePath target then Inl (plain_error ''unsafe snapshot target %q'' [Str target])
                else case snapshot_items root target (rm_artifacts r) of
                    Inl e \<Rightarrow> Inl e
                  | Inr items \<Rightarrow>
                      Inr \<lparr>ap_multi_file = True, ap_target_root = Join [root, target], ap_items = items,
                           ap_total_bytes = sum_list (map ar_size (rm_artifacts r)),
                           ap_revision = meta_value (rm_metadata r) ''revision''\<rparr>))"

definition mlx_Variants :: "string \<Rightarrow> remote_file list \<Rightarrow> variant list" where
  "mlx_Variants repo files =
     (if list_ex (\<lambda>f. rf_name f = ''config.json'') files \<and> list_ex (\<lambda>f. has_weights (rf_name f)) files
      then [\<lparr>vr_name = repo, vr_reference = [], vr_size = sum_list (map rf_size files), vr_multi_file = True\<rparr>]
      else [])"

section \<open>Local snapshots\<close>

text \<open>
  \<^verbatim>\<open>InspectDirectory\<close>: a directory with a regular \<^verbatim>\<open>config.json\<close> is sized by walking it; it is a
  complete snapshot when one of its files holds weights. Links are not followed.
\<close>

fun collect_stats :: "io_env \<Rightarrow> (string \<times> node) list \<Rightarrow> nat \<times> bool \<Rightarrow> gerr + (nat \<times> bool)" where
  "collect_stats io [] st = Inr st"
| "collect_stats io ((path, n) # es) (bytes, weights) =
     (case n of
        NLink q \<Rightarrow> collect_stats io es (bytes, weights)
      | NDir \<Rightarrow>
          (case io_fail io (OpReadDir path) of
             Some er \<Rightarrow> Inl er
           | None \<Rightarrow> collect_stats io es (bytes, weights))
      | NFile data mode \<Rightarrow>
          (case io_fail io (OpLstat path) of
             Some er \<Rightarrow> Inl er
           | None \<Rightarrow> collect_stats io es (bytes + length data, weights \<or> has_weights (Base path))))"

definition InspectDirectory :: "io_env \<Rightarrow> fs \<Rightarrow> string \<Rightarrow> gerr + (nat \<times> bool)" where
  "InspectDirectory io fs dir =
     (case Stat io (Join [dir, ''config.json'']) fs of
        Inr (NFile data mode) \<Rightarrow> collect_stats io (walk dir fs) (0, False)
      | _ \<Rightarrow> Inr (0, False))"

text \<open>
  \<^verbatim>\<open>SnapshotScanner.ListLocal\<close>: the walk descends neither into a complete snapshot nor into a staging
  directory; \<open>skip\<close> are the directories it has left out so far.
\<close>

fun collect_snapshots ::
    "io_env \<Rightarrow> fs \<Rightarrow> string \<Rightarrow> string list \<Rightarrow> (string \<times> node) list \<Rightarrow> gerr + local_model list" where
  "collect_snapshots io fs root skip [] = Inr []"
| "collect_snapshots io fs root skip ((path, n) # es) =
     (if list_ex (\<lambda>d. under d path) skip \<or> n \<noteq> NDir then collect_snapshots io fs root skip es
      else case io_fail io (OpReadDir path) of
          Some er \<Rightarrow> Inl er
        | None \<Rightarrow>
            (if path = root then collect_snapshots io fs root skip es
             else if has_suffix (Base path) ''.part'' then collect_snapshots io fs root (path # skip) es
             else case InspectDirectory io fs path of
                 Inl er \<Rightarrow> Inl er
               | Inr (bytes, complete) \<Rightarrow>
                   (if \<not> complete then collect_snapshots io fs root skip es
                    else case collect_snapshots io fs root (path # skip) es of
                        Inl er \<Rightarrow> Inl er
                      | Inr ms \<Rightarrow>
                          Inr (\<lparr>lm_path = path, lm_filename = Base path, lm_size = bytes\<rparr> # ms))))"

definition mlx_ListLocal :: "mlx \<Rightarrow> io_env \<Rightarrow> fs \<Rightarrow> gerr + local_model list" where
  "mlx_ListLocal b io fs =
     (case mlx_storageDir b of
        Inl e \<Rightarrow> Inl e
      | Inr storage \<Rightarrow>
          (let root = Clean storage
           in case Lstat io root fs of
                Inl e \<Rightarrow> if errors_is e ErrNotExist then Inr [] else Inl e
              | Inr n \<Rightarrow>
                  (case collect_snapshots io fs root [] (walk root fs) of
                     Inl e \<Rightarrow> Inl e
                   | Inr ms \<Rightarrow> Inr (sort_key lm_path ms))))"

definition mlx_DeleteLocal :: "mlx \<Rightarrow> io_env \<Rightarrow> string \<Rightarrow> fs \<Rightarrow> gerr option \<times> fs" where
  "mlx_DeleteLocal b io target fs =
     (case mlx_storageDir b of Inl e \<Rightarrow> (Some e, fs) | Inr root \<Rightarrow> RemoveLocal io root target True fs)"

section \<open>Where a snapshot lands\<close>

lemma safeRelative_elems:
  assumes "safeRelativePath v"
  shows "v \<noteq> []" "\<not> rooted v" "elems v \<noteq> []" "\<forall>c\<in>set (elems v). plain_elem c"
proof -
  show nv: "v \<noteq> []" using assms by (auto simp: safeRelativePath_def Let_def Clean_def elems_def mk_path_def rooted_def)
  show nr: "\<not> rooted v"
    using assms rooted_Clean [of v] by (auto simp: safeRelativePath_def Let_def IsAbs_def)
  have c: "Clean v = mk_path False (elems v)" using nr by (simp add: Clean_def)
  show ne: "elems v \<noteq> []" using assms c by (auto simp: safeRelativePath_def Let_def mk_path_def)
  have cl: "clean_list False (elems v)" using elems_clean [of v] nr by simp
  obtain n ps where n: "elems v = replicate n dotdot @ ps" "\<forall>p\<in>set ps. plain_elem p"
    using elems_clean [of v] nr by (auto simp: clean_list_def)
  show "\<forall>c\<in>set (elems v). plain_elem c"
  proof (cases n)
    case (Suc m)
    then have "Clean v = join_with [slash] (dotdot # replicate m dotdot @ ps)"
      using c n(1) by (simp add: mk_path_def)
    then have "Clean v = dotdot \<or> has_prefix (Clean v) (dotdot @ [slash])"
      by (cases "replicate m dotdot @ ps = []") (simp_all add: join_with_Cons has_prefix_iff)
    then show ?thesis using assms by (simp add: safeRelativePath_def Let_def)
  qed (use n in simp)
qed

lemma Join_relative:
  assumes "base_dir root" and "safeRelativePath v"
  shows "Join [root, v] = mk_path True (elems root @ elems v)"
    "elems (Join [root, v]) = elems root @ elems v" "rooted (Join [root, v])"
proof -
  note v = safeRelative_elems [OF assms(2)]
  have r: "root \<noteq> []" "rooted root" using assms(1) by (simp_all add: base_dir_def)
  have "dotdot \<notin> set (elems v)" using v(4) by auto
  from elems_relative [OF r(1) v(2) this]
  have e: "elems (root @ slash # v) = elems root @ elems v" .
  then show j: "Join [root, v] = mk_path True (elems root @ elems v)"
    using r v(1) by (simp add: Join_def Clean_def rooted_append)
  have "clean_list True (elems root @ elems v)"
    using rooted_elems_plain [OF r(2)] v(4) by (auto simp: clean_list_rooted)
  then show "elems (Join [root, v]) = elems root @ elems v" "rooted (Join [root, v])"
    unfolding j by simp_all
qed

lemma Join3_relative:
  assumes "base_dir root" and "safeRelativePath v" and "safeRelativePath w"
  shows "elems (Join [root, v, w]) = elems root @ elems v @ elems w" "rooted (Join [root, v, w])"
proof -
  note v = safeRelative_elems [OF assms(2)] and w = safeRelative_elems [OF assms(3)]
  have r: "root \<noteq> []" "rooted root" using assms(1) by (simp_all add: base_dir_def)
  have "dotdot \<notin> set (elems v)" "dotdot \<notin> set (elems w)" using v(4) w(4) by auto
  then have e: "elems ((root @ slash # v) @ slash # w) = elems root @ elems v @ elems w"
    using elems_relative [of "root @ slash # v" w] elems_relative [of root v] r v(2) w(2) by simp
  have j: "Join [root, v, w] = Clean ((root @ slash # v) @ slash # w)"
    using r v(1) w(1) by (simp add: Join_def)
  show "elems (Join [root, v, w]) = elems root @ elems v @ elems w" using e by (simp add: j)
  show "rooted (Join [root, v, w])" using r by (simp add: j rooted_append)
qed

lemma snapshot_items_Inr:
  "snapshot_items root target as' = Inr items \<Longrightarrow>
     map ai_target_path items = map (\<lambda>a. Join [root, target, ar_name a]) as' \<and>
     (\<forall>a\<in>set as'. safeRelativePath (ar_name a))"
  by (induction as' arbitrary: items) (auto split: if_splits sum.splits)

text \<open>
  C29: A snapshot stays in its directory. However the hub, the profile or the metadata name the target and
  the files, a plan that is made puts its target strictly below the storage root and every file
  strictly below that target, so it passes the containment check of the downloader.
\<close>

theorem snapshot_plan_is_contained:
  assumes "mlx_Plan b r = Inr plan" and "mlx_storageDir b = Inr root" and "base_dir root"
  shows "\<exists>dir. dir \<noteq> [] \<and> (\<forall>c\<in>set dir. plain_elem c) \<and>
     elems (ap_target_root plan) = elems root @ dir \<and> PathContains root (ap_target_root plan) \<and>
     (\<forall>i\<in>set (ap_items plan). PathContains (ap_target_root plan) (ai_target_path i) \<and>
        (\<exists>file. file \<noteq> [] \<and> (\<forall>c\<in>set file. plain_elem c) \<and>
           elems (ai_target_path i) = elems (ap_target_root plan) @ file))"
proof -
  obtain target items where t: "safeRelativePath target" "ap_target_root plan = Join [root, target]"
    "snapshot_items root target (rm_artifacts r) = Inr items" "ap_items plan = items"
    using assms(1,2) by (auto simp: mlx_Plan_def Let_def split: if_splits sum.splits)
  note j = Join_relative [OF assms(3) t(1)] and v = safeRelative_elems [OF t(1)]
  have root: "rooted root" using assms(3) by (simp add: base_dir_def)
  have items: "PathContains (ap_target_root plan) (ai_target_path i) \<and>
      (\<exists>file. file \<noteq> [] \<and> (\<forall>c\<in>set file. plain_elem c) \<and>
         elems (ai_target_path i) = elems (ap_target_root plan) @ file)" if i: "i \<in> set (ap_items plan)" for i
  proof -
    have "ai_target_path i \<in> set (map ai_target_path items)" using i t(4) by auto
    then obtain a :: artifact_ref where a0: "a \<in> set (rm_artifacts r)" "ai_target_path i = Join [root, target, ar_name a]"
      unfolding conjunct1 [OF snapshot_items_Inr [OF t(3)]] by auto
    then have a: "safeRelativePath (ar_name a)" "ai_target_path i = Join [root, target, ar_name a]"
      using snapshot_items_Inr [OF t(3)] by blast+
    note j3 = Join3_relative [OF assms(3) t(1) a(1)]
    have "elems (ai_target_path i) = elems (ap_target_root plan) @ elems (ar_name a)"
      unfolding a(2) t(2) j(2) j3(1) by simp
    then show ?thesis
      using safeRelative_elems(3,4) [OF a(1)] j(3) j3(2) unfolding a(2) t(2) by (auto simp: PathContains_iff)
  qed
  have "elems (ap_target_root plan) = elems root @ elems target" using j(2) t(2) by simp
  moreover have "PathContains root (ap_target_root plan)"
    using j(2,3) root t(2) by (auto simp: PathContains_iff)
  ultimately show ?thesis using v(3,4) items by blast
qed

definition ex_mlx :: mlx where
  "ex_mlx =
     \<lparr>mx_storage = ''/m'', mx_pid_dir = ''/run'', mx_executable = ''python3'', mx_home = None,
      mx_user_home = None, mx_active_exe = None, mx_hub = ''https://hub'',
      mx_parse_url = (\<lambda>s. Some \<lparr>u_scheme = [], u_host = [], u_path = s, u_escaped = s\<rparr>),
      mx_fetch = (\<lambda>u. Inr ([\<lparr>hf_name = ''config.json'', hf_size = 2, hf_lfs = None\<rparr>,
        \<lparr>hf_name = ''w/a.safetensors'', hf_size = 0, hf_lfs = Some (9, ''abc'')\<rparr>], ''rev1'')),
      mx_apple = True\<rparr>"

definition ex_snapshot :: resolved_model where
  "ex_snapshot =
     \<lparr>rm_source = ''o/r'', rm_reference = [], rm_multi_file = True,
      rm_artifacts =
        [\<lparr>ar_name = ''config.json'', ar_uri = ''https://hub/o/r/resolve/rev1/config.json'', ar_size = 2,
          ar_sha256 = []\<rparr>,
         \<lparr>ar_name = ''w/a.safetensors'', ar_uri = ''https://hub/o/r/resolve/rev1/w/a.safetensors'',
          ar_size = 9, ar_sha256 = ''abc''\<rparr>],
      rm_metadata = [(''target_dir'', ''o/r''), (''revision'', ''rev1'')]\<rparr>"

lemma ex_plan_mlx:
  "mlx_Resolve ex_mlx (ex_profile ''p'' []\<lparr>p_model := \<lparr>ms_source = ''o/r'', ms_reference = []\<rparr>\<rparr>) = Inr ex_snapshot"
  "\<exists>plan. mlx_Plan ex_mlx ex_snapshot = Inr plan \<and>
     map ai_target_path (ap_items plan) = [''/m/o/r/config.json'', ''/m/o/r/w/a.safetensors'']"
  by code_simp (intro exI conjI, code_simp, simp)

theorem snapshot_plan_is_contained_witness:
  "\<exists>plan. mlx_Plan ex_mlx ex_snapshot = Inr plan \<and> PathContains ''/m'' (ap_target_root plan) \<and>
     (\<forall>i\<in>set (ap_items plan). PathContains (ap_target_root plan) (ai_target_path i))"
proof -
  obtain plan where p: "mlx_Plan ex_mlx ex_snapshot = Inr plan" using ex_plan_mlx(2) by blast
  have "mlx_storageDir ex_mlx = Inr ''/m''" "rooted ''/m'' \<and> Clean ''/m'' = ''/m'' \<and> elems ''/m'' \<noteq> []"
    by code_simp+
  then show ?thesis
    using snapshot_plan_is_contained [OF p, of "''/m''"] p by (auto simp: base_dir_def)
qed

end
