(* ===== verification/Strata.thy ===== *)
theory Strata
  imports Mlx
begin

text \<open>
  The Strata backend, \<^verbatim>\<open>backends/strata\<close>: \<^verbatim>\<open>command.go\<close> (a profile as a run of the server, or of the
  setup that prepares the model first), \<^verbatim>\<open>profile.go\<close> and the neutral part of \<^verbatim>\<open>backend.go\<close>. The
  record \<open>strata\<close> holds what the code asks of the machine: the checkout the install state names (empty
  when there is none) and whether a directory holds the server's script.
\<close>

section \<open>Commands\<close>

record strata =
  sr_storage :: string
  sr_pid_dir :: string
  sr_engine_root :: string
  sr_home :: "string option"
  sr_user_home :: "string option"
  sr_checkout :: string
  sr_is_file :: "string \<Rightarrow> bool"

record strata_command =
  sm_executable :: string
  sm_argv :: "string list"
  sm_env :: "(string \<times> string) list"
  sm_display :: string
  sm_setup :: bool

definition strata_name :: string where
  "strata_name = ''strata''"

definition configSource :: "string \<Rightarrow> bool" where
  "configSource source \<longleftrightarrow> equal_fold (path_ext source) ''.json''"

definition venvPython :: "string \<Rightarrow> string" where
  "venvPython checkout = Join [checkout, ''.venv'', ''bin'', ''python'']"

definition serverReserved :: "string list" where
  "serverReserved = [''engine'', ''config'', ''host'', ''port'', ''open'']"

definition setupReserved :: "string list" where
  "setupReserved =
     [''model'', ''host'', ''port'', ''yes'', ''browser'', ''no-browser'', ''setup'', ''no-start'', ''data-dir'',
      ''check'', ''update'', ''rollback-engine'', ''inspect'']"

definition strataFlag :: "string list \<Rightarrow> string \<Rightarrow> gerr + string" where
  "strataFlag reserved key =
     (let k = trim_space key
      in if bad_key k then Inl (plain_error ''engine_args contains invalid key %q'' [Str k])
         else if k \<in> set reserved
         then Inl (plain_error ''engine_args.%s is reserved by the strata backend'' [Str k])
         else Inr (''--'' @ k))"

definition strata_renderArg :: "string option \<Rightarrow> string \<Rightarrow> string \<Rightarrow> yval \<Rightarrow> gerr + string list" where
  "strata_renderArg user_home key flag v =
     (case v of
        YBool b \<Rightarrow> Inr (if b then [flag] else [])
      | YStr s \<Rightarrow> Inr [flag, ExpandHome user_home s]
      | _ \<Rightarrow> render_other key flag v)"

definition finish ::
    "string option \<Rightarrow> string \<Rightarrow> string list \<Rightarrow> profile \<Rightarrow> string list \<Rightarrow> bool \<Rightarrow> gerr + strata_command" where
  "finish user_home python argv p reserved setup =
     (case renderArgs (strataFlag reserved) (strata_renderArg user_home) (p_engine_args p) of
        Inl e \<Rightarrow> Inl e
      | Inr extra \<Rightarrow>
          (let args = argv @ listen_args p @ extra
           in Inr \<lparr>sm_executable = python, sm_argv = args,
                   sm_env = (if setup then [(''STRATA_EXECV'', ''1'')] else []),
                   sm_display = join_with '' '' (python # args), sm_setup = setup\<rparr>))"

definition serverCommand :: "strata \<Rightarrow> string \<Rightarrow> profile \<Rightarrow> gerr + strata_command" where
  "serverCommand b cfg p =
     (let own = Dir cfg;
          checkout = (if \<not> sr_is_file b (Join [own, ''serve'', ''server.py'']) \<and> sr_checkout b \<noteq> []
            then sr_checkout b else own)
      in finish (sr_user_home b) (venvPython checkout)
           [Join [checkout, ''serve'', ''server.py''], ''--engine'', ''strata'', ''--config'', cfg]
           p serverReserved False)"

definition engineRoot :: "strata \<Rightarrow> string option" where
  "engineRoot b =
     (if sr_engine_root b \<noteq> [] then Some (sr_engine_root b)
      else homePath (sr_home b) [''engine'', strata_name])"

definition dataDir :: "strata \<Rightarrow> string" where
  "dataDir b = (case engineRoot b of None \<Rightarrow> [] | Some root \<Rightarrow> Join [root, ''data''])"

definition errUnsafeSourceName :: gerr where
  "errUnsafeSourceName =
     Sentinel (OtherSentinel ''model source must be a Strata size name or a strata-*.json path'')"

definition strata_buildCommand :: "strata \<Rightarrow> profile \<Rightarrow> gerr + strata_command" where
  "strata_buildCommand b p =
     (let source = trim_space (ms_source (p_model p))
      in if source = [] then Inl errMissingModel
         else if configSource source then serverCommand b (ExpandHome (sr_user_home b) source) p
         else if has_prefix source ''-'' \<or> contains_any source [CHR '' '', CHR 0x09, CHR 0x0D, newline]
         then Inl errUnsafeSourceName
         else finish (sr_user_home b) (venvPython (sr_checkout b))
                [Join [sr_checkout b, ''setup.py''], ''--model'', source, ''--yes'', ''--no-browser'',
                 ''--data-dir'', dataDir b]
                p setupReserved True)"

section \<open>The backend\<close>

definition strata_ValidateProfile :: "strata \<Rightarrow> profile \<Rightarrow> gerr + profile" where
  "strata_ValidateProfile b p =
     (if ls_port (p_listen p) < 1 \<or> ls_port (p_listen p) > 65535 then Inl (port_error p)
      else
        (let q = with_default_host p
         in case strata_buildCommand b q of Inl e \<Rightarrow> Inl e | Inr c \<Rightarrow> Inr q))"

definition strata_Materialize :: "strata \<Rightarrow> profile \<Rightarrow> gerr + materialization" where
  "strata_Materialize b p =
     (case strata_buildCommand b p of
        Inl e \<Rightarrow> Inl e
      | Inr c \<Rightarrow> Inr \<lparr>mat_files = [], mat_summary = Str (sm_display c)\<rparr>)"

definition strata_pidDir :: "strata \<Rightarrow> gerr + string" where
  "strata_pidDir b =
     (if sr_pid_dir b \<noteq> [] then Inr (sr_pid_dir b)
      else case sr_home b of None \<Rightarrow> Inl no_home | Some h \<Rightarrow> Inr (Join [h, ''run'']))"

definition errNotInstalled :: gerr where
  "errNotInstalled = Sentinel (OtherSentinel ''strata is not installed; run the backend install first'')"

text \<open>A server loads for up to fifteen minutes; a setup that downloads its model, for up to four hours.\<close>

definition strata_LaunchSpec :: "strata \<Rightarrow> profile \<Rightarrow> materialization \<Rightarrow> gerr + launch_spec" where
  "strata_LaunchSpec b p mat =
     (let spec = \<lparr>sp_name = ''strata-'' @ p_name p, sp_executable = [], sp_argv = [],
            sp_host = ls_host (p_listen p), sp_port = ls_port (p_listen p),
            sp_readiness_path = ''/health'', sp_pid_dir = [], sp_log_name = ''engine'', sp_env = [],
            sp_readiness_timeout = 15 * 60, sp_build_err = None\<rparr>
      in case strata_buildCommand b p of
           Inl e \<Rightarrow> Inr (spec\<lparr>sp_build_err := Some (wrap ''render Strata command: %w'' e)\<rparr>)
         | Inr c \<Rightarrow>
             (if sm_setup c \<and> sr_checkout b = [] then Inr (spec\<lparr>sp_build_err := Some errNotInstalled\<rparr>)
              else
                (let spec' = spec\<lparr>sp_readiness_timeout := (if sm_setup c then 4 * 60 * 60 else 15 * 60),
                       sp_executable := sm_executable c, sp_argv := sm_argv c, sp_env := sm_env c\<rparr>
                 in case strata_pidDir b of
                      Inl e \<Rightarrow> Inr (spec'\<lparr>sp_build_err := Some e\<rparr>)
                    | Inr dir \<Rightarrow> Inr (spec'\<lparr>sp_pid_dir := dir\<rparr>))))"

definition strata_Resolve :: "profile \<Rightarrow> gerr + resolved_model" where
  "strata_Resolve p =
     (let source = ms_source (p_model p); reference = ms_reference (p_model p)
      in if source = [] then Inl errMissingModel
         else Inr \<lparr>rm_source = source, rm_reference = reference, rm_multi_file = True,
                   rm_artifacts = [\<lparr>ar_name = cmp_or reference (Base source), ar_uri = source, ar_size = 0,
                     ar_sha256 = []\<rparr>],
                   rm_metadata = []\<rparr>)"

fun strata_items :: "string \<Rightarrow> artifact_ref list \<Rightarrow> gerr + artifact_item list" where
  "strata_items target [] = Inr []"
| "strata_items target (a # rest) =
     (let name = Base (Clean (ar_name a))
      in if name = ''.'' \<or> name = dotdot \<or> contains_any name [slash, CHR 0x5C]
         then Inl (plain_error ''unsafe artifact name %q'' [Str (ar_name a)])
         else case strata_items target rest of
             Inl e \<Rightarrow> Inl e
           | Inr items \<Rightarrow>
               Inr (\<lparr>ai_uri = ar_uri a, ai_filename = name, ai_target_path = Join [target, name],
                     ai_size = ar_size a, ai_sha256 = ar_sha256 a\<rparr> # items))"

definition strata_Plan :: "strata \<Rightarrow> resolved_model \<Rightarrow> gerr + artifact_plan" where
  "strata_Plan b r =
     (if rm_artifacts r = [] then Inl (plain_error ''resolved model has no artifacts'' [])
      else case (if sr_storage b \<noteq> [] then Inr (sr_storage b) else or_no_home (homePath (sr_home b) [''models''])) of
          Inl e \<Rightarrow> Inl e
        | Inr root \<Rightarrow>
            (let target = Join [root, strata_name]
             in case strata_items target (rm_artifacts r) of
                  Inl e \<Rightarrow> Inl e
                | Inr items \<Rightarrow>
                    Inr \<lparr>ap_multi_file = True, ap_target_root = target, ap_items = items,
                         ap_total_bytes = sum_list (map ar_size (rm_artifacts r)), ap_revision = []\<rparr>))"

definition strata_ListLocal :: "strata \<Rightarrow> io_env \<Rightarrow> fs \<Rightarrow> gerr + local_model list" where
  "strata_ListLocal b io fs = ListLocal (NewScanner (Join [dataDir b, ''models'']) is_gguf) io fs"

definition strata_DeleteLocal :: "io_env \<Rightarrow> string \<Rightarrow> fs \<Rightarrow> gerr option \<times> fs" where
  "strata_DeleteLocal io target fs =
     (Some (Sentinel (OtherSentinel ''strata models are managed by Strata's setup'')), fs)"

end
