(* ===== verification/Fit.thy ===== *)
theory Fit
  imports Strata "HOL-Library.Multiset"
begin

text \<open>
  Whether a model fits the host: \<^verbatim>\<open>core/modelcatalog/fit.go\<close>, the backends' \<^verbatim>\<open>Fit\<close> and
  \<^verbatim>\<open>HostResources\<close> (\<^verbatim>\<open>llamacpp/fit.go\<close>, \<^verbatim>\<open>llamacpp/host.go\<close>, \<^verbatim>\<open>llamacpp/archcache.go\<close>, \<^verbatim>\<open>mlx/fit.go\<close>,
  \<^verbatim>\<open>mlx/host.go\<close>, \<^verbatim>\<open>strata/profile.go\<close>). Byte counts are \<^verbatim>\<open>int64\<close>: every sum is wrapped. The ninety
  percent limit is computed in \<^verbatim>\<open>float64\<close>; it is modelled exactly, with rounding to 53 bits, half to even.
\<close>

section \<open>Machine arithmetic\<close>

text \<open>\<open>round53\<close> is the conversion of a number to \<^verbatim>\<open>float64\<close>, \<open>round_even n d\<close> the integer nearest to \<open>n / d\<close>.\<close>

definition wrap64 :: "int \<Rightarrow> int" where
  "wrap64 v = (v + 2 ^ 63) mod 2 ^ 64 - 2 ^ 63"

fun bits :: "nat \<Rightarrow> nat" where
  "bits n = (if n = 0 then 0 else Suc (bits (n div 2)))"

declare bits.simps [simp del]

definition round_even :: "nat \<Rightarrow> nat \<Rightarrow> nat" where
  "round_even n d =
     (let q = n div d; r = n mod d
      in if 2 * r < d \<or> (2 * r = d \<and> even q) then q else q + 1)"

definition round53 :: "nat \<Rightarrow> nat" where
  "round53 n = (let u = 2 ^ (bits n - 53) in round_even n u * u)"

text \<open>The constant \<open>0.90\<close> is \<open>tenths_90 / 2 ^ 53\<close>, the number of 53 bits nearest to it.\<close>

definition tenths_90 :: nat where
  "tenths_90 = 8106479329266893"

definition ninety_percent :: "nat \<Rightarrow> nat" where
  "ninety_percent n = round53 (round53 n * tenths_90) div 2 ^ 53"

section \<open>The shared estimate\<close>

definition DefaultOverheadBytes :: int where
  "DefaultOverheadBytes = 512 * 1024 * 1024"

text \<open>The text \<^verbatim>\<open>%.1f\<close> prints for a byte count in GiB.\<close>

definition gib_text :: "int \<Rightarrow> string" where
  "gib_text v =
     (let t = round_even (round53 (nat v) * 10) (2 ^ 30)
      in itoa (t div 10) @ ''.'' @ itoa (t mod 10))"

definition RequiredBytes :: "int \<Rightarrow> int \<Rightarrow> int \<Rightarrow> int \<times> msg" where
  "RequiredBytes sz kv context_len =
     (if sz \<le> 0 then (0, Str [])
      else if kv \<le> 0 then (wrap64 (sz + DefaultOverheadBytes), Str ''context not known; excludes KV cache'')
      else (wrap64 (wrap64 (sz + DefaultOverheadBytes) + kv),
            Fmt ''includes %.1f GiB KV cache at %d tokens context'' [Str (gib_text kv), Str (itoa_int context_len)]))"

definition EstimateFit :: "int \<Rightarrow> int \<Rightarrow> string \<Rightarrow> fit_estimate" where
  "EstimateFit required available resource =
     (let v = \<lparr>fe_level = FitUnknown, fe_reason = Str [], fe_required = required, fe_available = available\<rparr>;
          args = [Str resource, Str (gib_text required)]
      in if required \<le> 0 \<or> available \<le> 0 then v\<lparr>fe_reason := Str ''memory capacity is unknown''\<rparr>
         else if required \<le> int (ninety_percent (nat available)) then
           v\<lparr>fe_level := FitFits, fe_reason := Fmt ''estimated %s %.1f GiB is within 90%% of capacity'' args\<rparr>
         else if required \<le> available then
           v\<lparr>fe_level := FitMarginal, fe_reason := Fmt ''estimated %s %.1f GiB is close to capacity'' args\<rparr>
         else
           v\<lparr>fe_level := FitTooLarge, fe_reason := Fmt ''estimated %s %.1f GiB exceeds capacity'' args\<rparr>)"

definition EstimateFitDetailed :: "int \<Rightarrow> int \<Rightarrow> string \<Rightarrow> msg \<Rightarrow> fit_estimate" where
  "EstimateFitDetailed required available resource note =
     (let v = EstimateFit required available resource
      in if note \<noteq> Str [] \<and> fe_level v \<noteq> FitUnknown
         then v\<lparr>fe_reason := Fmt ''%s (%s)'' [fe_reason v, note]\<rparr> else v)"

section \<open>llama.cpp\<close>

text \<open>\<^verbatim>\<open>int(v)\<close> of the \<^verbatim>\<open>float64\<close> its shortest text denotes, truncated; out of range it is the least \<^verbatim>\<open>int\<close>, as on amd64.\<close>

definition float_trunc :: "string \<Rightarrow> int" where
  "float_trunc s =
     (let neg = has_prefix s ''-'';
          (m, ex, exponent) = cut (CHR ''e'') (if neg then tl s else s);
          (ip, fp, _) = cut (CHR ''.'') m
      in case (digits_value 0 (ip @ fp), if exponent then atoi ex else Some 0) of
           (Some d, Some k) \<Rightarrow>
             (let n = (if int (length fp) \<le> k then d * 10 ^ nat (k - int (length fp))
                       else d div 10 ^ nat (int (length fp) - k));
                  v = (if neg then - int n else int n)
              in if - (2 ^ 63) \<le> v \<and> v < 2 ^ 63 then v else - (2 ^ 63))
         | _ \<Rightarrow> - (2 ^ 63))"

definition contextLenFromArgs :: "(string \<times> yval) list \<Rightarrow> int" where
  "contextLenFromArgs args =
     (case map_of args ''ctx-size'' of
        Some (YInt v) \<Rightarrow> if v < 2 ^ 63 then v else 0
      | Some (YFloat f) \<Rightarrow> float_trunc f
      | Some (YStr s) \<Rightarrow> (case atoi s of Some n \<Rightarrow> n | None \<Rightarrow> 0)
      | _ \<Rightarrow> 0)"

type_synonym kv_cache = "((string \<times> int) \<times> (int \<times> int)) list"

definition estimateKVBytes :: "llama \<Rightarrow> string \<Rightarrow> int \<Rightarrow> int" where
  "estimateKVBytes b p n =
     (if n \<le> 0 \<or> n > 2147483647 then 0
      else case ll_gguf b p n of
        GgufDevices ds \<Rightarrow> fold (\<lambda>d acc. wrap64 (acc + wrap64 (int d))) ds 0
      | GgufError \<Rightarrow> 0
      | GgufPanic \<Rightarrow> 0)"

definition kv_get :: "llama \<Rightarrow> string \<Rightarrow> int \<Rightarrow> kv_cache \<Rightarrow> int \<times> kv_cache" where
  "kv_get b p n c =
     (if p = [] \<or> n \<le> 0 then (0, c)
      else case ll_mtime b p of
        None \<Rightarrow> (0, c)
      | Some m \<Rightarrow>
          (case map_of c (p, n) of
             Some (m', kv) \<Rightarrow>
               if m' = m then (kv, c)
               else (let kv' = estimateKVBytes b p n in (kv', al_put (p, n) (m, kv') c))
           | None \<Rightarrow> (let kv' = estimateKVBytes b p n in (kv', al_put (p, n) (m, kv') c))))"

definition kvBytesForProfile :: "llama \<Rightarrow> profile \<Rightarrow> int \<Rightarrow> kv_cache \<Rightarrow> int \<times> kv_cache" where
  "kvBytesForProfile b p n c =
     (if ms_source (p_model p) = [] then (0, c)
      else let (name, _) = resolveArtifact b (ms_source (p_model p)) (ms_reference (p_model p))
           in case modelStorageDir b of
                Inl e \<Rightarrow> (0, c)
              | Inr root \<Rightarrow> kv_get b (Join [root, Base name]) n c)"

definition FitWithKV :: "int \<Rightarrow> host_resources \<Rightarrow> int \<Rightarrow> int \<Rightarrow> fit_estimate" where
  "FitWithKV sz host kv n =
     (let (capacity, resource) =
            (if hs_has_gpu host \<and> hs_vram host > 0 then (hs_vram host, ''VRAM'')
             else (hs_available_ram host, ''RAM''));
          (required, note) = RequiredBytes sz kv n
      in EstimateFitDetailed required capacity resource note)"

definition llama_FitBySize :: "int \<Rightarrow> host_resources \<Rightarrow> fit_estimate" where
  "llama_FitBySize sz host = FitWithKV sz host 0 0"

definition llama_Fit :: "llama \<Rightarrow> profile \<Rightarrow> int \<Rightarrow> host_resources \<Rightarrow> kv_cache \<Rightarrow> (gerr + fit_estimate) \<times> kv_cache" where
  "llama_Fit b p sz host c =
     (let n = contextLenFromArgs (p_engine_args p); (kv, c') = kvBytesForProfile b p n c
      in (Inr (FitWithKV sz host kv n), c'))"

section \<open>MLX and Strata\<close>

definition mlx_FitBySize :: "int \<Rightarrow> host_resources \<Rightarrow> fit_estimate" where
  "mlx_FitBySize sz host =
     (let capacity = (if hs_budget host \<le> 0 then hs_available_ram host else hs_budget host);
          required = (if sz > 0 then wrap64 (sz + DefaultOverheadBytes) else 0)
      in EstimateFit required capacity ''unified memory'')"

definition mlx_Fit :: "profile \<Rightarrow> int \<Rightarrow> host_resources \<Rightarrow> gerr + fit_estimate" where
  "mlx_Fit p sz host = Inr (mlx_FitBySize sz host)"

definition strata_Fit :: "profile \<Rightarrow> int \<Rightarrow> host_resources \<Rightarrow> gerr + fit_estimate" where
  "strata_Fit p sz host =
     (let required = (if sz > 0 then wrap64 (sz + DefaultOverheadBytes) else 0)
      in Inr (EstimateFit required (wrap64 (hs_available_ram host + hs_vram host)) ''RAM + VRAM''))"

section \<open>Probing the host\<close>

record gpu_vram =
  gv_total :: int
  gv_used :: int
  gv_name :: string
  gv_count :: nat

definition no_vram :: gpu_vram where
  "no_vram = \<lparr>gv_total = 0, gv_used = 0, gv_name = [], gv_count = 0\<rparr>"

definition poolName :: "string \<Rightarrow> nat \<Rightarrow> string" where
  "poolName name n = (if n > 1 then itoa n @ [CHR 0xC3, CHR 0x97] @ '' '' @ name else name)"

definition pooled :: "gpu_vram \<Rightarrow> gpu_vram" where
  "pooled v = v\<lparr>gv_name := poolName (gv_name v) (gv_count v)\<rparr>"

definition add_card :: "int \<Rightarrow> int \<Rightarrow> string \<Rightarrow> gpu_vram \<Rightarrow> gpu_vram" where
  "add_card tot used name v =
     \<lparr>gv_total = wrap64 (gv_total v + tot), gv_used = wrap64 (gv_used v + used),
      gv_name = (if gv_name v = [] then name else gv_name v), gv_count = gv_count v + 1\<rparr>"

definition parseMiB :: "string \<Rightarrow> gerr + int" where
  "parseMiB field =
     (case atoi (trim_space field) of
        None \<Rightarrow> Inl (plain_error ''parse nvidia-smi VRAM %q: %w'' [Str field])
      | Some mib \<Rightarrow> Inr (wrap64 (mib * 1024 * 1024)))"

fun nvidia_rows :: "string list \<Rightarrow> gpu_vram \<Rightarrow> gerr + gpu_vram" where
  "nvidia_rows [] v = Inr v"
| "nvidia_rows (l # ls) v =
     (let row = trim_space l; (f0, rest, one) = cut (CHR '','') row; (f1, f2, two) = cut (CHR '','') rest
      in if row = [] then nvidia_rows ls v
         else if \<not> (one \<and> two) then Inl (plain_error ''parse nvidia-smi VRAM %q: want 3 fields'' [Str row])
         else case parseMiB f0 of
           Inl e \<Rightarrow> Inl e
         | Inr tot \<Rightarrow>
             (case parseMiB f1 of
                Inl e \<Rightarrow> Inl e
              | Inr used \<Rightarrow> nvidia_rows ls (add_card tot used (trim_space f2) v)))"

definition parseNVIDIAVRAM :: "string \<Rightarrow> gerr + gpu_vram" where
  "parseNVIDIAVRAM out =
     (case nvidia_rows (split_on newline (trim_space out)) no_vram of
        Inl e \<Rightarrow> Inl e | Inr v \<Rightarrow> Inr (pooled v))"

definition probeNVIDIAVRAM :: "llama \<Rightarrow> gpu_vram \<times> msg list" where
  "probeNVIDIAVRAM b =
     (case ll_nvidia b of
        ToolMissing \<Rightarrow> (no_vram, [Str ''nvidia-smi not found; GPU telemetry unavailable''])
      | ToolFailed e \<Rightarrow> (no_vram, [Fmt ''nvidia-smi failed: %v'' [error_text e]])
      | ToolOutput out \<Rightarrow>
          (case parseNVIDIAVRAM out of
             Inl e \<Rightarrow> (no_vram, [error_text e])
           | Inr v \<Rightarrow> (v, [])))"

text \<open>The value \<^verbatim>\<open>strconv.ParseInt\<close> leaves beside its error: zero, or the nearest bound when out of range.\<close>

definition parse_int_value :: "string \<Rightarrow> int" where
  "parse_int_value s =
     (let neg = has_prefix s ''-''; ds = (if neg \<or> has_prefix s ''+'' then tl s else s)
      in case atoi s of
           Some n \<Rightarrow> n
         | None \<Rightarrow> if ds = [] \<or> digits_value 0 ds = None then 0
                   else if neg then - (2 ^ 63) else 2 ^ 63 - 1)"

definition amd_used :: "string option \<Rightarrow> int" where
  "amd_used raw = parse_int_value (trim_space (case raw of Some s \<Rightarrow> s | None \<Rightarrow> []))"

text \<open>One \<^verbatim>\<open>rocm-smi\<close> entry: \<^const>\<open>None\<close> when it carries no VRAM total.\<close>

definition parseAMDCard :: "(string \<times> string) list \<Rightarrow> gerr + (int \<times> int) option" where
  "parseAMDCard entry =
     (case map_of entry ''VRAM Total Memory (B)'' of
        None \<Rightarrow> Inr None
      | Some raw \<Rightarrow>
          (case atoi (trim_space raw) of
             None \<Rightarrow> Inl (plain_error ''strconv.ParseInt: parsing %q'' [Str (trim_space raw)])
           | Some tot \<Rightarrow>
               Inr (Some (tot, amd_used (map_of entry ''VRAM Total Used Memory (B)'')))))"

fun amd_cards :: "(string \<times> (string \<times> string) list) list \<Rightarrow> gpu_vram \<Rightarrow> gerr + gpu_vram" where
  "amd_cards [] v = Inr v"
| "amd_cards ((key, entry) # cards) v =
     (if \<not> has_prefix key ''card'' then amd_cards cards v
      else case parseAMDCard entry of
        Inl e \<Rightarrow> Inl (plain_error ''parse rocm-smi VRAM for %s: %w'' [Str key, error_text e])
      | Inr None \<Rightarrow> amd_cards cards v
      | Inr (Some (tot, used)) \<Rightarrow>
          amd_cards cards
            (add_card tot used
               (cmp_or (trim_space (case map_of entry ''Card series'' of Some n \<Rightarrow> n | None \<Rightarrow> [])) ''AMD GPU'') v))"

definition parseAMDVRAM :: "gerr + (string \<times> (string \<times> string) list) list \<Rightarrow> gerr + gpu_vram" where
  "parseAMDVRAM decoded =
     (case decoded of
        Inl e \<Rightarrow> Inl (plain_error ''parse rocm-smi VRAM: %w'' [error_text e])
      | Inr raw \<Rightarrow> (case amd_cards raw no_vram of Inl e \<Rightarrow> Inl e | Inr v \<Rightarrow> Inr (pooled v)))"

definition probeAMDVRAM :: "llama \<Rightarrow> gpu_vram \<times> msg list" where
  "probeAMDVRAM b =
     (case ll_rocm b of
        ToolMissing \<Rightarrow> (no_vram, [Str ''rocm-smi not found; GPU telemetry unavailable''])
      | ToolFailed e \<Rightarrow> (no_vram, [Fmt ''rocm-smi failed: %v'' [error_text e]])
      | ToolOutput out \<Rightarrow>
          (case parseAMDVRAM out of
             Inl e \<Rightarrow> (no_vram, [error_text e])
           | Inr v \<Rightarrow> (v, [])))"

definition llama_HostResources :: "llama \<Rightarrow> host_resources \<times> msg list" where
  "llama_HostResources b =
     (let (nv, w1) = probeNVIDIAVRAM b;
          (v, ws) = (if gv_total nv \<le> 0 then (let (amd, w2) = probeAMDVRAM b in (amd, w1 @ w2)) else (nv, w1))
      in if gv_total v \<le> 0 then (no_host\<lparr>hs_accelerator := ''CPU''\<rparr>, ws)
         else (no_host\<lparr>hs_has_gpu := True, hs_vram := gv_total v, hs_vram_used := gv_used v,
                 hs_accelerator := gv_name v\<rparr>, ws))"

definition mlx_HostResources :: "mlx \<Rightarrow> host_resources \<times> msg list" where
  "mlx_HostResources b =
     (if \<not> mx_apple b then (no_host, [])
      else (no_host\<lparr>hs_unified := True, hs_accelerator := ''Apple Metal''\<rparr>, []))"

section \<open>The limit\<close>

lemma wrap64_bounds: "- (2 ^ 63) \<le> wrap64 v" "wrap64 v < 2 ^ 63"
  by (simp_all add: wrap64_def)

lemma wrap64_id: "- (2 ^ 63) \<le> v \<Longrightarrow> v < 2 ^ 63 \<Longrightarrow> wrap64 v = v"
  by (simp add: wrap64_def)

lemma wrap64_wraps: "2 ^ 63 \<le> v \<Longrightarrow> v < 2 ^ 64 \<Longrightarrow> wrap64 v = v - 2 ^ 64"
  by (simp add: wrap64_def mod_pos_geq)

lemma bits_0 [simp]: "bits 0 = 0"
  by (simp add: bits.simps)

lemma bits_half: "n \<noteq> 0 \<Longrightarrow> bits n = Suc (bits (n div 2))"
  by (simp add: bits.simps)

lemma bits_upper: "n < 2 ^ bits n"
proof (induction n rule: bits.induct)
  case (1 n)
  show ?case
  proof (cases "n = 0")
    case False
    then have "n div 2 < 2 ^ bits (n div 2)" using 1 by simp
    then have "n < 2 * 2 ^ bits (n div 2)" by linarith
    with False show ?thesis by (simp add: bits_half)
  qed simp
qed

lemma bits_step: "2 ^ (b - 1) \<le> n div 2 \<Longrightarrow> b = Suc (b - 1) \<Longrightarrow> 2 ^ b \<le> (n :: nat)"
proof -
  assume a: "2 ^ (b - 1) \<le> n div 2" and b: "b = Suc (b - 1)"
  from a have "2 * 2 ^ (b - 1) \<le> n" by linarith
  then show ?thesis by (subst b) simp
qed

lemma bits_lower: "n \<noteq> 0 \<Longrightarrow> 2 ^ (bits n - 1) \<le> n"
proof (induction n rule: bits.induct)
  case (1 n)
  show ?case
  proof (cases "n div 2 = 0")
    case True
    with 1(2) have "n = 1" by linarith
    then show ?thesis by (simp add: bits_half)
  next
    case False
    with 1 have "2 ^ (bits (n div 2) - 1) \<le> n div 2" by simp
    moreover have "bits (n div 2) = Suc (bits (n div 2) - 1)" using False by (simp add: bits_half)
    ultimately have "2 ^ bits (n div 2) \<le> n" by (metis bits_step)
    with 1(2) show ?thesis by (simp add: bits_half)
  qed
qed

lemma round_even_bounds:
  assumes d: "0 < d"
  shows "n div d \<le> round_even n d" "2 * (round_even n d * d) \<le> 2 * n + d"
proof -
  have n: "n div d * d + n mod d = n" by simp
  show "n div d \<le> round_even n d" by (simp add: round_even_def Let_def)
  show "2 * (round_even n d * d) \<le> 2 * n + d"
  proof (cases "round_even n d = n div d")
    case True
    then show ?thesis using n unfolding True by linarith
  next
    case False
    then have e: "round_even n d = n div d + 1" and "d \<le> 2 * (n mod d)"
      by (auto simp: round_even_def Let_def split: if_splits)
    moreover have "(n div d + 1) * d = n div d * d + d" by simp
    ultimately show ?thesis using n unfolding e by linarith
  qed
qed

lemma unit_small: "53 < bits n \<Longrightarrow> 2 ^ 52 * 2 ^ (bits n - 53) \<le> n"
proof -
  assume b: "53 < bits n"
  then have "n \<noteq> 0" by (intro notI) simp
  then have "2 ^ (bits n - 1) \<le> n" by (rule bits_lower)
  moreover have "bits n - 1 = 52 + (bits n - 53)" using b by simp
  ultimately show ?thesis by (metis power_add)
qed

lemma round53_exact: "n < 2 ^ 53 \<Longrightarrow> round53 n = n"
proof -
  assume "n < 2 ^ 53"
  have "bits n \<le> 53"
  proof (rule ccontr)
    assume "\<not> bits n \<le> 53"
    then have "2 ^ 52 * 2 ^ (bits n - 53) \<le> n" "bits n - 53 \<ge> 1" using unit_small by simp_all
    moreover have "(2::nat) ^ 1 \<le> 2 ^ (bits n - 53)" using \<open>bits n - 53 \<ge> 1\<close> by (intro power_increasing) simp_all
    ultimately show False using \<open>n < 2 ^ 53\<close> by simp
  qed
  then show ?thesis by (simp add: round53_def round_even_def)
qed

lemma round53_upper: "2 ^ 53 * round53 n \<le> (2 ^ 53 + 1) * n"
proof (cases "53 < bits n")
  case True
  let ?u = "2 ^ (bits n - 53) :: nat"
  have "2 * (round53 n) \<le> 2 * n + ?u"
    using round_even_bounds(2) [of ?u n] by (simp add: round53_def Let_def)
  then have "2 ^ 53 * round53 n \<le> 2 ^ 53 * n + 2 ^ 52 * ?u" by simp
  with unit_small [OF True] show ?thesis by simp
next
  case False
  then have "round53 n = n" by (simp add: round53_def round_even_def)
  then show ?thesis by simp
qed

lemma round53_keeps: "bits n \<le> k + 53 \<Longrightarrow> m * 2 ^ k \<le> n \<Longrightarrow> m * 2 ^ k \<le> round53 n"
proof -
  let ?e = "bits n - 53" and ?u = "2 ^ (bits n - 53) :: nat"
  assume b: "bits n \<le> k + 53" and m: "m * 2 ^ k \<le> n"
  have k: "(2::nat) ^ k = 2 ^ (k - ?e) * ?u" using b by (simp flip: power_add)
  have "m * 2 ^ k div ?u \<le> n div ?u" using m by (rule div_le_mono)
  also have "m * 2 ^ k div ?u = m * 2 ^ (k - ?e)" by (simp add: k)
  also have "n div ?u \<le> round_even n ?u" using round_even_bounds(1) by simp
  finally have "m * 2 ^ (k - ?e) * ?u \<le> round_even n ?u * ?u" by (rule mult_le_mono1)
  then show ?thesis by (simp add: k round53_def Let_def mult.assoc)
qed

lemma ninety_percent_le: "ninety_percent n \<le> n"
proof -
  let ?a = "round53 n"
  have "2 ^ 53 * round53 (?a * tenths_90) \<le> (2 ^ 53 + 1) * (?a * tenths_90)" by (rule round53_upper)
  then have "2 ^ 106 * round53 (?a * tenths_90) \<le> (2 ^ 53 + 1) * tenths_90 * (2 ^ 53 * ?a)" by (simp add: mult.commute mult.left_commute)
  also have "\<dots> \<le> (2 ^ 53 + 1) * tenths_90 * ((2 ^ 53 + 1) * n)" using round53_upper [of n] by (intro mult_le_mono2)
  also have "\<dots> \<le> 2 ^ 106 * (2 ^ 53 * n)" by (simp add: tenths_90_def)
  finally have "round53 (?a * tenths_90) \<le> 2 ^ 53 * n" by simp
  then show ?thesis unfolding ninety_percent_def by (metis div_le_mono nonzero_mult_div_cancel_left power_not_zero zero_neq_numeral)
qed

lemma bits_le: "n < 2 ^ k \<Longrightarrow> bits n \<le> k"
proof (rule ccontr)
  assume n: "n < 2 ^ k" and "\<not> bits n \<le> k"
  then have "n \<noteq> 0" by (intro notI) simp
  moreover from \<open>\<not> bits n \<le> k\<close> have "k \<le> bits n - 1" by simp
  ultimately have "n \<noteq> 0" "k \<le> bits n - 1" by simp_all
  then have "(2::nat) ^ k \<le> 2 ^ (bits n - 1)" by (intro power_increasing) simp_all
  with n bits_lower [OF \<open>n \<noteq> 0\<close>] show False by simp
qed

lemma ninety_percent_exact:
  assumes "n < 2 ^ 48"
  shows "ninety_percent n = 9 * n div 10"
proof -
  define P q r where "P = n * tenths_90" and "q = 9 * n div 10" and "r = 9 * n mod 10"
  have nine: "9 * n = 10 * q + r" and r: "r \<le> 9" by (simp_all add: q_def r_def)
  have a: "round53 n = n" using assms by (simp add: round53_exact)
  have P10: "10 * P = 9007199254740992 * (10 * q + r) + 2 * n"
    unfolding nine [symmetric] by (simp add: P_def tenths_90_def)
  have "P < 2 ^ 48 * 2 ^ 53" using assms by (simp add: P_def tenths_90_def)
  then have b: "bits P \<le> 48 + 53" by (intro bits_le) simp
  have "q * 2 ^ 5 * 2 ^ 48 \<le> P" using P10 by simp
  then have low: "q * 2 ^ 53 \<le> round53 P" using round53_keeps [OF b] by fastforce
  let ?u = "2 ^ (bits P - 53) :: nat"
  have "?u \<le> 2 ^ 48" using b by (intro power_increasing) simp_all
  moreover have "2 * (round53 P) \<le> 2 * P + ?u"
    using round_even_bounds(2) [of ?u P] by (simp add: round53_def Let_def)
  ultimately have "round53 P < (q + 1) * 2 ^ 53" using P10 r assms by simp
  with low have "round53 P div 2 ^ 53 = q" by (metis Suc_eq_plus1 div_nat_eqI mult.commute)
  then show ?thesis by (simp add: ninety_percent_def a P_def q_def)
qed

lemma round_even_mono:
  assumes "0 < d" "m \<le> n"
  shows "round_even m d \<le> round_even n d"
proof (cases "m div d = n div d")
  case True
  then have "m mod d \<le> n mod d" using assms by (metis add_le_cancel_left div_mult_mod_eq)
  with True show ?thesis by (auto simp: round_even_def Let_def)
next
  case False
  with assms have "m div d + 1 \<le> n div d" by (simp add: div_le_mono le_neq_implies_less Suc_leI)
  moreover have "round_even m d \<le> m div d + 1" by (simp add: round_even_def Let_def)
  ultimately show ?thesis using round_even_bounds(1) [OF assms(1), of n] by linarith
qed

lemma bits_mono: "m \<le> n \<Longrightarrow> bits m \<le> bits n"
  by (rule bits_le) (use bits_upper [of n] in linarith)

lemma round53_le_power: "53 < bits m \<Longrightarrow> round53 m \<le> 2 ^ bits m"
proof -
  let ?e = "bits m - 53"
  assume b: "53 < bits m"
  then have e: "bits m = 53 + ?e" by simp
  have "m < 2 ^ 53 * 2 ^ ?e" using bits_upper [of m] e by (metis power_add)
  then have "m div 2 ^ ?e < 2 ^ 53" by (simp add: less_mult_imp_div_less)
  moreover have "round_even m (2 ^ ?e) \<le> m div 2 ^ ?e + 1" by (simp add: round_even_def Let_def)
  ultimately have "round_even m (2 ^ ?e) * 2 ^ ?e \<le> 2 ^ 53 * 2 ^ ?e" by (intro mult_le_mono1) linarith
  then show ?thesis by (subst e) (simp add: round53_def Let_def power_add)
qed

lemma round53_mono: "m \<le> n \<Longrightarrow> round53 m \<le> round53 n"
proof -
  assume mn: "m \<le> n"
  show ?thesis
  proof (cases "bits m = bits n \<or> bits n \<le> 53")
    case True
    then have "bits m - 53 = bits n - 53" using bits_mono [OF mn] by auto
    then show ?thesis using round_even_mono [OF _ mn] by (simp add: round53_def Let_def)
  next
    case False
    then have lt: "bits m \<le> bits n - 1" and n53: "53 < bits n" using bits_mono [OF mn] by auto
    have "n \<noteq> 0" using n53 by (intro notI) simp
    have m: "round53 m \<le> 2 ^ (bits n - 1)"
    proof (cases "53 < bits m")
      case True
      have "round53 m \<le> 2 ^ bits m" using True by (rule round53_le_power)
      also have "\<dots> \<le> 2 ^ (bits n - 1)" using lt by (intro power_increasing) simp_all
      finally show ?thesis .
    next
      case False
      then have "round53 m = m" by (simp add: round53_def round_even_def)
      moreover have "(2::nat) ^ bits m \<le> 2 ^ (bits n - 1)" using lt by (intro power_increasing) simp_all
      ultimately show ?thesis using bits_upper [of m] by linarith
    qed
    have "2 ^ 52 * 2 ^ (bits n - 53) \<le> round53 n"
      using round53_keeps [of n "bits n - 53" "2 ^ 52"] unit_small [OF n53] n53 by simp
    moreover have "bits n - 1 = 52 + (bits n - 53)" using n53 by simp
    ultimately show ?thesis using m by (metis le_trans power_add)
  qed
qed

lemma ninety_percent_mono: "m \<le> n \<Longrightarrow> ninety_percent m \<le> ninety_percent n"
  unfolding ninety_percent_def by (intro div_le_mono round53_mono mult_le_mono1)

lemma ninety_percent_value:
  "ninety_percent 17179869184 = 15461882265"
  "ninety_percent 1 = 0"
  by (simp_all add: ninety_percent_exact)

section \<open>The verdict\<close>

lemma EstimateFit_amounts [simp]:
  "fe_required (EstimateFit r a s) = r" "fe_available (EstimateFit r a s) = a"
  by (simp_all add: EstimateFit_def Let_def)

lemma EstimateFitDetailed_simps [simp]:
  "fe_level (EstimateFitDetailed r a s note) = fe_level (EstimateFit r a s)"
  "fe_required (EstimateFitDetailed r a s note) = r" "fe_available (EstimateFitDetailed r a s note) = a"
  by (simp_all add: EstimateFitDetailed_def Let_def)

lemma unknown_iff: "fe_level (EstimateFit r a s) = FitUnknown \<longleftrightarrow> r \<le> 0 \<or> a \<le> 0"
  by (simp add: EstimateFit_def Let_def)

lemma too_large_iff: "fe_level (EstimateFit r a s) = FitTooLarge \<longleftrightarrow> 0 < a \<and> a < r"
proof -
  have "a > 0 \<Longrightarrow> r \<le> int (ninety_percent (nat a)) \<Longrightarrow> r \<le> a" using ninety_percent_le [of "nat a"] by linarith
  then show ?thesis by (auto simp: EstimateFit_def Let_def not_le)
qed

lemma fits_iff: "fe_level (EstimateFit r a s) = FitFits \<longleftrightarrow> 0 < r \<and> 0 < a \<and> r \<le> int (ninety_percent (nat a))"
  by (auto simp: EstimateFit_def Let_def not_le)

lemma verdict_level:
  assumes "available < 2 ^ 48"
  shows "fe_level (EstimateFit required available s) =
    (if required \<le> 0 \<or> available \<le> 0 then FitUnknown
     else if 10 * required \<le> 9 * available then FitFits
     else if required \<le> available then FitMarginal else FitTooLarge)"
proof (cases "required \<le> 0 \<or> available \<le> 0")
  case False
  then have "nat available < 2 ^ 48" using assms by (simp add: nat_less_iff)
  then have "int (ninety_percent (nat available)) = 9 * available div 10"
    using False by (simp add: ninety_percent_exact zdiv_int)
  moreover have "required \<le> 9 * available div 10 \<longleftrightarrow> 10 * required \<le> 9 * available" by linarith
  ultimately show ?thesis using False by (simp add: EstimateFit_def Let_def)
qed (simp add: unknown_iff)

text \<open>
  The verdict says what it claims. Unknown exactly when a figure is missing, too large exactly when
  the requirement exceeds the capacity, so whatever fits or is marginal really is within capacity, for
  every 64-bit value and in spite of the floating-point limit; and below 256 TiB \<open>fits\<close> is exactly ninety percent.
\<close>

theorem verdict_thresholds:
  "(fe_level (EstimateFit required available s) = FitUnknown \<longleftrightarrow> required \<le> 0 \<or> available \<le> 0) \<and>
   (fe_level (EstimateFit required available s) = FitTooLarge \<longleftrightarrow> 0 < available \<and> available < required) \<and>
   (available < 2 ^ 48 \<longrightarrow>
      (fe_level (EstimateFit required available s) = FitFits \<longleftrightarrow>
         0 < required \<and> 0 < available \<and> 10 * required \<le> 9 * available))"
  by (auto simp: unknown_iff too_large_iff verdict_level)

theorem verdict_thresholds_witness:
  "fe_level (EstimateFit 15461882265 17179869184 ''RAM'') = FitFits \<and>
   fe_level (EstimateFit 15461882266 17179869184 ''RAM'') = FitMarginal"
proof -
  have "fe_level (EstimateFit 15461882265 17179869184 ''RAM'') = FitFits"
    using verdict_thresholds [of 15461882265 17179869184 "''RAM''"] by simp
  moreover have "fe_level (EstimateFit 15461882266 17179869184 ''RAM'') \<notin> {FitUnknown, FitTooLarge, FitFits}"
    using verdict_thresholds [of 15461882266 17179869184 "''RAM''"] by simp
  ultimately show ?thesis using fit_level.exhaust by auto
qed

definition level_rank :: "fit_level \<Rightarrow> nat" where
  "level_rank l = (case l of FitFits \<Rightarrow> 3 | FitMarginal \<Rightarrow> 2 | FitTooLarge \<Rightarrow> 1 | FitUnknown \<Rightarrow> 0)"

text \<open>More memory, or a smaller model, never gets a worse verdict.\<close>

theorem verdict_is_monotone:
  assumes "0 < required'" "required' \<le> required" "0 < available" "available \<le> available'"
  shows "level_rank (fe_level (EstimateFit required available s)) \<le>
         level_rank (fe_level (EstimateFit required' available' s'))"
proof -
  have "int (ninety_percent (nat available)) \<le> int (ninety_percent (nat available'))"
    using assms by (simp add: ninety_percent_mono)
  with assms show ?thesis by (simp add: EstimateFit_def Let_def level_rank_def)
qed

theorem verdict_is_monotone_witness:
  "level_rank (fe_level (EstimateFit 20 10 ''RAM'')) \<le> level_rank (fe_level (EstimateFit 19 20 ''VRAM''))"
  by (rule verdict_is_monotone) simp_all

section \<open>The engines' estimates\<close>

definition int64 :: "int \<Rightarrow> bool" where
  "int64 v \<longleftrightarrow> - (2 ^ 63) \<le> v \<and> v < 2 ^ 63"

lemma RequiredBytes_plain:
  "int64 sz \<Longrightarrow> 0 < sz \<Longrightarrow> kv \<le> 0 \<Longrightarrow>
     fst (RequiredBytes sz kv n) = (if sz + DefaultOverheadBytes < 2 ^ 63 then sz + DefaultOverheadBytes
                                    else sz + DefaultOverheadBytes - 2 ^ 64)"
  by (simp add: RequiredBytes_def int64_def DefaultOverheadBytes_def wrap64_id wrap64_wraps)

lemma RequiredBytes_exact:
  "0 < sz \<Longrightarrow> 0 \<le> kv \<Longrightarrow> sz + DefaultOverheadBytes + kv < 2 ^ 63 \<Longrightarrow>
     fst (RequiredBytes sz kv n) = sz + DefaultOverheadBytes + kv"
  by (simp add: RequiredBytes_def DefaultOverheadBytes_def wrap64_id)

lemma overhead_wraps:
  "int64 sz \<Longrightarrow> 0 < sz \<Longrightarrow> \<not> sz + DefaultOverheadBytes < 2 ^ 63 \<Longrightarrow> wrap64 (sz + DefaultOverheadBytes) < 0"
  by (simp add: int64_def DefaultOverheadBytes_def wrap64_wraps)

lemma FitWithKV_level:
  "fe_level (FitWithKV sz host kv n) =
     fe_level (EstimateFit (fst (RequiredBytes sz kv n))
       (if hs_has_gpu host \<and> hs_vram host > 0 then hs_vram host else hs_available_ram host) [])"
  by (simp add: FitWithKV_def EstimateFit_def Let_def split_beta)

text \<open>Without a KV cache the sum may wrap, but only to a negative number: the verdict is then unknown.\<close>

lemma FitBySize_sound:
  assumes "int64 sz" "fe_level (llama_FitBySize sz host) \<in> {FitFits, FitMarginal}"
  shows "0 < sz \<and> sz + DefaultOverheadBytes \<le>
    (if hs_has_gpu host \<and> hs_vram host > 0 then hs_vram host else hs_available_ram host)"
proof -
  let ?cap = "if hs_has_gpu host \<and> hs_vram host > 0 then hs_vram host else hs_available_ram host"
  let ?r = "fst (RequiredBytes sz 0 0)"
  have "fe_level (EstimateFit ?r ?cap []) \<in> {FitFits, FitMarginal}"
    using assms(2) by (simp add: llama_FitBySize_def FitWithKV_level)
  then have r: "0 < ?r" "?r \<le> ?cap"
    using unknown_iff [of ?r ?cap "[]"] too_large_iff [of ?r ?cap "[]"] by auto
  have sz: "0 < sz" using r(1) by (auto simp: RequiredBytes_def split: if_splits)
  then have "?r = sz + DefaultOverheadBytes"
    using RequiredBytes_plain [OF assms(1), of 0 0] r(1) overhead_wraps [OF assms(1)]
    by (auto simp: RequiredBytes_def split: if_splits)
  with r sz show ?thesis by simp
qed

text \<open>With one, two sums wrap, and a requirement far beyond any memory can come out small.\<close>

lemma requirement_can_wrap:
  "fe_level (FitWithKV (2 ^ 63 - 1) (no_host\<lparr>hs_available_ram := 2 ^ 34\<rparr>) (2 ^ 63 - 1) 4096) = FitFits"
proof -
  have "fst (RequiredBytes (2 ^ 63 - 1) (2 ^ 63 - 1) 4096) = 536870910"
    by (simp add: RequiredBytes_def DefaultOverheadBytes_def wrap64_def)
  then show ?thesis by (simp add: FitWithKV_level no_host_def fits_iff ninety_percent_value)
qed

section \<open>The KV-cache memo\<close>

text \<open>A request sees the file as it is then: the environment may change between requests.\<close>

definition kv_fresh :: "llama \<Rightarrow> string \<Rightarrow> int \<Rightarrow> int" where
  "kv_fresh b p n =
     (if p = [] \<or> n \<le> 0 \<or> ll_mtime b p = None then 0 else estimateKVBytes b p n)"

fun kv_requests :: "(llama \<times> string \<times> int) list \<Rightarrow> kv_cache \<Rightarrow> int list \<times> kv_cache" where
  "kv_requests [] c = ([], c)"
| "kv_requests ((b, p, n) # rs) c =
     (let (v, c') = kv_get b p n c; (vs, c'') = kv_requests rs c' in (v # vs, c''))"

text \<open>A file's modification time changes whenever its content does.\<close>

definition stamped :: "(string \<Rightarrow> int \<Rightarrow> int \<Rightarrow> gguf_run) \<Rightarrow> llama \<Rightarrow> bool" where
  "stamped content b \<longleftrightarrow> (\<forall>p m n. ll_mtime b p = Some m \<longrightarrow> ll_gguf b p n = content p m n)"

definition kv_true :: "(string \<Rightarrow> int \<Rightarrow> int \<Rightarrow> gguf_run) \<Rightarrow> kv_cache \<Rightarrow> bool" where
  "kv_true content c \<longleftrightarrow>
     (\<forall>p n m kv. map_of c (p, n) = Some (m, kv) \<longrightarrow>
        (\<forall>b. ll_gguf b p n = content p m n \<longrightarrow> estimateKVBytes b p n = kv))"

lemma estimateKVBytes_cong: "ll_gguf b p n = ll_gguf b' p n \<Longrightarrow> estimateKVBytes b p n = estimateKVBytes b' p n"
  by (simp add: estimateKVBytes_def)

lemma kv_true_put:
  assumes "kv_true content c" "ll_gguf b p n = content p m n"
  shows "kv_true content (al_put (p, n) (m, estimateKVBytes b p n) c)"
  using assms estimateKVBytes_cong unfolding kv_true_def by (auto split: if_splits)

lemma kv_get_fresh:
  assumes c: "kv_true content c" and b: "stamped content b"
  shows "fst (kv_get b p n c) = kv_fresh b p n \<and> kv_true content (snd (kv_get b p n c))"
proof (cases "p = [] \<or> n \<le> 0 \<or> ll_mtime b p = None")
  case True
  then show ?thesis using c by (auto simp: kv_get_def kv_fresh_def)
next
  case False
  then obtain m where m: "ll_mtime b p = Some m" by auto
  then have g: "ll_gguf b p n = content p m n" using b by (simp add: stamped_def)
  show ?thesis
  proof (cases "\<exists>kv. map_of c (p, n) = Some (m, kv)")
    case True
    then obtain kv where kv: "map_of c (p, n) = Some (m, kv)" by blast
    then have "estimateKVBytes b p n = kv" using c g by (simp add: kv_true_def)
    then show ?thesis using False m kv c by (simp add: kv_get_def kv_fresh_def)
  next
    case miss: False
    then have "kv_get b p n c = (estimateKVBytes b p n, al_put (p, n) (m, estimateKVBytes b p n) c)"
      using False m by (auto simp: kv_get_def Let_def split: option.splits)
    then show ?thesis using False m kv_true_put [of content c b p n m, OF c g] by (simp add: kv_fresh_def)
  qed
qed

text \<open>
  The memo of GGUF headers changes no verdict. Whatever requests arrive, however the files change
  between them, each answer is the one a fresh reading of the file would give, as long as a changed
  file has a changed modification time.
\<close>

theorem memo_is_transparent:
  assumes "\<forall>(b, p, n)\<in>set rs. stamped content b"
  shows "fst (kv_requests rs []) = map (\<lambda>(b, p, n). kv_fresh b p n) rs"
proof -
  have "kv_true content c \<Longrightarrow> \<forall>(b, p, n)\<in>set rs. stamped content b \<Longrightarrow>
      fst (kv_requests rs c) = map (\<lambda>(b, p, n). kv_fresh b p n) rs" for c
  proof (induction rs arbitrary: c)
    case (Cons r rs)
    obtain b p n where r: "r = (b, p, n)" by (cases r)
    have "stamped content b" using Cons.prems(2) r by auto
    from kv_get_fresh [OF Cons.prems(1) this, of p n]
    show ?case using Cons.IH [of "snd (kv_get b p n c)"] Cons.prems(2)
      by (simp add: r split_beta Let_def)
  qed simp
  then show ?thesis using assms by (simp add: kv_true_def)
qed

text \<open>The file is replaced between the second and the third request; the fourth is answered from the memo.\<close>

definition ex_gguf :: "string \<Rightarrow> int \<Rightarrow> int \<Rightarrow> gguf_run" where
  "ex_gguf p m n = (if m = 7 then GgufDevices [40, 2] else GgufPanic)"

definition ex_llama_at :: "int \<Rightarrow> llama" where
  "ex_llama_at m = ex_llama\<lparr>ll_mtime := (\<lambda>p. Some m), ll_gguf := (\<lambda>p n. ex_gguf p m n)\<rparr>"

theorem memo_is_transparent_witness:
  "fst (kv_requests
      [(ex_llama_at 7, ''/m/a.gguf'', 4096), (ex_llama_at 7, ''/m/a.gguf'', 0),
       (ex_llama_at 8, ''/m/a.gguf'', 4096), (ex_llama_at 8, ''/m/a.gguf'', 4096)] []) = [42, 0, 0, 0]"
proof -
  let ?rs = "[(ex_llama_at 7, ''/m/a.gguf'', 4096), (ex_llama_at 7, ''/m/a.gguf'', 0),
       (ex_llama_at 8, ''/m/a.gguf'', 4096), (ex_llama_at 8, ''/m/a.gguf'', 4096)] :: (llama \<times> string \<times> int) list"
  have "\<forall>(b, p, n)\<in>set ?rs. stamped ex_gguf b" by (simp add: stamped_def ex_llama_at_def)
  then have "fst (kv_requests ?rs []) = map (\<lambda>(b, p, n). kv_fresh b p n) ?rs" by (rule memo_is_transparent)
  also have "\<dots> = [42, 0, 0, 0]"
    by (simp add: kv_fresh_def estimateKVBytes_def ex_llama_at_def ex_gguf_def wrap64_def)
  finally show ?thesis .
qed

section \<open>Pooled video memory\<close>

lemma wrap64_mod: "(wrap64 a + b) mod 2 ^ 64 = (a + b) mod 2 ^ 64"
proof -
  have "(wrap64 a + b) mod 2 ^ 64 = ((a + 2 ^ 63) mod 2 ^ 64 + (b - 2 ^ 63)) mod 2 ^ 64"
    by (simp add: wrap64_def algebra_simps)
  also have "\<dots> = (a + 2 ^ 63 + (b - 2 ^ 63)) mod 2 ^ 64" by (rule mod_add_left_eq)
  finally show ?thesis by simp
qed

lemma wrap64_cong: "a mod 2 ^ 64 = b mod 2 ^ 64 \<Longrightarrow> wrap64 a = wrap64 b"
  unfolding wrap64_def by (metis mod_add_left_eq)

lemma wrap64_add [simp]: "wrap64 (wrap64 a + b) = wrap64 (a + b)"
  by (rule wrap64_cong) (rule wrap64_mod)

text \<open>The devices a decoded reply lists.\<close>

fun amd_devices :: "(string \<times> (string \<times> string) list) list \<Rightarrow> (int \<times> int) list" where
  "amd_devices [] = []"
| "amd_devices ((key, entry) # cards) =
     (if has_prefix key ''card''
      then (case parseAMDCard entry of Inr (Some d) \<Rightarrow> d # amd_devices cards | _ \<Rightarrow> amd_devices cards)
      else amd_devices cards)"

lemma amd_cards_sum:
  "amd_cards cards v = Inr v' \<Longrightarrow> int64 (gv_total v) \<Longrightarrow>
     gv_total v' = wrap64 (gv_total v + sum_list (map fst (amd_devices cards))) \<and>
     gv_count v' = gv_count v + length (amd_devices cards)"
proof (induction cards v rule: amd_cards.induct)
  case (1 v)
  then show ?case by (simp add: int64_def wrap64_id)
next
  case (2 key entry cards v)
  show ?case
  proof (cases "has_prefix key ''card'' \<and> (\<exists>t u. parseAMDCard entry = Inr (Some (t, u)))")
    case True
    then obtain t u where tu: "has_prefix key ''card''" "parseAMDCard entry = Inr (Some (t, u))" by blast
    let ?n = "cmp_or (trim_space (case map_of entry ''Card series'' of Some n \<Rightarrow> n | None \<Rightarrow> [])) ''AMD GPU''"
    have "amd_cards cards (add_card t u ?n v) = Inr v'" using 2(4) tu by simp
    moreover have "int64 (gv_total (add_card t u ?n v))"
      using wrap64_bounds by (simp add: add_card_def int64_def)
    ultimately have "gv_total v' = wrap64 (gv_total (add_card t u ?n v) + sum_list (map fst (amd_devices cards))) \<and>
       gv_count v' = gv_count (add_card t u ?n v) + length (amd_devices cards)"
      using 2(3) tu by blast
    then show ?thesis using tu by (simp add: add_card_def algebra_simps)
  next
    case False
    then have "amd_cards cards v = Inr v'" "amd_devices ((key, entry) # cards) = amd_devices cards"
      using 2(4) by (auto split: if_splits sum.splits option.splits)
    then show ?thesis using 2(1,2,4,5) False by (auto split: if_splits sum.splits option.splits)
  qed
qed

text \<open>The keys of a JSON object come in no order; the total does not depend on it, but the name does.\<close>

lemma amd_total_ignores_order:
  assumes "amd_cards cards no_vram = Inr v" "amd_cards cards' no_vram = Inr v'"
    and "mset (amd_devices cards) = mset (amd_devices cards')"
  shows "gv_total v = gv_total v' \<and> gv_count v = gv_count v'"
proof -
  have "sum_list (map fst (amd_devices cards)) = sum_list (map fst (amd_devices cards'))"
    using assms(3) by (metis mset_map sum_mset_sum_list)
  moreover have "length (amd_devices cards) = length (amd_devices cards')" using assms(3) by (rule mset_eq_length)
  moreover have "int64 (gv_total no_vram)" by (simp add: no_vram_def int64_def)
  ultimately show ?thesis using amd_cards_sum [OF assms(1)] amd_cards_sum [OF assms(2)] by simp
qed

definition ex_card :: "string \<Rightarrow> (string \<times> string) list" where
  "ex_card name = [(''VRAM Total Memory (B)'', ''1024''), (''Card series'', name)]"

lemma amd_name_depends_on_order:
  "parseAMDVRAM (Inr [(''card0'', ex_card ''A''), (''card1'', ex_card ''B'')]) =
     Inr \<lparr>gv_total = 2048, gv_used = 0, gv_name = poolName ''A'' 2, gv_count = 2\<rparr>"
  "parseAMDVRAM (Inr [(''card1'', ex_card ''B''), (''card0'', ex_card ''A'')]) =
     Inr \<lparr>gv_total = 2048, gv_used = 0, gv_name = poolName ''B'' 2, gv_count = 2\<rparr>"
  by code_simp+

lemma nvidia_example:
  "llama_HostResources ex_llama =
     (no_host\<lparr>hs_has_gpu := True, hs_vram := 50331648, hs_vram_used := 1048576,
        hs_accelerator := poolName ''A'' 2\<rparr>, [])"
  by code_simp

end
