(* ===== verification/Engines.thy ===== *)
theory Engines
  imports LlamaImport Fit
begin

text \<open>
  The three backends as records of their methods, and the contract the control plane relies on: what
  validation guarantees, that a validated profile launches at its own address, that validating again
  changes nothing, and that registration accepts the backend. The contract is the locale
  \<open>engine_backend\<close>; each backend interprets it.
\<close>

section \<open>The backends\<close>

definition llama_params :: "parameter list" where
  "llama_params =
     [
      \<lparr>pr_name = ''model.source'', pr_description = ''model repository, URL, or local path'',
       pr_required = True, pr_aliases = [], pr_hint = ''TheBloke/Llama-2-7B-GGUF'', pr_default = [], pr_type = ParameterString\<rparr>,
      \<lparr>pr_name = ''model.reference'', pr_description = ''artifact filename within a repository'',
       pr_required = False, pr_aliases = [], pr_hint = ''llama-2-7b.Q4_K_M.gguf'', pr_default = [], pr_type = ParameterString\<rparr>,
      \<lparr>pr_name = ''listen.host'', pr_description = ''server listen host'',
       pr_required = False, pr_aliases = [], pr_hint = ''127.0.0.1'', pr_default = ''127.0.0.1'', pr_type = ParameterString\<rparr>,
      \<lparr>pr_name = ''listen.port'', pr_description = ''server listen port'',
       pr_required = True, pr_aliases = [], pr_hint = ''8080'', pr_default = [], pr_type = ParameterInt\<rparr>,
      \<lparr>pr_name = ''engine_args.*'', pr_description = ''backend command/config argument'',
       pr_required = False, pr_aliases = [], pr_hint = [], pr_default = [], pr_type = ParameterString\<rparr>,
      \<lparr>pr_name = ''engine_args.ctx-size'', pr_description = ''context window in tokens'',
       pr_required = False, pr_aliases = [''c''], pr_hint = ''4096'', pr_default = [], pr_type = ParameterInt\<rparr>,
      \<lparr>pr_name = ''engine_args.n-gpu-layers'', pr_description = ''layers to offload to the GPU; auto offloads as many as fit'',
       pr_required = False, pr_aliases = [''ngl''], pr_hint = ''auto'', pr_default = [], pr_type = ParameterString\<rparr>,
      \<lparr>pr_name = ''engine_args.threads'', pr_description = ''CPU threads used for generation'',
       pr_required = False, pr_aliases = [''t''], pr_hint = [], pr_default = [], pr_type = ParameterInt\<rparr>,
      \<lparr>pr_name = ''engine_args.flash-attn'', pr_description = ''enable flash attention'',
       pr_required = False, pr_aliases = [''fa''], pr_hint = [], pr_default = [], pr_type = ParameterBool\<rparr>,
      \<lparr>pr_name = ''engine_args.ubatch-size'', pr_description = ''physical batch size'',
       pr_required = False, pr_aliases = [''ub''], pr_hint = ''512'', pr_default = [], pr_type = ParameterInt\<rparr>]"

definition mlx_params :: "parameter list" where
  "mlx_params =
     [
      \<lparr>pr_name = ''model.source'', pr_description = ''model repository or local snapshot'',
       pr_required = True, pr_aliases = [], pr_hint = ''mlx-community/Llama-3.2-3B-Instruct-4bit'', pr_default = [], pr_type = ParameterString\<rparr>,
      \<lparr>pr_name = ''listen.host'', pr_description = ''server listen host'',
       pr_required = False, pr_aliases = [], pr_hint = ''127.0.0.1'', pr_default = [], pr_type = ParameterString\<rparr>,
      \<lparr>pr_name = ''listen.port'', pr_description = ''server listen port'',
       pr_required = True, pr_aliases = [], pr_hint = ''8080'', pr_default = [], pr_type = ParameterInt\<rparr>,
      \<lparr>pr_name = ''engine_args.*'', pr_description = ''server command argument'',
       pr_required = False, pr_aliases = [], pr_hint = [], pr_default = [], pr_type = ParameterString\<rparr>,
      \<lparr>pr_name = ''engine_args.max-tokens'', pr_description = ''default generation limit'',
       pr_required = False, pr_aliases = [], pr_hint = ''2048'', pr_default = [], pr_type = ParameterInt\<rparr>,
      \<lparr>pr_name = ''engine_args.temp'', pr_description = ''default sampling temperature'',
       pr_required = False, pr_aliases = [], pr_hint = ''0.7'', pr_default = [], pr_type = ParameterString\<rparr>,
      \<lparr>pr_name = ''engine_args.adapter-path'', pr_description = ''path to a LoRA adapter to load'',
       pr_required = False, pr_aliases = [], pr_hint = [], pr_default = [], pr_type = ParameterString\<rparr>,
      \<lparr>pr_name = ''engine_args.trust-remote-code'', pr_description = ''allow the repository to execute its own model code'',
       pr_required = False, pr_aliases = [], pr_hint = [], pr_default = [], pr_type = ParameterBool\<rparr>]"

definition strata_params :: "parameter list" where
  "strata_params =
     [
      \<lparr>pr_name = ''model.source'', pr_description = ''Strata model size (managed install) or path to a setup-written strata-<size>.json'',
       pr_required = True, pr_aliases = [], pr_hint = ''IQ2_XS'', pr_default = [], pr_type = ParameterString\<rparr>,
      \<lparr>pr_name = ''listen.host'', pr_description = ''server listen host'',
       pr_required = False, pr_aliases = [], pr_hint = ''127.0.0.1'', pr_default = [], pr_type = ParameterString\<rparr>,
      \<lparr>pr_name = ''listen.port'', pr_description = ''server listen port'',
       pr_required = True, pr_aliases = [], pr_hint = ''8080'', pr_default = [], pr_type = ParameterInt\<rparr>,
      \<lparr>pr_name = ''engine_args.*'', pr_description = ''setup or server command argument'',
       pr_required = False, pr_aliases = [], pr_hint = [], pr_default = [], pr_type = ParameterString\<rparr>,
      \<lparr>pr_name = ''engine_args.family'', pr_description = ''model family (size-name sources only)'',
       pr_required = False, pr_aliases = [], pr_hint = ''qwen'', pr_default = [], pr_type = ParameterString\<rparr>,
      \<lparr>pr_name = ''engine_args.context'', pr_description = ''context length (size-name sources only)'',
       pr_required = False, pr_aliases = [], pr_hint = ''65536'', pr_default = [], pr_type = ParameterInt\<rparr>,
      \<lparr>pr_name = ''engine_args.kv'', pr_description = ''KV cache type (size-name sources only)'',
       pr_required = False, pr_aliases = [], pr_hint = ''int8'', pr_default = [], pr_type = ParameterString\<rparr>,
      \<lparr>pr_name = ''engine_args.vision'', pr_description = ''image input (size-name sources only)'',
       pr_required = False, pr_aliases = [], pr_hint = ''no'', pr_default = [], pr_type = ParameterString\<rparr>,
      \<lparr>pr_name = ''engine_args.gpu'', pr_description = ''GPU index, or several for a layer split'',
       pr_required = False, pr_aliases = [], pr_hint = ''0'', pr_default = [], pr_type = ParameterString\<rparr>,
      \<lparr>pr_name = ''engine_args.api-key'', pr_description = ''require this key on /v1/*'',
       pr_required = False, pr_aliases = [], pr_hint = [], pr_default = [], pr_type = ParameterString\<rparr>]"

definition llama_caps :: capabilities where
  "llama_caps =
     \<lparr>cap_single_file = True, cap_multi_file = False, cap_discrete_vram = True, cap_unified_memory = False,
      cap_managed_install = True, cap_single_active = False, cap_parameter_introspection = True\<rparr>"

definition mlx_caps :: capabilities where
  "mlx_caps =
     \<lparr>cap_single_file = False, cap_multi_file = True, cap_discrete_vram = False, cap_unified_memory = True,
      cap_managed_install = True, cap_single_active = True, cap_parameter_introspection = True\<rparr>"

definition strata_caps :: capabilities where
  "strata_caps =
     \<lparr>cap_single_file = False, cap_multi_file = True, cap_discrete_vram = True, cap_unified_memory = False,
      cap_managed_install = True, cap_single_active = True, cap_parameter_introspection = True\<rparr>"

text \<open>The contract has no panics: an import that panics is an error of it.\<close>

definition llama_backend :: "llama \<Rightarrow> yaml_lib \<Rightarrow> (string \<Rightarrow> string \<Rightarrow> gerr + http_reply) \<Rightarrow> backend" where
  "llama_backend b y post =
     \<lparr>b_name = llama_name, b_caps = llama_caps, b_validate = llama_ValidateProfile b,
      b_materialize = llama_Materialize b, b_batch = Some (MaterializeProfiles b),
      b_launch = llama_LaunchSpec b, b_resolve = llama_Resolve b, b_plan = llama_Plan b,
      b_activate = Some (ActivateRuntime post),
      b_import = Some (\<lambda>io fs docs. case ImportGenerated b y io fs docs of
        Some r \<Rightarrow> r | None \<Rightarrow> Inl (plain_error ''panic'' [])),
      b_list_local = llama_ListLocal b, b_delete_local = llama_DeleteLocal b,
      b_params = Some (Inr llama_params),
      b_fit = (\<lambda>p sz host. fst (llama_Fit b p sz host [])), b_host = Some (llama_HostResources b)\<rparr>"

definition mlx_backend :: "mlx \<Rightarrow> backend" where
  "mlx_backend b =
     \<lparr>b_name = mlx_name, b_caps = mlx_caps, b_validate = mlx_ValidateProfile b,
      b_materialize = mlx_Materialize b, b_batch = None, b_launch = mlx_LaunchSpec b,
      b_resolve = mlx_Resolve b, b_plan = mlx_Plan b, b_activate = None, b_import = None,
      b_list_local = mlx_ListLocal b, b_delete_local = mlx_DeleteLocal b,
      b_params = Some (Inr mlx_params), b_fit = mlx_Fit, b_host = Some (mlx_HostResources b)\<rparr>"

definition strata_backend :: "strata \<Rightarrow> backend" where
  "strata_backend b =
     \<lparr>b_name = strata_name, b_caps = strata_caps, b_validate = strata_ValidateProfile b,
      b_materialize = strata_Materialize b, b_batch = None, b_launch = strata_LaunchSpec b,
      b_resolve = strata_Resolve, b_plan = strata_Plan b, b_activate = None, b_import = None,
      b_list_local = strata_ListLocal b, b_delete_local = strata_DeleteLocal,
      b_params = Some (Inr strata_params), b_fit = strata_Fit, b_host = None\<rparr>"

section \<open>The contract\<close>

text \<open>What validation may change: the listen host, and only when it was empty.\<close>

definition host_filled :: "profile \<Rightarrow> profile \<Rightarrow> bool" where
  "host_filled q p \<longleftrightarrow> p = with_default_host q"

definition at_address :: "profile \<Rightarrow> launch_spec \<Rightarrow> bool" where
  "at_address p sp \<longleftrightarrow> sp_host sp = ls_host (p_listen p) \<and> sp_port sp = ls_port (p_listen p)"

locale engine_backend =
  fixes b :: backend
  assumes named: "b_name b \<noteq> []"
    and activates: "single_active b \<or> b_activate b \<noteq> None"
    and validate_fills: "b_validate b q = Inr p \<Longrightarrow> host_filled q p"
    and validate_port: "b_validate b q = Inr p \<Longrightarrow> 1 \<le> ls_port (p_listen p) \<and> ls_port (p_listen p) \<le> 65535"
    and validate_again: "b_validate b q = Inr p \<Longrightarrow> b_validate b p = Inr p"
    and launches: "\<exists>sp. b_launch b p mat = Inr sp \<and> at_address p sp"
begin

lemma registers: "map_of r (b_name b) = None \<Longrightarrow> Register b r = (None, al_put (b_name b) b r)"
  using named activates by (simp add: Register_def single_active_def)

lemma validated_host: "b_validate b q = Inr p \<Longrightarrow> ls_host (p_listen p) \<noteq> []"
  using validate_fills [of q p] by (auto simp: host_filled_def with_default_host_def)

lemma validated_launch:
  assumes "b_validate b q = Inr p"
  shows "\<exists>sp. b_launch b p mat = Inr sp \<and> at_address p sp \<and> sp_host sp \<noteq> [] \<and> 1 \<le> sp_port sp \<and> sp_port sp \<le> 65535"
  using launches [of p mat] validate_port [OF assms] validated_host [OF assms] by (auto simp: at_address_def)

end

lemma with_default_host_again [simp]: "with_default_host (with_default_host p) = with_default_host p"
  by (simp add: with_default_host_def)

lemma with_default_host_simps [simp]:
  "p_name (with_default_host p) = p_name p" "p_model (with_default_host p) = p_model p"
  "p_engine_args (with_default_host p) = p_engine_args p" "p_backend (with_default_host p) = p_backend p"
  "ls_port (p_listen (with_default_host p)) = ls_port (p_listen p)"
  by (simp_all add: with_default_host_def)

lemma llama_validate_eq:
  "llama_ValidateProfile b q = Inr p \<longleftrightarrow>
     ms_source (p_model q) \<noteq> [] \<and> 1 \<le> ls_port (p_listen q) \<and> ls_port (p_listen q) \<le> 65535 \<and>
     name_ok (p_name q) \<and> args_ok (p_engine_args q) \<and> p = with_default_host q"
proof (cases "name_ok (p_name q) \<and> args_ok (p_engine_args q)")
  case True
  then have "engineArgValues (p_engine_args q) = Inr (arg_texts (p_engine_args q))"
    "profileSection b q [] = Inr \<lparr>sec_name = p_name q, sec_values = section_values b q []\<rparr>"
    by (simp_all add: engineArgValues_Inr profileSection_Inr)
  then show ?thesis
    using True by (auto simp: llama_ValidateProfile_def with_default_host_def defaultListenHost_def)
next
  case False
  then have "profileSection b q [] \<noteq> Inr s" for s by (auto simp: profileSection_Inr)
  then have "\<exists>e. profileSection b q [] = Inl e" by (cases "profileSection b q []") auto
  then have "llama_ValidateProfile b q \<noteq> Inr p"
    by (auto simp: llama_ValidateProfile_def split: sum.splits)
  then show ?thesis using False by blast
qed

interpretation llama_engine: engine_backend "llama_backend b y post"
proof
  fix p q mat
  show "b_name (llama_backend b y post) \<noteq> []" by (simp add: llama_backend_def llama_name_def)
  show "single_active (llama_backend b y post) \<or> b_activate (llama_backend b y post) \<noteq> None"
    by (simp add: llama_backend_def)
  have v: "b_validate (llama_backend b y post) = llama_ValidateProfile b" by (simp add: llama_backend_def)
  show "host_filled q p" "1 \<le> ls_port (p_listen p) \<and> ls_port (p_listen p) \<le> 65535"
    "b_validate (llama_backend b y post) p = Inr p" if "b_validate (llama_backend b y post) q = Inr p"
    using that unfolding v llama_validate_eq host_filled_def by auto
  show "\<exists>sp. b_launch (llama_backend b y post) p mat = Inr sp \<and> at_address p sp"
    by (auto simp: llama_backend_def llama_LaunchSpec_def router_spec_def at_address_def Let_def split: sum.splits)
qed

interpretation mlx_engine: engine_backend "mlx_backend b"
proof
  fix p q mat
  show "b_name (mlx_backend b) \<noteq> []" by (simp add: mlx_backend_def mlx_name_def)
  show "single_active (mlx_backend b) \<or> b_activate (mlx_backend b) \<noteq> None"
    by (simp add: mlx_backend_def mlx_caps_def single_active_def)
  have v: "b_validate (mlx_backend b) = mlx_ValidateProfile b" by (simp add: mlx_backend_def)
  show "host_filled q p" "1 \<le> ls_port (p_listen p) \<and> ls_port (p_listen p) \<le> 65535"
    "b_validate (mlx_backend b) p = Inr p" if "b_validate (mlx_backend b) q = Inr p"
    using that unfolding v mlx_ValidateProfile_def host_filled_def Let_def
    by (auto split: if_splits sum.splits)
  show "\<exists>sp. b_launch (mlx_backend b) p mat = Inr sp \<and> at_address p sp"
    by (auto simp: mlx_backend_def mlx_LaunchSpec_def at_address_def Let_def split: sum.splits)
qed

interpretation strata_engine: engine_backend "strata_backend b"
proof
  fix p q mat
  show "b_name (strata_backend b) \<noteq> []" by (simp add: strata_backend_def strata_name_def)
  show "single_active (strata_backend b) \<or> b_activate (strata_backend b) \<noteq> None"
    by (simp add: strata_backend_def strata_caps_def single_active_def)
  have v: "b_validate (strata_backend b) = strata_ValidateProfile b" by (simp add: strata_backend_def)
  show "host_filled q p" "1 \<le> ls_port (p_listen p) \<and> ls_port (p_listen p) \<le> 65535"
    "b_validate (strata_backend b) p = Inr p" if "b_validate (strata_backend b) q = Inr p"
    using that unfolding v strata_ValidateProfile_def host_filled_def Let_def
    by (auto split: if_splits sum.splits)
  show "\<exists>sp. b_launch (strata_backend b) p mat = Inr sp \<and> at_address p sp"
    by (auto simp: strata_backend_def strata_LaunchSpec_def at_address_def Let_def split: sum.splits)
qed

section \<open>The contract on fit\<close>

text \<open>The memory a backend serves a model from.\<close>

definition capacity_of :: "string \<Rightarrow> host_resources \<Rightarrow> int" where
  "capacity_of name host =
     (if name = llama_name then (if hs_has_gpu host \<and> hs_vram host > 0 then hs_vram host else hs_available_ram host)
      else if name = mlx_name then (if hs_budget host \<le> 0 then hs_available_ram host else hs_budget host)
      else hs_available_ram host + hs_vram host)"

text \<open>Figures below 4 EiB.\<close>

definition host_sane :: "host_resources \<Rightarrow> bool" where
  "host_sane host \<longleftrightarrow> 0 \<le> hs_available_ram host \<and> hs_available_ram host < 2 ^ 62 \<and>
     0 \<le> hs_vram host \<and> hs_vram host < 2 ^ 62"

locale fitting_engine = engine_backend +
  assumes fit_total: "\<exists>e. b_fit b p sz host = Inr e"
    and fit_unknown: "sz \<le> 0 \<Longrightarrow> b_fit b p sz host = Inr e \<Longrightarrow> fe_level e = FitUnknown"
    and fit_capacity: "host_sane host \<Longrightarrow> b_fit b p sz host = Inr e \<Longrightarrow> fe_available e = capacity_of (b_name b) host"
    and fit_required: "0 < sz \<Longrightarrow> sz < 2 ^ 62 \<Longrightarrow> b_fit b p sz host = Inr e \<Longrightarrow> fe_level e \<noteq> FitUnknown \<Longrightarrow>
       sz + DefaultOverheadBytes \<le> fe_required e"
    and fit_level: "b_fit b p sz host = Inr e \<Longrightarrow>
       fe_level e = fe_level (EstimateFit (fe_required e) (fe_available e) [])"
begin

lemma fit_sound:
  assumes "sz < 2 ^ 62" "host_sane host" "b_fit b p sz host = Inr e" "fe_level e \<in> {FitFits, FitMarginal}"
  shows "0 < sz \<and> sz + DefaultOverheadBytes \<le> capacity_of (b_name b) host"
proof -
  have k: "fe_level e \<noteq> FitUnknown" "fe_level e \<noteq> FitTooLarge" using assms(4) by auto
  have sz: "0 < sz" using k(1) fit_unknown [OF _ assms(3)] by (meson not_le)
  have "fe_required e \<le> fe_available e"
    using k unfolding fit_level [OF assms(3)] unknown_iff too_large_iff by auto
  then show ?thesis
    using sz fit_required [OF sz assms(1,3) k(1)] fit_capacity [OF assms(2,3)] by linarith
qed

end

lemma EstimateFit_level_cong: "fe_level (EstimateFit r a s) = fe_level (EstimateFit r a s')"
  by (simp add: EstimateFit_def Let_def)

lemma int64_wrap [simp]: "int64 (wrap64 v)"
  using wrap64_bounds [of v] by (simp add: int64_def)

lemma fold_wrap_int64: "int64 v \<Longrightarrow> int64 (fold (\<lambda>d acc. wrap64 (acc + wrap64 (int d))) ds v)"
  by (induction ds arbitrary: v) simp_all

lemma estimateKVBytes_int64: "int64 (estimateKVBytes b p n)"
  unfolding estimateKVBytes_def
  by (auto simp: int64_def [of 0] intro!: fold_wrap_int64 split: gguf_run.splits)

lemma kv_get_int64: "int64 (fst (kv_get b p n []))"
  by (auto simp: kv_get_def int64_def [of 0] Let_def estimateKVBytes_int64 split: option.splits)

lemma kvBytesForProfile_int64: "int64 (fst (kvBytesForProfile b p n []))"
  by (auto simp: kvBytesForProfile_def int64_def [of 0] kv_get_int64 split: prod.splits sum.splits)

text \<open>Even with a KV cache of any size, the sum of a model below 4 EiB is right or negative.\<close>

lemma RequiredBytes_ge:
  assumes "0 < sz" "sz < 2 ^ 62" "int64 kv" "fst (RequiredBytes sz kv n) > 0"
  shows "sz + DefaultOverheadBytes \<le> fst (RequiredBytes sz kv n)"
proof (cases "sz + DefaultOverheadBytes + kv < 2 ^ 63")
  case True
  with assms show ?thesis by (simp add: RequiredBytes_def DefaultOverheadBytes_def wrap64_id)
next
  case False
  then have "wrap64 (sz + DefaultOverheadBytes + kv) = sz + DefaultOverheadBytes + kv - 2 ^ 64"
    using assms by (intro wrap64_wraps) (simp_all add: int64_def DefaultOverheadBytes_def)
  with False assms show ?thesis
    by (auto simp: RequiredBytes_def int64_def DefaultOverheadBytes_def split: if_splits)
qed

interpretation llama_fitting: fitting_engine "llama_backend b y post"
proof unfold_locales
  fix p :: profile and sz host e
  let ?n = "contextLenFromArgs (p_engine_args p)"
  let ?kv = "fst (kvBytesForProfile b p ?n [])"
  have f: "b_fit (llama_backend b y post) p sz host = Inr (FitWithKV sz host ?kv ?n)"
    by (simp add: llama_backend_def llama_Fit_def Let_def split_beta)
  show "\<exists>e. b_fit (llama_backend b y post) p sz host = Inr e" using f by blast
  assume "b_fit (llama_backend b y post) p sz host = Inr e"
  then have e: "e = FitWithKV sz host ?kv ?n" using f by simp
  have r: "fe_required e = fst (RequiredBytes sz ?kv ?n)" "fe_available e =
      (if hs_has_gpu host \<and> hs_vram host > 0 then hs_vram host else hs_available_ram host)"
    unfolding e by (simp_all add: FitWithKV_def split_beta)
  show l: "fe_level e = fe_level (EstimateFit (fe_required e) (fe_available e) [])"
    unfolding r unfolding e by (rule FitWithKV_level)
  show "sz \<le> 0 \<Longrightarrow> fe_level e = FitUnknown"
    unfolding l unknown_iff r(1) by (simp add: RequiredBytes_def)
  show "sz + DefaultOverheadBytes \<le> fe_required e" if "0 < sz" "sz < 2 ^ 62" "fe_level e \<noteq> FitUnknown"
  proof -
    from that(3) have "0 < fe_required e" unfolding l unknown_iff by simp
    then show ?thesis unfolding r(1) by (intro RequiredBytes_ge that kvBytesForProfile_int64)
  qed
  show "host_sane host \<Longrightarrow> fe_available e = capacity_of (b_name (llama_backend b y post)) host"
    unfolding r by (simp add: capacity_of_def llama_backend_def)
qed

lemma overhead_exact: "0 < sz \<Longrightarrow> sz < 2 ^ 62 \<Longrightarrow> wrap64 (sz + DefaultOverheadBytes) = sz + DefaultOverheadBytes"
  by (simp add: DefaultOverheadBytes_def wrap64_id)

interpretation mlx_fitting: fitting_engine "mlx_backend b"
  by unfold_locales
    (auto simp: mlx_backend_def mlx_Fit_def mlx_FitBySize_def capacity_of_def mlx_name_def llama_name_def
       overhead_exact unknown_iff Let_def intro: EstimateFit_level_cong)

interpretation strata_fitting: fitting_engine "strata_backend b"
  by unfold_locales
    (auto simp: strata_backend_def strata_Fit_def capacity_of_def mlx_name_def llama_name_def strata_name_def
       overhead_exact unknown_iff Let_def wrap64_id host_sane_def intro: EstimateFit_level_cong)

section \<open>Properties\<close>

lemmas backend_names = llama_backend_def mlx_backend_def strata_backend_def llama_name_def mlx_name_def strata_name_def

definition the_registry :: "backend list \<Rightarrow> registry" where
  "the_registry bs = fold (\<lambda>b r. snd (Register b r)) bs NewRegistry"

lemma registered_engine [consumes 1, case_names llama mlx strata]:
  assumes "Lookup (the_registry [llama_backend l y post, mlx_backend m, strata_backend s]) name = Some b"
  obtains "b = llama_backend l y post" "name = llama_name" | "b = mlx_backend m" "name = mlx_name"
    | "b = strata_backend s" "name = strata_name"
proof -
  have "the_registry [llama_backend l y post, mlx_backend m, strata_backend s] =
      [(llama_name, llama_backend l y post), (mlx_name, mlx_backend m), (strata_name, strata_backend s)]"
    unfolding the_registry_def NewRegistry_def
    by (simp add: Register_def backend_names mlx_caps_def strata_caps_def)
  then show ?thesis using assms that by (auto simp: Lookup_def split: if_splits)
qed


text \<open>When a backend says that a model fits, the model with its overhead is within the backend's capacity.\<close>

lemma engine_fit_sound:
  assumes "Lookup (the_registry [llama_backend l y post, mlx_backend m, strata_backend s]) name = Some b"
    and "sz < 2 ^ 62" "host_sane host"
    and "b_fit b p sz host = Inr e" "fe_level e \<in> {FitFits, FitMarginal}"
  shows "0 < sz \<and> sz + DefaultOverheadBytes \<le> capacity_of name host"
  using assms(1)
proof (cases rule: registered_engine)
  case llama
  with assms(2-5) show ?thesis using llama_fitting.fit_sound by (fastforce simp: llama_backend_def)
next
  case mlx
  with assms(2-5) show ?thesis using mlx_fitting.fit_sound by (fastforce simp: mlx_backend_def)
next
  case strata
  with assms(2-5) show ?thesis using strata_fitting.fit_sound by (fastforce simp: strata_backend_def)
qed

text \<open>The engine argument a described parameter names, if it names one.\<close>

definition engine_arg :: "parameter \<Rightarrow> string option" where
  "engine_arg p =
     (if has_prefix (pr_name p) ''engine_args.'' \<and> pr_name p \<noteq> ''engine_args.*''
      then Some (trim_prefix (pr_name p) ''engine_args.'') else None)"

definition offered :: "parameter list \<Rightarrow> string list" where
  "offered ps = concat (map (\<lambda>p. case engine_arg p of None \<Rightarrow> [] | Some a \<Rightarrow> a # pr_aliases p) ps)"

text \<open>
  What the backends offer they accept. Every engine argument that introspection describes, under its
  name or an alias, is accepted by the backend that describes it, and under that very name:
  no alias of the renderer and no reserved key of a command line is among them.
\<close>

theorem offered_arguments_are_accepted:
  "list_all (\<lambda>a. canonicalKey a = Inr a) (offered llama_params) \<and>
   list_all (\<lambda>a. mlxFlag a = Inr (''--'' @ a)) (offered mlx_params) \<and>
   list_all (\<lambda>a. strataFlag setupReserved a = Inr (''--'' @ a)) (offered strata_params)"
proof (intro conjI)
  have "offered llama_params = [''ctx-size'', ''c'', ''n-gpu-layers'', ''ngl'', ''threads'', ''t'', ''flash-attn'',
      ''fa'', ''ubatch-size'', ''ub'']"
    by (simp add: offered_def engine_arg_def llama_params_def trim_prefix_def)
  then show "list_all (\<lambda>a. canonicalKey a = Inr a) (offered llama_params)" by simp code_simp
  have "offered mlx_params = [''max-tokens'', ''temp'', ''adapter-path'', ''trust-remote-code'']"
    by (simp add: offered_def engine_arg_def mlx_params_def trim_prefix_def)
  then show "list_all (\<lambda>a. mlxFlag a = Inr (''--'' @ a)) (offered mlx_params)" by simp code_simp
  have "offered strata_params = [''family'', ''context'', ''kv'', ''vision'', ''gpu'', ''api-key'']"
    by (simp add: offered_def engine_arg_def strata_params_def trim_prefix_def)
  then show "list_all (\<lambda>a. strataFlag setupReserved a = Inr (''--'' @ a)) (offered strata_params)"
    by simp code_simp
qed

definition ex_yaml :: yaml_lib where
  "ex_yaml = \<lparr>yl_parse = (\<lambda>s. Inr (map_node [str_node s])), yl_encode = (\<lambda>p. Inr (str_node (p_name p))),
     yl_print = (\<lambda>n d. Inr (y_value d))\<rparr>"

definition ex_post :: "string \<Rightarrow> string \<Rightarrow> gerr + http_reply" where
  "ex_post url model = Inr \<lparr>hr_code = 200, hr_status = ''200 OK'', hr_message = None\<rparr>"

definition ex_strata :: strata where
  "ex_strata = \<lparr>sr_storage = ''/m'', sr_pid_dir = ''/run'', sr_engine_root = ''/e'', sr_home = None,
     sr_user_home = None, sr_checkout = [], sr_is_file = (\<lambda>p. False)\<rparr>"


definition ex_host :: host_resources where
  "ex_host = no_host\<lparr>hs_available_ram := 36 * 2 ^ 30, hs_vram := 12 * 2 ^ 30\<rparr>"

lemma engine_fit_sound_example:
  "\<exists>e. b_fit (strata_backend ex_strata) (ex_profile ''p'' []) (40 * 2 ^ 30) ex_host = Inr e \<and>
     fe_level e = FitFits \<and> 40 * 2 ^ 30 + DefaultOverheadBytes \<le> capacity_of strata_name ex_host"
proof -
  let ?b = "strata_backend ex_strata"
  have r: "Lookup (the_registry [llama_backend ex_llama ex_yaml ex_post, mlx_backend ex_mlx, ?b]) strata_name = Some ?b"
    by (simp add: the_registry_def NewRegistry_def Register_def Lookup_def backend_names mlx_caps_def strata_caps_def)
  obtain e where e: "b_fit ?b (ex_profile ''p'' []) (40 * 2 ^ 30) ex_host = Inr e"
    using strata_fitting.fit_total by blast
  then have l: "fe_level e = FitFits"
    by (auto simp: strata_backend_def strata_Fit_def ex_host_def no_host_def verdict_level DefaultOverheadBytes_def wrap64_id)
  have "host_sane ex_host" by (simp add: host_sane_def ex_host_def no_host_def)
  from engine_fit_sound [OF r _ this e] l have "40 * 2 ^ 30 + DefaultOverheadBytes \<le> capacity_of strata_name ex_host"
    by simp
  with e l show ?thesis by blast
qed

end
