(* ===== verification/Catalog.thy ===== *)
theory Catalog
  imports LlamaCpp "HOL-Library.Product_Lexorder" "HOL-Library.Multiset"
begin

text \<open>
  The remote model catalog, \<^verbatim>\<open>core/modelcatalog/catalog.go\<close>: the search of a hub, its file cache with a
  time to live, the background refresh of a stale entry (at most one per entry at a time), and the
  notification of subscribers.

  The hub is a parameter (\<open>hub\<close>: what a GET of each endpoint answers, the JSON body decoded or not), and
  so are the clock and the JSON texts with their SHA-256 (\<open>codec\<close>). The daemon's goroutines are the
  entries of \<open>ct_queue\<close> (started, not yet past the single-flight check) and \<open>ct_running\<close>.
\<close>

section \<open>Data\<close>

record source =
  so_owner :: string
  so_repo :: string
  so_url :: string

record cat_model =
  cm_id :: string
  cm_url :: string
  cm_downloads :: int
  cm_likes :: int
  cm_last_modified :: string
  cm_tags :: "string list"
  cm_variants :: "variant list"

record search_request =
  sq_backend :: string
  sq_query :: string
  sq_limit :: int
  sq_refresh :: bool

record search_result =
  cr_models :: "cat_model list"
  cr_hit :: bool
  cr_stale :: bool

record refresh_event =
  rv_backend :: string
  rv_query :: string
  rv_error :: "msg option"

record remote_sibling =
  rb_name :: string
  rb_size :: int
  rb_lfs :: "int option"

record remote_model =
  re_id :: string
  re_model_id :: string
  re_downloads :: int
  re_likes :: int
  re_last_modified :: string
  re_tags :: "string list"
  re_siblings :: "remote_sibling list"

record catalog_policy =
  cp_filter :: string
  cp_variants :: "source \<Rightarrow> remote_file list \<Rightarrow> gerr + variant list"

record cache_entry =
  ce_updated :: int
  ce_result :: search_result

text \<open>An HTTP answer: the status code, its text, and the body as \<^verbatim>\<open>json.Decode\<close> reads it.\<close>

record 'a http_json =
  hj_code :: int
  hj_status :: string
  hj_body :: "gerr + 'a"

record hub =
  hb_endpoint :: "string \<Rightarrow> gerr + string"
  hb_list :: "string \<Rightarrow> gerr + remote_model list http_json"
  hb_detail :: "string \<Rightarrow> gerr + remote_model http_json"

text \<open>The cache's texts: the hash of a request's JSON, and an entry's JSON. \<^verbatim>\<open>Refresh\<close> is not part of a request's JSON.\<close>

record codec =
  cd_hash :: "string \<Rightarrow> string \<Rightarrow> int \<Rightarrow> string"
  cd_encode :: "cache_entry \<Rightarrow> gerr + string"
  cd_decode :: "string \<Rightarrow> cache_entry option"

record client_options =
  co_base :: string
  co_dir :: string
  co_ttl :: int

record client =
  cl_base :: string
  cl_dir :: string
  cl_ttl :: int
  cl_disabled :: bool

definition defaultBaseURL :: string where
  "defaultBaseURL = ''https://huggingface.co''"

definition newCatalogCache :: "string \<Rightarrow> int \<Rightarrow> string \<times> int \<times> bool" where
  "newCatalogCache dir ttl = (Clean dir, ttl, dir = [] \<or> ttl \<le> 0)"

definition NewClient :: "client_options \<Rightarrow> client" where
  "NewClient opts =
     (let (dir, ttl, disabled) = newCatalogCache (co_dir opts) (co_ttl opts)
      in \<lparr>cl_base = trim_right (\<lambda>c. c = slash) (cmp_or (co_base opts) defaultBaseURL),
          cl_dir = dir, cl_ttl = ttl, cl_disabled = disabled\<rparr>)"

section \<open>Fetching\<close>

definition normalizeSearch :: "search_request \<Rightarrow> search_request" where
  "normalizeSearch req =
     (let limit = (if sq_limit req \<le> 0 then 20 else sq_limit req)
      in req\<lparr>sq_backend := trim_space (sq_backend req), sq_query := trim_space (sq_query req),
             sq_limit := (if limit > 100 then 100 else limit)\<rparr>)"

text \<open>\<^verbatim>\<open>url.QueryEscape\<close>, and the query string: \<^verbatim>\<open>Encode\<close> writes the keys in order.\<close>

definition keeps_query :: "char \<Rightarrow> bool" where
  "keeps_query c =
     (let n = of_char c :: nat
      in 48 \<le> n \<and> n \<le> 57 \<or> 65 \<le> n \<and> n \<le> 90 \<or> 97 \<le> n \<and> n \<le> 122 \<or> c \<in> set ''-_.~'')"

definition QueryEscape :: "string \<Rightarrow> string" where
  "QueryEscape s =
     concat (map (\<lambda>c. if keeps_query c then [c] else if c = CHR '' '' then ''+''
       else [CHR ''%'', hex_digit (of_char c div 16), hex_digit (of_char c mod 16)]) s)"

definition search_params :: "search_request \<Rightarrow> catalog_policy \<Rightarrow> (string \<times> string) list" where
  "search_params req policy =
     [(''direction'', ''-1'')] @
     (if cp_filter policy \<noteq> [] then [(''filter'', cp_filter policy)] else []) @
     [(''limit'', itoa_int (sq_limit req))] @
     (if cp_filter policy = [] then [(''pipeline_tag'', ''text-generation'')] else []) @
     (if sq_query req \<noteq> [] then [(''search'', sq_query req)] else []) @
     [(''sort'', ''downloads'')]"

definition search_query :: "search_request \<Rightarrow> catalog_policy \<Rightarrow> string" where
  "search_query req policy =
     join_with ''&'' (map (\<lambda>(k, v). QueryEscape k @ ''='' @ QueryEscape v) (search_params req policy))"

definition getJSON :: "(string \<Rightarrow> gerr + 'a http_json) \<Rightarrow> string \<Rightarrow> gerr + 'a" where
  "getJSON get endpoint =
     (case get endpoint of
        Inl e \<Rightarrow> Inl (wrap ''catalog request: %w'' e)
      | Inr r \<Rightarrow>
          if hj_code r \<noteq> 200 then Inl (Errorw (Fmt ''catalog request: %s'' [Str (hj_status r)]) [])
          else hj_body r)"

definition catalog_source :: "client \<Rightarrow> string \<Rightarrow> source option" where
  "catalog_source cl mid =
     (case split_on slash (trim_slashes mid) of
        [owner, repo] \<Rightarrow>
          if safeSegment owner \<and> safeSegment repo
          then Some \<lparr>so_owner = owner, so_repo = repo, so_url = cl_base cl @ ''/'' @ Join [owner, repo]\<rparr>
          else None
      | _ \<Rightarrow> None)"

definition sibling_file :: "remote_sibling \<Rightarrow> remote_file" where
  "sibling_file f =
     \<lparr>rf_name = rb_name f,
      rf_size = (case rb_lfs f of Some n \<Rightarrow> if n > 0 then n else rb_size f | None \<Rightarrow> rb_size f)\<rparr>"

definition or_zero :: "int \<Rightarrow> int \<Rightarrow> int" where
  "or_zero a b = (if a = 0 then b else a)"

definition catalogModel :: "client \<Rightarrow> hub \<Rightarrow> catalog_policy \<Rightarrow> remote_model \<Rightarrow> gerr + cat_model option" where
  "catalogModel cl h policy summary =
     (let mid = cmp_or (re_id summary) (re_model_id summary)
      in case catalog_source cl mid of
           None \<Rightarrow> Inr None
         | Some src \<Rightarrow>
             (case getJSON (hb_detail h)
                 (cl_base cl @ ''/api/models/'' @ so_owner src @ ''/'' @ so_repo src @ ''?blobs=true'') of
                Inl e \<Rightarrow> Inl e
              | Inr detail \<Rightarrow>
                  (case cp_variants policy src (map sibling_file (re_siblings detail)) of
                     Inl e \<Rightarrow> Inl e
                   | Inr [] \<Rightarrow> Inr None
                   | Inr variants \<Rightarrow>
                       Inr (Some
                         \<lparr>cm_id = mid, cm_url = so_url src,
                          cm_downloads = or_zero (re_downloads detail) (re_downloads summary),
                          cm_likes = or_zero (re_likes detail) (re_likes summary),
                          cm_last_modified = cmp_or (re_last_modified detail) (re_last_modified summary),
                          cm_tags = (if re_tags detail = [] then re_tags summary else re_tags detail),
                          cm_variants = variants\<rparr>))))"

fun catalog_models :: "client \<Rightarrow> hub \<Rightarrow> catalog_policy \<Rightarrow> remote_model list \<Rightarrow> gerr + cat_model list" where
  "catalog_models cl h policy [] = Inr []"
| "catalog_models cl h policy (summary # rest) =
     (case catalogModel cl h policy summary of
        Inl e \<Rightarrow> Inl e
      | Inr m \<Rightarrow>
          (case catalog_models cl h policy rest of
             Inl e \<Rightarrow> Inl e
           | Inr ms \<Rightarrow> Inr (case m of None \<Rightarrow> ms | Some model \<Rightarrow> model # ms)))"

text \<open>Most downloads first, then by name.\<close>

definition fetch :: "client \<Rightarrow> hub \<Rightarrow> search_request \<Rightarrow> catalog_policy \<Rightarrow> gerr + search_result" where
  "fetch cl h req policy =
     (case hb_endpoint h (cl_base cl @ ''/api/models'') of
        Inl e \<Rightarrow> Inl e
      | Inr endpoint \<Rightarrow>
          (case getJSON (hb_list h) (endpoint @ ''?'' @ search_query req policy) of
             Inl e \<Rightarrow> Inl e
           | Inr listed \<Rightarrow>
               (case catalog_models cl h policy listed of
                  Inl e \<Rightarrow> Inl e
                | Inr ms \<Rightarrow>
                    Inr \<lparr>cr_models = sort_key (\<lambda>m. (- cm_downloads m, cm_id m)) ms, cr_hit = False, cr_stale = False\<rparr>)))"

section \<open>The cache\<close>

definition cache_path :: "client \<Rightarrow> codec \<Rightarrow> search_request \<Rightarrow> string" where
  "cache_path cl cd req =
     Join [cl_dir cl, cd_hash cd (sq_backend req) (sq_query req) (sq_limit req) @ ''.json'']"

definition cache_load :: "client \<Rightarrow> codec \<Rightarrow> io_env \<Rightarrow> search_request \<Rightarrow> fs \<Rightarrow> cache_entry option" where
  "cache_load cl cd io req fs =
     (if cl_disabled cl then None
      else case ReadFile io (cache_path cl cd req) fs of
        Inl e \<Rightarrow> None
      | Inr data \<Rightarrow> cd_decode cd data)"

definition cache_store ::
    "client \<Rightarrow> codec \<Rightarrow> io_env \<Rightarrow> int \<Rightarrow> search_request \<Rightarrow> search_result \<Rightarrow> fs \<Rightarrow> gerr option \<times> fs" where
  "cache_store cl cd io now req result fs =
     (if cl_disabled cl then (None, fs)
      else case cd_encode cd \<lparr>ce_updated = now, ce_result = result\<rparr> of
        Inl e \<Rightarrow> (Some e, fs)
      | Inr data \<Rightarrow>
          (case MkdirAll io (cl_dir cl) fs of
             (Some e, fs') \<Rightarrow> (Some e, fs')
           | (None, fs') \<Rightarrow> AtomicCreate io (cache_path cl cd req) data 384 fs'))"

section \<open>Searching\<close>

record catalog =
  ct_fs :: fs
  ct_queue :: "(nat \<times> search_request \<times> catalog_policy) list"
  ct_running :: "(nat \<times> search_request \<times> catalog_policy) list"
  ct_busy :: "string list"
  ct_subs :: "(nat \<times> refresh_event list) list"
  ct_next :: nat

text \<open>What the world answers to one operation.\<close>

record moment =
  mo_now :: int
  mo_io :: io_env
  mo_hub :: hub

definition fetchAndStore ::
    "client \<Rightarrow> codec \<Rightarrow> moment \<Rightarrow> search_request \<Rightarrow> catalog_policy \<Rightarrow> fs \<Rightarrow> (gerr + search_result) \<times> fs" where
  "fetchAndStore cl cd mo req policy fs =
     (case fetch cl (mo_hub mo) req policy of
        Inl e \<Rightarrow> (Inl e, fs)
      | Inr result \<Rightarrow>
          (case cache_store cl cd (mo_io mo) (mo_now mo) req result fs of
             (Some e, fs') \<Rightarrow> (Inl e, fs')
           | (None, fs') \<Rightarrow> (Inr result, fs')))"

text \<open>A started goroutine has a number of its own.\<close>

definition spawn_refresh :: "search_request \<Rightarrow> catalog_policy \<Rightarrow> catalog \<Rightarrow> catalog" where
  "spawn_refresh req policy c =
     c\<lparr>ct_queue := ct_queue c @ [(ct_next c, req, policy)], ct_next := ct_next c + 1\<rparr>"

definition Search ::
    "client \<Rightarrow> codec \<Rightarrow> moment \<Rightarrow> search_request \<Rightarrow> catalog_policy \<Rightarrow> catalog \<Rightarrow> (gerr + search_result) \<times> catalog" where
  "Search cl cd mo req0 policy c =
     (let req = normalizeSearch req0
      in if sq_backend req = [] then (Inl (Errorw (Str ''backend is required'') []), c)
         else case (cache_load cl cd (mo_io mo) req (ct_fs c), sq_refresh req) of
           (Some entry, False) \<Rightarrow>
             (let stale = (mo_now mo - ce_updated entry > cl_ttl cl);
                  result = (ce_result entry)\<lparr>cr_hit := True, cr_stale := stale\<rparr>
              in (Inr result, if stale then spawn_refresh req policy c else c))
         | _ \<Rightarrow>
             (case fetchAndStore cl cd mo req policy (ct_fs c) of (r, fs) \<Rightarrow> (r, c\<lparr>ct_fs := fs\<rparr>)))"

definition broker_capacity :: nat where
  "broker_capacity = 4"

definition broker_offer :: "refresh_event \<Rightarrow> refresh_event list \<Rightarrow> refresh_event list" where
  "broker_offer ev q = (if length q < broker_capacity then q @ [ev] else q)"

definition broker_publish :: "refresh_event \<Rightarrow> catalog \<Rightarrow> catalog" where
  "broker_publish ev c = c\<lparr>ct_subs := map (\<lambda>(ch, q). (ch, broker_offer ev q)) (ct_subs c)\<rparr>"

definition broker_subscribe :: "nat \<Rightarrow> catalog \<Rightarrow> catalog" where
  "broker_subscribe ch c = c\<lparr>ct_subs := (ch, []) # ct_subs c\<rparr>"

definition broker_unsubscribe :: "nat \<Rightarrow> catalog \<Rightarrow> catalog" where
  "broker_unsubscribe ch c = c\<lparr>ct_subs := al_del ch (ct_subs c)\<rparr>"

text \<open>\<^verbatim>\<open>refresh\<close> in its two parts: the single-flight check, and the fetch with its notification.\<close>

definition refresh_begin :: "client \<Rightarrow> codec \<Rightarrow> nat \<Rightarrow> catalog \<Rightarrow> catalog" where
  "refresh_begin cl cd n c =
     (case map_of (ct_queue c) n of
        None \<Rightarrow> c
      | Some (req, policy) \<Rightarrow>
          (let key = cache_path cl cd req; c' = c\<lparr>ct_queue := al_del n (ct_queue c)\<rparr>
           in if key \<in> set (ct_busy c) then c'
              else c'\<lparr>ct_busy := key # ct_busy c, ct_running := (n, req, policy) # ct_running c\<rparr>))"

definition refresh_end :: "client \<Rightarrow> codec \<Rightarrow> moment \<Rightarrow> nat \<Rightarrow> catalog \<Rightarrow> catalog" where
  "refresh_end cl cd mo n c =
     (case map_of (ct_running c) n of
        None \<Rightarrow> c
      | Some (req, policy) \<Rightarrow>
          (case fetchAndStore cl cd mo req policy (ct_fs c) of
             (r, fs) \<Rightarrow>
               (let ev = \<lparr>rv_backend = sq_backend req, rv_query = sq_query req,
                          rv_error = (case r of Inl e \<Rightarrow> Some (error_text e) | Inr _ \<Rightarrow> None)\<rparr>;
                    c' = broker_publish ev (c\<lparr>ct_fs := fs\<rparr>)
                in c'\<lparr>ct_running := al_del n (ct_running c'), ct_busy := remove1 (cache_path cl cd req) (ct_busy c')\<rparr>)))"

text \<open>The steps of the client: searches, the refreshes they start, and subscribers coming and going.\<close>

datatype cat_call =
    CallSearch moment search_request catalog_policy
  | CallBegin nat
  | CallEnd moment nat
  | CallSubscribe nat
  | CallUnsubscribe nat

definition cat_step :: "client \<Rightarrow> codec \<Rightarrow> cat_call \<Rightarrow> catalog \<Rightarrow> catalog" where
  "cat_step cl cd call c =
     (case call of
        CallSearch mo req policy \<Rightarrow> snd (Search cl cd mo req policy c)
      | CallBegin n \<Rightarrow> refresh_begin cl cd n c
      | CallEnd mo n \<Rightarrow> refresh_end cl cd mo n c
      | CallSubscribe ch \<Rightarrow> broker_subscribe ch c
      | CallUnsubscribe ch \<Rightarrow> broker_unsubscribe ch c)"

section \<open>What is held\<close>

definition holds_entry :: "client \<Rightarrow> codec \<Rightarrow> search_request \<Rightarrow> cache_entry \<Rightarrow> fs \<Rightarrow> bool" where
  "holds_entry cl cd req e fs \<longleftrightarrow>
     (\<exists>data m. map_of fs (cache_path cl cd req) = Some (NFile data m) \<and> cd_decode cd data = Some e)"

text \<open>An entry's JSON decodes to the entry.\<close>

definition codec_ok :: "codec \<Rightarrow> bool" where
  "codec_ok cd \<longleftrightarrow> (\<forall>e data. cd_encode cd e = Inr data \<longrightarrow> cd_decode cd data = Some e)"

text \<open>The temporary file of a write is not the cache file itself.\<close>

definition temp_apart :: "client \<Rightarrow> codec \<Rightarrow> io_env \<Rightarrow> search_request \<Rightarrow> bool" where
  "temp_apart cl cd io req \<longleftrightarrow> temp_path io (cache_path cl cd req) \<noteq> cache_path cl cd req"

definition readable :: "client \<Rightarrow> codec \<Rightarrow> io_env \<Rightarrow> search_request \<Rightarrow> bool" where
  "readable cl cd io req \<longleftrightarrow>
     io_fail io (OpOpen (cache_path cl cd req)) = None \<and> io_fail io (OpRead (cache_path cl cd req)) = None"

definition same_search :: "search_request \<Rightarrow> search_request \<Rightarrow> bool" where
  "same_search r r' \<longleftrightarrow>
     sq_backend (normalizeSearch r) = sq_backend (normalizeSearch r') \<and>
     sq_query (normalizeSearch r) = sq_query (normalizeSearch r') \<and>
     sq_limit (normalizeSearch r) = sq_limit (normalizeSearch r')"

lemma normalizeSearch_simps [simp]:
  "sq_backend (normalizeSearch r) = trim_space (sq_backend r)"
  "sq_query (normalizeSearch r) = trim_space (sq_query r)"
  "sq_refresh (normalizeSearch r) = sq_refresh r"
  by (simp_all add: normalizeSearch_def Let_def)

lemma normalizeSearch_limit: "1 \<le> sq_limit (normalizeSearch r) \<and> sq_limit (normalizeSearch r) \<le> 100"
  by (simp add: normalizeSearch_def Let_def)

lemma normalizeSearch_again [simp]: "normalizeSearch (normalizeSearch r) = normalizeSearch r"
  by (simp add: normalizeSearch_def Let_def)

lemma same_search_path: "same_search r r' \<Longrightarrow> cache_path cl cd (normalizeSearch r) = cache_path cl cd (normalizeSearch r')"
  unfolding same_search_def cache_path_def by metis

lemma load_held:
  "\<not> cl_disabled cl \<Longrightarrow> holds_entry cl cd req e fs \<Longrightarrow> readable cl cd io req \<Longrightarrow> cache_load cl cd io req fs = Some e"
  by (auto simp: holds_entry_def cache_load_def ReadFile_def readable_def follow_plain)

lemma AtomicCreate_done:
  assumes "AtomicCreate io path data perm fs = (None, fs')" and "temp_path io path \<noteq> path"
  shows "\<exists>m. map_of fs' path = Some (NFile data m)"
proof -
  let ?m = "if perm = 0 then 384 else perm"
  obtain r f where w: "writeReplacement io path data ?m [] fs = (r, f)" by (metis surj_pair)
  then have "f = fs'" "\<exists>x. r = Inr x" using assms(1)
    by (cases "perm = 0"; auto simp: AtomicCreate_def filedoc_writeFile_def Let_def split: prod.splits sum.splits)+
  with writeReplacement_cases [OF w assms(2)] have "replaced (temp_path io path) path data ?m fs fs'" by auto
  then show ?thesis by (simp add: replaced_def)
qed

lemma store_held:
  assumes "cache_store cl cd io now req r fs = (None, fs')" "\<not> cl_disabled cl" "codec_ok cd" "temp_apart cl cd io req"
  shows "holds_entry cl cd req \<lparr>ce_updated = now, ce_result = r\<rparr> fs'"
proof -
  let ?e = "\<lparr>ce_updated = now, ce_result = r\<rparr>"
  obtain data where d: "cd_encode cd ?e = Inr data"
    using assms(1,2) by (cases "cd_encode cd ?e") (simp_all add: cache_store_def)
  moreover obtain f where "AtomicCreate io (cache_path cl cd req) data 384 f = (None, fs')"
    using assms(1,2) d by (auto simp: cache_store_def split: prod.splits option.splits)
  moreover from calculation assms(4) have "\<exists>m. map_of fs' (cache_path cl cd req) = Some (NFile data m)"
    by (intro AtomicCreate_done) (simp_all add: temp_apart_def)
  ultimately show ?thesis using assms(3) by (auto simp: holds_entry_def codec_ok_def)
qed

lemma fetchAndStore_holds:
  assumes "fetchAndStore cl cd mo req policy fs = (Inr r, fs')" "\<not> cl_disabled cl" "codec_ok cd"
    and "temp_apart cl cd (mo_io mo) req"
  shows "holds_entry cl cd req \<lparr>ce_updated = mo_now mo, ce_result = r\<rparr> fs' \<and> fetch cl (mo_hub mo) req policy = Inr r"
  using assms store_held by (auto simp: fetchAndStore_def split: sum.splits prod.splits option.splits)

lemma holds_same: "same_search r r' \<Longrightarrow> holds_entry cl cd (normalizeSearch r) e fs \<longleftrightarrow> holds_entry cl cd (normalizeSearch r') e fs"
  by (simp add: holds_entry_def same_search_path [of r r' cl cd])

lemma fetch_not_hit: "fetch cl h req policy = Inr r \<Longrightarrow> \<not> cr_hit r"
  by (auto simp: fetch_def split: sum.splits)

text \<open>A held entry is the answer, whatever the hub would say; a stale one starts a refresh.\<close>

lemma Search_held:
  assumes "\<not> cl_disabled cl" "holds_entry cl cd (normalizeSearch req) e (ct_fs c)"
    and "readable cl cd (mo_io mo) (normalizeSearch req)" "\<not> sq_refresh req" "trim_space (sq_backend req) \<noteq> []"
  shows "Search cl cd mo req policy c =
    (let stale = (mo_now mo - ce_updated e > cl_ttl cl)
     in (Inr ((ce_result e)\<lparr>cr_hit := True, cr_stale := stale\<rparr>),
         if stale then spawn_refresh (normalizeSearch req) policy c else c))"
  using assms load_held [OF assms(1-3)] by (simp add: Search_def Let_def)

lemma Search_fetched:
  assumes "Search cl cd mo req policy c = (Inr r, c')" "\<not> cr_hit r"
  shows "\<exists>fs. fetchAndStore cl cd mo (normalizeSearch req) policy (ct_fs c) = (Inr r, fs) \<and> c' = c\<lparr>ct_fs := fs\<rparr> \<and>
    trim_space (sq_backend req) \<noteq> []"
  using assms by (auto simp: Search_def Let_def split: if_splits option.splits prod.splits bool.splits)

text \<open>
  The cache is a cache. What a search fetched is what every search for the same backend, query and
  limit answers from then on, marked as a hit, whatever the hub answers meanwhile and without asking
  it: fresh within the time to live, and marked stale after it, when one refresh is started and the
  files are left alone.
\<close>

theorem search_is_cached:
  assumes "\<not> cl_disabled cl" "codec_ok cd" "temp_apart cl cd (mo_io mo) (normalizeSearch req)"
    and "Search cl cd mo req policy c = (Inr r, c')" "\<not> cr_hit r"
    and "same_search req req'" "\<not> sq_refresh req'" "readable cl cd (mo_io mo') (normalizeSearch req')"
  shows "Search cl cd mo' req' policy' c' =
    (let stale = (mo_now mo' - mo_now mo > cl_ttl cl)
     in (Inr (r\<lparr>cr_hit := True, cr_stale := stale\<rparr>),
         if stale then spawn_refresh (normalizeSearch req') policy' c' else c'))"
proof -
  obtain fs where f: "fetchAndStore cl cd mo (normalizeSearch req) policy (ct_fs c) = (Inr r, fs)"
    and c': "c' = c\<lparr>ct_fs := fs\<rparr>" and b: "trim_space (sq_backend req) \<noteq> []"
    using Search_fetched [OF assms(4,5)] by blast
  have "holds_entry cl cd (normalizeSearch req') \<lparr>ce_updated = mo_now mo, ce_result = r\<rparr> (ct_fs c')"
    using fetchAndStore_holds [OF f assms(1-3)] holds_same [OF assms(6)] by (simp add: c')
  moreover have "trim_space (sq_backend req') \<noteq> []" using b assms(6) by (simp add: same_search_def)
  ultimately show ?thesis using Search_held [OF assms(1) _ assms(8,7)] by simp
qed

section \<open>Refreshing\<close>

definition key_of :: "client \<Rightarrow> codec \<Rightarrow> nat \<times> search_request \<times> catalog_policy \<Rightarrow> string" where
  "key_of cl cd job = cache_path cl cd (fst (snd job))"

text \<open>The keys marked busy are those of the running refreshes, one each.\<close>

definition single_flight :: "client \<Rightarrow> codec \<Rightarrow> catalog \<Rightarrow> bool" where
  "single_flight cl cd c \<longleftrightarrow>
     distinct (ct_busy c) \<and> mset (ct_busy c) = mset (map (key_of cl cd) (ct_running c)) \<and>
     distinct (al_keys (ct_queue c @ ct_running c)) \<and> (\<forall>n\<in>set (al_keys (ct_queue c @ ct_running c)). n < ct_next c)"

definition cat_init :: "catalog \<Rightarrow> bool" where
  "cat_init c \<longleftrightarrow> ct_queue c = [] \<and> ct_running c = [] \<and> ct_busy c = []"

lemma cat_state_simps [simp]:
  "ct_busy (spawn_refresh r p c) = ct_busy c" "ct_running (spawn_refresh r p c) = ct_running c"
  "ct_queue (broker_publish ev c) = ct_queue c" "ct_running (broker_publish ev c) = ct_running c"
  "ct_busy (broker_publish ev c) = ct_busy c" "ct_next (broker_publish ev c) = ct_next c"
  "ct_fs (broker_publish ev c) = ct_fs c"
  by (simp_all add: spawn_refresh_def broker_publish_def)

lemma single_flight_spawn: "single_flight cl cd c \<Longrightarrow> single_flight cl cd (spawn_refresh r p c)"
proof -
  assume sf: "single_flight cl cd c"
  then have lt: "\<forall>n\<in>set (al_keys (ct_queue c)) \<union> set (al_keys (ct_running c)). n < ct_next c"
    and d: "distinct (al_keys (ct_queue c) @ al_keys (ct_running c))"
    by (simp_all add: single_flight_def al_keys_def)
  have "al_keys (ct_queue (spawn_refresh r p c) @ ct_running c) = al_keys (ct_queue c) @ ct_next c # al_keys (ct_running c)"
    by (simp add: spawn_refresh_def al_keys_def)
  moreover have "ct_next c \<notin> set (al_keys (ct_queue c)) \<union> set (al_keys (ct_running c))" using lt by blast
  moreover have "ct_next (spawn_refresh r p c) = Suc (ct_next c)" by (simp add: spawn_refresh_def)
  ultimately show ?thesis using sf lt d by (simp add: single_flight_def less_Suc_eq)
qed

lemma Search_state:
  "snd (Search cl cd mo req p c) = c \<or> snd (Search cl cd mo req p c) = spawn_refresh (normalizeSearch req) p c \<or>
   (\<exists>fs. snd (Search cl cd mo req p c) = c\<lparr>ct_fs := fs\<rparr>)"
  by (cases "cache_load cl cd (mo_io mo) (normalizeSearch req) (ct_fs c)"; cases "sq_refresh req")
    (auto simp: Search_def Let_def split_beta)

lemma single_flight_search: "single_flight cl cd c \<Longrightarrow> single_flight cl cd (snd (Search cl cd mo req p c))"
proof -
  assume sf: "single_flight cl cd c"
  then have "single_flight cl cd (c\<lparr>ct_fs := fs\<rparr>)" for fs by (simp add: single_flight_def)
  then show ?thesis using sf single_flight_spawn [OF sf] Search_state [of cl cd mo req p c] by metis
qed

lemma map_of_keys: "map_of ps n = Some v \<Longrightarrow> n \<in> set (al_keys ps)"
  by (induction ps) (auto simp: al_keys_def split: if_splits)

lemma al_keys_del: "set (al_keys (al_del n ps)) = set (al_keys ps) - {n}"
  by (auto simp: al_keys_def al_del_def)

lemma single_flight_begin: "single_flight cl cd c \<Longrightarrow> single_flight cl cd (refresh_begin cl cd n c)"
proof (cases "map_of (ct_queue c) n")
  case (Some job)
  obtain req policy where j: "job = (req, policy)" by (cases job)
  assume sf: "single_flight cl cd c"
  have n: "n \<in> set (al_keys (ct_queue c))" using Some by (rule map_of_keys)
  have d: "distinct (al_keys (ct_queue c))" "distinct (al_keys (ct_running c))"
    "set (al_keys (ct_queue c)) \<inter> set (al_keys (ct_running c)) = {}"
    using sf by (auto simp: single_flight_def al_keys_def)
  have "distinct (al_keys (al_del n (ct_queue c) @ ct_running c))"
    "distinct (al_keys (al_del n (ct_queue c) @ (n, req, policy) # ct_running c))"
    using d n al_del_distinct [OF d(1), of n] al_keys_del [of n "ct_queue c"] by (auto simp: al_keys_def)
  moreover have "\<forall>m\<in>set (al_keys (al_del n (ct_queue c) @ ct_running c)). m < ct_next c"
    "\<forall>m\<in>set (al_keys (al_del n (ct_queue c) @ (n, req, policy) # ct_running c)). m < ct_next c"
    using sf n by (auto simp: single_flight_def al_keys_def al_del_def)
  ultimately show ?thesis using sf Some
    by (simp add: refresh_begin_def Let_def j single_flight_def key_of_def)
qed (simp add: refresh_begin_def)

lemma mset_al_del:
  "map_of ps n = Some v \<Longrightarrow> distinct (al_keys ps) \<Longrightarrow> mset (al_del n ps) = mset ps - {#(n, v)#}"
proof (induction ps)
  case (Cons p ps)
  show ?case
  proof (cases "fst p = n")
    case True
    then have "n \<notin> fst ` set ps" using Cons.prems(2) by (auto simp: al_keys_def)
    then have "al_del n ps = ps" unfolding al_del_def filter_id_conv by (metis image_eqI)
    with True Cons.prems(1) show ?thesis by (cases p) (simp add: al_del_def)
  next
    case False
    then have m: "map_of ps n = Some v" "distinct (al_keys ps)" using Cons.prems by (auto simp: al_keys_def split: if_splits)
    have "(n, v) \<in># mset ps" using map_of_SomeD [OF m(1)] by simp
    moreover have "al_del n (p # ps) = p # al_del n ps" using False by (simp add: al_del_def)
    ultimately show ?thesis using Cons.IH [OF m] False by (simp add: multi_self_add_other_not_self)
  qed
qed simp

lemma single_flight_end: "single_flight cl cd c \<Longrightarrow> single_flight cl cd (refresh_end cl cd mo n c)"
proof (cases "map_of (ct_running c) n")
  case (Some job)
  obtain req policy where j: "job = (req, policy)" by (cases job)
  assume sf: "single_flight cl cd c"
  then have d: "distinct (al_keys (ct_running c))" by (simp add: single_flight_def al_keys_def)
  let ?c = "refresh_end cl cd mo n c"
  have e: "ct_running ?c = al_del n (ct_running c)" "ct_busy ?c = remove1 (cache_path cl cd req) (ct_busy c)"
    "ct_queue ?c = ct_queue c" "ct_next ?c = ct_next c"
    by (simp_all add: refresh_end_def Some j Let_def split_beta)
  have "mset (map (key_of cl cd) (al_del n (ct_running c))) =
      mset (map (key_of cl cd) (ct_running c)) - {#cache_path cl cd req#}"
    using mset_al_del [OF Some d] map_of_SomeD [OF Some]
    by (simp add: image_mset_Diff key_of_def j)
  moreover have "distinct (al_keys (ct_queue c @ al_del n (ct_running c)))"
    using sf al_del_distinct [OF d, of n] by (auto simp: single_flight_def al_keys_def al_del_def)
  moreover have "\<forall>m\<in>set (al_keys (ct_queue c @ al_del n (ct_running c))). m < ct_next c"
    using sf by (auto simp: single_flight_def al_keys_def al_del_def)
  ultimately show ?thesis using sf by (simp add: single_flight_def e distinct_remove1)
qed (simp add: refresh_end_def)

lemma single_flight_step: "single_flight cl cd c \<Longrightarrow> single_flight cl cd (cat_step cl cd call c)"
  by (cases call)
    (simp_all add: cat_step_def single_flight_search single_flight_begin single_flight_end,
     simp_all add: single_flight_def broker_subscribe_def broker_unsubscribe_def)

interpretation cat: inv_system cat_init "\<lambda>c c'. \<exists>call. c' = cat_step cl cd call c" "single_flight cl cd"
proof unfold_locales
  show "cat_init c \<Longrightarrow> single_flight cl cd c" for c by (simp add: cat_init_def single_flight_def al_keys_def)
qed (blast intro: single_flight_step)

text \<open>
  C33: One refresh per entry. Whatever searches, refreshes and subscriptions happen, in whatever order, no
  two refreshes of the same cache entry run at the same time, and an entry is marked busy exactly as
  long as its refresh runs, so that no mark is left behind to block the next.
\<close>

theorem one_refresh_per_entry:
  assumes "reach cat_init (\<lambda>c c'. \<exists>call. c' = cat_step cl cd call c) c"
  shows "distinct (map (key_of cl cd) (ct_running c)) \<and> set (ct_busy c) = set (map (key_of cl cd) (ct_running c))"
proof -
  have "single_flight cl cd c" using assms by (rule cat.reach_inv)
  then have m: "mset (ct_busy c) = mset (map (key_of cl cd) (ct_running c))" "distinct (ct_busy c)"
    by (simp_all add: single_flight_def)
  show ?thesis using mset_eq_imp_distinct_iff [OF m(1)] m(2) mset_eq_setD [OF m(1)] by simp
qed

text \<open>A refresh that succeeds renews the entry; one whose fetch fails leaves the stale answer in place.\<close>

lemma refresh_end_fs:
  "map_of (ct_running c) n = Some (req, policy) \<Longrightarrow>
     ct_fs (refresh_end cl cd mo n c) = snd (fetchAndStore cl cd mo req policy (ct_fs c))"
  by (simp add: refresh_end_def Let_def split_beta)

lemma failed_refresh_keeps_files:
  "map_of (ct_running c) n = Some (req, policy) \<Longrightarrow> fetch cl (mo_hub mo) req policy = Inl e \<Longrightarrow>
     ct_fs (refresh_end cl cd mo n c) = ct_fs c"
  by (simp add: refresh_end_fs fetchAndStore_def)

theorem refresh_renews_entry:
  assumes "single_flight cl cd c"
    and "\<not> cl_disabled cl" "codec_ok cd" "temp_apart cl cd (mo_io mo) (normalizeSearch req)"
    and "map_of (ct_running c) n = Some (normalizeSearch req, policy)"
    and "fst (fetchAndStore cl cd mo (normalizeSearch req) policy (ct_fs c)) = Inr r"
    and "same_search req req'" "\<not> sq_refresh req'" "readable cl cd (mo_io mo') (normalizeSearch req')"
    and "trim_space (sq_backend req) \<noteq> []" "mo_now mo' - mo_now mo \<le> cl_ttl cl"
  shows "fst (Search cl cd mo' req' policy' (refresh_end cl cd mo n c)) = Inr (r\<lparr>cr_hit := True, cr_stale := False\<rparr>) \<and>
    cache_path cl cd (normalizeSearch req') \<notin> set (ct_busy (refresh_end cl cd mo n c))"
proof -
  let ?c = "refresh_end cl cd mo n c"
  obtain fs where f: "fetchAndStore cl cd mo (normalizeSearch req) policy (ct_fs c) = (Inr r, fs)"
    using assms(6) by (metis prod.collapse)
  have "holds_entry cl cd (normalizeSearch req') \<lparr>ce_updated = mo_now mo, ce_result = r\<rparr> (ct_fs ?c)"
    using fetchAndStore_holds [OF f assms(2-4)] holds_same [OF assms(7)] refresh_end_fs [OF assms(5), of cl cd mo] f
    by simp
  moreover have "trim_space (sq_backend req') \<noteq> []" using assms(7,10) by (simp add: same_search_def)
  ultimately have "fst (Search cl cd mo' req' policy' ?c) = Inr (r\<lparr>cr_hit := True, cr_stale := False\<rparr>)"
    using Search_held [OF assms(2) _ assms(9,8)] assms(11) by simp
  moreover have "ct_busy ?c = remove1 (cache_path cl cd (normalizeSearch req')) (ct_busy c)"
    by (simp add: refresh_end_def assms(5) f Let_def same_search_path [OF assms(7)])
  ultimately show ?thesis using assms(1) by (simp add: single_flight_def)
qed

section \<open>What a fetch returns\<close>

lemma catalogModel_some:
  assumes "catalogModel cl h policy s = Inr (Some m)"
  shows "cm_id m = cmp_or (re_id s) (re_model_id s) \<and> cm_variants m \<noteq> [] \<and>
    (\<exists>src. catalog_source cl (cm_id m) = Some src \<and> cm_url m = so_url src)"
  using assms by (auto simp: catalogModel_def Let_def split: option.splits sum.splits list.splits)

lemma catalog_models_some:
  "catalog_models cl h policy listed = Inr ms \<Longrightarrow> m \<in> set ms \<Longrightarrow>
     \<exists>s\<in>set listed. catalogModel cl h policy s = Inr (Some m)"
proof (induction listed arbitrary: ms)
  case (Cons s listed)
  then obtain r ms' where r: "catalogModel cl h policy s = Inr r" "catalog_models cl h policy listed = Inr ms'"
    by (auto split: sum.splits)
  with Cons.prems Cons.IH [OF r(2)] show ?case by (cases r) auto
qed simp

lemma join_with_head: "join_with sep ((x # a) # ps) = x # join_with sep (a # ps)"
  by (cases ps) simp_all

lemma join_split: "join_with [c] (split_on c s) = s"
proof (induction c s rule: split_on.induct)
  case (2 c x xs)
  have "join_with [c] ([] # split_on c xs) = c # join_with [c] (split_on c xs)"
    by (cases "split_on c xs") (simp_all add: split_on_nonempty)
  with 2 show ?case by (auto simp: join_with_head split: list.splits)
qed simp

lemma catalog_source_some:
  assumes "catalog_source cl mid = Some src"
  shows "safeSegment (so_owner src) \<and> safeSegment (so_repo src) \<and>
    trim_slashes mid = so_owner src @ ''/'' @ so_repo src \<and>
    so_url src = cl_base cl @ ''/'' @ Join [so_owner src, so_repo src]"
proof -
  obtain o' r where p: "split_on slash (trim_slashes mid) = [o', r]" "safeSegment o'" "safeSegment r"
    "src = \<lparr>so_owner = o', so_repo = r, so_url = cl_base cl @ ''/'' @ Join [o', r]\<rparr>"
    using assms by (auto simp: catalog_source_def split: list.splits if_splits)
  have "join_with [slash] (split_on slash (trim_slashes mid)) = trim_slashes mid" by (rule join_split)
  with p show ?thesis by (simp add: slash_def)
qed

text \<open>
  What a search offers can be offered. A fetched catalog is ordered by downloads, most first, then by
  name; each of its models was listed by the hub, has a name of two segments neither of which is empty,
  dots or holds_entry a separator, points at that repository of the hub, and has a variant to download.
\<close>

theorem fetched_catalog_is_usable:
  assumes "fetch cl h req policy = Inr r"
  shows "sorted (map (\<lambda>m. (- cm_downloads m, cm_id m)) (cr_models r)) \<and>
    (\<forall>m\<in>set (cr_models r). cm_variants m \<noteq> [] \<and>
       (\<exists>owner repo. safeSegment owner \<and> safeSegment repo \<and> trim_slashes (cm_id m) = owner @ ''/'' @ repo \<and>
          cm_url m = cl_base cl @ ''/'' @ Join [owner, repo]))"
proof -
  obtain listed ms where ms: "catalog_models cl h policy listed = Inr ms"
    and r: "cr_models r = sort_key (\<lambda>m. (- cm_downloads m, cm_id m)) ms"
    using assms by (auto simp: fetch_def split: sum.splits)
  have "cm_variants m \<noteq> [] \<and> (\<exists>owner repo. safeSegment owner \<and> safeSegment repo \<and>
      trim_slashes (cm_id m) = owner @ ''/'' @ repo \<and> cm_url m = cl_base cl @ ''/'' @ Join [owner, repo])"
    if "m \<in> set ms" for m
    using catalog_models_some [OF ms that] catalogModel_some catalog_source_some by metis
  then show ?thesis by (simp add: r sorted_sort_key)
qed

section \<open>An example\<close>

definition ex_client :: client where
  "ex_client = NewClient \<lparr>co_base = ''https://hub/'', co_dir = ''/c'', co_ttl = 10\<rparr>"

text \<open>A codec that can write the first entry only; enough to see a search through.\<close>

definition ex_entry :: cache_entry where
  "ex_entry =
     \<lparr>ce_updated = 5, ce_result = \<lparr>cr_models = [\<lparr>cm_id = ''o/r'', cm_url = ''https://hub/o/r'', cm_downloads = 3,
        cm_likes = 1, cm_last_modified = [], cm_tags = [],
        cm_variants = [\<lparr>vr_name = ''r'', vr_reference = ''a.gguf'', vr_size = 9, vr_multi_file = False\<rparr>]\<rparr>],
        cr_hit = False, cr_stale = False\<rparr>\<rparr>"

definition ex_codec :: codec where
  "ex_codec =
     \<lparr>cd_hash = (\<lambda>b q l. b @ q), cd_encode = (\<lambda>e. if e = ex_entry then Inr ''one'' else Inl (Sentinel ErrNotExist)),
      cd_decode = (\<lambda>s. if s = ''one'' then Some ex_entry else None)\<rparr>"

definition ex_remote :: remote_model where
  "ex_remote =
     \<lparr>re_id = ''o/r'', re_model_id = [], re_downloads = 3, re_likes = 1, re_last_modified = [], re_tags = [],
      re_siblings = [\<lparr>rb_name = ''a.gguf'', rb_size = 2, rb_lfs = Some 9\<rparr>]\<rparr>"

definition ex_hub :: hub where
  "ex_hub =
     \<lparr>hb_endpoint = Inr, hb_list = (\<lambda>u. Inr \<lparr>hj_code = 200, hj_status = ''200 OK'', hj_body = Inr [ex_remote]\<rparr>),
      hb_detail = (\<lambda>u. Inr \<lparr>hj_code = 200, hj_status = ''200 OK'', hj_body = Inr ex_remote\<rparr>)\<rparr>"

definition hub_down :: hub where
  "hub_down = ex_hub\<lparr>hb_list := (\<lambda>u. Inl (Sentinel ErrNotExist))\<rparr>"

definition ex_policy :: catalog_policy where
  "ex_policy =
     \<lparr>cp_filter = ''gguf'', cp_variants = (\<lambda>src files. Inr (map (\<lambda>f. \<lparr>vr_name = so_repo src, vr_reference = rf_name f,
        vr_size = rf_size f, vr_multi_file = False\<rparr>) files))\<rparr>"

definition ex_search :: search_request where
  "ex_search = \<lparr>sq_backend = '' x'', sq_query = ''q '', sq_limit = 0, sq_refresh = False\<rparr>"

definition ex_catalog :: catalog where
  "ex_catalog = \<lparr>ct_fs = [(''/c'', NDir)], ct_queue = [], ct_running = [], ct_busy = [], ct_subs = [], ct_next = 0\<rparr>"

definition ex_moment :: "int \<Rightarrow> hub \<Rightarrow> moment" where
  "ex_moment t h = \<lparr>mo_now = t, mo_io = calm_env, mo_hub = h\<rparr>"

lemma ex_codec_ok: "codec_ok ex_codec"
  by (simp add: codec_ok_def ex_codec_def)

lemma ex_fetch: "fetch ex_client ex_hub (normalizeSearch ex_search) ex_policy = Inr (ce_result ex_entry)"
  by code_simp

lemma ex_search_url:
  "search_query (normalizeSearch ex_search\<lparr>sq_query := ''a b&c''\<rparr>) ex_policy =
     ''direction=-1&filter=gguf&limit=20&search=a+b%26c&sort=downloads''"
  by code_simp

lemma ex_stored:
  "\<exists>fs. Search ex_client ex_codec (ex_moment 5 ex_hub) ex_search ex_policy ex_catalog =
     (Inr (ce_result ex_entry), ex_catalog\<lparr>ct_fs := fs\<rparr>)"
proof -
  have "\<not> isl (fst (fetchAndStore ex_client ex_codec (ex_moment 5 ex_hub) (normalizeSearch ex_search) ex_policy (ct_fs ex_catalog)))"
    "cache_load ex_client ex_codec calm_env (normalizeSearch ex_search) (ct_fs ex_catalog) = None"
    "sq_backend (normalizeSearch ex_search) \<noteq> []"
    by code_simp+
  then show ?thesis using ex_fetch
    by (auto simp: Search_def fetchAndStore_def ex_moment_def Let_def split: prod.splits option.splits sum.splits)
qed

lemma ex_apart: "temp_apart ex_client ex_codec calm_env (normalizeSearch ex_search)"
  unfolding temp_apart_def by code_simp

lemma ex_enabled: "\<not> cl_disabled ex_client" "cl_ttl ex_client = 10"
  by code_simp+

theorem search_is_cached_witness:
  "\<exists>c'. Search ex_client ex_codec (ex_moment 5 ex_hub) ex_search ex_policy ex_catalog = (Inr (ce_result ex_entry), c') \<and>
     Search ex_client ex_codec (ex_moment 20 hub_down) (ex_search\<lparr>sq_limit := 20\<rparr>) ex_policy c' =
       (Inr ((ce_result ex_entry)\<lparr>cr_hit := True, cr_stale := True\<rparr>), spawn_refresh (normalizeSearch ex_search) ex_policy c')"
proof -
  obtain fs where s: "Search ex_client ex_codec (ex_moment 5 ex_hub) ex_search ex_policy ex_catalog =
      (Inr (ce_result ex_entry), ex_catalog\<lparr>ct_fs := fs\<rparr>)" using ex_stored by blast
  have n: "normalizeSearch (ex_search\<lparr>sq_limit := 20\<rparr>) = normalizeSearch ex_search" by code_simp
  then have "same_search ex_search (ex_search\<lparr>sq_limit := 20\<rparr>)" by (simp add: same_search_def)
  moreover have "\<not> cr_hit (ce_result ex_entry)" "\<not> sq_refresh (ex_search\<lparr>sq_limit := 20\<rparr>)"
    by (simp_all add: ex_entry_def ex_search_def)
  moreover have "readable ex_client ex_codec (mo_io (ex_moment 20 hub_down)) (normalizeSearch (ex_search\<lparr>sq_limit := 20\<rparr>))"
    by (simp add: readable_def ex_moment_def)
  moreover have "temp_apart ex_client ex_codec (mo_io (ex_moment 5 ex_hub)) (normalizeSearch ex_search)"
    using ex_apart by (simp add: ex_moment_def)
  ultimately show ?thesis
    using s search_is_cached [OF ex_enabled(1) ex_codec_ok _ s] n by (auto simp: ex_moment_def ex_enabled)
qed

lemma reach_calls: "cat_init c \<Longrightarrow> reach cat_init (\<lambda>c c'. \<exists>call. c' = cat_step cl cd call c) (fold (cat_step cl cd) calls c)"
proof (induction calls rule: rev_induct)
  case Nil
  then show ?case by (simp add: reach_init)
next
  case (snoc call calls)
  from reach_step [OF snoc.IH [OF snoc.prems]] show ?case by auto
qed

text \<open>Two stale searches start two refreshes; the second finds the first running and gives up.\<close>

definition ex_calls :: "cat_call list" where
  "ex_calls =
     [CallSearch (ex_moment 5 ex_hub) ex_search ex_policy,
      CallSearch (ex_moment 20 hub_down) ex_search ex_policy,
      CallSearch (ex_moment 21 hub_down) ex_search ex_policy,
      CallBegin 1, CallBegin 0]"

definition ex_refreshing :: catalog where
  "ex_refreshing = fold (cat_step ex_client ex_codec) ex_calls ex_catalog"

lemma ex_refreshing_state:
  "map (\<lambda>(n, r, p). (n, r)) (ct_running ex_refreshing) = [(1, normalizeSearch ex_search)]" "ct_queue ex_refreshing = []"
  by code_simp+

lemma ex_reach: "reach cat_init (\<lambda>c c'. \<exists>call. c' = cat_step ex_client ex_codec call c) ex_refreshing"
  unfolding ex_refreshing_def by (rule reach_calls) (simp add: cat_init_def ex_catalog_def)

theorem one_refresh_per_entry_witness:
  "length (ct_running ex_refreshing) = 1 \<and> distinct (map (key_of ex_client ex_codec) (ct_running ex_refreshing)) \<and>
   ct_busy ex_refreshing \<noteq> []"
proof -
  have "length (ct_running ex_refreshing) = 1" using arg_cong [OF ex_refreshing_state(1), of length] by simp
  with one_refresh_per_entry [OF ex_reach] show ?thesis by (cases "ct_busy ex_refreshing") auto
qed

definition ex_in_flight :: catalog where
  "ex_in_flight =
     ex_catalog\<lparr>ct_running := [(0, normalizeSearch ex_search, ex_policy)],
       ct_busy := [cache_path ex_client ex_codec (normalizeSearch ex_search)], ct_next := 1\<rparr>"

theorem refresh_renews_entry_witness:
  "fst (Search ex_client ex_codec (ex_moment 9 hub_down) ex_search ex_policy
     (refresh_end ex_client ex_codec (ex_moment 5 ex_hub) 0 ex_in_flight)) =
       Inr ((ce_result ex_entry)\<lparr>cr_hit := True, cr_stale := False\<rparr>)"
proof -
  have sf: "single_flight ex_client ex_codec ex_in_flight"
    by (simp add: single_flight_def ex_in_flight_def ex_catalog_def key_of_def al_keys_def)
  have apart: "temp_apart ex_client ex_codec (mo_io (ex_moment 5 ex_hub)) (normalizeSearch ex_search)"
    using ex_apart by (simp add: ex_moment_def)
  have run: "map_of (ct_running ex_in_flight) 0 = Some (normalizeSearch ex_search, ex_policy)"
    by (simp add: ex_in_flight_def)
  have "\<not> isl (fst (fetchAndStore ex_client ex_codec (ex_moment 5 ex_hub) (normalizeSearch ex_search) ex_policy (ct_fs ex_in_flight)))"
    by code_simp
  then have f: "fst (fetchAndStore ex_client ex_codec (ex_moment 5 ex_hub) (normalizeSearch ex_search) ex_policy
      (ct_fs ex_in_flight)) = Inr (ce_result ex_entry)"
    using ex_fetch by (auto simp: fetchAndStore_def ex_moment_def split: sum.splits prod.splits option.splits)
  have "same_search ex_search ex_search" by (simp add: same_search_def)
  moreover have "\<not> sq_refresh ex_search" by (simp add: ex_search_def)
  moreover have "readable ex_client ex_codec (mo_io (ex_moment 9 hub_down)) (normalizeSearch ex_search)"
    by (simp add: readable_def ex_moment_def)
  moreover have "trim_space (sq_backend ex_search) \<noteq> []" by code_simp
  moreover have "mo_now (ex_moment 9 hub_down) - mo_now (ex_moment 5 ex_hub) \<le> cl_ttl ex_client"
    by (simp add: ex_moment_def ex_enabled)
  ultimately show ?thesis using refresh_renews_entry [OF sf ex_enabled(1) ex_codec_ok apart run f] by blast
qed

theorem fetched_catalog_is_usable_witness:
  "\<exists>r. fetch ex_client ex_hub (normalizeSearch ex_search) ex_policy = Inr r \<and> map cm_id (cr_models r) = [''o/r''] \<and>
     sorted (map (\<lambda>m. (- cm_downloads m, cm_id m)) (cr_models r))"
  using ex_fetch fetched_catalog_is_usable [OF ex_fetch] by (simp add: ex_entry_def)

end
