(* ===== verification/HostFit.thy ===== *)
theory HostFit
  imports Engines Catalog Manager
begin

text \<open>
  Fit seen from the control plane and the RPC service: \<^verbatim>\<open>core/control/fit.go\<close> (the host's resources for a
  backend, the estimate for a profile or a backend), \<^verbatim>\<open>core/rpc/fit.go\<close> (best variant, filter and order of
  a catalog) and the \<^verbatim>\<open>ListModelCatalog\<close> and \<^verbatim>\<open>EstimateFit\<close> handlers of \<^verbatim>\<open>core/rpc/control_service.go\<close>.
\<close>

section \<open>The control manager\<close>

record memory_stats =
  ms_total :: nat
  ms_available :: nat
  ms_used :: nat

text \<open>\<^verbatim>\<open>Signals\<close>: the telemetry collector's memory figures (unsigned), when there is a collector.\<close>

type_synonym collector = "(gerr + memory_stats) option"

definition mgr_Signals :: "collector \<Rightarrow> gerr + memory_stats" where
  "mgr_Signals sig =
     (case sig of
        None \<Rightarrow> Inl (Errorf ErrorInvalidInput ''signals are not configured'' [])
      | Some (Inl e) \<Rightarrow> Inl (CoreError ErrorRuntime (error_text e) (Some e))
      | Some (Inr m) \<Rightarrow> Inr m)"

definition mgr_HostResources :: "registry \<Rightarrow> collector \<Rightarrow> string \<Rightarrow> gerr + host_resources" where
  "mgr_HostResources reg sig name =
     (case mgr_Backend reg name of
        Inl e \<Rightarrow> Inl e
      | Inr b \<Rightarrow>
          (let host = (case b_host b of Some (h, _) \<Rightarrow> h | None \<Rightarrow> no_host)
           in case mgr_Signals sig of
                Inl _ \<Rightarrow> Inr host
              | Inr mem \<Rightarrow>
                  (let host = host\<lparr>hs_total_ram := wrap64 (int (ms_total mem)),
                                   hs_available_ram := wrap64 (int (ms_available mem))\<rparr>
                   in Inr (if hs_unified host \<and> hs_budget host \<le> 0
                           then host\<lparr>hs_budget := hs_available_ram host\<rparr> else host))))"

definition no_profile :: profile where
  "no_profile =
     \<lparr>p_version = YInt 0, p_name = [], p_backend = [], p_model = \<lparr>ms_source = [], ms_reference = []\<rparr>,
      p_listen = \<lparr>ls_host = [], ls_port = 0\<rparr>, p_engine_args = []\<rparr>"

definition estimate_for ::
    "registry \<Rightarrow> collector \<Rightarrow> profile \<Rightarrow> string \<Rightarrow> int \<Rightarrow> gerr + (fit_estimate \<times> host_resources)" where
  "estimate_for reg sig p name sz =
     (if name = [] then Inl (Errorf ErrorInvalidInput ''backend or profile is required'' [])
      else case mgr_Backend reg name of
        Inl e \<Rightarrow> Inl e
      | Inr b \<Rightarrow>
          (case mgr_HostResources reg sig name of
             Inl e \<Rightarrow> Inl e
           | Inr host \<Rightarrow>
               (case b_fit b p sz host of
                  Inl e \<Rightarrow> Inl (CoreError ErrorRuntime (error_text e) (Some e))
                | Inr est \<Rightarrow> Inr (est, host))))"

definition mgr_EstimateFit ::
    "deps \<Rightarrow> io_env \<Rightarrow> collector \<Rightarrow> string \<Rightarrow> string \<Rightarrow> int \<Rightarrow> world \<Rightarrow> gerr + (fit_estimate \<times> host_resources)" where
  "mgr_EstimateFit e io sig backend_name profile_name sz w =
     (if profile_name \<noteq> [] then
        (case profileBackend e io profile_name w of
           Inl er \<Rightarrow> Inl er
         | Inr (doc, b) \<Rightarrow> estimate_for (e_registry e) sig (d_effective doc) (b_name b) sz)
      else estimate_for (e_registry e) sig no_profile backend_name sz)"

section \<open>Messages\<close>

datatype pb_fit_level = FIT_UNSPECIFIED | FIT_UNKNOWN | FIT_FITS | FIT_MARGINAL | FIT_TOO_LARGE

record pb_fit =
  pf_level :: pb_fit_level
  pf_reason :: msg
  pf_required :: int
  pf_available :: int

record pb_variant =
  pv_name :: string
  pv_reference :: string
  pv_size :: int
  pv_multi_file :: bool
  pv_fit :: "pb_fit option"

record pb_model =
  pm_id :: string
  pm_url :: string
  pm_downloads :: int
  pm_likes :: int
  pm_last_modified :: string
  pm_tags :: "string list"
  pm_variants :: "pb_variant list"
  pm_best :: "pb_variant option"

record pb_machine =
  pc_total :: int
  pc_available :: int
  pc_accelerator :: string
  pc_unified :: bool
  pc_vram :: int

definition fitLevelProto :: "fit_level \<Rightarrow> pb_fit_level" where
  "fitLevelProto l =
     (case l of FitFits \<Rightarrow> FIT_FITS | FitMarginal \<Rightarrow> FIT_MARGINAL | FitTooLarge \<Rightarrow> FIT_TOO_LARGE | FitUnknown \<Rightarrow> FIT_UNKNOWN)"

definition fitProto :: "fit_estimate \<Rightarrow> pb_fit" where
  "fitProto e =
     \<lparr>pf_level = fitLevelProto (fe_level e), pf_reason = fe_reason e, pf_required = fe_required e,
      pf_available = fe_available e\<rparr>"

definition machineProto :: "host_resources \<Rightarrow> pb_machine" where
  "machineProto host =
     \<lparr>pc_total = max (hs_total_ram host) 0, pc_available = max (hs_available_ram host) 0,
      pc_accelerator = hs_accelerator host, pc_unified = hs_unified host, pc_vram = max (hs_vram host) 0\<rparr>"

definition catalogModelProto :: "cat_model \<Rightarrow> pb_model" where
  "catalogModelProto m =
     \<lparr>pm_id = cm_id m, pm_url = cm_url m, pm_downloads = cm_downloads m, pm_likes = cm_likes m,
      pm_last_modified = cm_last_modified m, pm_tags = cm_tags m,
      pm_variants = map (\<lambda>v. \<lparr>pv_name = vr_name v, pv_reference = vr_reference v, pv_size = vr_size v,
        pv_multi_file = vr_multi_file v, pv_fit = None\<rparr>) (cm_variants m),
      pm_best = None\<rparr>"

section \<open>Choosing, filtering, ordering\<close>

definition fitRank :: "pb_fit_level \<Rightarrow> nat" where
  "fitRank l = (case l of FIT_FITS \<Rightarrow> 3 | FIT_MARGINAL \<Rightarrow> 2 | FIT_TOO_LARGE \<Rightarrow> 1 | _ \<Rightarrow> 0)"

text \<open>The generated getters: an absent message reads as the zero value.\<close>

definition level_of :: "pb_variant \<Rightarrow> pb_fit_level" where
  "level_of v = (case pv_fit v of Some f \<Rightarrow> pf_level f | None \<Rightarrow> FIT_UNSPECIFIED)"

definition best_level :: "pb_model \<Rightarrow> pb_fit_level" where
  "best_level m = (case pm_best m of Some v \<Rightarrow> level_of v | None \<Rightarrow> FIT_UNSPECIFIED)"

definition larger :: "pb_variant option \<Rightarrow> pb_variant \<Rightarrow> pb_variant option" where
  "larger best v = (case best of None \<Rightarrow> Some v | Some b \<Rightarrow> if pv_size v > pv_size b then Some v else Some b)"

fun best_scan :: "pb_variant list \<Rightarrow> pb_variant option \<Rightarrow> pb_variant option \<Rightarrow> pb_variant option \<times> pb_variant option" where
  "best_scan [] best largest = (best, largest)"
| "best_scan (v # vs) best largest =
     (if fitRank (level_of v) < fitRank FIT_MARGINAL then best_scan vs best (larger largest v)
      else best_scan vs (larger best v) (larger largest v))"

definition bestVariant :: "pb_variant list \<Rightarrow> pb_variant option" where
  "bestVariant vs = (case best_scan vs None None of (Some b, _) \<Rightarrow> Some b | (None, largest) \<Rightarrow> largest)"

definition filterByFit :: "pb_fit_level \<Rightarrow> pb_model list \<Rightarrow> pb_model list" where
  "filterByFit minimum ms =
     (if minimum = FIT_UNSPECIFIED then ms
      else filter (\<lambda>m. fitRank minimum \<le> fitRank (best_level m)) ms)"

text \<open>A stable sort by a rank, best first; the timestamps are compared as texts.\<close>

fun insert_by :: "('a \<Rightarrow> 'a \<Rightarrow> bool) \<Rightarrow> 'a \<Rightarrow> 'a list \<Rightarrow> 'a list" where
  "insert_by before x [] = [x]"
| "insert_by before x (y # ys) = (if before y x then y # insert_by before x ys else x # y # ys)"

definition stable_sort :: "('a \<Rightarrow> 'a \<Rightarrow> bool) \<Rightarrow> 'a list \<Rightarrow> 'a list" where
  "stable_sort before xs = foldr (insert_by before) xs []"

definition catalogOrders :: "string \<Rightarrow> (pb_model \<Rightarrow> int) option" where
  "catalogOrders order =
     (if order = ''downloads'' then Some pm_downloads
      else if order = ''likes'' then Some pm_likes
      else if order = ''fit'' then Some (\<lambda>m. int (fitRank (best_level m)))
      else None)"

definition sortCatalog :: "string \<Rightarrow> pb_model list \<Rightarrow> pb_model list" where
  "sortCatalog order ms =
     (if order = ''modified'' then stable_sort (\<lambda>a b. pm_last_modified b < pm_last_modified a) ms
      else case catalogOrders order of
        None \<Rightarrow> ms
      | Some rank \<Rightarrow> stable_sort (\<lambda>a b. rank b < rank a) ms)"

section \<open>The best variant\<close>

definition fitting :: "pb_variant \<Rightarrow> bool" where
  "fitting v \<longleftrightarrow> fitRank FIT_MARGINAL \<le> fitRank (level_of v)"

definition largest_of :: "pb_variant list \<Rightarrow> pb_variant option \<Rightarrow> pb_variant option" where
  "largest_of vs b = foldl larger b vs"

lemma best_scan_eq: "best_scan vs best largest = (largest_of (filter fitting vs) best, largest_of vs largest)"
  by (induction vs best largest rule: best_scan.induct) (auto simp: largest_of_def fitting_def)

lemma larger_simps [simp]:
  "larger None v = Some v" "larger (Some b) v = (if pv_size b < pv_size v then Some v else Some b)"
  by (simp_all add: larger_def)

lemma foldl_larger_Some: "foldl larger (Some a) vs \<noteq> None"
  by (induction vs arbitrary: a) simp_all

lemma largest_of_total: "largest_of vs None = None \<longleftrightarrow> vs = []"
  using foldl_larger_Some by (cases vs) (simp_all add: largest_of_def)

lemma bestVariant_eq:
  "bestVariant vs = (if filter fitting vs = [] then largest_of vs None else largest_of (filter fitting vs) None)"
  using largest_of_total [of "filter fitting vs"]
  by (auto simp: bestVariant_def best_scan_eq split: option.splits)

lemma largest_of_max:
  assumes "foldl larger (Some a) vs = Some b"
  shows "b \<in> insert a (set vs) \<and> pv_size a \<le> pv_size b \<and> (\<forall>v\<in>set vs. pv_size v \<le> pv_size b)"
  using assms
proof (induction vs arbitrary: a)
  case (Cons v vs)
  show ?case
  proof (cases "pv_size v > pv_size a")
    case True
    then have "foldl larger (Some v) vs = Some b" using Cons.prems by simp
    from Cons.IH [OF this] True show ?thesis by auto
  next
    case False
    then have "foldl larger (Some a) vs = Some b" using Cons.prems by simp
    from Cons.IH [OF this] False show ?thesis by auto
  qed
qed simp

lemma largest_of_spec:
  "largest_of vs None = Some b \<Longrightarrow> b \<in> set vs \<and> (\<forall>v\<in>set vs. pv_size v \<le> pv_size b)"
  by (cases vs) (auto simp: largest_of_def dest: largest_of_max)

lemma bestVariant_mem: "bestVariant vs = Some b \<Longrightarrow> b \<in> set vs"
proof (cases "filter fitting vs = []")
  case True
  then show "bestVariant vs = Some b \<Longrightarrow> b \<in> set vs" using largest_of_spec [of vs b] by (simp add: bestVariant_eq)
next
  case False
  then show "bestVariant vs = Some b \<Longrightarrow> b \<in> set vs"
    using largest_of_spec [of "filter fitting vs" b] by (simp add: bestVariant_eq)
qed

text \<open>
  The variant offered is the best one. There is one whenever there is any variant; it fits, at least
  marginally, whenever some variant does, and then no variant that fits is larger; when none fits it
  is a largest of all.
\<close>

theorem best_variant_is_best:
  "(bestVariant vs = None \<longleftrightarrow> vs = []) \<and>
   (\<forall>b. bestVariant vs = Some b \<longrightarrow>
      b \<in> set vs \<and> (fitting b \<longleftrightarrow> (\<exists>v\<in>set vs. fitting v)) \<and>
      (\<forall>v\<in>set vs. (fitting v \<or> \<not> fitting b) \<longrightarrow> pv_size v \<le> pv_size b))"
proof (cases "filter fitting vs = []")
  case True
  then have none: "\<forall>v\<in>set vs. \<not> fitting v" by (simp add: filter_empty_conv)
  have "bestVariant vs = largest_of vs None" using True by (simp add: bestVariant_eq)
  then show ?thesis using none largest_of_total [of vs] largest_of_spec [of vs] by metis
next
  case False
  then obtain v where v: "v \<in> set vs" "fitting v" by (auto simp: filter_empty_conv)
  have b: "bestVariant vs = largest_of (filter fitting vs) None" using False by (simp add: bestVariant_eq)
  have "b \<in> set vs \<and> fitting b \<and> (\<forall>v\<in>set vs. fitting v \<longrightarrow> pv_size v \<le> pv_size b)" if "bestVariant vs = Some b" for b
    using largest_of_spec [of "filter fitting vs" b] that b by simp
  moreover have "bestVariant vs \<noteq> None" "vs \<noteq> []" using b False largest_of_total [of "filter fitting vs"] v by auto
  ultimately show ?thesis using v by metis
qed

section \<open>The order of a catalog\<close>

lemma insert_by_mset [simp]: "mset (insert_by before x ys) = add_mset x (mset ys)"
  by (induction ys) simp_all

lemma stable_sort_mset [simp]: "mset (stable_sort before xs) = mset xs"
  unfolding stable_sort_def by (induction xs) simp_all

lemma insert_by_key:
  "insert_by (\<lambda>a b. f b < f a) x ys = insort_key (\<lambda>a. - f a) x ys" for f :: "'a \<Rightarrow> int"
  by (induction ys) (auto simp: not_less)

lemma stable_sort_key: "stable_sort (\<lambda>a b. f b < f a) xs = sort_key (\<lambda>a. - f a) xs" for f :: "'a \<Rightarrow> int"
  unfolding stable_sort_def sort_key_def by (induction xs) (simp_all add: insert_by_key)

lemma insert_by_sorted:
  fixes f :: "'a \<Rightarrow> 'b::linorder"
  assumes "sorted_wrt (\<lambda>a b. f b \<le> f a) ys"
  shows "sorted_wrt (\<lambda>a b. f b \<le> f a) (insert_by (\<lambda>a b. f b < f a) x ys)"
  using assms
proof (induction ys)
  case (Cons y ys)
  have s: "set (insert_by (\<lambda>a b. f b < f a) x ys) = insert x (set ys)"
    by (metis insert_by_mset set_mset_add_mset_insert set_mset_mset)
  show ?case
  proof (cases "f x < f y")
    case True
    with Cons s show ?thesis by auto
  next
    case False
    with Cons.prems show ?thesis by (auto intro: order_trans)
  qed
qed simp

lemma stable_sort_sorted:
  "sorted_wrt (\<lambda>a b. f b \<le> f a) (stable_sort (\<lambda>a b. f b < f a) xs)" for f :: "'a \<Rightarrow> 'b::linorder"
  unfolding stable_sort_def by (induction xs) (simp_all add: insert_by_sorted)

lemma insert_by_filter:
  fixes f :: "'a \<Rightarrow> 'b::linorder"
  shows "filter (\<lambda>m. f m = k) (insert_by (\<lambda>a b. f b < f a) x ys) = filter (\<lambda>m. f m = k) (x # ys)"
  by (induction ys) auto

text \<open>Models of the same rank keep the order they had.\<close>

lemma stable_sort_stable:
  fixes f :: "'a \<Rightarrow> 'b::linorder"
  shows "filter (\<lambda>m. f m = k) (stable_sort (\<lambda>a b. f b < f a) xs) = filter (\<lambda>m. f m = k) xs"
proof (induction xs)
  case (Cons x xs)
  have "stable_sort (\<lambda>a b. f b < f a) (x # xs) = insert_by (\<lambda>a b. f b < f a) x (stable_sort (\<lambda>a b. f b < f a) xs)"
    by (simp add: stable_sort_def)
  then show ?case using Cons insert_by_filter [of f k x] by simp
qed (simp add: stable_sort_def)

text \<open>
  Ordering a catalog loses nothing. Whatever order is asked for, known or not, the models returned are
  those given; by a known key they come best first; and models equal under the key keep their order.
\<close>

theorem ordered_catalog_is_stable:
  "mset (sortCatalog order ms) = mset ms \<and>
   (order = ''modified'' \<longrightarrow>
      sorted_wrt (\<lambda>a b. pm_last_modified b \<le> pm_last_modified a) (sortCatalog order ms) \<and>
      (\<forall>t. filter (\<lambda>m. pm_last_modified m = t) (sortCatalog order ms) = filter (\<lambda>m. pm_last_modified m = t) ms)) \<and>
   (\<forall>rank. order \<noteq> ''modified'' \<and> catalogOrders order = Some rank \<longrightarrow>
      sorted_wrt (\<lambda>a b. rank b \<le> rank a) (sortCatalog order ms) \<and>
      (\<forall>r. filter (\<lambda>m. rank m = r) (sortCatalog order ms) = filter (\<lambda>m. rank m = r) ms))"
  by (auto simp: sortCatalog_def stable_sort_sorted stable_sort_stable split: option.splits)

section \<open>Examples\<close>

definition ex_pb_variant :: "string \<Rightarrow> int \<Rightarrow> pb_fit_level \<Rightarrow> pb_variant" where
  "ex_pb_variant name sz l =
     \<lparr>pv_name = name, pv_reference = name, pv_size = sz, pv_multi_file = False,
      pv_fit = Some \<lparr>pf_level = l, pf_reason = Str [], pf_required = sz, pf_available = 10\<rparr>\<rparr>"

definition ex_variants :: "pb_variant list" where
  "ex_variants =
     [ex_pb_variant ''q4'' 4 FIT_FITS, ex_pb_variant ''q8'' 8 FIT_MARGINAL, ex_pb_variant ''f16'' 16 FIT_TOO_LARGE,
      ex_pb_variant ''q8b'' 8 FIT_FITS]"

theorem best_variant_is_best_witness:
  "bestVariant ex_variants = Some (ex_pb_variant ''q8'' 8 FIT_MARGINAL) \<and>
   (\<forall>v\<in>set ex_variants. fitting v \<longrightarrow> pv_size v \<le> 8)"
proof -
  have b: "bestVariant ex_variants = Some (ex_pb_variant ''q8'' 8 FIT_MARGINAL)" by code_simp
  moreover have "\<forall>v\<in>set ex_variants. fitting v \<longrightarrow> pv_size v \<le> pv_size (ex_pb_variant ''q8'' 8 FIT_MARGINAL)"
    using best_variant_is_best [of ex_variants] b by blast
  ultimately show ?thesis by (simp add: ex_pb_variant_def)
qed

definition ex_pb_model :: "string \<Rightarrow> int \<Rightarrow> pb_model" where
  "ex_pb_model name n =
     \<lparr>pm_id = name, pm_url = [], pm_downloads = n, pm_likes = 0, pm_last_modified = name, pm_tags = [],
      pm_variants = [], pm_best = None\<rparr>"

theorem ordered_catalog_is_stable_witness:
  "map pm_id (sortCatalog ''downloads'' [ex_pb_model ''a'' 1, ex_pb_model ''b'' 5, ex_pb_model ''c'' 1]) = [''b'', ''a'', ''c''] \<and>
   sorted_wrt (\<lambda>a b. pm_downloads b \<le> pm_downloads a)
     (sortCatalog ''downloads'' [ex_pb_model ''a'' 1, ex_pb_model ''b'' 5, ex_pb_model ''c'' 1])"
proof -
  let ?ms = "[ex_pb_model ''a'' 1, ex_pb_model ''b'' 5, ex_pb_model ''c'' 1]"
  have "map pm_id (sortCatalog ''downloads'' ?ms) = [''b'', ''a'', ''c'']" by code_simp
  then show ?thesis using ordered_catalog_is_stable [of "''downloads''" ?ms] by (simp add: catalogOrders_def)
qed

end
