(* ===== verification/Rpc.thy ===== *)
theory Rpc
  imports HostFit Handlers
begin

text \<open>
  The RPC service, \<^verbatim>\<open>core/rpc\<close>: the error taxonomy on the wire (\<^verbatim>\<open>errors.go\<close>), engine arguments as
  JSON values and back (\<^verbatim>\<open>engine_args.go\<close>), the messages (\<^verbatim>\<open>proto_mappers.go\<close>), and the handlers of
  \<^verbatim>\<open>control_service.go\<close>, each a check of its required fields, a call of the control manager, and the
  mapping of its answer. A handler returns the connect error or the message; Go's \<^verbatim>\<open>ok: true\<close> is the right
  summand. Streaming handlers and the generated code are not modelled.
\<close>

section \<open>Errors on the wire\<close>

datatype connect_code =
    CodeInvalidArgument | CodePermissionDenied | CodeNotFound | CodeFailedPrecondition
  | CodeDeadlineExceeded | CodeInternal | CodeUnknown | CodeUnavailable

text \<open>A connect error: its code, the error-kind header when one was set, and the error it carries.\<close>

record connect_error =
  cx_code :: connect_code
  cx_kind :: string
  cx_error :: gerr

definition kind_text :: "error_kind \<Rightarrow> string" where
  "kind_text k =
     (case k of
        ErrorInvalidInput \<Rightarrow> ''invalid_input'' | ErrorNotFound \<Rightarrow> ''not_found'' | ErrorConflict \<Rightarrow> ''conflict''
      | ErrorRuntime \<Rightarrow> ''runtime_error'' | ErrorTimeout \<Rightarrow> ''timeout'' | ErrorPermission \<Rightarrow> ''permission''
      | ErrorInternal \<Rightarrow> ''internal'')"

definition errorKindCodes :: "(error_kind \<times> connect_code) list" where
  "errorKindCodes =
     [(ErrorInvalidInput, CodeInvalidArgument), (ErrorPermission, CodePermissionDenied),
      (ErrorNotFound, CodeNotFound), (ErrorConflict, CodeFailedPrecondition),
      (ErrorTimeout, CodeDeadlineExceeded), (ErrorRuntime, CodeInternal)]"

definition rpcError :: "gerr \<Rightarrow> connect_error" where
  "rpcError e =
     (let kind = Kind (Some e)
      in \<lparr>cx_code = (case kind of
            None \<Rightarrow> CodeUnknown
          | Some k \<Rightarrow> (case map_of errorKindCodes k of Some c \<Rightarrow> c | None \<Rightarrow> CodeUnknown)),
          cx_kind = (case kind of None \<Rightarrow> [] | Some k \<Rightarrow> kind_text k),
          cx_error = e\<rparr>)"

definition requireField :: "string \<Rightarrow> string \<Rightarrow> connect_error option" where
  "requireField v field =
     (if v = [] then Some (rpcError (Errorf ErrorInvalidInput ''%s is required'' [Str field])) else None)"

text \<open>On the client: a connect error, or any other error of the call.\<close>

definition ErrorKindFromRPC :: "gerr + connect_error \<Rightarrow> string" where
  "ErrorKindFromRPC err =
     (case err of
        Inl e \<Rightarrow> (case Kind (Some e) of None \<Rightarrow> [] | Some k \<Rightarrow> kind_text k)
      | Inr c \<Rightarrow>
          if cx_kind c \<noteq> [] then cx_kind c
          else (case map_of (map (\<lambda>(k, code). (code, k)) errorKindCodes) (cx_code c) of
              Some k \<Rightarrow> kind_text k
            | None \<Rightarrow> kind_text ErrorRuntime))"

definition reply :: "('a \<Rightarrow> 'b) \<Rightarrow> gerr + 'a \<Rightarrow> connect_error + 'b" where
  "reply f r = (case r of Inl e \<Rightarrow> Inl (rpcError e) | Inr x \<Rightarrow> Inr (f x))"

section \<open>Engine arguments\<close>

text \<open>
  A \<^verbatim>\<open>structpb\<close> value has only \<^verbatim>\<open>float64\<close> numbers: \<open>PWhole\<close> is one with an integral value, \<open>PNum\<close> any
  other, under its shortest text. A nested mapping stays opaque.
\<close>

datatype pval = PNull | PBool bool | PWhole int | PNum string | PStr string | PList "pval list" | POther string

text \<open>The integer a decimal text denotes, if it denotes one.\<close>

definition text_whole :: "string \<Rightarrow> int option" where
  "text_whole s =
     (let neg = has_prefix s ''-'';
          (m, ex, exponent) = cut (CHR ''e'') (if neg then tl s else s);
          (ip, fp, _) = cut (CHR ''.'') m
      in case (digits_value 0 (ip @ fp), if exponent then atoi ex else Some 0) of
           (Some d, Some k) \<Rightarrow>
             (let shift = k - int (length fp);
                  n = (if 0 \<le> shift then Some (d * 10 ^ nat shift)
                       else if d mod 10 ^ nat (- shift) = 0 then Some (d div 10 ^ nat (- shift)) else None)
              in map_option (\<lambda>n. if neg then - int n else int n) n)
         | _ \<Rightarrow> None)"

definition to_float :: "int \<Rightarrow> int" where
  "to_float n = (if n < 0 then - int (round53 (nat (- n))) else int (round53 (nat n)))"

fun normalizeEngineValue :: "yval \<Rightarrow> pval" where
  "normalizeEngineValue YNull = PNull"
| "normalizeEngineValue (YBool b) = PBool b"
| "normalizeEngineValue (YInt n) = PWhole (to_float n)"
| "normalizeEngineValue (YFloat t) = (case text_whole t of Some n \<Rightarrow> PWhole (to_float n) | None \<Rightarrow> PNum t)"
| "normalizeEngineValue (YStr s) = PStr s"
| "normalizeEngineValue (YList vs) = PList (map normalizeEngineValue vs)"
| "normalizeEngineValue (YOther s) = POther s"

definition normalizeEngineArgs :: "(string \<times> yval) list \<Rightarrow> (string \<times> pval) list" where
  "normalizeEngineArgs args = map (\<lambda>(k, v). (k, normalizeEngineValue v)) args"

text \<open>\<open>ft\<close> prints an integral \<^verbatim>\<open>float64\<close> too large for an \<^verbatim>\<open>int64\<close>.\<close>

fun demoteWholeFloats :: "(int \<Rightarrow> string) \<Rightarrow> pval \<Rightarrow> yval" where
  "demoteWholeFloats ft PNull = YNull"
| "demoteWholeFloats ft (PBool b) = YBool b"
| "demoteWholeFloats ft (PWhole n) = (if \<bar>n\<bar> < 2 ^ 63 then YInt n else YFloat (ft n))"
| "demoteWholeFloats ft (PNum t) = YFloat t"
| "demoteWholeFloats ft (PStr s) = YStr s"
| "demoteWholeFloats ft (PList vs) = YList (map (demoteWholeFloats ft) vs)"
| "demoteWholeFloats ft (POther s) = YOther s"

section \<open>Messages\<close>

definition wrap32 :: "int \<Rightarrow> int" where
  "wrap32 v = (v + 2 ^ 31) mod 2 ^ 32 - 2 ^ 31"

record pb_profile =
  pp_name :: string
  pp_backend :: string
  pp_yaml :: string
  pp_source :: string
  pp_reference :: string
  pp_host :: string
  pp_port :: int
  pp_args :: "(string \<times> pval) list option"

definition profileProto :: "profile_doc \<Rightarrow> pb_profile" where
  "profileProto doc =
     (let p = d_effective doc
      in \<lparr>pp_name = d_name doc, pp_backend = p_backend p, pp_yaml = d_yaml doc,
          pp_source = ms_source (p_model p), pp_reference = ms_reference (p_model p),
          pp_host = ls_host (p_listen p), pp_port = wrap32 (ls_port (p_listen p)),
          pp_args = Some (normalizeEngineArgs (p_engine_args p))\<rparr>)"

definition structured_profile :: "(int \<Rightarrow> string) \<Rightarrow> string \<Rightarrow> pb_profile \<Rightarrow> profile" where
  "structured_profile ft name m =
     \<lparr>p_version = YInt 1, p_name = name, p_backend = pp_backend m,
      p_model = \<lparr>ms_source = pp_source m, ms_reference = pp_reference m\<rparr>,
      p_listen = \<lparr>ls_host = pp_host m, ls_port = pp_port m\<rparr>,
      p_engine_args = (case pp_args m of None \<Rightarrow> [] | Some args \<Rightarrow> map (\<lambda>(k, v). (k, demoteWholeFloats ft v)) args)\<rparr>"

text \<open>\<open>marshal\<close> is \<^verbatim>\<open>yaml.Marshal\<close>.\<close>

definition renderProfileYAML ::
    "(int \<Rightarrow> string) \<Rightarrow> (profile \<Rightarrow> gerr + string) \<Rightarrow> string \<Rightarrow> pb_profile \<Rightarrow> gerr + string" where
  "renderProfileYAML ft marshal name m =
     (case marshal (structured_profile ft name m) of
        Inl e \<Rightarrow> Inl (Errorf ErrorInvalidInput ''render profile: %v'' [error_text e])
      | Inr text' \<Rightarrow> Inr text')"

record pb_command =
  pd_action :: string
  pd_exit :: int
  pd_stdout :: string
  pd_stderr :: msg

definition commandResultProto :: "command_result \<Rightarrow> pb_command" where
  "commandResultProto r =
     \<lparr>pd_action = cr_action r, pd_exit = wrap32 (cr_exit r), pd_stdout = cr_stdout r, pd_stderr = cr_stderr r\<rparr>"

record pb_process =
  pq_name :: string
  pq_state :: rt_state
  pq_pid :: int
  pq_host :: string
  pq_port :: int
  pq_ready :: bool
  pq_last_error :: "msg option"

record pb_status =
  pt_state :: rt_state
  pt_detail :: msg
  pt_processes :: "pb_process list"

definition processProto :: "process_status \<Rightarrow> pb_process" where
  "processProto p =
     \<lparr>pq_name = st_name p, pq_state = st_state p, pq_pid = wrap32 (int (st_pid p)), pq_host = st_host p,
      pq_port = wrap32 (st_port p), pq_ready = st_ready p, pq_last_error = st_last_error p\<rparr>"

definition statusProto :: "runtime_status \<Rightarrow> pb_status" where
  "statusProto s =
     \<lparr>pt_state = rs_state s, pt_detail = rs_detail s,
      pt_processes = (case rs_process s of None \<Rightarrow> [] | Some p \<Rightarrow> [processProto p])\<rparr>"

record pb_download =
  pj_id :: string
  pj_state :: job_state
  pj_multi_file :: bool
  pj_target :: string
  pj_items :: int
  pj_received :: int
  pj_total :: int
  pj_error :: "msg option"
  pj_backend :: string
  pj_profile :: string

definition downloadProto :: "job \<Rightarrow> pb_download" where
  "downloadProto j =
     \<lparr>pj_id = j_id j, pj_state = j_state j, pj_multi_file = j_multi_file j, pj_target = j_target j,
      pj_items = wrap32 (int (j_items j)), pj_received = j_received j, pj_total = j_total j, pj_error = j_error j,
      pj_backend = j_backend j, pj_profile = j_profile j\<rparr>"

record pb_resolved =
  pr_source :: string
  pr_reference :: string
  pr_multi_file :: bool
  pr_artifacts :: "(string \<times> string \<times> int) list"

definition resolvedProto :: "resolved_model \<Rightarrow> pb_resolved" where
  "resolvedProto m =
     \<lparr>pr_source = rm_source m, pr_reference = rm_reference m, pr_multi_file = rm_multi_file m,
      pr_artifacts = map (\<lambda>a. (ar_name a, ar_uri a, ar_size a)) (rm_artifacts m)\<rparr>"

record pb_plan =
  pn_multi_file :: bool
  pn_root :: string
  pn_items :: "(string \<times> string \<times> string \<times> int) list"
  pn_total :: int

definition planProto :: "artifact_plan \<Rightarrow> pb_plan" where
  "planProto p =
     \<lparr>pn_multi_file = ap_multi_file p, pn_root = ap_target_root p,
      pn_items = map (\<lambda>i. (ai_uri i, ai_filename i, ai_target_path i, ai_size i)) (ap_items p),
      pn_total = ap_total_bytes p\<rparr>"

section \<open>Profiles\<close>

definition rpc_ListProfiles :: "deps \<Rightarrow> io_env \<Rightarrow> world \<Rightarrow> connect_error + pb_profile list" where
  "rpc_ListProfiles e io w = reply (map profileProto) (ListProfileDocuments e io w)"

definition rpc_GetProfile :: "deps \<Rightarrow> io_env \<Rightarrow> string \<Rightarrow> world \<Rightarrow> connect_error + pb_profile" where
  "rpc_GetProfile e io name w =
     (case requireField name ''profile name'' of
        Some c \<Rightarrow> Inl c | None \<Rightarrow> reply profileProto (GetProfile e io name w))"

text \<open>What a manager operation that returns a document beside its error replies.\<close>

definition reply_doc :: "profile_doc option \<times> gerr option \<Rightarrow> connect_error + pb_profile option" where
  "reply_doc r = (case r of (doc, Some er) \<Rightarrow> Inl (rpcError er) | (doc, None) \<Rightarrow> Inr (map_option profileProto doc))"

definition reply_done :: "gerr option \<Rightarrow> connect_error + unit" where
  "reply_done r = (case r of Some er \<Rightarrow> Inl (rpcError er) | None \<Rightarrow> Inr ())"

record put_profile_request =
  pu_name :: string
  pu_yaml :: string
  pu_profile :: "pb_profile option"
  pu_create_only :: bool

text \<open>The YAML of the request, or of the structured profile when there is none.\<close>

definition request_yaml ::
    "(int \<Rightarrow> string) \<Rightarrow> (profile \<Rightarrow> gerr + string) \<Rightarrow> put_profile_request \<Rightarrow> gerr + string" where
  "request_yaml ft marshal req =
     (case (pu_yaml req, pu_profile req) of
        ([], Some m) \<Rightarrow> renderProfileYAML ft marshal (pu_name req) m
      | _ \<Rightarrow> Inr (pu_yaml req))"

definition rpc_PutProfile ::
    "deps \<Rightarrow> (int \<Rightarrow> string) \<Rightarrow> (profile \<Rightarrow> gerr + string) \<Rightarrow> answers \<Rightarrow> put_profile_request \<Rightarrow> world \<Rightarrow>
     (connect_error + pb_profile option) \<times> world" where
  "rpc_PutProfile e ft marshal an req w =
     (case requireField (pu_name req) ''profile name'' of
        Some c \<Rightarrow> (Inl c, w)
      | None \<Rightarrow>
          (case request_yaml ft marshal req of
             Inl er \<Rightarrow> (Inl (rpcError er), w)
           | Inr yaml \<Rightarrow>
               if yaml = [] then
                 (Inl (rpcError (Errorf ErrorInvalidInput ''profile YAML or structured profile is required'' [])), w)
               else
                 (case PutProfile e an (pu_name req) yaml (pu_create_only req) w of
                    (r, w') \<Rightarrow> (reply_doc r, w'))))"

definition rpc_DeleteProfile :: "deps \<Rightarrow> answers \<Rightarrow> string \<Rightarrow> world \<Rightarrow> (connect_error + unit) \<times> world" where
  "rpc_DeleteProfile e an name w =
     (case requireField name ''profile name'' of
        Some c \<Rightarrow> (Inl c, w)
      | None \<Rightarrow> (case DeleteProfile e an name w of (er, w') \<Rightarrow> (reply_done er, w')))"

definition rpc_CleanupProfile :: "deps \<Rightarrow> answers \<Rightarrow> string \<Rightarrow> world \<Rightarrow> (connect_error + unit) \<times> world" where
  "rpc_CleanupProfile e an name w =
     (case requireField name ''profile name'' of
        Some c \<Rightarrow> (Inl c, w)
      | None \<Rightarrow> (case CleanupProfile e an name w of (er, w') \<Rightarrow> (reply_done er, w')))"

definition rpc_SetProfileAutostart ::
    "deps \<Rightarrow> io_env \<Rightarrow> string \<Rightarrow> bool \<Rightarrow> world \<Rightarrow> (connect_error + unit) \<times> world" where
  "rpc_SetProfileAutostart e io name enabled w =
     (case requireField name ''profile name'' of
        Some c \<Rightarrow> (Inl c, w)
      | None \<Rightarrow> (case mgr_SetProfileAutostart e io name enabled w of (r, w') \<Rightarrow> (reply (\<lambda>_. ()) r, w')))"

definition rpc_SetStartupServices :: "deps \<Rightarrow> io_env \<Rightarrow> string list \<Rightarrow> world \<Rightarrow> (connect_error + unit) \<times> world" where
  "rpc_SetStartupServices e io services w =
     (case mgr_SetStartupServices e io services w of (r, w') \<Rightarrow> (reply (\<lambda>_. ()) r, w'))"

section \<open>Runtimes\<close>

text \<open>An action on one profile's runtime, and the status after it.\<close>

definition runtimeAction ::
    "deps \<Rightarrow> io_env \<Rightarrow> string \<Rightarrow> (string \<Rightarrow> world \<Rightarrow> (gerr option \<times> command_result) \<times> world) \<Rightarrow> world \<Rightarrow>
     (connect_error + (pb_command \<times> pb_status)) \<times> world" where
  "runtimeAction e io name action w =
     (case requireField name ''profile'' of
        Some c \<Rightarrow> (Inl c, w)
      | None \<Rightarrow>
          (case action name w of
             ((Some er, _), w1) \<Rightarrow> (Inl (rpcError er), w1)
           | ((None, result), w1) \<Rightarrow>
               (case RuntimeStatus e io name w1 of
                  (r, w2) \<Rightarrow> (reply (\<lambda>s. (commandResultProto result, statusProto s)) r, w2))))"

definition rpc_StartRuntime ::
    "deps \<Rightarrow> answers \<Rightarrow> string \<Rightarrow> bool \<Rightarrow> world \<Rightarrow> (connect_error + (pb_command \<times> pb_status)) \<times> world" where
  "rpc_StartRuntime e an name replace w =
     runtimeAction e (an_io an) name (\<lambda>n. StartRuntime e an n replace) w"

definition rpc_StopRuntime ::
    "deps \<Rightarrow> answers \<Rightarrow> string \<Rightarrow> world \<Rightarrow> (connect_error + (pb_command \<times> pb_status)) \<times> world" where
  "rpc_StopRuntime e an name w = runtimeAction e (an_io an) name (StopRuntime e an) w"

definition rpc_ResetRuntimes :: "answers \<Rightarrow> world \<Rightarrow> (connect_error + pb_command) \<times> world" where
  "rpc_ResetRuntimes an w =
     (case ResetRuntimes an w of
        ((Some er, _), w') \<Rightarrow> (Inl (rpcError er), w')
      | ((None, r), w') \<Rightarrow> (Inr (commandResultProto r), w'))"

definition rpc_RestartRuntime ::
    "deps \<Rightarrow> answers \<Rightarrow> string \<Rightarrow> world \<Rightarrow> (connect_error + (pb_command \<times> pb_command) option \<times> pb_status) \<times> world" where
  "rpc_RestartRuntime e an name w =
     (case requireField name ''profile'' of
        Some c \<Rightarrow> (Inl c, w)
      | None \<Rightarrow>
          (case RestartRuntime e an name w of
             ((Some er, _), w1) \<Rightarrow> (Inl (rpcError er), w1)
           | ((None, rs), w1) \<Rightarrow>
               (case RuntimeStatus e (an_io an) name w1 of
                  (r, w2) \<Rightarrow>
                    (reply (\<lambda>s. (map_option (\<lambda>(d, u). (commandResultProto d, commandResultProto u)) rs, statusProto s)) r, w2))))"

record pb_profile_status =
  ps_name' :: string
  ps_backend' :: string
  ps_status' :: pb_status

text \<open>Every profile's status in turn; one that cannot be read is left out.\<close>

fun status_each ::
    "deps \<Rightarrow> io_env \<Rightarrow> profile_doc list \<Rightarrow> world \<Rightarrow> (pb_profile_status list \<times> bool) \<times> world" where
  "status_each e io [] w = (([], False), w)"
| "status_each e io (doc # docs) w =
     (case RuntimeStatus e io (d_name doc) w of
        (Inl _, w1) \<Rightarrow> status_each e io docs w1
      | (Inr s, w1) \<Rightarrow>
          (case status_each e io docs w1 of
             ((all, running), w2) \<Rightarrow>
               ((\<lparr>ps_name' = d_name doc, ps_backend' = p_backend (d_effective doc), ps_status' = statusProto s\<rparr> # all,
                 running \<or> rs_state s = Running), w2)))"

definition rpc_GetRuntimeStatus ::
    "deps \<Rightarrow> io_env \<Rightarrow> string \<Rightarrow> world \<Rightarrow> (connect_error + (pb_status \<times> pb_profile_status list)) \<times> world" where
  "rpc_GetRuntimeStatus e io name w =
     (if name \<noteq> [] then
        (case RuntimeStatus e io name w of (r, w') \<Rightarrow> (reply (\<lambda>s. (statusProto s, [])) r, w'))
      else case ListProfileDocuments e io w of
        Inl er \<Rightarrow> (Inl (rpcError er), w)
      | Inr docs \<Rightarrow>
          (case status_each e io docs w of
             ((all, running), w') \<Rightarrow>
               (Inr (\<lparr>pt_state = (if running then Running else Stopped), pt_detail = Str [],
                      pt_processes = concat (map (pt_processes \<circ> ps_status') all)\<rparr>, all), w')))"

section \<open>Models and downloads\<close>

definition rpc_ResolveProfileModel ::
    "deps \<Rightarrow> io_env \<Rightarrow> string \<Rightarrow> world \<Rightarrow> connect_error + (pb_resolved \<times> pb_plan)" where
  "rpc_ResolveProfileModel e io name w =
     (case requireField name ''profile'' of
        Some c \<Rightarrow> Inl c
      | None \<Rightarrow> reply (\<lambda>(m, plan). (resolvedProto m, planProto plan)) (ResolveProfileModel e io name w))"

definition rpc_ResolveModel :: "deps \<Rightarrow> string \<Rightarrow> string \<Rightarrow> string \<Rightarrow> connect_error + (pb_resolved \<times> pb_plan)" where
  "rpc_ResolveModel e backend_name reference variant =
     reply (\<lambda>(m, plan). (resolvedProto m, planProto plan)) (ResolveModel e backend_name reference variant)"

record download_request =
  dr_profile :: string
  dr_backend :: string
  dr_reference :: string
  dr_variant :: string
  dr_force :: bool

definition rpc_StartModelDownload ::
    "deps \<Rightarrow> io_env \<Rightarrow> string \<Rightarrow> download_request \<Rightarrow> world \<Rightarrow> (connect_error + pb_download) \<times> world" where
  "rpc_StartModelDownload e io jid req w =
     (case (if dr_profile req = []
            then StartCatalogDownload e io jid (dr_backend req) (dr_reference req) (dr_variant req) (dr_force req) w
            else StartDownload e io jid (dr_profile req) (dr_force req) w) of
        (r, w') \<Rightarrow> (reply downloadProto r, w'))"

definition rpc_GetModelDownload :: "deps \<Rightarrow> string \<Rightarrow> world \<Rightarrow> connect_error + pb_download" where
  "rpc_GetModelDownload e jid w =
     (case requireField jid ''download ID'' of
        Some c \<Rightarrow> Inl c | None \<Rightarrow> reply downloadProto (GetDownload e jid w))"

definition rpc_CancelModelDownload :: "deps \<Rightarrow> string \<Rightarrow> world \<Rightarrow> (connect_error + pb_download) \<times> world" where
  "rpc_CancelModelDownload e jid w =
     (case requireField jid ''download ID'' of
        Some c \<Rightarrow> (Inl c, w)
      | None \<Rightarrow> (case CancelDownload e jid w of (r, w') \<Rightarrow> (reply downloadProto r, w')))"

record apply_request =
  ap_profile' :: string
  ap_id' :: string
  ap_preview' :: bool

text \<open>Either the preview's two texts, or the profile written.\<close>

definition rpc_ApplyDownloadToProfile ::
    "deps \<Rightarrow> (string \<Rightarrow> profile \<Rightarrow> gerr + string) \<Rightarrow> answers \<Rightarrow> apply_request \<Rightarrow> world \<Rightarrow>
     (connect_error + ((string \<times> string) + pb_profile option)) \<times> world" where
  "rpc_ApplyDownloadToProfile e merge_yaml an req w =
     (if ap_profile' req = [] \<or> ap_id' req = [] then
        (Inl (rpcError (Errorf ErrorInvalidInput ''profile and download ID are required'' [])), w)
      else if ap_preview' req then
        (reply Inl (PreviewDownloadApply e merge_yaml (an_io an) (ap_profile' req) (ap_id' req) w), w)
      else
        (case ApplyDownloadToProfile e merge_yaml an (ap_profile' req) (ap_id' req) w of
           (r, w') \<Rightarrow> (case reply_doc r of Inl c \<Rightarrow> Inl c | Inr doc \<Rightarrow> Inr (Inr doc), w')))"

record pb_local_model =
  pl_path :: string
  pl_filename :: string
  pl_size :: nat
  pl_used_by :: "string list"

fun local_each :: "deps \<Rightarrow> io_env \<Rightarrow> local_model list \<Rightarrow> world \<Rightarrow> connect_error + pb_local_model list" where
  "local_each e io [] w = Inr []"
| "local_each e io (item # items) w =
     (case ProfilesUsingModel e io (lm_path item) w of
        Inl er \<Rightarrow> Inl (rpcError er)
      | Inr using' \<Rightarrow>
          (case local_each e io items w of
             Inl c \<Rightarrow> Inl c
           | Inr ms \<Rightarrow>
               Inr (\<lparr>pl_path = lm_path item, pl_filename = lm_filename item, pl_size = lm_size item,
                     pl_used_by = using'\<rparr> # ms)))"

definition rpc_ListLocalModels :: "deps \<Rightarrow> io_env \<Rightarrow> string \<Rightarrow> world \<Rightarrow> connect_error + pb_local_model list" where
  "rpc_ListLocalModels e io backend_name w =
     (case requireField backend_name ''backend'' of
        Some c \<Rightarrow> Inl c
      | None \<Rightarrow>
          (case ListLocalModels e io backend_name w of
             (items, Some er) \<Rightarrow> Inl (rpcError er)
           | (items, None) \<Rightarrow> local_each e io items w))"

definition rpc_DeleteLocalModel ::
    "deps \<Rightarrow> answers \<Rightarrow> string \<Rightarrow> string \<Rightarrow> bool \<Rightarrow> world \<Rightarrow> (connect_error + unit) \<times> world" where
  "rpc_DeleteLocalModel e an backend_name path cascade w =
     (if backend_name = [] \<or> path = [] then
        (Inl (rpcError (Errorf ErrorInvalidInput ''backend and path are required'' [])), w)
      else (case DeleteLocalModelCascade e an backend_name path cascade w of
              ((_, er), w') \<Rightarrow> (reply_done er, w')))"

section \<open>Information\<close>

definition rpc_ListBackends :: "deps \<Rightarrow> (string \<times> capabilities) list" where
  "rpc_ListBackends e =
     map (\<lambda>b. (b_name b, b_caps b)) (List.map_filter (Lookup (e_registry e)) (Names (e_registry e)))"

record pb_info =
  pi_profiles :: int
  pi_backends :: int
  pi_running :: "string list"
  pi_autostart :: "string list"
  pi_services :: "string list"
  pi_active :: string

definition rpc_GetInfo :: "deps \<Rightarrow> io_env \<Rightarrow> world \<Rightarrow> connect_error + pb_info" where
  "rpc_GetInfo e io w =
     reply (\<lambda>i. \<lparr>pi_profiles = wrap32 (int (if_profiles i)), pi_backends = wrap32 (int (if_backends i)),
                 pi_running = if_running i, pi_autostart = if_autostart i, pi_services = if_services i,
                 pi_active = if_active i\<rparr>) (GetInfo e io w)"

definition rpc_GetBackendParams :: "deps \<Rightarrow> string \<Rightarrow> connect_error + parameter list" where
  "rpc_GetBackendParams e name =
     (case requireField name ''backend'' of
        Some c \<Rightarrow> Inl c | None \<Rightarrow> reply (\<lambda>ps. ps) (GetBackendParams e name))"

text \<open>The events, newest first.\<close>

definition rpc_ListEvents :: "event_store \<Rightarrow> event list" where
  "rpc_ListEvents s = EventStore_List s"

section \<open>The catalog and fit\<close>

definition rpc_EstimateFit ::
    "deps \<Rightarrow> io_env \<Rightarrow> collector \<Rightarrow> string \<Rightarrow> string \<Rightarrow> int \<Rightarrow> world \<Rightarrow> connect_error + (pb_fit \<times> pb_machine)" where
  "rpc_EstimateFit e io sig backend_name profile_name sz w =
     reply (\<lambda>(est, host). (fitProto est, machineProto host)) (mgr_EstimateFit e io sig backend_name profile_name sz w)"

text \<open>The catalog client and its state belong to the manager when it has one.\<close>

record catalog_deps =
  cx_client :: client
  cx_codec :: codec
  cx_policy :: "string \<Rightarrow> catalog_policy"

definition mgr_ListModelCatalog ::
    "deps \<Rightarrow> catalog_deps option \<Rightarrow> moment \<Rightarrow> search_request \<Rightarrow> catalog \<Rightarrow> (gerr + search_result) \<times> catalog" where
  "mgr_ListModelCatalog e cat mo req c =
     (case cat of
        None \<Rightarrow> (Inl (Errorf ErrorInvalidInput ''model catalog is not configured'' []), c)
      | Some x \<Rightarrow>
          (case mgr_Backend (e_registry e) (sq_backend req) of
             Inl er \<Rightarrow> (Inl er, c)
           | Inr b \<Rightarrow>
               (case Search (cx_client x) (cx_codec x) mo req (cx_policy x (b_name b)) c of
                  (Inl er, c') \<Rightarrow> (Inl (CoreError ErrorRuntime (error_text er) (Some er)), c')
                | (Inr r, c') \<Rightarrow> (Inr r, c'))))"

record catalog_query =
  cq_backend :: string
  cq_query :: string
  cq_limit :: int
  cq_refresh :: bool
  cq_min_fit :: pb_fit_level
  cq_sort :: string

record catalog_reply =
  cp_models :: "pb_model list"
  cp_hit :: bool
  cp_stale :: bool
  cp_machine :: pb_machine

definition with_fit :: "backend \<Rightarrow> host_resources \<Rightarrow> string \<Rightarrow> pb_variant \<Rightarrow> pb_variant" where
  "with_fit b host source v =
     (case b_fit b (no_profile\<lparr>p_model := \<lparr>ms_source = source, ms_reference = pv_reference v\<rparr>\<rparr>) (pv_size v) host of
        Inl _ \<Rightarrow> v
      | Inr est \<Rightarrow> v\<lparr>pv_fit := Some (fitProto est)\<rparr>)"

definition fitted_model :: "backend \<Rightarrow> host_resources \<Rightarrow> cat_model \<Rightarrow> pb_model" where
  "fitted_model b host m =
     (let message = catalogModelProto m; vs = map (with_fit b host (cm_id m)) (pm_variants message)
      in message\<lparr>pm_variants := vs, pm_best := bestVariant vs\<rparr>)"

definition rpc_ListModelCatalog ::
    "deps \<Rightarrow> catalog_deps option \<Rightarrow> collector \<Rightarrow> moment \<Rightarrow> catalog_query \<Rightarrow> catalog \<Rightarrow>
     (connect_error + catalog_reply) \<times> catalog" where
  "rpc_ListModelCatalog e cat sig mo q c =
     (case requireField (cq_backend q) ''backend'' of
        Some er \<Rightarrow> (Inl er, c)
      | None \<Rightarrow>
          (case mgr_ListModelCatalog e cat mo
                 \<lparr>sq_backend = cq_backend q, sq_query = cq_query q, sq_limit = cq_limit q, sq_refresh = cq_refresh q\<rparr> c of
             (Inl er, c') \<Rightarrow> (Inl (rpcError er), c')
           | (Inr result, c') \<Rightarrow>
               (case mgr_Backend (e_registry e) (cq_backend q) of
                  Inl er \<Rightarrow> (Inl (rpcError er), c')
                | Inr b \<Rightarrow>
                    (case mgr_HostResources (e_registry e) sig (cq_backend q) of
                       Inl er \<Rightarrow> (Inl (rpcError er), c')
                     | Inr host \<Rightarrow>
                         (Inr \<lparr>cp_models = sortCatalog (cq_sort q)
                                 (filterByFit (cq_min_fit q) (map (fitted_model b host) (cr_models result))),
                               cp_hit = cr_hit result, cp_stale = cr_stale result, cp_machine = machineProto host\<rparr>, c')))))"

section \<open>Kinds on the wire\<close>

lemma kind_text_nonempty [simp]: "kind_text k \<noteq> []"
  by (cases k) (simp_all add: kind_text_def)

lemma Kind_some: "\<exists>k. Kind (Some e) = Some k"
  by (cases "as_core e") (simp_all add: Kind_def)

lemma rpcError_kind: "Kind (Some e) = Some k \<Longrightarrow> cx_kind (rpcError e) = kind_text k"
  by (simp add: rpcError_def)

text \<open>
  C39: The kind of an error survives the wire. A client reads of a handler's error the very kind the control
  plane gave it, and reads of the error what it would read in the daemon; should a proxy drop the header, the
  code alone still tells every kind but \<^const>\<open>ErrorInternal\<close>, which then reads as a runtime error.
\<close>

theorem error_kinds_survive_the_wire:
  "ErrorKindFromRPC (Inr (rpcError e)) = ErrorKindFromRPC (Inl e) \<and>
   ErrorKindFromRPC (Inr ((rpcError e)\<lparr>cx_kind := []\<rparr>)) =
     (if Kind (Some e) = Some ErrorInternal then kind_text ErrorRuntime else ErrorKindFromRPC (Inl e))"
proof -
  obtain k where k: "Kind (Some e) = Some k" using Kind_some by blast
  then show ?thesis
    by (cases k) (simp_all add: ErrorKindFromRPC_def rpcError_def errorKindCodes_def)
qed

section \<open>Rejected requests\<close>

lemma requireField_cases:
  "requireField v f = (if v = [] then Some (rpcError (Errorf ErrorInvalidInput ''%s is required'' [Str f])) else None)"
  by (simp add: requireField_def)

lemma invalid_code: "cx_code (rpcError (Errorf ErrorInvalidInput f args)) = CodeInvalidArgument"
  by (simp add: rpcError_def Errorf_def Kind_def errorKindCodes_def)

definition rejected :: "('a, 'b) sum \<times> 'w \<Rightarrow> 'w \<Rightarrow> ('a \<Rightarrow> connect_code) \<Rightarrow> bool" where
  "rejected r w code \<longleftrightarrow> (\<exists>c. fst r = Inl c \<and> code c = CodeInvalidArgument) \<and> snd r = w"

text \<open>
  A request without its required field reaches nothing. Every handler that changes the daemon's state
  answers such a request with an invalid-argument code and leaves the state, the audit log included, as it was.
\<close>

theorem incomplete_requests_change_nothing:
  "rejected (rpc_PutProfile e ft marshal an \<lparr>pu_name = [], pu_yaml = y, pu_profile = m, pu_create_only = b\<rparr> w) w cx_code \<and>
   rejected (rpc_PutProfile e ft marshal an \<lparr>pu_name = n, pu_yaml = [], pu_profile = None, pu_create_only = b\<rparr> w) w cx_code \<and>
   rejected (rpc_DeleteProfile e an [] w) w cx_code \<and>
   rejected (rpc_CleanupProfile e an [] w) w cx_code \<and>
   rejected (rpc_SetProfileAutostart e io [] b w) w cx_code \<and>
   rejected (rpc_StartRuntime e an [] b w) w cx_code \<and>
   rejected (rpc_StopRuntime e an [] w) w cx_code \<and>
   rejected (rpc_RestartRuntime e an [] w) w cx_code \<and>
   rejected (rpc_CancelModelDownload e [] w) w cx_code \<and>
   rejected (rpc_ApplyDownloadToProfile e mg an \<lparr>ap_profile' = n, ap_id' = [], ap_preview' = b\<rparr> w) w cx_code \<and>
   rejected (rpc_DeleteLocalModel e an bk [] b w) w cx_code"
  by (simp add: rejected_def rpc_PutProfile_def rpc_DeleteProfile_def rpc_CleanupProfile_def
      rpc_SetProfileAutostart_def rpc_StartRuntime_def rpc_StopRuntime_def runtimeAction_def rpc_RestartRuntime_def
      rpc_CancelModelDownload_def rpc_ApplyDownloadToProfile_def rpc_DeleteLocalModel_def requireField_cases
      invalid_code request_yaml_def)

section \<open>Structured edits\<close>

text \<open>Values a \<^verbatim>\<open>structpb\<close> message carries without loss: integers a \<^verbatim>\<open>float64\<close> holds, no float written whole.\<close>

fun portable :: "yval \<Rightarrow> bool" where
  "portable (YInt n) = (\<bar>n\<bar> \<le> 2 ^ 53)"
| "portable (YFloat t) = (text_whole t = None)"
| "portable (YList vs) = list_all portable vs"
| "portable v = True"

lemma to_float_exact: "\<bar>n\<bar> \<le> 2 ^ 53 \<Longrightarrow> to_float n = n"
proof -
  have r: "m \<le> 2 ^ 53 \<Longrightarrow> round53 m = m" for m
  proof (cases "m = 2 ^ 53")
    case True
    have "bits (2 ^ 53) = 54" by (simp add: bits.simps)
    then show ?thesis unfolding True round53_def by (simp add: round_even_def)
  next
    case False
    assume "m \<le> 2 ^ 53"
    with False have "m < 2 ^ 53" by simp
    then show ?thesis by (rule round53_exact)
  qed
  assume "\<bar>n\<bar> \<le> 2 ^ 53"
  then have "nat n \<le> 2 ^ 53" "nat (- n) \<le> 2 ^ 53" by (simp_all add: nat_le_iff)
  then show ?thesis by (auto simp: to_float_def r)
qed

lemma portable_roundtrip: "portable v \<Longrightarrow> demoteWholeFloats ft (normalizeEngineValue v) = v"
proof (induction v rule: portable.induct)
  case (1 n)
  then show ?case by (simp add: to_float_exact)
next
  case (3 vs)
  then show ?case by (simp add: list_all_iff map_idI)
qed simp_all

lemma portable_args_roundtrip:
  "\<forall>kv\<in>set args. portable (snd kv) \<Longrightarrow>
     map (\<lambda>(k, v). (k, demoteWholeFloats ft v)) (normalizeEngineArgs args) = args"
  by (induction args) (auto simp: normalizeEngineArgs_def portable_roundtrip)

lemma wrap32_id: "- (2 ^ 31) \<le> v \<Longrightarrow> v < 2 ^ 31 \<Longrightarrow> wrap32 v = v"
  by (simp add: wrap32_def)



text \<open>Beyond that an integer comes back rounded, and a whole float as an integer.\<close>

lemma large_integer_is_rounded:
  "demoteWholeFloats ft (normalizeEngineValue (YInt 9007199254740993)) = YInt 9007199254740992"
  "demoteWholeFloats ft (normalizeEngineValue (YFloat ''1e+06'')) = YInt 1000000"
proof -
  have "round53 9007199254740993 = 9007199254740992"
    by (simp add: round53_def bits.simps round_even_def Let_def)
  then show "demoteWholeFloats ft (normalizeEngineValue (YInt 9007199254740993)) = YInt 9007199254740992"
    by (simp add: to_float_def)
  have "text_whole ''1e+06'' = Some 1000000"
    by (simp add: text_whole_def digit_of_def atoi_def)
  then show "demoteWholeFloats ft (normalizeEngineValue (YFloat ''1e+06'')) = YInt 1000000"
    by (simp add: to_float_exact)
qed

section \<open>Listed models fit\<close>

lemma sortCatalog_set [simp]: "set (sortCatalog order ms) = set ms"
proof -
  have "mset (sortCatalog order ms) = mset ms" by (simp add: sortCatalog_def split: option.splits)
  then show ?thesis by (rule mset_eq_setD)
qed

lemma with_fit_simps [simp]: "pv_size (with_fit b host src v) = pv_size v"
  by (simp add: with_fit_def split: sum.splits)

lemma with_fit_level:
  assumes "pv_fit v = None" "level_of (with_fit b host src v) \<in> {FIT_FITS, FIT_MARGINAL}"
  shows "\<exists>p e. b_fit b p (pv_size v) host = Inr e \<and> fe_level e \<in> {FitFits, FitMarginal}"
proof -
  let ?p = "no_profile\<lparr>p_model := \<lparr>ms_source = src, ms_reference = pv_reference v\<rparr>\<rparr>"
  show ?thesis
  proof (cases "b_fit b ?p (pv_size v) host")
    case (Inl e)
    with assms show ?thesis by (simp add: with_fit_def level_of_def)
  next
    case (Inr e)
    with assms have "fe_level e \<in> {FitFits, FitMarginal}"
      by (cases "fe_level e") (simp_all add: with_fit_def level_of_def fitProto_def fitLevelProto_def)
    with Inr show ?thesis by blast
  qed
qed

lemma fitted_model_best:
  assumes "fitRank (best_level (fitted_model b host cm)) \<ge> 2"
  shows "\<exists>v v0. pm_best (fitted_model b host cm) = Some v \<and> v \<in> set (pm_variants (fitted_model b host cm)) \<and>
    pv_size v = pv_size v0 \<and> pv_fit v0 = None \<and> v = with_fit b host (cm_id cm) v0 \<and>
    level_of v \<in> {FIT_FITS, FIT_MARGINAL}"
proof -
  let ?vs = "map (with_fit b host (cm_id cm)) (pm_variants (catalogModelProto cm))"
  have m: "pm_best (fitted_model b host cm) = bestVariant ?vs" "pm_variants (fitted_model b host cm) = ?vs"
    by (simp_all add: fitted_model_def Let_def)
  obtain v where v: "bestVariant ?vs = Some v" "fitRank (level_of v) \<ge> 2"
    using assms by (cases "bestVariant ?vs") (simp_all add: best_level_def m fitRank_def)
  have "v \<in> set ?vs" using v(1) by (rule bestVariant_mem)
  then obtain v0 where "v0 \<in> set (pm_variants (catalogModelProto cm))" "v = with_fit b host (cm_id cm) v0" by auto
  moreover from this have "pv_fit v0 = None" by (auto simp: catalogModelProto_def)
  moreover have "level_of v \<in> {FIT_FITS, FIT_MARGINAL}" using v(2) by (cases "level_of v") (simp_all add: fitRank_def)
  ultimately show ?thesis using v(1) m \<open>v \<in> set ?vs\<close> by auto
qed

text \<open>
  C31: No listing oversells the host. A catalog filtered by "fits" or "marginal" for one of the supported
  backends lists only models with a variant to offer, among those listed, whose size is known and which
  with the runtime overhead is within the memory that backend serves models from: video memory or else
  available memory for llama.cpp, the unified budget for MLX, both memories together for Strata; whatever
  is cached, whatever the order, and whatever the KV cache or an overflow adds.
\<close>

theorem listed_models_fit_the_host:
  assumes "e_registry e = the_registry [llama_backend l y post, mlx_backend mx, strata_backend s]"
    and "rpc_ListModelCatalog e cat sig mo q c = (Inr r, c')"
    and "cq_min_fit q \<in> {FIT_FITS, FIT_MARGINAL}"
    and "mgr_HostResources (e_registry e) sig (cq_backend q) = Inr host" "host_sane host"
    and "m \<in> set (cp_models r)" "\<forall>v\<in>set (pm_variants m). pv_size v < 2 ^ 62"
  shows "\<exists>v\<in>set (pm_variants m). pm_best m = Some v \<and> 0 < pv_size v \<and>
    pv_size v + DefaultOverheadBytes \<le> capacity_of (cq_backend q) host"
proof -
  obtain b and result :: search_result where b: "mgr_Backend (e_registry e) (cq_backend q) = Inr b"
    and r: "cp_models r = sortCatalog (cq_sort q)
      (filterByFit (cq_min_fit q) (map (fitted_model b host) (cr_models result)))"
    using assms(2,4) unfolding rpc_ListModelCatalog_def by (auto split: option.splits prod.splits sum.splits)
  from assms(3,6) obtain cm where cm: "m = fitted_model b host cm" "fitRank (best_level m) \<ge> 2"
    by (auto simp: r filterByFit_def fitRank_def)
  then obtain v v0 where v: "pm_best m = Some v" "v \<in> set (pm_variants m)" "pv_size v = pv_size v0"
    "pv_fit v0 = None" "v = with_fit b host (cm_id cm) v0" "level_of v \<in> {FIT_FITS, FIT_MARGINAL}"
    using fitted_model_best by blast
  then obtain p e' where f: "b_fit b p (pv_size v0) host = Inr e'" "fe_level e' \<in> {FitFits, FitMarginal}"
    using with_fit_level [OF v(4)] by blast
  have "Lookup (the_registry [llama_backend l y post, mlx_backend mx, strata_backend s]) (cq_backend q) = Some b"
    using b assms(1) by (simp add: mgr_Backend_Inr)
  from engine_fit_sound [OF this _ assms(5) f] v(2,3) assms(7) v(1) show ?thesis by auto
qed

text \<open>A Strata host of 48 GiB in all lists a model of 40 GiB as fitting.\<close>

definition ex_registry :: registry where
  "ex_registry = the_registry [llama_backend ex_llama ex_yaml ex_post, mlx_backend ex_mlx, strata_backend ex_strata]"

definition ex_catalog_deps :: catalog_deps where
  "ex_catalog_deps = \<lparr>cx_client = ex_client, cx_codec = ex_codec, cx_policy = (\<lambda>name. ex_policy)\<rparr>"

definition ex_query :: catalog_query where
  "ex_query =
     \<lparr>cq_backend = strata_name, cq_query = [], cq_limit = 20, cq_refresh = True, cq_min_fit = FIT_FITS, cq_sort = ''fit''\<rparr>"

definition ex_collector :: collector where
  "ex_collector = Some (Inr \<lparr>ms_total = 2 ^ 34, ms_available = 2 ^ 33, ms_used = 2 ^ 33\<rparr>)"

definition ex_rpc_deps :: deps where
  "ex_rpc_deps = (ex_deps True)\<lparr>e_registry := ex_registry\<rparr>"

definition no_cache :: catalog_deps where
  "no_cache = ex_catalog_deps\<lparr>cx_client := ex_client\<lparr>cl_disabled := True\<rparr>\<rparr>"

lemma ex_registry_strata: "Lookup ex_registry strata_name = Some (strata_backend ex_strata)"
  by (simp add: ex_registry_def the_registry_def NewRegistry_def Register_def Lookup_def backend_names
      mlx_caps_def strata_caps_def)

lemma ex_listing_host:
  "mgr_HostResources ex_registry ex_collector strata_name =
     Inr (no_host\<lparr>hs_total_ram := 2 ^ 34, hs_available_ram := 2 ^ 33\<rparr>)"
  by (simp add: mgr_HostResources_def mgr_Backend_def ex_registry_strata strata_backend_def ex_collector_def
      mgr_Signals_def wrap64_id no_host_def)

lemma ex_listing_search:
  "\<exists>r. Search (cx_client no_cache) (cx_codec no_cache) (ex_moment 5 ex_hub)
     \<lparr>sq_backend = strata_name, sq_query = [], sq_limit = 20, sq_refresh = True\<rparr> ex_policy ex_catalog = (Inr r, ex_catalog) \<and>
     cr_models r = cr_models (ce_result ex_entry)"
proof -
  let ?q = "\<lparr>sq_backend = strata_name, sq_query = [], sq_limit = 20, sq_refresh = True\<rparr>"
  let ?r = "Search (cx_client no_cache) (cx_codec no_cache) (ex_moment 5 ex_hub) ?q ex_policy ex_catalog"
  have "(case ?r of (Inr r, c) \<Rightarrow> cr_models r = cr_models (ce_result ex_entry) \<and> ct_queue c = [] \<and> ct_running c = [] \<and>
      ct_busy c = [] \<and> ct_subs c = [] \<and> ct_next c = 0 \<and> ct_fs c = ct_fs ex_catalog | _ \<Rightarrow> False)"
    by code_simp
  then show ?thesis by (auto simp: ex_catalog_def split: prod.splits sum.splits)
qed

theorem listed_models_fit_the_host_witness:
  "\<exists>r m v. fst (rpc_ListModelCatalog ex_rpc_deps (Some no_cache) ex_collector (ex_moment 5 ex_hub) ex_query ex_catalog) = Inr r \<and>
     m \<in> set (cp_models r) \<and> pm_best m = Some v \<and> pv_size v + DefaultOverheadBytes \<le> 2 ^ 33"
proof -
  let ?host = "no_host\<lparr>hs_total_ram := 2 ^ 34, hs_available_ram := 2 ^ 33\<rparr>"
  let ?b = "strata_backend ex_strata"
  have reg: "e_registry ex_rpc_deps = ex_registry" by (simp add: ex_rpc_deps_def)
  have b: "mgr_Backend ex_registry strata_name = Inr ?b" by (simp add: mgr_Backend_Inr ex_registry_strata)
  have ne: "strata_name \<noteq> []" by (simp add: strata_name_def)
  obtain sr where sr: "cr_models sr = cr_models (ce_result ex_entry)"
    "Search (cx_client no_cache) (cx_codec no_cache) (ex_moment 5 ex_hub)
     \<lparr>sq_backend = strata_name, sq_query = [], sq_limit = 20, sq_refresh = True\<rparr> ex_policy ex_catalog = (Inr sr, ex_catalog)"
    using ex_listing_search by blast
  define ms where "ms = filterByFit FIT_FITS (map (fitted_model ?b ?host) (cr_models sr))"
  have "rpc_ListModelCatalog ex_rpc_deps (Some no_cache) ex_collector (ex_moment 5 ex_hub) ex_query ex_catalog =
      (Inr \<lparr>cp_models = sortCatalog ''fit'' ms, cp_hit = cr_hit sr, cp_stale = cr_stale sr,
            cp_machine = machineProto ?host\<rparr>, ex_catalog)"
    using sr(2) by (simp add: rpc_ListModelCatalog_def requireField_def ex_query_def mgr_ListModelCatalog_def reg b ne
        ms_def ex_listing_host no_cache_def ex_catalog_deps_def)
  then have call: "rpc_ListModelCatalog ex_rpc_deps (Some no_cache) ex_collector (ex_moment 5 ex_hub) ex_query ex_catalog =
      (Inr \<lparr>cp_models = sortCatalog ''fit'' ms, cp_hit = cr_hit sr, cp_stale = cr_stale sr,
            cp_machine = machineProto ?host\<rparr>, ex_catalog)" .
  let ?m = "fitted_model ?b ?host (hd (cr_models sr))"
  have fits: "fe_level (EstimateFit 536870921 (2 ^ 33) s) = FitFits" for s by (simp add: verdict_level)
  have "pm_variants ?m = [\<lparr>pv_name = ''r'', pv_reference = ''a.gguf'', pv_size = 9, pv_multi_file = False,
      pv_fit = Some (fitProto (EstimateFit 536870921 (2 ^ 33) ''RAM + VRAM''))\<rparr>]"
    by (simp add: fitted_model_def Let_def sr(1) ex_entry_def catalogModelProto_def with_fit_def strata_backend_def
        strata_Fit_def wrap64_id DefaultOverheadBytes_def no_host_def)
  moreover have "pm_best ?m = bestVariant (pm_variants ?m)" by (simp add: fitted_model_def Let_def)
  ultimately have "best_level ?m = FIT_FITS" and sizes: "\<forall>v\<in>set (pm_variants ?m). pv_size v < 2 ^ 62"
    using fits by (simp_all add: best_level_def bestVariant_def level_of_def fitProto_def fitLevelProto_def fitRank_def)
  then have m: "?m \<in> set (sortCatalog ''fit'' ms)"
    by (simp add: ms_def sr(1) ex_entry_def filterByFit_def)
  have sane: "host_sane ?host" by (simp add: host_sane_def no_host_def)
  have cap: "capacity_of strata_name ?host = 2 ^ 33"
    by (simp add: capacity_of_def strata_name_def llama_name_def mlx_name_def no_host_def)
  from listed_models_fit_the_host [OF _ call, of ex_llama ex_yaml ex_post ex_mlx ex_strata ?host ?m]
  obtain v where "pm_best ?m = Some v" "pv_size v + DefaultOverheadBytes \<le> 2 ^ 33"
    using m sizes sane cap ex_listing_host by (auto simp: reg ex_registry_def [symmetric] ex_query_def)
  then show ?thesis using call m by auto
qed

end
