(* ===== verification/LogService.thy ===== *)
theory LogService
  imports AuditLogs Rpc
begin

text \<open>
  The log handlers of the RPC service, \<^verbatim>\<open>core/rpc/logs_service.go\<close>: a name that comes over the network is
  checked before a path is built from it, a number of lines is clamped, and an error of the file system gets a
  kind. The stream of \<^verbatim>\<open>WatchLogs\<close> is the list of lines sent and the error it ends with.
\<close>

definition defaultLogLines :: int where "defaultLogLines = 500"

definition checkedPathPart :: "string \<Rightarrow> string \<Rightarrow> (string \<Rightarrow> bool) \<Rightarrow> gerr + string" where
  "checkedPathPart v label valid =
     (if v = [] then Inl (Errorf ErrorInvalidInput ''%s is required'' [Str label])
      else if \<not> valid v then Inl (Errorf ErrorInvalidInput ''invalid %s %q'' [Str label, Str v])
      else Inr v)"

definition logService :: "string \<Rightarrow> gerr + string" where
  "logService service = checkedPathPart service ''service'' ValidLogName"

definition archiveID :: "string \<Rightarrow> gerr + string" where
  "archiveID i = checkedPathPart i ''log archive ID'' ValidArchiveID"

definition tailLines :: "int \<Rightarrow> int" where
  "tailLines lines = (if lines \<le> 0 then defaultLogLines else min lines MaxTailLines)"

definition ErrPermission :: sentinel where "ErrPermission = OtherSentinel ''EPERM''"

definition logError :: "gerr \<Rightarrow> gerr" where
  "logError e =
     (if errors_is e ErrNotExist then CoreError ErrorNotFound (error_text e) (Some e)
      else if errors_is e ErrPermission then CoreError ErrorPermission (error_text e) (Some e)
      else CoreError ErrorRuntime (error_text e) (Some e))"

text \<open>The service whose log exists, or the error of the request.\<close>

definition existing_log :: "io_env \<Rightarrow> string option \<Rightarrow> string \<Rightarrow> fs \<Rightarrow> connect_error + string" where
  "existing_log io home name fs =
     (case logService name of
        Inl e \<Rightarrow> Inl (rpcError e)
      | Inr service \<Rightarrow>
          (case LogExists io home service fs of
             Inl e \<Rightarrow> Inl (rpcError (logError e))
           | Inr False \<Rightarrow> Inl (rpcError (Errorf ErrorNotFound ''no logs for service %q'' [Str service]))
           | Inr True \<Rightarrow> Inr service))"

definition rpc_GetLogs :: "io_env \<Rightarrow> string option \<Rightarrow> string \<Rightarrow> int \<Rightarrow> fs \<Rightarrow> connect_error + (string \<times> string)" where
  "rpc_GetLogs io home name lines fs =
     (case existing_log io home name fs of
        Inl c \<Rightarrow> Inl c
      | Inr service \<Rightarrow>
          (case TailLogLines io home service (tailLines lines) fs of
             Inl e \<Rightarrow> Inl (rpcError (logError e))
           | Inr body \<Rightarrow> Inr (service, body)))"

text \<open>\<open>gone\<close>: the context has ended by the time the follower returns, the client having left.\<close>

definition rpc_WatchLogs ::
    "io_env \<Rightarrow> string option \<Rightarrow> string \<Rightarrow> (string list \<Rightarrow> string \<Rightarrow> gerr option) \<Rightarrow> bool \<Rightarrow> fs \<Rightarrow> (io_env \<times> fs) list
       \<Rightarrow> string list \<times> connect_error option" where
  "rpc_WatchLogs io home name send gone fs ticks =
     (case existing_log io home name fs of
        Inl c \<Rightarrow> ([], Some c)
      | Inr service \<Rightarrow>
          (case FollowLog io home service send fs ticks of
             (sent, None) \<Rightarrow> (sent, None)
           | (sent, Some e) \<Rightarrow> (sent, if gone then None else Some (rpcError (logError e)))))"

record pb_log_archive =
  la_id :: string
  la_service :: string
  la_size :: nat
  la_at :: string

text \<open>The layout \<^verbatim>\<open>time.RFC3339\<close> of a time in UTC: whole seconds.\<close>

definition rfc3339 :: "utc \<Rightarrow> string" where
  "rfc3339 t =
     pad 4 (tm_year t) @ ''-'' @ pad 2 (tm_month t) @ ''-'' @ pad 2 (tm_day t) @ ''T'' @ pad 2 (tm_hour t) @ '':''
       @ pad 2 (tm_minute t) @ '':'' @ pad 2 (tm_second t) @ ''Z''"

definition archiveProto :: "archive \<Rightarrow> pb_log_archive" where
  "archiveProto a =
     \<lparr>la_id = av_id a, la_service = av_service a, la_size = av_size a, la_at = rfc3339 (av_at a)\<rparr>"

definition rpc_ListLogArchives :: "io_env \<Rightarrow> string option \<Rightarrow> fs \<Rightarrow> connect_error + pb_log_archive list" where
  "rpc_ListLogArchives io home fs =
     (case ListArchives io home fs of
        Inl e \<Rightarrow> Inl (rpcError (logError e)) | Inr as \<Rightarrow> Inr (map archiveProto as))"

definition rpc_GetLogArchive :: "io_env \<Rightarrow> string option \<Rightarrow> string \<Rightarrow> int \<Rightarrow> fs \<Rightarrow> connect_error + (string \<times> string)" where
  "rpc_GetLogArchive io home name lines fs =
     (case archiveID name of
        Inl e \<Rightarrow> Inl (rpcError e)
      | Inr i \<Rightarrow>
          (case TailArchive io home i (tailLines lines) fs of
             Inl e \<Rightarrow>
               if errors_is e ErrNotExist
               then Inl (rpcError (Errorf ErrorNotFound ''log archive %q not found'' [Str i]))
               else Inl (rpcError (logError e))
           | Inr body \<Rightarrow> Inr (ArchiveService i, body)))"

definition rpc_DeleteLogArchive :: "io_env \<Rightarrow> string option \<Rightarrow> string \<Rightarrow> fs \<Rightarrow> (connect_error + int) \<times> fs" where
  "rpc_DeleteLogArchive io home name fs =
     (case archiveID name of
        Inl e \<Rightarrow> (Inl (rpcError e), fs)
      | Inr i \<Rightarrow>
          (case RemoveArchive io home i fs of
             (Inl e, fs') \<Rightarrow> (Inl (rpcError (logError e)), fs')
           | (Inr False, fs') \<Rightarrow> (Inl (rpcError (Errorf ErrorNotFound ''log archive %q not found'' [Str i])), fs')
           | (Inr True, fs') \<Rightarrow> (Inr 1, fs')))"

text \<open>The count is sent as an \<^verbatim>\<open>int32\<close>.\<close>

definition int32 :: "int \<Rightarrow> int" where
  "int32 n = (n + 2147483648) mod 4294967296 - 2147483648"

definition rpc_ClearLogArchives :: "io_env \<Rightarrow> string option \<Rightarrow> fs \<Rightarrow> (connect_error + int) \<times> fs" where
  "rpc_ClearLogArchives io home fs =
     (case ClearArchives io home fs of
        ((n, Some e), fs') \<Rightarrow> (Inl (rpcError (logError e)), fs')
      | ((n, None), fs') \<Rightarrow> (Inr (int32 (int n)), fs'))"

section \<open>What a request can reach\<close>

lemma tailLines_range: "1 \<le> tailLines n \<and> tailLines n \<le> MaxTailLines"
  by (simp add: tailLines_def defaultLogLines_def MaxTailLines_def)

lemma ValidLogName_plain: "ValidLogName name \<Longrightarrow> slash \<notin> set name"
  using log_char_plain by (auto simp: ValidLogName_def list_all_iff)

lemma log_file_plain: "ValidLogName name \<Longrightarrow> plain_elem (name @ ''.log'')"
  using ValidLogName_plain [of name] by (cases name) (auto simp: plain_elem_def slash_def dotdot_def ValidLogName_def)

lemma archive_file_path:
  assumes "base_dir h" "plain_elem i"
  shows "Join [Join [h, ''logs'', ''archive''], i] = h @ ''/logs/archive/'' @ i"
proof -
  have "plain_elem ''logs''" "plain_elem ''archive''" by (simp_all add: plain_elem_def slash_def dotdot_def)
  then show ?thesis
    using Join_base [OF archive_dir [OF assms(1)] assms(2)] Join_two(2) [OF assms(1), of "''logs''" "''archive''"]
    by (simp add: slash_def)
qed

lemma log_file_path:
  assumes "base_dir h" "ValidLogName name"
  shows "servicePath (Some h) name = Inr (h @ ''/run/'' @ name @ ''.log'')"
proof -
  have r: "plain_elem ''run''" by (simp add: plain_elem_def slash_def dotdot_def)
  have "Join [Join [h, ''run''], name @ ''.log''] = h @ ''/run/'' @ name @ ''.log''"
    using Join_base [OF base_dir_Join(1) [OF assms(1) r] log_file_plain [OF assms(2)]] Join_base [OF assms(1) r]
    by (simp add: slash_def)
  then show ?thesis using assms(2) by (simp add: servicePath_def GetLogPath_def)
qed

lemma delete_confined:
  assumes "base_dir h" "rpc_DeleteLogArchive io (Some h) name fs = (r, fs')" "map_of fs' p \<noteq> map_of fs p"
  shows "plain_elem name \<and> p = h @ ''/logs/archive/'' @ name \<and> r = Inr 1"
proof -
  obtain q where q: "RemoveArchive io (Some h) name fs = (q, fs')" "ValidArchiveID name"
    "q = Inr True \<longrightarrow> r = Inr 1"
    using assms(2,3) by (auto simp: rpc_DeleteLogArchive_def archiveID_def checkedPathPart_def
        split: if_splits prod.splits sum.splits bool.splits)
  have pl: "plain_elem name" using q(2) by (rule ValidArchiveID_plain)
  from RemoveArchive_cases [OF q(1)] assms(3)
  have "p = Join [Join [h, ''logs'', ''archive''], name] \<and> q = Inr True"
    by (auto simp: GetArchiveDir_def split: if_splits)
  then show ?thesis using q(3) pl archive_file_path [OF assms(1) pl] by simp
qed

lemma clear_confined:
  assumes "base_dir h" "rpc_ClearLogArchives io (Some h) fs = (r, fs')" "map_of fs' p \<noteq> map_of fs p"
  shows "\<exists>i. ValidArchiveID i \<and> plain_elem i \<and> p = h @ ''/logs/archive/'' @ i"
proof -
  obtain as c where l: "ListArchives io (Some h) fs = Inr as" "delete_logs io (Some h) as 0 None fs = (c, fs')"
    using assms(2,3) by (auto simp: rpc_ClearLogArchives_def ClearArchives_def deleteArchives_def
        split: prod.splits sum.splits option.splits)
  let ?dir = "Join [h, ''logs'', ''archive'']"
  have d: "GetArchiveDir (Some h) = Inr ?dir" by (simp add: GetArchiveDir_def)
  from delete_logs_frame [OF l(2) assms(3)] d obtain a where a: "a \<in> set as" "p = Join [?dir, av_id a]" by auto
  have "ValidArchiveID (av_id a)" using ListArchives_sound [OF l(1) a(1) d] archive_match_valid by blast
  then show ?thesis using a(2) archive_file_path [OF assms(1) ValidArchiveID_plain] ValidArchiveID_plain by blast
qed

lemma logs_confined:
  assumes "base_dir h" "rpc_GetLogs io (Some h) name n fs = Inr (service, body)"
  shows "service = name \<and> plain_elem (name @ ''.log'') \<and>
     (\<forall>d m. follow 40 fs (h @ ''/run/'' @ name @ ''.log'') = Some (NFile d m) \<longrightarrow> (\<exists>pre. d = pre @ body)) \<and>
     int (count_list body newline) \<le> (if n \<le> 0 then 500 else min n 5000)"
proof -
  have v: "ValidLogName name" "service = name" and t: "TailLogLines io (Some h) name (tailLines n) fs = Inr body"
    using assms(2) by (auto simp: rpc_GetLogs_def existing_log_def logService_def checkedPathPart_def
        split: sum.splits if_splits bool.splits)
  have "int (count_list body newline) \<le> tailLines n"
    using tail_is_the_end [OF log_file_path [OF assms(1) v(1)] t] by blast
  moreover have "\<exists>pre. d = pre @ body" if "follow 40 fs (h @ ''/run/'' @ name @ ''.log'') = Some (NFile d m)" for d m
    using tail_is_the_end [OF log_file_path [OF assms(1) v(1)] t] that by blast
  ultimately show ?thesis
    using v log_file_plain by (auto simp: tailLines_def defaultLogLines_def MaxTailLines_def split: if_splits)
qed



end
