(* ===== verification/InstallState.thy ===== *)
theory InstallState
  imports Config Files
begin

text \<open>
  The state of a managed engine installation, \<^verbatim>\<open>backends/installstate.go\<close>: the active installation and the one
  a rollback returns to, in \<^verbatim>\<open>state.json\<close> at the root of the engine, with retention, rollback and the check of
  the recorded digest. \<open>codec\<close> is \<^verbatim>\<open>encoding/json\<close> on the document; a time is its text there.
\<close>

section \<open>The document\<close>

record install_record =
  ir_backend :: string
  ir_version :: string
  ir_source :: string
  ir_digest :: string
  ir_platform :: string
  ir_accelerator :: string
  ir_directory :: string
  ir_executable :: string
  ir_installed_at :: string

record install_state =
  is_active :: "install_record option"
  is_previous :: "install_record option"

definition no_install :: install_state where
  "no_install = \<lparr>is_active = None, is_previous = None\<rparr>"

record install_codec =
  ic_encode :: "install_state \<Rightarrow> gerr + string"
  ic_decode :: "string \<Rightarrow> gerr + install_state"

text \<open>What the program relies on: a document it wrote is read back, with the line break it ends with.\<close>

definition install_codec_ok :: "install_codec \<Rightarrow> bool" where
  "install_codec_ok cd \<longleftrightarrow> (\<forall>s data. ic_encode cd s = Inr data \<longrightarrow> ic_decode cd (data @ [newline]) = Inr s)"

definition EngineRoot :: "string option \<Rightarrow> string \<Rightarrow> string option" where
  "EngineRoot home name = homePath home [''engine'', name]"

definition state_path :: "string \<Rightarrow> string" where
  "state_path root = Join [root, ''state.json'']"

definition ReadInstallState :: "install_codec \<Rightarrow> io_env \<Rightarrow> string \<Rightarrow> fs \<Rightarrow> gerr + install_state" where
  "ReadInstallState cd io root fs =
     (case ReadFile io (state_path root) fs of
        Inl e \<Rightarrow> if errors_is e ErrNotExist then Inr no_install else Inl e
      | Inr data \<Rightarrow> (case ic_decode cd data of Inl e \<Rightarrow> Inl (wrap ''read install state: %w'' e) | Inr s \<Rightarrow> Inr s))"

definition WriteInstallState :: "install_codec \<Rightarrow> io_env \<Rightarrow> string \<Rightarrow> install_state \<Rightarrow> fs \<Rightarrow> gerr option \<times> fs" where
  "WriteInstallState cd io root s fs =
     (case ic_encode cd s of
        Inl e \<Rightarrow> (Some e, fs)
      | Inr data \<Rightarrow>
          (case WriteFile io (state_path root) (data @ [newline])
                  \<lparr>wo_perm = 384, wo_backup = False, wo_normalize = id\<rparr> fs of
             (Inl e, fs') \<Rightarrow> (Some e, fs') | (Inr _, fs') \<Rightarrow> (None, fs')))"

section \<open>The active installation\<close>

text \<open>The path is empty whenever the flag is false.\<close>

definition ActiveExecutable :: "install_codec \<Rightarrow> io_env \<Rightarrow> string \<Rightarrow> fs \<Rightarrow> string \<times> bool" where
  "ActiveExecutable cd io root fs =
     (case ReadInstallState cd io root fs of
        Inl _ \<Rightarrow> ([], False)
      | Inr s \<Rightarrow>
          (case is_active s of
             None \<Rightarrow> ([], False)
           | Some a \<Rightarrow>
               if ir_executable a = [] then ([], False)
               else (case Stat io (ir_executable a) fs of
                   Inl _ \<Rightarrow> ([], False)
                 | Inr n \<Rightarrow> if n = NDir then ([], False) else (ir_executable a, True))))"

record install_status =
  it_installed :: bool
  it_managed :: bool
  it_version :: string
  it_path :: string

definition not_installed :: install_status where
  "not_installed = \<lparr>it_installed = False, it_managed = False, it_version = [], it_path = []\<rparr>"

definition ManagedStatus :: "install_codec \<Rightarrow> io_env \<Rightarrow> string \<Rightarrow> fs \<Rightarrow> gerr + (install_status \<times> bool)" where
  "ManagedStatus cd io root fs =
     (case ReadInstallState cd io root fs of
        Inl e \<Rightarrow> Inl e
      | Inr s \<Rightarrow>
          (case (ActiveExecutable cd io root fs, is_active s) of
             ((path, True), Some a) \<Rightarrow>
               Inr (\<lparr>it_installed = True, it_managed = True, it_version = ir_version a, it_path = path\<rparr>, True)
           | _ \<Rightarrow> Inr (not_installed, False)))"

section \<open>Retention\<close>

definition ManagedPath :: "string \<Rightarrow> string \<Rightarrow> bool" where
  "ManagedPath root candidate =
     (case Rel root candidate of
        None \<Rightarrow> False
      | Some rel \<Rightarrow> rel \<noteq> ''.'' \<and> rel \<noteq> dotdot \<and> \<not> has_prefix rel (dotdot @ ''/''))"

text \<open>\<^verbatim>\<open>os.RemoveAll\<close> refuses a path that ends in a dot; the system resolves the rest of the path.\<close>

definition remove_tree :: "io_env \<Rightarrow> string \<Rightarrow> fs \<Rightarrow> fs" where
  "remove_tree io p fs =
     (if p = ''.'' \<or> has_suffix p ''/.'' then fs else snd (RemoveAll io (Clean p) fs))"

definition RetirePrevious :: "io_env \<Rightarrow> string \<Rightarrow> install_state \<Rightarrow> string \<Rightarrow> fs \<Rightarrow> fs" where
  "RetirePrevious io root s keep fs =
     (case is_previous s of
        None \<Rightarrow> fs
      | Some old \<Rightarrow>
          if ir_directory old = [] \<or> ir_directory old = keep then fs
          else if map_option ir_directory (is_active s) = Some (ir_directory old) then fs
          else if \<not> ManagedPath root (ir_directory old) then fs
          else snd (Remove io (Dir (ir_directory old)) (remove_tree io (ir_directory old) fs)))"

section \<open>Rollback\<close>

record install_result =
  rs_version :: string
  rs_path :: string
  rs_changed :: bool
  rs_message :: string

text \<open>\<open>verify\<close> is the backend's probe of the installation to return to.\<close>

definition RollbackInstall ::
    "install_codec \<Rightarrow> io_env \<Rightarrow> string \<Rightarrow> (install_record \<Rightarrow> gerr option) \<Rightarrow> fs \<Rightarrow> (gerr + install_result) \<times> fs" where
  "RollbackInstall cd io root verify fs =
     (case ReadInstallState cd io root fs of
        Inl e \<Rightarrow> (Inl e, fs)
      | Inr s \<Rightarrow>
          (case is_previous s of
             None \<Rightarrow> (Inl (Sentinel ErrNoPreviousInstall), fs)
           | Some restored \<Rightarrow>
               (case verify restored of
                  Some e \<Rightarrow>
                    (Inl (Errorw (Fmt ''previous install %s is not usable: %w'' [Str (ir_version restored), error_text e]) [e]), fs)
                | None \<Rightarrow>
                    (case WriteInstallState cd io root \<lparr>is_active = Some restored, is_previous = is_active s\<rparr> fs of
                       (Some e, fs') \<Rightarrow> (Inl e, fs')
                     | (None, fs') \<Rightarrow>
                         (Inr \<lparr>rs_version = ir_version restored, rs_path = ir_executable restored, rs_changed = True,
                               rs_message = ''rolled back to '' @ ir_backend restored @ '' '' @ ir_version restored\<rparr>, fs')))))"

section \<open>The recorded digest\<close>

record digest_verification =
  dv_path :: string
  dv_algorithm :: string
  dv_expected :: string
  dv_actual :: string
  dv_matched :: bool
  dv_skipped :: bool
  dv_reason :: string

definition VerifyRecordedDigest ::
    "io_env \<Rightarrow> install_record \<Rightarrow> string \<Rightarrow> fs \<Rightarrow> digest_verification \<times> gerr option" where
  "VerifyRecordedDigest io record path fs =
     (let result = \<lparr>dv_path = path, dv_algorithm = ''sha256'', dv_expected = ir_digest record, dv_actual = [],
                     dv_matched = False, dv_skipped = False, dv_reason = []\<rparr>;
          (algorithm, expected, found) = cut (CHR '':'') (ir_digest record)
      in if \<not> found \<or> algorithm \<noteq> ''sha256'' \<or> expected = []
         then (result\<lparr>dv_skipped := True, dv_reason := ''no sha256 digest was recorded for this install''\<rparr>, None)
         else if path = []
         then (result\<lparr>dv_skipped := True, dv_reason := ''the install record names no file to verify''\<rparr>, None)
         else (case ReadFile io path fs of
             Inl e \<Rightarrow> (result, Some e)
           | Inr data \<Rightarrow>
               (result\<lparr>dv_expected := expected, dv_actual := io_sha io data, dv_matched := (io_sha io data = expected)\<rparr>, None)))"

section \<open>Reading back\<close>

lemma base_state_path: "base_dir root \<Longrightarrow> state_path root = root @ slash # ''state.json''"
  unfolding state_path_def by (rule Join_base) (auto simp: plain_elem_def dotdot_def slash_def)

lemma temp_state_path:
  assumes "base_dir root"
  shows "temp_path io (state_path root) = root @ slash # ''.state.json-'' @ io_temp io"
proof -
  have "slash \<notin> set ''state.json''" "''state.json'' \<noteq> []" by (simp_all add: slash_def)
  then have "Dir (state_path root) = root" "Base (state_path root) = ''state.json''"
    by (simp_all only: base_state_path [OF assms] Dir_base [OF assms] Base_base not_False_eq_True)
  then show ?thesis by (simp add: temp_path_def slash_def)
qed

lemma temp_state_neq: "base_dir root \<Longrightarrow> temp_path io (state_path root) \<noteq> state_path root"
  by (simp add: temp_state_path) (simp add: base_state_path)

lemma WriteInstallState_cases:
  assumes "WriteInstallState cd io root s fs = (r, fs')" "base_dir root"
  shows "(\<exists>e. r = Some e) \<and> (fs' = fs \<or> abandoned io (temp_path io (state_path root)) fs fs') \<or>
    (\<exists>data. ic_encode cd s = Inr data \<and>
       replaced (temp_path io (state_path root)) (state_path root) (data @ [newline]) 384 fs fs')"
proof (cases "ic_encode cd s")
  case (Inr data)
  obtain q where w: "writeReplacement io (state_path root) (data @ [newline]) 384 [] fs = (q, fs')" "(r = None) = (\<not> isl q)"
    using assms(1) Inr by (auto simp: WriteInstallState_def WriteFile_def filedoc_writeFile_def Let_def split: prod.splits sum.splits)
  show ?thesis using writeReplacement_cases [OF w(1) temp_state_neq [OF assms(2)]] w(2) Inr
    by (cases r; cases q) auto
qed (use assms in \<open>auto simp: WriteInstallState_def\<close>)

lemma WriteInstallState_done:
  assumes "WriteInstallState cd io root s fs = (None, fs')" "base_dir root" "install_codec_ok cd" "calm io2"
  shows "ReadInstallState cd io2 root fs' = Inr s"
proof -
  obtain data where d: "ic_encode cd s = Inr data" "map_of fs' (state_path root) = Some (NFile (data @ [newline]) 384)"
    using WriteInstallState_cases [OF assms(1,2)] by (auto simp: replaced_def)
  then have "ic_decode cd (data @ [newline]) = Inr s" using assms(3) by (auto simp: install_codec_ok_def)
  then show ?thesis using d assms(4) by (simp add: ReadInstallState_def ReadFile_def follow_plain)
qed

lemma ReadInstallState_cong:
  assumes "map_of fs' (state_path root) = map_of fs (state_path root)" "\<nexists>q. map_of fs (state_path root) = Some (NLink q)"
  shows "ReadInstallState cd io root fs' = ReadInstallState cd io root fs"
proof -
  have "follow 40 fs' (state_path root) = follow 40 fs (state_path root)"
    using assms by (auto simp: follow.simps [of 40 fs'] follow.simps [of 40 fs] split: option.splits node.splits)
  then show ?thesis by (simp add: ReadInstallState_def ReadFile_def cong: option.case_cong)
qed

section \<open>Rolling back\<close>

lemma RollbackInstall_written:
  assumes "RollbackInstall cd io root verify fs = (r, fs')" "fs' \<noteq> fs \<or> \<not> isl r"
  shows "\<exists>s p w. ReadInstallState cd io root fs = Inr s \<and> is_previous s = Some p \<and> verify p = None \<and>
    WriteInstallState cd io root \<lparr>is_active = Some p, is_previous = is_active s\<rparr> fs = (w, fs') \<and>
    (r = (case w of Some e \<Rightarrow> Inl e | None \<Rightarrow>
       Inr \<lparr>rs_version = ir_version p, rs_path = ir_executable p, rs_changed = True,
            rs_message = ''rolled back to '' @ ir_backend p @ '' '' @ ir_version p\<rparr>))"
  using assms by (auto simp: RollbackInstall_def split: sum.splits option.splits prod.splits)

text \<open>
  C36: A rollback is all or nothing and its own inverse. Whatever calls fail, the state document is afterwards
  what it was or names the previous installation as active and the active one as previous, and it is untouched
  when the probe refuses the previous installation; two successful rollbacks leave the state the first one read.
\<close>

theorem rollback_undoes_itself:
  assumes "base_dir root" "install_codec_ok cd" "calm io2"
    and "ReadInstallState cd io root fs = Inr s" "\<nexists>q. map_of fs (state_path root) = Some (NLink q)"
    and r1: "RollbackInstall cd io root verify fs = (r1, fs1)" and r2: "RollbackInstall cd io2 root verify2 fs1 = (r2, fs2)"
  shows "(map_of fs1 (state_path root) = map_of fs (state_path root) \<or>
            (\<exists>p. is_previous s = Some p \<and> verify p = None \<and>
               ReadInstallState cd io2 root fs1 = Inr \<lparr>is_active = Some p, is_previous = is_active s\<rparr>)) \<and>
         (\<not> isl r1 \<and> \<not> isl r2 \<longrightarrow> ReadInstallState cd io2 root fs2 = Inr s)"
proof
  let ?sp = "state_path root"
  have swapped: "\<exists>p. is_previous s = Some p \<and> verify p = None \<and>
      ReadInstallState cd io2 root fs1 = Inr \<lparr>is_active = Some p, is_previous = is_active s\<rparr>"
    if ch: "map_of fs1 ?sp \<noteq> map_of fs ?sp \<or> \<not> isl r1"
  proof -
    have "fs1 \<noteq> fs \<or> \<not> isl r1" using ch by auto
    from RollbackInstall_written [OF r1 this] assms(4) obtain p w where
      p: "is_previous s = Some p" "verify p = None" and
      w: "WriteInstallState cd io root \<lparr>is_active = Some p, is_previous = is_active s\<rparr> fs = (w, fs1)" "w = None \<or> isl r1"
      by (auto split: option.splits)
    from WriteInstallState_cases [OF w(1) assms(1)] ch w(2) obtain data where
      "ic_encode cd \<lparr>is_active = Some p, is_previous = is_active s\<rparr> = Inr data"
      "map_of fs1 ?sp = Some (NFile (data @ [newline]) 384)"
      using temp_state_neq [OF assms(1), of io] by (auto simp: abandoned_def replaced_def split: if_splits)
    then show ?thesis using p assms(2,3)
      by (simp add: ReadInstallState_def ReadFile_def follow_plain install_codec_ok_def)
  qed
  then show "map_of fs1 ?sp = map_of fs ?sp \<or> (\<exists>p. is_previous s = Some p \<and> verify p = None \<and>
      ReadInstallState cd io2 root fs1 = Inr \<lparr>is_active = Some p, is_previous = is_active s\<rparr>)"
    by blast
  show "\<not> isl r1 \<and> \<not> isl r2 \<longrightarrow> ReadInstallState cd io2 root fs2 = Inr s"
  proof
    assume ok: "\<not> isl r1 \<and> \<not> isl r2"
    then obtain p where p: "is_previous s = Some p"
      "ReadInstallState cd io2 root fs1 = Inr \<lparr>is_active = Some p, is_previous = is_active s\<rparr>" using swapped by blast
    from RollbackInstall_written [OF r2] ok p(2) obtain a where a: "is_active s = Some a"
      "WriteInstallState cd io2 root \<lparr>is_active = Some a, is_previous = Some p\<rparr> fs1 = (None, fs2)"
      by (auto split: option.splits)
    have "ReadInstallState cd io2 root fs2 = Inr \<lparr>is_active = Some a, is_previous = Some p\<rparr>"
      by (rule WriteInstallState_done [OF a(2) assms(1-3)])
    then show "ReadInstallState cd io2 root fs2 = Inr s" using a(1) p(1) by (cases s) simp
  qed
qed

section \<open>Retiring\<close>

lemma ManagedPath_contained:
  "rooted root \<Longrightarrow> rooted c \<Longrightarrow> ManagedPath root c \<Longrightarrow> \<exists>ts. ts \<noteq> [] \<and> elems c = elems root @ ts"
proof -
  assume r: "rooted root" "rooted c" and m: "ManagedPath root c"
  then have "PathContains root c" by (auto simp: ManagedPath_def PathContains_def split: option.splits)
  then obtain ts where ts: "elems c = elems root @ ts" using r PathContains_iff by blast
  have "ts \<noteq> []"
  proof
    assume "ts = []"
    then have "Clean root = Clean c" using r ts by (simp add: Clean_eq_iff)
    then have "Rel root c = Some ''.''" by (simp add: Rel_def)
    then show False using m by (simp add: ManagedPath_def)
  qed
  then show ?thesis using ts by blast
qed

lemma ManagedPath_rooted: "rooted root \<Longrightarrow> ManagedPath root c \<Longrightarrow> rooted c"
  by (auto simp: ManagedPath_def Rel_def Clean_eq_iff split: option.splits if_splits)

lemma mk_path_under:
  assumes "es \<noteq> []" "ts \<noteq> []"
  shows "mk_path True (es @ ts) = mk_path True es @ slash # join_with [slash] ts"
  using assms by (induction es rule: induct_list012) (auto simp: mk_path_def join_with_Cons)

lemma remove_tree_frame:
  "map_of (remove_tree io p fs) q = (if p = ''.'' \<or> has_suffix p ''/.'' \<or> io_fail io (OpRemove (Clean p)) \<noteq> None
     \<or> \<not> under (Clean p) q then map_of fs q else None)"
  by (auto simp: remove_tree_def RemoveAll_def map_of_filter_keys [where P = "\<lambda>k. \<not> under (Clean p) k"] split: option.splits)

lemma Remove_only:
  "map_of (snd (Remove io p fs)) q = map_of fs q \<or> q = p \<and> map_of (snd (Remove io p fs)) q = None \<and>
     (map_of fs p = Some NDir \<longrightarrow> (\<forall>e\<in>set fs. \<not> has_prefix (fst e) (p @ ''/'')))"
  by (auto simp: Remove_def list_ex_iff split: option.splits)

lemma under_refl [simp]: "under p p"
  by (simp add: under_def)

lemma under_append: "under p (p @ slash # r)"
  by (simp add: under_def has_prefix_iff slash_def)

lemma under_cases: "under p q \<Longrightarrow> q = p \<or> (\<exists>r. q = p @ slash # r)"
  by (auto simp: under_def has_prefix_iff slash_def)

lemma under_trans: "under p q \<Longrightarrow> under q r \<Longrightarrow> under p r"
  by (auto dest!: under_cases intro: under_append simp: under_append [of p "_ @ slash # _", simplified])

lemma under_comparable: "under a q \<Longrightarrow> under b q \<Longrightarrow> under a b \<or> under b a"
  by (auto dest!: under_cases simp: append_eq_append_conv2 Cons_eq_append_conv append_eq_Cons_conv intro: under_append)

lemma under_elems:
  assumes "rooted p" "rooted q" "elems p \<noteq> []" "elems q = elems p @ ts"
  shows "under (Clean p) (Clean q)"
  using assms under_append by (cases "ts = []") (auto simp: Clean_def mk_path_under under_def)

lemma elems_Dir:
  assumes "rooted c"
  shows "elems (Dir c) = butlast (elems c) \<or> elems (Dir c) = elems c \<or> (\<exists>x. elems (Dir c) = elems c @ [x])"
proof -
  have "slash \<in> set c" using assms by (cases c) (auto simp: rooted_def slash_def)
  then obtain a b where c: "c = a @ slash # b" "slash \<notin> set b"
    using split_list_last by metis
  have d: "dropWhile (\<lambda>x. x \<noteq> slash) (rev b @ slash # rev a) = slash # rev a"
    using c(2) by (subst dropWhile_append2) auto
  have "elems (Dir c) = elems (a @ [slash])" by (simp add: Dir_def c(1) d)
  moreover have r: "rooted (a @ [slash])" using assms c(1) by (cases a) (auto simp: rooted_def)
  ultimately have 1: "elems (Dir c) = clean_elems True [] (split_on slash a)"
    using r by (simp add: elems_def split_on_snoc_sep [of "[]" a, simplified] clean_elems_append)
  define E where "E = elems (Dir c)"
  have 2: "elems c = clean_elems True (rev E) [b]"
    using assms c 1 by (simp add: E_def elems_def split_on_snoc_sep clean_elems_append)
  have e: "E = rev ts @ [t]" if "rev E = t # ts" for t ts using that by (metis rev.simps(2) rev_rev_ident)
  show ?thesis unfolding 2 E_def [symmetric]
    by (cases "rev E") (auto dest: e simp: butlast_append)
qed

lemma under_butlast_or:
  assumes "rooted root" "rooted c" "elems root \<noteq> []" "elems c = elems root @ ts" "ts \<noteq> []"
  shows "under (Clean root) (Dir c)" "under (Clean root) (Clean c)" "under (Dir c) (Clean c) \<or> under (Clean c) (Dir c)"
proof -
  have r: "rooted (Dir c)" "Clean (Dir c) = Dir c"
  proof -
    have "rooted (rev (dropWhile (\<lambda>x. x \<noteq> slash) (rev c)))"
      using assms(2) by (cases c) (auto simp: rooted_def slash_def dropWhile_append)
    then show "rooted (Dir c)" "Clean (Dir c) = Dir c" by (simp_all add: Dir_def)
  qed
  obtain us where "elems (Dir c) = elems root @ us"
    using elems_Dir [OF assms(2)] assms(4,5) by (auto simp: butlast_append)
  then show "under (Clean root) (Dir c)"
    using under_elems [OF assms(1) r(1) assms(3)] r(2) by simp
  show "under (Clean root) (Clean c)" using under_elems [OF assms(1-3)] assms(4) by simp
  consider "elems (Dir c) = butlast (elems c)" | "elems (Dir c) = elems c" | x where "elems (Dir c) = elems c @ [x]"
    using elems_Dir [OF assms(2)] by blast
  then show "under (Dir c) (Clean c) \<or> under (Clean c) (Dir c)"
  proof cases
    case 1
    have "elems (Dir c) \<noteq> []" "elems c = elems (Dir c) @ [last (elems c)]" using 1 assms(3-5) by (auto simp: butlast_append)
    then show ?thesis using under_elems [OF r(1) assms(2)] r(2) by auto
  next
    case 2
    then have "Dir c = Clean c" using r assms(2) by (metis Clean_eq_iff)
    then show ?thesis by simp
  next
    case 3
    have "elems c \<noteq> []" using assms(3,4) by simp
    then show ?thesis using under_elems [OF assms(2) r(1) _ 3] r(2) by simp
  qed
qed

lemma retirement_frame:
  assumes "base_dir root" "map_of (RetirePrevious io root s keep fs) q \<noteq> map_of fs q"
  shows "map_of (RetirePrevious io root s keep fs) q = None \<and> under root q \<and>
    (\<exists>old. is_previous s = Some old \<and> ir_directory old \<noteq> keep \<and>
       map_option ir_directory (is_active s) \<noteq> Some (ir_directory old) \<and>
       (under (Clean (ir_directory old)) q \<or> q = Dir (ir_directory old)) \<and>
       (\<forall>d. under d q \<longrightarrow> under d (Clean (ir_directory old)) \<or> under (Clean (ir_directory old)) d))"
proof -
  obtain old where old: "is_previous s = Some old" "ir_directory old \<noteq> keep" "ir_directory old \<noteq> []"
    "map_option ir_directory (is_active s) \<noteq> Some (ir_directory old)" "ManagedPath root (ir_directory old)"
    and r: "RetirePrevious io root s keep fs = snd (Remove io (Dir (ir_directory old)) (remove_tree io (ir_directory old) fs))"
    using assms(2) by (auto simp: RetirePrevious_def split: option.splits if_splits)
  let ?c = "ir_directory old"
  have root: "rooted root" "Clean root = root" "elems root \<noteq> []" using assms(1) by (auto simp: base_dir_def)
  have c: "rooted ?c" using ManagedPath_rooted [OF root(1) old(5)] .
  obtain ts where ts: "ts \<noteq> []" "elems ?c = elems root @ ts" using ManagedPath_contained [OF root(1) c old(5)] by blast
  note u = under_butlast_or [OF root(1) c root(3) ts(2,1), unfolded root(2)]
  have q: "map_of (RetirePrevious io root s keep fs) q = None" "under (Clean ?c) q \<or> q = Dir ?c"
    using assms(2) Remove_only [of io "Dir ?c" "remove_tree io ?c fs" q] remove_tree_frame [of io ?c fs q]
    unfolding r by (auto split: if_splits)
  have "under root q" using q(2) u under_trans by blast
  moreover have "under d (Clean ?c) \<or> under (Clean ?c) d" if "under d q" for d
  proof -
    have "under d (Clean ?c) \<or> under (Clean ?c) d" if "q = Dir ?c"
      using u(3) \<open>under d q\<close> under_comparable under_trans unfolding that by blast
    then show ?thesis using q(2) under_comparable that by blast
  qed
  ultimately show ?thesis using q old by blast
qed

text \<open>
  Retention stays inside the engine root, whatever the document on disk names. Only files at or below the
  directory of the previous installation go, or the directory above it when nothing is left in it; and no
  directory that is neither above nor below that one, the active and the kept one above all, loses anything.
\<close>

theorem retirement_is_contained:
  assumes "base_dir root" "map_of (RetirePrevious io root s keep fs) q \<noteq> map_of fs q"
  shows "map_of (RetirePrevious io root s keep fs) q = None \<and> under root q \<and>
    (\<exists>old. is_previous s = Some old \<and> ir_directory old \<noteq> keep \<and>
       map_option ir_directory (is_active s) \<noteq> Some (ir_directory old) \<and>
       (under (Clean (ir_directory old)) q \<or> q = Dir (ir_directory old)) \<and>
       (\<forall>d. under d q \<longrightarrow> under d (Clean (ir_directory old)) \<or> under (Clean (ir_directory old)) d))"
  using assms by (rule retirement_frame)

section \<open>Examples\<close>

definition ex_record :: "string \<Rightarrow> install_record" where
  "ex_record v = \<lparr>ir_backend = ''llamacpp'', ir_version = v, ir_source = [], ir_digest = [], ir_platform = ''linux/amd64'',
     ir_accelerator = ''cpu'', ir_directory = ''/e/'' @ v @ ''/linux-amd64-cpu'',
     ir_executable = ''/e/'' @ v @ ''/linux-amd64-cpu/llama-server'', ir_installed_at = []\<rparr>"

definition ex_state :: install_state where
  "ex_state = \<lparr>is_active = Some (ex_record ''b2''), is_previous = Some (ex_record ''b1'')\<rparr>"

definition ex_swapped :: install_state where
  "ex_swapped = \<lparr>is_active = Some (ex_record ''b1''), is_previous = Some (ex_record ''b2'')\<rparr>"

definition ex_state_codec :: install_codec where
  "ex_state_codec = \<lparr>ic_encode = (\<lambda>s. if s = ex_state then Inr ''21'' else if s = ex_swapped then Inr ''12'' else Inl (Errorw (Str []) [])),
     ic_decode = (\<lambda>d. if d = ''21'' @ [newline] then Inr ex_state else if d = ''12'' @ [newline] then Inr ex_swapped
       else Inl (Errorw (Str []) []))\<rparr>"

lemma ex_state_codec_ok: "install_codec_ok ex_state_codec"
  by (simp add: install_codec_ok_def ex_state_codec_def)

definition ex_engine_fs :: fs where
  "ex_engine_fs = [(''/e'', NDir), (''/e/state.json'', NFile (''21'' @ [newline]) 384), (''/e/b1'', NDir),
     (''/e/b1/linux-amd64-cpu'', NDir), (''/e/b1/linux-amd64-cpu/llama-server'', NFile ''1'' 448), (''/e/b2'', NDir),
     (''/e/b2/linux-amd64-cpu'', NDir), (''/e/b2/linux-amd64-cpu/llama-server'', NFile ''2'' 448)]"

lemma ex_swap_neq: "ex_swapped \<noteq> ex_state"
  by code_simp

lemma ex_engine_read: "ReadInstallState ex_state_codec calm_env ''/e'' ex_engine_fs = Inr ex_state"
proof -
  have "state_path ''/e'' = ''/e/state.json''" by code_simp
  moreover have "map_of ex_engine_fs ''/e/state.json'' = Some (NFile (''21'' @ [newline]) 384)" by code_simp
  ultimately show ?thesis by (simp add: ReadInstallState_def ReadFile_def follow_plain ex_state_codec_def)
qed

theorem rollback_undoes_itself_witness:
  "let r1 = RollbackInstall ex_state_codec calm_env ''/e'' (\<lambda>_. None) ex_engine_fs;
       r2 = RollbackInstall ex_state_codec calm_env ''/e'' (\<lambda>_. None) (snd r1)
   in \<not> isl (fst r1) \<and> \<not> isl (fst r2) \<and> ReadInstallState ex_state_codec calm_env ''/e'' (snd r2) = Inr ex_state"
proof -
  have "\<not> isl (fst (RollbackInstall ex_state_codec calm_env ''/e'' (\<lambda>_. None) ex_engine_fs))"
    "\<not> isl (fst (RollbackInstall ex_state_codec calm_env ''/e'' (\<lambda>_. None)
        (snd (RollbackInstall ex_state_codec calm_env ''/e'' (\<lambda>_. None) ex_engine_fs))))" by code_simp+
  note ok = this
  obtain r1 fs1 where 1: "RollbackInstall ex_state_codec calm_env ''/e'' (\<lambda>_. None) ex_engine_fs = (r1, fs1)" by fastforce
  obtain r2 fs2 where 2: "RollbackInstall ex_state_codec calm_env ''/e'' (\<lambda>_. None) fs1 = (r2, fs2)" by fastforce
  have b: "base_dir ''/e''" by code_simp
  have "map_of ex_engine_fs (state_path ''/e'') = Some (NFile (''21'' @ [newline]) 384)" by code_simp
  then have "\<nexists>q. map_of ex_engine_fs (state_path ''/e'') = Some (NLink q)" by simp
  from rollback_undoes_itself [OF b ex_state_codec_ok calm_calm_env ex_engine_read this 1 2] show ?thesis
    using ok by (simp add: 1 2)
qed

theorem retirement_is_contained_witness:
  "map_of (RetirePrevious calm_env ''/e'' ex_state ''/e/b3/linux-amd64-cpu'' ex_engine_fs) ''/e/b1/linux-amd64-cpu/llama-server''
     = None"
proof -
  have "map_of (RetirePrevious calm_env ''/e'' ex_state ''/e/b3/linux-amd64-cpu'' ex_engine_fs)
      ''/e/b1/linux-amd64-cpu/llama-server'' \<noteq> map_of ex_engine_fs ''/e/b1/linux-amd64-cpu/llama-server''"
    by code_simp
  moreover have "base_dir ''/e''" by code_simp
  ultimately show ?thesis using retirement_is_contained by blast
qed

end
