(* ===== verification/Installers.thy ===== *)
theory Installers
  imports InstallState LlamaCpp Mlx Strata Manager
begin

text \<open>
  The managed installers: \<^verbatim>\<open>backends/llamacpp/install.go\<close> and \<^verbatim>\<open>install_detect.go\<close>, \<^verbatim>\<open>backends/mlx/install.go\<close>
  and \<^verbatim>\<open>backends/strata/install.go\<close>, each from the request to the recorded state, and the operations of
  \<^verbatim>\<open>core/control/manager.go\<close> over them. An external command may change any file: \<open>shell\<close> is its run in a
  directory. The release server with its archives is \<open>fetcher\<close>; the engine's answer to \<^verbatim>\<open>--version\<close> is a probe.
\<close>

record install_options =
  io_version :: string
  io_upgrade :: bool
  io_force :: bool

type_synonym shell = "string \<Rightarrow> string list \<Rightarrow> fs \<Rightarrow> gerr option \<times> fs"

text \<open>What every installer is given: the calls of the system, the codec, the clock, the host, the progress output.\<close>

record install_env =
  en_io :: io_env
  en_codec :: install_codec
  en_now :: string
  en_goos :: string
  en_goarch :: string
  en_home :: "string option"
  en_progress :: "string \<Rightarrow> gerr option"

definition resolve_root :: "install_env \<Rightarrow> string \<Rightarrow> string \<Rightarrow> gerr + string" where
  "resolve_root v own name =
     (if own \<noteq> [] then Inr own
      else case EngineRoot (en_home v) name of
          None \<Rightarrow> Inl (Errorw (Fmt ''resolve user home: %w'' []) []) | Some r \<Rightarrow> Inr r)"

text \<open>The last step of each installer: the directory two installations back goes, the new record is written.\<close>

definition record_install :: "install_env \<Rightarrow> string \<Rightarrow> install_state \<Rightarrow> install_record \<Rightarrow> string \<Rightarrow> fs \<Rightarrow> (gerr + install_result) \<times> fs" where
  "record_install v root s new message fs =
     (case WriteInstallState (en_codec v) (en_io v) root \<lparr>is_active = Some new, is_previous = is_active s\<rparr>
             (RetirePrevious (en_io v) root s (ir_directory new) fs) of
        (Some e, fs') \<Rightarrow> (Inl e, fs')
      | (None, fs') \<Rightarrow>
          (Inr \<lparr>rs_version = ir_version new, rs_path = ir_executable new, rs_changed = True, rs_message = message\<rparr>, fs'))"

definition unchanged_install :: "string \<Rightarrow> string \<Rightarrow> string \<Rightarrow> install_result" where
  "unchanged_install version path message =
     \<lparr>rs_version = version, rs_path = path, rs_changed = False, rs_message = message\<rparr>"

text \<open>A command with its line in the progress output.\<close>

definition run_shown :: "install_env \<Rightarrow> shell \<Rightarrow> string \<Rightarrow> string \<Rightarrow> string list \<Rightarrow> fs \<Rightarrow> gerr option \<times> fs" where
  "run_shown v sh dir name args fs =
     (case en_progress v (name @ '' '' @ join_with '' '' args @ [newline]) of
        Some e \<Rightarrow> (Some e, fs) | None \<Rightarrow> sh dir (name # args) fs)"

section \<open>llama.cpp\<close>

datatype accel = AccelCPU | AccelCUDA | AccelROCm | AccelVulkan | AccelMetal

definition accel_text :: "accel \<Rightarrow> string" where
  "accel_text a =
     (case a of AccelCPU \<Rightarrow> ''cpu'' | AccelCUDA \<Rightarrow> ''cuda'' | AccelROCm \<Rightarrow> ''rocm'' | AccelVulkan \<Rightarrow> ''vulkan'' | AccelMetal \<Rightarrow> ''metal'')"

definition llama_ErrNoManagedInstall :: gerr where
  "llama_ErrNoManagedInstall = Sentinel (OtherSentinel ''no managed llama.cpp install'')"

record payload =
  py_executable :: string
  py_source :: string
  py_digest :: string

record release_asset =
  ra_name :: string
  ra_url :: string
  ra_digest :: string
  ra_size :: int

record release =
  re_version :: string
  re_tarball :: string
  re_assets :: "release_asset list"

text \<open>Which release to install, and filling a directory with its payload.\<close>

record fetcher =
  fe_resolve :: "accel \<Rightarrow> string \<Rightarrow> gerr + release"
  fe_fetch :: "release \<Rightarrow> accel \<Rightarrow> string \<Rightarrow> fs \<Rightarrow> (gerr + payload) \<times> fs"

text \<open>\<open>works\<close>: the command is on the path and exits successfully.\<close>

definition detect :: "string \<Rightarrow> (string list \<Rightarrow> bool) \<Rightarrow> accel" where
  "detect goos works =
     (if goos = ''darwin'' then AccelMetal
      else if works [''nvidia-smi'', ''-L''] then AccelCUDA
      else if works [''rocminfo''] then AccelROCm
      else if works [''vulkaninfo'', ''--summary''] then AccelVulkan
      else AccelCPU)"

definition probeExecutable :: "(string \<Rightarrow> gerr option) \<Rightarrow> string \<Rightarrow> gerr option" where
  "probeExecutable probe exe =
     (case probe exe of
        None \<Rightarrow> None
      | Some e \<Rightarrow> Some (Errorw (Fmt ''version probe of %s failed: %w: %s'' [Str exe, error_text e]) [e]))"

definition llama_activate ::
    "install_env \<Rightarrow> string \<Rightarrow> string \<Rightarrow> accel \<Rightarrow> string \<Rightarrow> payload \<Rightarrow> fs \<Rightarrow> (gerr + install_record) \<times> fs" where
  "llama_activate v root version acc staging py fs =
     (let final = Join [root, version, en_goos v @ ''-'' @ en_goarch v @ ''-'' @ accel_text acc]
      in if \<not> ManagedPath root final then (Inl (Errorw (Fmt ''unsafe install path %q'' [Str final]) []), fs)
         else (case MkdirAll (en_io v) (Dir final) fs of
             (Some e, fs1) \<Rightarrow> (Inl e, fs1)
           | (None, fs1) \<Rightarrow>
               (case Rel staging (py_executable py) of
                  None \<Rightarrow> (Inl (Errorw (Fmt ''Rel: can't make %s relative to %s'' [Str (py_executable py), Str staging]) []), fs1)
                | Some relExe \<Rightarrow>
                    (case RemoveAll (en_io v) final fs1 of
                       (Some e, fs2) \<Rightarrow> (Inl (wrap ''replace install: %w'' e), fs2)
                     | (None, fs2) \<Rightarrow>
                         (case Rename (en_io v) staging final fs2 of
                            (Some e, fs3) \<Rightarrow> (Inl (wrap ''activate install: %w'' e), fs3)
                          | (None, fs3) \<Rightarrow>
                              (Inr \<lparr>ir_backend = llama_name, ir_version = version, ir_source = py_source py,
                                    ir_digest = py_digest py, ir_platform = en_goos v @ ''/'' @ en_goarch v,
                                    ir_accelerator = accel_text acc, ir_directory = final,
                                    ir_executable = Join [final, relExe], ir_installed_at = en_now v\<rparr>, fs3))))))"

text \<open>The staging directory, under a name chosen at random, is removed whatever happens.\<close>

definition provision ::
    "install_env \<Rightarrow> fetcher \<Rightarrow> (string \<Rightarrow> gerr option) \<Rightarrow> string \<Rightarrow> install_state \<Rightarrow> release \<Rightarrow> accel \<Rightarrow> fs
       \<Rightarrow> (gerr + install_result) \<times> fs" where
  "provision v fe probe root current rel acc fs =
     (let staging = Join [root, ''.staging-'' @ io_temp (en_io v)];
          cleanup = (\<lambda>f. snd (RemoveAll (en_io v) staging f))
      in case Mkdir (en_io v) staging fs of
           (Some e, fs1) \<Rightarrow> (Inl e, fs1)
         | (None, fs1) \<Rightarrow>
             (case fe_fetch fe rel acc staging fs1 of
                (Inl e, fs2) \<Rightarrow> (Inl e, cleanup fs2)
              | (Inr py, fs2) \<Rightarrow>
                  (case probeExecutable probe (py_executable py) of
                     Some e \<Rightarrow> (Inl e, cleanup fs2)
                   | None \<Rightarrow>
                       (case llama_activate v root (re_version rel) acc staging py fs2 of
                          (Inl e, fs3) \<Rightarrow> (Inl e, cleanup fs3)
                        | (Inr new, fs3) \<Rightarrow>
                            (case record_install v root current new (''installed llama.cpp '' @ ir_version new) fs3 of
                               (r, fs4) \<Rightarrow> (r, cleanup fs4))))))"

definition llama_install ::
    "install_env \<Rightarrow> fetcher \<Rightarrow> (string list \<Rightarrow> bool) \<Rightarrow> (string \<Rightarrow> gerr option) \<Rightarrow> string \<Rightarrow> install_options \<Rightarrow> fs
       \<Rightarrow> (gerr + install_result) \<times> fs" where
  "llama_install v fe works probe own opts fs =
     (case resolve_root v own llama_name of
        Inl e \<Rightarrow> (Inl e, fs)
      | Inr root \<Rightarrow>
          (case MkdirAll (en_io v) root fs of
             (Some e, fs1) \<Rightarrow> (Inl (wrap ''create engine root: %w'' e), fs1)
           | (None, fs1) \<Rightarrow>
               (case ReadInstallState (en_codec v) (en_io v) root fs1 of
                  Inl e \<Rightarrow> (Inl e, fs1)
                | Inr current \<Rightarrow>
                    if io_upgrade opts \<and> is_active current = None then (Inl llama_ErrNoManagedInstall, fs1)
                    else
                      (let acc = detect (en_goos v) works
                       in case fe_resolve fe acc (io_version opts) of
                            Inl e \<Rightarrow> (Inl e, fs1)
                          | Inr rel \<Rightarrow>
                              (case is_active current of
                                 Some a \<Rightarrow>
                                   if ir_version a = re_version rel \<and> ir_accelerator a = accel_text acc \<and> \<not> io_force opts
                                   then (Inr (unchanged_install (re_version rel) (ir_executable a)
                                               (''llama.cpp '' @ re_version rel @ '' already installed'')), fs1)
                                   else provision v fe probe root current rel acc fs1
                               | None \<Rightarrow> provision v fe probe root current rel acc fs1)))))"

definition llama_Rollback :: "install_env \<Rightarrow> (string \<Rightarrow> gerr option) \<Rightarrow> string \<Rightarrow> fs \<Rightarrow> (gerr + install_result) \<times> fs" where
  "llama_Rollback v probe own fs =
     (case resolve_root v own llama_name of
        Inl e \<Rightarrow> (Inl e, fs)
      | Inr root \<Rightarrow>
          RollbackInstall (en_codec v) (en_io v) root (\<lambda>rec. probeExecutable probe (ir_executable rec)) fs)"

text \<open>\<open>look\<close> is \<^verbatim>\<open>exec.LookPath\<close>.\<close>

definition llama_InstallStatus :: "install_env \<Rightarrow> (string \<Rightarrow> string option) \<Rightarrow> string \<Rightarrow> llama \<Rightarrow> fs \<Rightarrow> gerr + install_status" where
  "llama_InstallStatus v look own b fs =
     (case resolve_root v own llama_name of
        Inl e \<Rightarrow> Inl e
      | Inr root \<Rightarrow>
          (case ManagedStatus (en_codec v) (en_io v) root fs of
             Inl e \<Rightarrow> Inl e
           | Inr (st, True) \<Rightarrow> Inr st
           | Inr (st, False) \<Rightarrow>
               (case look (lo_executable (ll_opts b)) of
                  None \<Rightarrow> Inr not_installed
                | Some path \<Rightarrow> Inr (not_installed\<lparr>it_installed := True, it_path := path\<rparr>))))"

definition llama_VerifyInstall :: "io_env \<Rightarrow> install_record \<Rightarrow> fs \<Rightarrow> digest_verification \<times> gerr option" where
  "llama_VerifyInstall io record fs = VerifyRecordedDigest io record (ir_executable record) fs"

section \<open>MLX\<close>

definition mlx_ManagedVersion :: string where "mlx_ManagedVersion = ''0.31.3''"

definition mlx_ErrNoManagedInstall :: gerr where
  "mlx_ErrNoManagedInstall = Sentinel (OtherSentinel ''no managed MLX install'')"

definition mlx_ErrUnlockedVersion :: gerr where
  "mlx_ErrUnlockedVersion = Sentinel (OtherSentinel ''unlocked mlx-lm version'')"

definition importProbe :: string where "importProbe = ''import mlx_lm, mlx_lm.server''"

definition lockFileName :: string where "lockFileName = ''requirements.lock''"

definition mlx_probe :: "shell \<Rightarrow> string \<Rightarrow> fs \<Rightarrow> gerr option \<times> fs" where
  "mlx_probe sh python fs =
     (case sh [] [python, ''-c'', importProbe] fs of
        (None, fs') \<Rightarrow> (None, fs') | (Some e, fs') \<Rightarrow> (Some (wrap ''validate mlx-lm: %w'' e), fs'))"

record install_inspection =
  ii_state :: install_state
  ii_dir :: string
  ii_python :: string
  ii_stat :: "gerr option"
  ii_version :: string

definition inspectInstall :: "install_env \<Rightarrow> string \<Rightarrow> install_options \<Rightarrow> fs \<Rightarrow> gerr + install_inspection" where
  "inspectInstall v root opts fs =
     (case ReadInstallState (en_codec v) (en_io v) root fs of
        Inl e \<Rightarrow> Inl e
      | Inr s \<Rightarrow>
          (let version = cmp_or (io_version opts) mlx_ManagedVersion;
               dir = Join [root, ''venv-'' @ version]; python = Join [dir, ''bin'', ''python'']
           in if version \<noteq> mlx_ManagedVersion
              then Inl (Errorw (Fmt ''%w: mlx-lm %s is not installable; this build pins the locked set for mlx-lm %s''
                          [Str version, Str mlx_ManagedVersion]) [mlx_ErrUnlockedVersion])
              else if io_upgrade opts \<and> is_active s = None then Inl mlx_ErrNoManagedInstall
              else Inr \<lparr>ii_state = s, ii_dir = dir, ii_python = python,
                        ii_stat = err_of (Stat (en_io v) python fs), ii_version = version\<rparr>))"

definition validateHost :: "install_env \<Rightarrow> gerr option" where
  "validateHost v =
     (if en_goos v = ''darwin'' \<and> en_goarch v = ''arm64'' then None
      else Some (Errorw (Fmt ''mlx-lm requires darwin/arm64; current host is %s/%s'' [Str (en_goos v), Str (en_goarch v)]) []))"

definition ensureEnvironment ::
    "install_env \<Rightarrow> shell \<Rightarrow> string \<Rightarrow> string \<Rightarrow> string \<Rightarrow> gerr option \<Rightarrow> fs \<Rightarrow> gerr option \<times> fs" where
  "ensureEnvironment v sh exe root python stat fs =
     (case stat of
        None \<Rightarrow> (None, fs)
      | Some e0 \<Rightarrow>
          if \<not> errors_is e0 ErrNotExist then (Some e0, fs)
          else (case run_shown v sh root exe [''-m'', ''venv'', Dir (Dir python)] fs of
              (Some e, fs1) \<Rightarrow> (Some (wrap ''create Python environment: %w'' e), fs1)
            | (None, fs1) \<Rightarrow>
                (case Stat (en_io v) python fs1 of
                   Inl e \<Rightarrow> (Some (wrap ''managed Python was not created: %w'' e), fs1) | Inr _ \<Rightarrow> (None, fs1))))"

text \<open>\<^verbatim>\<open>os.WriteFile\<close>: through a link, keeping the mode of a file that exists.\<close>

fun resolve_link :: "nat \<Rightarrow> fs \<Rightarrow> string \<Rightarrow> string" where
  "resolve_link fuel fs p =
     (case map_of fs p of
        Some (NLink q) \<Rightarrow> (case fuel of 0 \<Rightarrow> p | Suc n \<Rightarrow> resolve_link n fs q)
      | _ \<Rightarrow> p)"

declare resolve_link.simps [simp del]

definition os_WriteFile :: "io_env \<Rightarrow> string \<Rightarrow> string \<Rightarrow> nat \<Rightarrow> fs \<Rightarrow> gerr option \<times> fs" where
  "os_WriteFile io path data perm fs =
     (case io_fail io (OpWriteFile path) of
        Some e \<Rightarrow> (Some e, fs)
      | None \<Rightarrow>
          (let p = resolve_link 40 fs path
           in case map_of fs p of
                Some (NFile _ m) \<Rightarrow> (None, al_put p (NFile data m) fs)
              | Some _ \<Rightarrow> (Some (wrong_kind p), fs)
              | None \<Rightarrow> if follow 40 fs (Dir p) = Some NDir then (None, al_put p (NFile data perm) fs)
                        else (Some (not_exist p), fs)))"

text \<open>\<open>lock\<close> is the pinned package set the program carries.\<close>

definition installPackage ::
    "install_env \<Rightarrow> shell \<Rightarrow> string \<Rightarrow> string \<Rightarrow> install_inspection \<Rightarrow> fs \<Rightarrow> (gerr + install_result) \<times> fs" where
  "installPackage v sh lock root i fs =
     (let file = Join [ii_dir i, lockFileName]
      in case os_WriteFile (en_io v) file lock 384 fs of
           (Some e, fs1) \<Rightarrow> (Inl e, fs1)
         | (None, fs1) \<Rightarrow>
             (case run_shown v sh root (ii_python i) [''-m'', ''pip'', ''install'', ''--no-deps'', ''-r'', file] fs1 of
                (Some e, fs2) \<Rightarrow>
                  (Inl (Errorw (Fmt ''install locked mlx-lm %s: %w'' [Str (ii_version i), error_text e]) [e]), fs2)
              | (None, fs2) \<Rightarrow>
                  (case mlx_probe sh (ii_python i) fs2 of
                     (Some e, fs3) \<Rightarrow> (Inl e, fs3)
                   | (None, fs3) \<Rightarrow>
                       record_install v root (ii_state i)
                         \<lparr>ir_backend = mlx_name, ir_version = ii_version i, ir_source = ''pypi:'' @ lockFileName,
                          ir_digest = ''sha256:'' @ io_sha (en_io v) lock, ir_platform = en_goos v @ ''/'' @ en_goarch v,
                          ir_accelerator = [], ir_directory = ii_dir i, ir_executable = ii_python i,
                          ir_installed_at = en_now v\<rparr>
                         (''installed mlx-lm '' @ ii_version i) fs3)))"

definition mlx_install ::
    "install_env \<Rightarrow> shell \<Rightarrow> string \<Rightarrow> string \<Rightarrow> string \<Rightarrow> install_options \<Rightarrow> fs \<Rightarrow> (gerr + install_result) \<times> fs" where
  "mlx_install v sh lock exe own opts fs =
     (case validateHost v of
        Some e \<Rightarrow> (Inl e, fs)
      | None \<Rightarrow>
          (case resolve_root v own mlx_name of
             Inl e \<Rightarrow> (Inl e, fs)
           | Inr root \<Rightarrow>
               (case MkdirAll (en_io v) root fs of
                  (Some e, fs1) \<Rightarrow> (Inl e, fs1)
                | (None, fs1) \<Rightarrow>
                    (case inspectInstall v root opts fs1 of
                       Inl e \<Rightarrow> (Inl e, fs1)
                     | Inr i \<Rightarrow>
                         if (case is_active (ii_state i) of
                               Some a \<Rightarrow> ir_version a = ii_version i \<and> ir_executable a = ii_python i \<and> ii_stat i = None
                             | None \<Rightarrow> False) \<and> \<not> io_force opts
                         then (Inr (unchanged_install (ii_version i) (ii_python i)
                                     (''mlx-lm '' @ ii_version i @ '' already installed'')), fs1)
                         else (case ensureEnvironment v sh exe root (ii_python i) (ii_stat i) fs1 of
                             (Some e, fs2) \<Rightarrow> (Inl e, fs2)
                           | (None, fs2) \<Rightarrow> installPackage v sh lock root i fs2)))))"

text \<open>The probe of a rollback runs with its effects discarded by the model: it only imports.\<close>

definition mlx_Rollback :: "install_env \<Rightarrow> shell \<Rightarrow> string \<Rightarrow> fs \<Rightarrow> (gerr + install_result) \<times> fs" where
  "mlx_Rollback v sh own fs =
     (case resolve_root v own mlx_name of
        Inl e \<Rightarrow> (Inl e, fs)
      | Inr root \<Rightarrow>
          RollbackInstall (en_codec v) (en_io v) root (\<lambda>rec. fst (mlx_probe sh (ir_executable rec) fs)) fs)"

text \<open>\<open>gone\<close>: the context has ended.\<close>

definition mlx_InstallStatus ::
    "install_env \<Rightarrow> shell \<Rightarrow> (string \<Rightarrow> string option) \<Rightarrow> string \<Rightarrow> string \<Rightarrow> bool \<Rightarrow> fs \<Rightarrow> gerr + install_status" where
  "mlx_InstallStatus v sh look exe own gone fs =
     (case resolve_root v own mlx_name of
        Inl e \<Rightarrow> Inl e
      | Inr root \<Rightarrow>
          (case ManagedStatus (en_codec v) (en_io v) root fs of
             Inl e \<Rightarrow> Inl e
           | Inr (st, True) \<Rightarrow> Inr st
           | Inr (st, False) \<Rightarrow>
               (case look exe of
                  None \<Rightarrow> Inr not_installed
                | Some path \<Rightarrow>
                    (case fst (sh [] [path, ''-c'', importProbe] fs) of
                       Some e \<Rightarrow> if gone then Inl (Sentinel CtxCanceled) else Inr not_installed
                     | None \<Rightarrow> Inr (not_installed\<lparr>it_installed := True, it_path := path\<rparr>)))))"

definition mlx_VerifyInstall :: "io_env \<Rightarrow> install_record \<Rightarrow> fs \<Rightarrow> digest_verification \<times> gerr option" where
  "mlx_VerifyInstall io record fs =
     VerifyRecordedDigest io record
       (if ir_directory record \<noteq> [] then Join [ir_directory record, lockFileName] else []) fs"

section \<open>Strata\<close>

definition strata_ManagedVersion :: string where "strata_ManagedVersion = ''v0.1.44.1''"

definition RepositoryURL :: string where "RepositoryURL = ''https://github.com/Niko1221/Strata.git''"

definition strata_ErrNoManagedInstall :: gerr where
  "strata_ErrNoManagedInstall = Sentinel (OtherSentinel ''no managed Strata install'')"

definition strata_probe :: "shell \<Rightarrow> string \<Rightarrow> fs \<Rightarrow> gerr option \<times> fs" where
  "strata_probe sh checkout fs =
     (case sh checkout [venvPython checkout, Join [checkout, ''setup.py''], ''--help''] fs of
        (None, fs') \<Rightarrow> (None, fs') | (Some e, fs') \<Rightarrow> (Some (wrap ''validate Strata checkout: %w'' e), fs'))"

text \<open>The root, its state, and the version asked for.\<close>

definition inspect :: "install_env \<Rightarrow> string \<Rightarrow> install_options \<Rightarrow> fs \<Rightarrow> (gerr + (string \<times> install_state \<times> string)) \<times> fs" where
  "inspect v own opts fs =
     (if en_goos v \<noteq> ''linux''
      then (Inl (Errorw (Fmt ''managed Strata install supports linux; current host is %s'' [Str (en_goos v)]) []), fs)
      else
        (let version = cmp_or (io_version opts) strata_ManagedVersion
         in if has_prefix version ''-'' \<or> contains_str version ''..'' \<or> contains_any version [slash, CHR 0x5C, CHR '' '']
            then (Inl (Errorw (Fmt ''invalid Strata version %q'' [Str version]) []), fs)
            else (case resolve_root v own strata_name of
                Inl e \<Rightarrow> (Inl e, fs)
              | Inr root \<Rightarrow>
                  (case MkdirAll (en_io v) root fs of
                     (Some e, fs1) \<Rightarrow> (Inl e, fs1)
                   | (None, fs1) \<Rightarrow>
                       (case ReadInstallState (en_codec v) (en_io v) root fs1 of
                          Inl e \<Rightarrow> (Inl e, fs1)
                        | Inr s \<Rightarrow>
                            if io_upgrade opts \<and> is_active s = None then (Inl strata_ErrNoManagedInstall, fs1)
                            else (Inr (root, s, version), fs1))))))"

definition current_checkout :: "io_env \<Rightarrow> install_record option \<Rightarrow> string \<Rightarrow> string \<Rightarrow> fs \<Rightarrow> bool" where
  "current_checkout io active version dir fs =
     (case active of
        None \<Rightarrow> False
      | Some a \<Rightarrow> ir_version a = version \<and> ir_directory a = dir \<and> \<not> isl (Stat io (venvPython dir) fs))"

definition clone_checkout :: "install_env \<Rightarrow> shell \<Rightarrow> string \<Rightarrow> string \<Rightarrow> string \<Rightarrow> string \<Rightarrow> fs \<Rightarrow> gerr option \<times> fs" where
  "clone_checkout v sh git root dir version fs =
     (case Stat (en_io v) (Join [dir, ''setup.py'']) fs of
        Inr _ \<Rightarrow> (None, fs)
      | Inl _ \<Rightarrow>
          (case RemoveAll (en_io v) dir fs of
             (Some e, fs1) \<Rightarrow> (Some e, fs1)
           | (None, fs1) \<Rightarrow>
               (case run_shown v sh root git [''clone'', ''--depth'', ''1'', ''--branch'', version, RepositoryURL, dir] fs1 of
                  (Some e, fs2) \<Rightarrow> (Some (Errorw (Fmt ''clone Strata %s: %w'' [Str version, error_text e]) [e]), fs2)
                | (None, fs2) \<Rightarrow> (None, fs2))))"

definition make_venv :: "install_env \<Rightarrow> shell \<Rightarrow> string \<Rightarrow> string \<Rightarrow> fs \<Rightarrow> gerr option \<times> fs" where
  "make_venv v sh python dir fs =
     (case Stat (en_io v) (venvPython dir) fs of
        Inr _ \<Rightarrow> (None, fs)
      | Inl _ \<Rightarrow>
          (case run_shown v sh dir python [''-m'', ''venv'', Join [dir, ''.venv'']] fs of
             (Some e, fs1) \<Rightarrow> (Some (wrap ''create Python environment: %w'' e), fs1)
           | (None, fs1) \<Rightarrow> (None, fs1)))"

definition prepare_checkout ::
    "install_env \<Rightarrow> shell \<Rightarrow> string \<Rightarrow> string \<Rightarrow> string \<Rightarrow> string \<Rightarrow> string \<Rightarrow> fs \<Rightarrow> gerr option \<times> fs" where
  "prepare_checkout v sh git python root dir version fs =
     (case clone_checkout v sh git root dir version fs of
        (Some e, fs1) \<Rightarrow> (Some e, fs1)
      | (None, fs1) \<Rightarrow>
          (case make_venv v sh python dir fs1 of
             (Some e, fs2) \<Rightarrow> (Some e, fs2)
           | (None, fs2) \<Rightarrow>
               (case run_shown v sh dir (venvPython dir)
                       [''-m'', ''pip'', ''install'', ''-r'', Join [dir, ''requirements.txt'']] fs2 of
                  (Some e, fs3) \<Rightarrow> (Some (wrap ''install Strata requirements: %w'' e), fs3)
                | (None, fs3) \<Rightarrow> strata_probe sh dir fs3)))"

definition strata_record :: "install_env \<Rightarrow> string \<Rightarrow> string \<Rightarrow> install_record" where
  "strata_record v dir version =
     \<lparr>ir_backend = strata_name, ir_version = version, ir_source = RepositoryURL @ ''@'' @ version, ir_digest = [],
      ir_platform = en_goos v @ ''/'' @ en_goarch v, ir_accelerator = [], ir_directory = dir,
      ir_executable = venvPython dir, ir_installed_at = en_now v\<rparr>"

definition strata_install ::
    "install_env \<Rightarrow> shell \<Rightarrow> string \<Rightarrow> string \<Rightarrow> string \<Rightarrow> install_options \<Rightarrow> fs \<Rightarrow> (gerr + install_result) \<times> fs" where
  "strata_install v sh git python own opts fs =
     (case inspect v own opts fs of
        (Inl e, fs1) \<Rightarrow> (Inl e, fs1)
      | (Inr (root, s, version), fs1) \<Rightarrow>
          (let dir = Join [root, ''src-'' @ version]
           in if current_checkout (en_io v) (is_active s) version dir fs1 \<and> \<not> io_force opts
              then (Inr (unchanged_install version (venvPython dir) (''strata '' @ version @ '' already installed'')), fs1)
              else (case prepare_checkout v sh git python root dir version fs1 of
                  (Some e, fs2) \<Rightarrow> (Inl e, fs2)
                | (None, fs2) \<Rightarrow>
                    record_install v root s (strata_record v dir version) (''installed strata '' @ version) fs2)))"

definition strata_Rollback :: "install_env \<Rightarrow> shell \<Rightarrow> string \<Rightarrow> fs \<Rightarrow> (gerr + install_result) \<times> fs" where
  "strata_Rollback v sh own fs =
     (case resolve_root v own strata_name of
        Inl e \<Rightarrow> (Inl e, fs)
      | Inr root \<Rightarrow>
          RollbackInstall (en_codec v) (en_io v) root (\<lambda>rec. fst (strata_probe sh (ir_directory rec) fs)) fs)"

definition strata_InstallStatus :: "install_env \<Rightarrow> string \<Rightarrow> fs \<Rightarrow> gerr + install_status" where
  "strata_InstallStatus v own fs =
     (case resolve_root v own strata_name of
        Inl e \<Rightarrow> Inl e
      | Inr root \<Rightarrow>
          (case ManagedStatus (en_codec v) (en_io v) root fs of Inl e \<Rightarrow> Inl e | Inr (st, _) \<Rightarrow> Inr st))"

section \<open>The control plane\<close>

text \<open>The three methods of a backend that manage its engine.\<close>

record engine_manager =
  em_install :: "install_options \<Rightarrow> fs \<Rightarrow> (gerr + install_result) \<times> fs"
  em_rollback :: "fs \<Rightarrow> (gerr + install_result) \<times> fs"
  em_status :: "fs \<Rightarrow> gerr + install_status"

definition llama_manager ::
    "install_env \<Rightarrow> fetcher \<Rightarrow> (string list \<Rightarrow> bool) \<Rightarrow> (string \<Rightarrow> gerr option) \<Rightarrow> (string \<Rightarrow> string option) \<Rightarrow> string
       \<Rightarrow> llama \<Rightarrow> engine_manager" where
  "llama_manager v fe works probe look own b =
     \<lparr>em_install = llama_install v fe works probe own, em_rollback = llama_Rollback v probe own,
      em_status = llama_InstallStatus v look own b\<rparr>"

definition mlx_manager ::
    "install_env \<Rightarrow> shell \<Rightarrow> string \<Rightarrow> (string \<Rightarrow> string option) \<Rightarrow> string \<Rightarrow> string \<Rightarrow> bool \<Rightarrow> engine_manager" where
  "mlx_manager v sh lock look exe own gone =
     \<lparr>em_install = mlx_install v sh lock exe own, em_rollback = mlx_Rollback v sh own,
      em_status = mlx_InstallStatus v sh look exe own gone\<rparr>"

definition strata_manager :: "install_env \<Rightarrow> shell \<Rightarrow> string \<Rightarrow> string \<Rightarrow> string \<Rightarrow> engine_manager" where
  "strata_manager v sh git python own =
     \<lparr>em_install = strata_install v sh git python own, em_rollback = strata_Rollback v sh own,
      em_status = strata_InstallStatus v own\<rparr>"

text \<open>\<open>mgrs\<close> gives the methods of a registered backend, by its name.\<close>

definition installAction ::
    "deps \<Rightarrow> (string \<Rightarrow> engine_manager) \<Rightarrow> string \<Rightarrow> string \<Rightarrow> (engine_manager \<Rightarrow> fs \<Rightarrow> (gerr + install_result) \<times> fs) \<Rightarrow> world
       \<Rightarrow> (gerr + install_result) \<times> world" where
  "installAction e mgrs action name act w =
     (case mgr_Backend (e_registry e) name of
        Inl er \<Rightarrow> (Inl er, recording action (Some er) w)
      | Inr b \<Rightarrow>
          (case act (mgrs name) (w_fs w) of
             (Inl er, fs) \<Rightarrow> (Inl (core_wrap ErrorRuntime er), recording action (Some (core_wrap ErrorRuntime er)) (set_fs fs w))
           | (Inr r, fs) \<Rightarrow> (Inr r, recording action None (set_fs fs w))))"

definition InstallBackend ::
    "deps \<Rightarrow> (string \<Rightarrow> engine_manager) \<Rightarrow> string \<Rightarrow> install_options \<Rightarrow> world \<Rightarrow> (gerr + install_result) \<times> world" where
  "InstallBackend e mgrs name opts w = installAction e mgrs ''backend.install'' name (\<lambda>m. em_install m opts) w"

definition RollbackBackend ::
    "deps \<Rightarrow> (string \<Rightarrow> engine_manager) \<Rightarrow> string \<Rightarrow> world \<Rightarrow> (gerr + install_result) \<times> world" where
  "RollbackBackend e mgrs name w = installAction e mgrs ''backend.rollback'' name em_rollback w"

definition BackendInstallStatus ::
    "deps \<Rightarrow> (string \<Rightarrow> engine_manager) \<Rightarrow> string \<Rightarrow> world \<Rightarrow> gerr + install_status" where
  "BackendInstallStatus e mgrs name w =
     (case mgr_Backend (e_registry e) name of
        Inl er \<Rightarrow> Inl er
      | Inr b \<Rightarrow>
          (case em_status (mgrs name) (w_fs w) of Inl er \<Rightarrow> Inl (core_wrap ErrorRuntime er) | Inr st \<Rightarrow> Inr st))"

section \<open>The state document during an installation\<close>

text \<open>A document that is a plain file no link points to, and whose previous record names neither it nor a path through it.\<close>

definition unlinked :: "string \<Rightarrow> fs \<Rightarrow> bool" where
  "unlinked sp fs \<longleftrightarrow> (\<forall>p. map_of fs p \<noteq> Some (NLink sp))"

definition plain_state :: "install_env \<Rightarrow> string \<Rightarrow> fs \<Rightarrow> install_state \<Rightarrow> bool" where
  "plain_state v root fs s \<longleftrightarrow>
     ReadInstallState (en_codec v) (en_io v) root fs = Inr s \<and>
     (\<nexists>q. map_of fs (state_path root) = Some (NLink q)) \<and> unlinked (state_path root) fs \<and>
     (\<forall>old. is_previous s = Some old \<longrightarrow>
        Clean (ir_directory old) \<noteq> state_path root \<and> Dir (ir_directory old) \<noteq> state_path root)"

text \<open>
  What an installation may do to the document: nothing, or, all else done, put the new record in it with the
  active one behind it; a result that reports a change goes with the second, and names the new record.
\<close>

definition documented :: "install_env \<Rightarrow> string \<Rightarrow> io_env \<Rightarrow> install_state \<Rightarrow> fs \<Rightarrow> (gerr + install_result) \<times> fs \<Rightarrow> bool" where
  "documented v root io2 s fs out \<longleftrightarrow>
     (case out of (r, fs') \<Rightarrow>
        map_of fs' (state_path root) = map_of fs (state_path root) \<and> (\<forall>x. r = Inr x \<longrightarrow> \<not> rs_changed x) \<or>
        (\<exists>new. ReadInstallState (en_codec v) io2 root fs' = Inr \<lparr>is_active = Some new, is_previous = is_active s\<rparr> \<and>
           (\<forall>x. r = Inr x \<longrightarrow> rs_changed x \<and> rs_version x = ir_version new \<and> rs_path x = ir_executable new)))"

locale managed_engine =
  fixes ok :: bool and v :: install_env and root :: string
    and install :: "install_options \<Rightarrow> fs \<Rightarrow> (gerr + install_result) \<times> fs"
  assumes setting: "ok \<Longrightarrow> base_dir root \<and> install_codec_ok (en_codec v)"
    and law: "ok \<Longrightarrow> plain_state v root fs s \<Longrightarrow> calm io2 \<Longrightarrow> documented v root io2 s fs (install opts fs)"
begin

lemma failed_install:
  assumes ok "plain_state v root fs s" "calm io2" "install opts fs = (Inl e, fs')"
  shows "map_of fs' (state_path root) = map_of fs (state_path root) \<or>
    (\<exists>new. ReadInstallState (en_codec v) io2 root fs' = Inr \<lparr>is_active = Some new, is_previous = is_active s\<rparr>)"
  using law [OF assms(1-3), of opts] assms(4) by (auto simp: documented_def)

lemma changed_install:
  assumes ok "plain_state v root fs s" "calm io2" "install opts fs = (Inr r, fs')" "rs_changed r"
  shows "\<exists>new. ReadInstallState (en_codec v) io2 root fs' = Inr \<lparr>is_active = Some new, is_previous = is_active s\<rparr> \<and>
    rs_version r = ir_version new \<and> rs_path r = ir_executable new"
  using law [OF assms(1-3), of opts] assms(4,5) by (auto simp: documented_def)

lemma install_then_rollback:
  assumes ok "plain_state v root fs s" "calm io2" "install opts fs = (Inr r, fs1)" "rs_changed r" "is_active s = Some a"
    and rb: "RollbackInstall (en_codec v) io2 root verify fs1 = (Inr r2, fs2)"
  shows "rs_version r2 = ir_version a \<and> rs_path r2 = ir_executable a \<and>
    (\<exists>new. ReadInstallState (en_codec v) io2 root fs2 = Inr \<lparr>is_active = Some a, is_previous = Some new\<rparr> \<and>
       rs_version r = ir_version new)"
proof -
  obtain new where n: "ReadInstallState (en_codec v) io2 root fs1 = Inr \<lparr>is_active = Some new, is_previous = Some a\<rparr>"
    "rs_version r = ir_version new" using changed_install [OF assms(1-5)] assms(6) by auto
  from RollbackInstall_written [OF rb] n(1) obtain w where
    w: "WriteInstallState (en_codec v) io2 root \<lparr>is_active = Some a, is_previous = Some new\<rparr> fs1 = (w, fs2)"
    "(Inr r2 :: gerr + install_result) = (case w of Some e \<Rightarrow> Inl e | None \<Rightarrow>
       Inr \<lparr>rs_version = ir_version a, rs_path = ir_executable a, rs_changed = True,
            rs_message = ''rolled back to '' @ ir_backend a @ '' '' @ ir_version a\<rparr>)"
    by auto
  then have "w = None" by (auto split: option.splits)
  then show ?thesis
    using w WriteInstallState_done [OF _ _ _ assms(3)] setting [OF assms(1)] n(2) by auto
qed

end

lemma state_not_ancestor: "base_dir root \<Longrightarrow> state_path root \<notin> set (ancestors root)"
  using target_not_ancestor [of root "''state.json''"] base_state_path [of root] by (simp add: slash_def)

lemma MkdirAll_frame:
  "MkdirAll io d fs = (r, fs') \<Longrightarrow> map_of fs' q = map_of fs q \<or> (q \<in> set (ancestors d) \<and> map_of fs q = None \<and> map_of fs' q = Some NDir)"
  unfolding MkdirAll_def by (rule mkdirs_frame)

lemma MkdirAll_root:
  assumes "MkdirAll io root fs = (r, fs')" "base_dir root"
  shows "map_of fs' (state_path root) = map_of fs (state_path root)" "unlinked (state_path root) fs \<Longrightarrow> unlinked (state_path root) fs'"
proof -
  show "map_of fs' (state_path root) = map_of fs (state_path root)"
    using MkdirAll_frame [OF assms(1), of "state_path root"] state_not_ancestor [OF assms(2)] by auto
  show "unlinked (state_path root) fs \<Longrightarrow> unlinked (state_path root) fs'"
    unfolding unlinked_def
  proof
    fix p assume u: "\<forall>p. map_of fs p \<noteq> Some (NLink (state_path root))"
    show "map_of fs' p \<noteq> Some (NLink (state_path root))" using MkdirAll_frame [OF assms(1), of p] u by auto
  qed
qed

lemma plain_state_mkdir:
  assumes "MkdirAll io root fs = (r, fs')" "base_dir root" "plain_state v root fs s"
  shows "plain_state v root fs' s"
  using assms(3) MkdirAll_root [OF assms(1,2)] ReadInstallState_cong [of fs' root fs]
  by (auto simp: plain_state_def)

lemma base_dir_inj: "base_dir a \<Longrightarrow> base_dir b \<Longrightarrow> elems a = elems b \<Longrightarrow> a = b"
  unfolding base_dir_def by (metis Clean_eq_iff)

lemma retire_keeps_state:
  assumes "base_dir root" "plain_state v root fs0 s"
  shows "map_of (RetirePrevious io root s keep fs) (state_path root) = map_of fs (state_path root)"
proof (rule ccontr)
  let ?sp = "state_path root"
  assume ch: "map_of (RetirePrevious io root s keep fs) ?sp \<noteq> map_of fs ?sp"
  from ch obtain old where old: "is_previous s = Some old" "ManagedPath root (ir_directory old)"
    "ir_directory old \<noteq> []" by (auto simp: RetirePrevious_def split: option.splits if_splits)
  let ?c = "ir_directory old"
  have r: "rooted root" "Clean root = root" "elems root \<noteq> []" using assms(1) by (auto simp: base_dir_def)
  have c: "rooted ?c" using ManagedPath_rooted [OF r(1) old(2)] .
  obtain ts where ts: "ts \<noteq> []" "elems ?c = elems root @ ts" using ManagedPath_contained [OF r(1) c old(2)] by blast
  have ne: "Clean ?c \<noteq> ?sp" "Dir ?c \<noteq> ?sp" using assms(2) old(1) by (auto simp: plain_state_def)
  have "\<exists>o'. is_previous s = Some o' \<and> (under (Clean (ir_directory o')) ?sp \<or> ?sp = Dir (ir_directory o'))"
    using retirement_frame [OF assms(1) ch] by blast
  then have "under (Clean ?c) ?sp" using ne old(1) by auto
  then obtain t where t: "?sp = Clean ?c @ slash # t" using under_cases ne(1) by metis
  have "Clean ?c = mk_path True (elems root @ ts)" using c ts(2) by (simp add: Clean_def)
  then have "Clean ?c = root @ slash # join_with [slash] ts"
    using mk_path_under [OF r(3) ts(1)] r(1,2) by (simp add: Clean_def)
  then have "''state.json'' = join_with [slash] ts @ slash # t" using t base_state_path [OF assms(1)] by simp
  then have "slash \<in> set ''state.json''" by (metis in_set_conv_decomp)
  then show False by (simp add: slash_def)
qed

definition unlinked_state :: "string \<Rightarrow> fs \<Rightarrow> bool" where
  "unlinked_state root fs \<longleftrightarrow> (\<nexists>q. map_of fs (state_path root) = Some (NLink q))"

lemma documented_same:
  "map_of fs' (state_path root) = map_of fs (state_path root) \<Longrightarrow> documented v root io2 s fs (Inl e, fs')"
  by (simp add: documented_def)

lemma record_install_documented:
  assumes "record_install v root s new msg fs = (r, fs')" "plain_state v root fs0 s"
    "map_of fs (state_path root) = map_of fs0 (state_path root)"
    and root: "base_dir root" and codec: "install_codec_ok (en_codec v)" and calm: "calm io2"
  shows "documented v root io2 s fs0 (r, fs') \<and> unlinked_state root fs'"
proof -
  let ?sp = "state_path root" and ?s = "\<lparr>is_active = Some new, is_previous = is_active s\<rparr>"
  obtain f where f: "f = RetirePrevious (en_io v) root s (ir_directory new) fs"
    "map_of f ?sp = map_of fs0 ?sp" using retire_keeps_state [OF root assms(2)] assms(3) by metis
  obtain w where w: "WriteInstallState (en_codec v) (en_io v) root ?s f = (w, fs')"
    "r = (case w of Some e \<Rightarrow> Inl e | None \<Rightarrow>
        Inr \<lparr>rs_version = ir_version new, rs_path = ir_executable new, rs_changed = True, rs_message = msg\<rparr>)"
    using assms(1) f(1) by (auto simp: record_install_def split: prod.splits option.splits)
  have nl: "\<nexists>q. map_of fs0 ?sp = Some (NLink q)" using assms(2) by (simp add: plain_state_def)
  note neq = temp_state_neq [OF root, of "en_io v"]
  from WriteInstallState_cases [OF w(1) root] consider
      (same) e where "w = Some e" "map_of fs' ?sp = map_of f ?sp"
    | (new) data where "ic_encode (en_codec v) ?s = Inr data" "map_of fs' ?sp = Some (NFile (data @ [newline]) 384)"
    using neq by (auto simp: abandoned_def replaced_def split: if_splits)
  then show ?thesis
  proof cases
    case same
    then show ?thesis using w(2) f(2) nl by (simp add: documented_def unlinked_state_def)
  next
    case (new data)
    then have "ReadInstallState (en_codec v) io2 root fs' = Inr ?s"
      using codec calm by (simp add: ReadInstallState_def ReadFile_def follow_plain install_codec_ok_def)
    then show ?thesis using w(2) new(2) by (cases w) (auto simp: documented_def unlinked_state_def)
  qed
qed

lemma documented_cong:
  assumes "documented v root io2 s fs (r, f) \<and> unlinked_state root f" "map_of f' (state_path root) = map_of f (state_path root)"
  shows "documented v root io2 s fs (r, f')"
proof -
  have "ReadInstallState (en_codec v) io2 root f' = ReadInstallState (en_codec v) io2 root f"
    using assms by (intro ReadInstallState_cong) (auto simp: unlinked_state_def)
  then show ?thesis using assms by (simp add: documented_def)
qed

section \<open>llama.cpp keeps the contract\<close>

lemma state_path_elems:
  assumes "base_dir root"
  shows "base_dir (state_path root)" "elems (state_path root) = elems root @ [''state.json'']"
  using base_dir_Join [OF assms, of "''state.json''"] by (auto simp: state_path_def plain_elem_def dotdot_def slash_def)

lemma not_under_state:
  assumes "base_dir root" "c \<noteq> ''state.json''" and r: "r = [] \<or> hd r = slash"
  shows "\<not> under (root @ slash # c @ r) (state_path root)"
proof
  assume "under (root @ slash # c @ r) (state_path root)"
  then have "\<exists>t. ''state.json'' = c @ r @ t \<and> (t = [] \<or> hd t = slash)"
    by (auto dest!: under_cases simp: base_state_path [OF assms(1)])
  then obtain t where t: "''state.json'' = c @ r @ t" "t = [] \<or> hd t = slash" by blast
  have "r @ t = []"
  proof (rule ccontr)
    assume "r @ t \<noteq> []"
    then have "hd (r @ t) = slash" using r t(2) by (cases r) auto
    then have "slash \<in> set ''state.json''" using \<open>r @ t \<noteq> []\<close> t(1) by (cases "r @ t") auto
    then show False by (simp add: slash_def)
  qed
  then show False using t(1) assms(2) by simp
qed

lemma move_tree_frame: "\<not> under q x \<Longrightarrow> \<not> under p x \<Longrightarrow> map_of (move_tree p q fs) x = map_of fs x"
proof (induction fs)
  case (Cons e fs)
  obtain r n where e: "e = (r, n)" by (cases e)
  show ?case
  proof (cases "under q r")
    case True
    then show ?thesis using Cons e by (auto simp: move_tree_def)
  next
    case False
    have "q @ drop (length p) r \<noteq> x" if "under p r"
      using that Cons.prems(1) by (auto dest!: under_cases simp: under_append)
    then show ?thesis using False Cons e by (auto simp: move_tree_def)
  qed
qed (simp add: move_tree_def)

lemma Rename_frame:
  "Rename io p q fs = (r, fs') \<Longrightarrow> \<not> under q x \<Longrightarrow> \<not> under p x \<Longrightarrow> map_of fs' x = map_of fs x"
  using under_refl [of q] under_refl [of p]
  by (auto simp: Rename_def move_tree_frame split: option.splits node.splits if_splits)

lemma RemoveAll_frame: "\<not> under p x \<Longrightarrow> map_of (snd (RemoveAll io p fs)) x = map_of fs x"
  by (simp add: RemoveAll_def map_of_filter_keys [where P = "\<lambda>k. \<not> under p k"] split: option.splits)

definition polite_fetcher :: "fetcher \<Rightarrow> bool" where
  "polite_fetcher fe \<longleftrightarrow>
     (\<forall>acc version rel. fe_resolve fe acc version = Inr rel \<longrightarrow> plain_elem (re_version rel) \<and> re_version rel \<noteq> ''state.json'') \<and>
     (\<forall>rel acc dir fs q. \<not> under dir q \<longrightarrow> map_of (snd (fe_fetch fe rel acc dir fs)) q = map_of fs q)"

definition plain_host :: "install_env \<Rightarrow> bool" where
  "plain_host v \<longleftrightarrow> slash \<notin> set (en_goos v) \<and> slash \<notin> set (en_goarch v) \<and> slash \<notin> set (io_temp (en_io v))"

lemma llama_activate_keeps:
  assumes "llama_activate v root version acc staging py fs = (r, fs')" "base_dir root" "plain_host v"
    "plain_elem version" "version \<noteq> ''state.json''" "\<not> under staging (state_path root)"
  shows "map_of fs' (state_path root) = map_of fs (state_path root)"
proof -
  let ?sp = "state_path root" and ?plat = "en_goos v @ ''-'' @ en_goarch v @ ''-'' @ accel_text acc"
  let ?final = "Join [root, version, ?plat]"
  have plat: "plain_elem ?plat"
    using assms(3) by (cases acc) (auto simp: plain_elem_def plain_host_def accel_text_def slash_def dotdot_def
        append_eq_Cons_conv Cons_eq_append_conv)
  have f: "?final = root @ slash # version @ slash # ?plat" by (rule Join_two(2) [OF assms(2,4) plat])
  have nf: "\<not> under ?final ?sp"
    unfolding f by (rule not_under_state [OF assms(2,5)]) simp
  have d: "Dir ?final = root @ slash # version"
    using Dir_base [OF base_dir_Join(1) [OF assms(2,4)], of ?plat] plat Join_base [OF assms(2,4)]
    unfolding f by (simp add: plain_elem_def)
  have anc: "?sp \<notin> set (ancestors (Dir ?final))"
  proof
    assume "?sp \<in> set (ancestors (Dir ?final))"
    moreover have e: "elems (Dir ?final) = elems root @ [version]" "rooted (Dir ?final)"
      using base_dir_Join [OF assms(2,4)] Join_base [OF assms(2,4)] d by (auto simp: base_dir_def)
    ultimately obtain i where i: "?sp = mk_path True (take i (elems root @ [version]))"
      by (auto simp: ancestors_def)
    have cl: "clean_list True (take i (elems root @ [version]))"
      using assms(2,4) rooted_elems_plain [of root] by (auto simp: base_dir_def clean_list_rooted dest!: in_set_takeD)
    have "elems root @ [''state.json''] = take i (elems root @ [version])"
      using state_path_elems(2) [OF assms(2)] elems_mk [OF cl] i by metis
    then have "last (take i (elems root @ [version])) = ''state.json''" "length (take i (elems root @ [version])) = Suc (length (elems root))"
      by (metis last_snoc, metis length_append_singleton)
    then show False using assms(5) by (auto simp: min_def split: if_splits)
  qed
  obtain e1 fs1 where m: "MkdirAll (en_io v) (Dir ?final) fs = (e1, fs1)" by fastforce
  have 1: "map_of fs1 ?sp = map_of fs ?sp" using MkdirAll_frame [OF m, of ?sp] anc by auto
  obtain e2 fs2 where rm: "RemoveAll (en_io v) ?final fs1 = (e2, fs2)" by fastforce
  have 2: "map_of fs2 ?sp = map_of fs1 ?sp" using RemoveAll_frame [OF nf, of "en_io v" fs1] rm by simp
  obtain e3 fs3 where mv: "Rename (en_io v) staging ?final fs2 = (e3, fs3)" by fastforce
  have 3: "map_of fs3 ?sp = map_of fs2 ?sp" by (rule Rename_frame [OF mv nf assms(6)])
  from assms(1) have "fs' = fs \<or> fs' = fs1 \<or> fs' = fs2 \<or> fs' = fs3"
    by (auto simp: llama_activate_def Let_def m [simplified] rm [simplified] mv [simplified]
        split: if_splits option.splits)
  then show ?thesis using 1 2 3 by auto
qed

lemma provision_documented:
  assumes "provision v fe probe root s rel acc fs = (r, fs')" "plain_state v root fs0 s"
    "map_of fs (state_path root) = map_of fs0 (state_path root)"
    and root: "base_dir root" and codec: "install_codec_ok (en_codec v)" and calm: "calm io2"
    and host: "plain_host v" and ver: "plain_elem (re_version rel)" "re_version rel \<noteq> ''state.json''"
    and fetch: "polite_fetcher fe"
  shows "documented v root io2 s fs0 (r, fs')"
proof -
  let ?sp = "state_path root" and ?io = "en_io v"
  let ?st = "Join [root, ''.staging-'' @ io_temp ?io]"
  have pl: "plain_elem (''.staging-'' @ io_temp ?io)"
    using host by (auto simp: plain_elem_def plain_host_def slash_def dotdot_def)
  have st: "?st = root @ slash # (''.staging-'' @ io_temp ?io) @ []" using Join_base [OF root pl] by simp
  have ns: "\<not> under ?st ?sp" unfolding st by (rule not_under_state [OF root]) simp_all
  have clean: "map_of (snd (RemoveAll ?io ?st f)) ?sp = map_of f ?sp" for f by (rule RemoveAll_frame [OF ns])
  obtain e1 fs1 where mk: "Mkdir ?io ?st fs = (e1, fs1)" by fastforce
  have 1: "map_of fs1 ?sp = map_of fs0 ?sp"
    using mk ns assms(3) by (auto simp: Mkdir_def split: option.splits if_splits)
  show ?thesis
  proof (cases e1)
    case (Some e)
    then show ?thesis using assms(1) mk 1 by (auto simp: provision_def Let_def intro: documented_same)
  next
    case None
    obtain q fs2 where ft: "fe_fetch fe rel acc ?st fs1 = (q, fs2)" by fastforce
    have "map_of (snd (fe_fetch fe rel acc ?st fs1)) ?sp = map_of fs1 ?sp"
      using fetch ns by (auto simp: polite_fetcher_def)
    then have 2: "map_of fs2 ?sp = map_of fs0 ?sp" using ft 1 by simp
    show ?thesis
    proof (cases "\<exists>py. q = Inr py \<and> probeExecutable probe (py_executable py) = None")
      case False
      then have "\<exists>e. r = Inl e \<and> fs' = snd (RemoveAll ?io ?st fs2)"
        using assms(1) mk None ft by (auto simp: provision_def Let_def split: sum.splits option.splits)
      then show ?thesis using clean [of fs2] 2 documented_same by metis
    next
      case True
      then obtain py where py: "q = Inr py" "probeExecutable probe (py_executable py) = None" by blast
      obtain a fs3 where ac: "llama_activate v root (re_version rel) acc ?st py fs2 = (a, fs3)" by fastforce
      have 3: "map_of fs3 ?sp = map_of fs0 ?sp" using llama_activate_keeps [OF ac root host ver ns] 2 by simp
      show ?thesis
      proof (cases a)
        case (Inl e)
        then have "r = Inl e \<and> fs' = snd (RemoveAll ?io ?st fs3)"
          using assms(1) mk None ft py ac by (auto simp: provision_def Let_def)
        then show ?thesis using clean [of fs3] 3 documented_same by metis
      next
        case (Inr new)
        obtain r4 fs4 where rc: "record_install v root s new (''installed llama.cpp '' @ ir_version new) fs3 = (r4, fs4)"
          by fastforce
        have "r = r4 \<and> fs' = snd (RemoveAll ?io ?st fs4)"
          using assms(1) mk None ft py ac Inr rc by (auto simp: provision_def Let_def)
        then show ?thesis
          using documented_cong [OF record_install_documented [OF rc assms(2) 3 root codec calm] clean] by simp
      qed
    qed
  qed
qed

lemma documented_unchanged:
  "map_of fs' (state_path root) = map_of fs (state_path root) \<Longrightarrow> \<not> rs_changed x \<Longrightarrow> documented v root io2 s fs (Inr x, fs')"
  by (simp add: documented_def)

lemma llama_install_documented:
  assumes "plain_state v root fs s" "calm io2" and root: "base_dir root" and codec: "install_codec_ok (en_codec v)"
    and host: "plain_host v" and fetch: "polite_fetcher fe" and own: "resolve_root v own llama_name = Inr root"
  shows "documented v root io2 s fs (llama_install v fe works probe own opts fs)"
proof -
  obtain r fs' where i: "llama_install v fe works probe own opts fs = (r, fs')" by fastforce
  obtain e1 fs1 where mk: "MkdirAll (en_io v) root fs = (e1, fs1)" by fastforce
  have 1: "map_of fs1 (state_path root) = map_of fs (state_path root)" by (rule MkdirAll_root [OF mk root])
  have rd: "ReadInstallState (en_codec v) (en_io v) root fs1 = Inr s"
    using plain_state_mkdir [OF mk root assms(1)] by (simp add: plain_state_def)
  let ?acc = "detect (en_goos v) works"
  from i consider (fail) e where "r = Inl e" "fs' = fs1"
    | (same) x where "r = Inr x" "\<not> rs_changed x" "fs' = fs1"
    | (prov) rel where "fe_resolve fe ?acc (io_version opts) = Inr rel"
        "provision v fe probe root s rel ?acc fs1 = (r, fs')"
    by (auto simp: llama_install_def own mk rd Let_def unchanged_install_def split: option.splits if_splits sum.splits)
  then show ?thesis
  proof cases
    case fail
    then show ?thesis using i 1 documented_same by metis
  next
    case same
    then show ?thesis using i 1 documented_unchanged by metis
  next
    case prov
    then have "plain_elem (re_version rel)" "re_version rel \<noteq> ''state.json''"
      using fetch by (auto simp: polite_fetcher_def)
    then show ?thesis using provision_documented [OF prov(2) assms(1) 1 root codec assms(2) host _ _ fetch] i by simp
  qed
qed

section \<open>The Python engines keep the contract\<close>

definition polite :: "string \<Rightarrow> shell \<Rightarrow> bool" where
  "polite sp sh \<longleftrightarrow>
     (\<forall>dir args fs. map_of (snd (sh dir args fs)) sp = map_of fs sp \<and> (unlinked sp fs \<longrightarrow> unlinked sp (snd (sh dir args fs))))"

definition same_state :: "string \<Rightarrow> fs \<Rightarrow> fs \<Rightarrow> bool" where
  "same_state sp fs fs' \<longleftrightarrow> map_of fs' sp = map_of fs sp \<and> (unlinked sp fs \<longrightarrow> unlinked sp fs')"

lemma same_state_refl [simp]: "same_state sp fs fs"
  by (simp add: same_state_def)

lemma same_state_trans [trans]: "same_state sp a b \<Longrightarrow> same_state sp b c \<Longrightarrow> same_state sp a c"
  by (simp add: same_state_def)

lemma polite_same: "polite sp sh \<Longrightarrow> sh dir args fs = (e, fs') \<Longrightarrow> same_state sp fs fs'"
  unfolding polite_def same_state_def by (metis snd_conv)

lemma run_shown_same: "polite sp sh \<Longrightarrow> run_shown v sh dir name args fs = (e, fs') \<Longrightarrow> same_state sp fs fs'"
  by (auto simp: run_shown_def polite_same split: option.splits)

lemma mlx_probe_same: "polite sp sh \<Longrightarrow> mlx_probe sh python fs = (e, fs') \<Longrightarrow> same_state sp fs fs'"
  by (auto simp: mlx_probe_def polite_same split: prod.splits option.splits)

lemma strata_probe_same: "polite sp sh \<Longrightarrow> strata_probe sh dir fs = (e, fs') \<Longrightarrow> same_state sp fs fs'"
  by (auto simp: strata_probe_def polite_same split: prod.splits option.splits)

lemma resolve_link_unlinked: "unlinked sp fs \<Longrightarrow> p \<noteq> sp \<Longrightarrow> resolve_link k fs p \<noteq> sp"
proof (induction k arbitrary: p)
  case 0
  then show ?case by (auto simp: resolve_link.simps split: option.splits node.splits)
next
  case (Suc k)
  then have "q \<noteq> sp" if "map_of fs p = Some (NLink q)" for q using that by (auto simp: unlinked_def)
  then show ?case using Suc by (auto simp: resolve_link.simps [of "Suc k"] split: option.splits node.splits)
qed

lemma os_WriteFile_same:
  assumes "os_WriteFile io path data perm fs = (e, fs')" "unlinked sp fs" "path \<noteq> sp"
  shows "same_state sp fs fs'"
proof -
  have "resolve_link 40 fs path \<noteq> sp" by (rule resolve_link_unlinked [OF assms(2,3)])
  then show ?thesis using assms(1,2)
    by (auto simp: os_WriteFile_def Let_def same_state_def unlinked_def split: option.splits node.splits if_splits)
qed

lemma ensureEnvironment_same:
  "polite sp sh \<Longrightarrow> ensureEnvironment v sh exe root python stat fs = (e, fs') \<Longrightarrow> same_state sp fs fs'"
  by (auto simp: ensureEnvironment_def dest: run_shown_same split: option.splits if_splits prod.splits sum.splits)

lemma clone_checkout_same:
  assumes "polite sp sh" "clone_checkout v sh git root dir version fs = (e, fs')" "\<not> under dir sp"
  shows "same_state sp fs fs'"
proof -
  obtain e1 fs1 where rm: "RemoveAll (en_io v) dir fs = (e1, fs1)" by fastforce
  have "map_of fs1 q = map_of fs q \<or> map_of fs1 q = None" for q
    using rm by (auto simp: RemoveAll_def map_of_filter_keys [where P = "\<lambda>k. \<not> under dir k"]
        split: option.splits if_splits)
  then have 1: "same_state sp fs fs1"
    using RemoveAll_frame [OF assms(3), of "en_io v" fs] rm by (auto simp: same_state_def unlinked_def) (metis option.distinct(1))
  obtain e2 fs2 where r: "run_shown v sh root git [''clone'', ''--depth'', ''1'', ''--branch'', version, RepositoryURL, dir] fs1 = (e2, fs2)"
    by fastforce
  have "fs' = fs \<or> fs' = fs1 \<or> fs' = fs2"
    using assms(2) rm r by (auto simp: clone_checkout_def split: sum.splits option.splits)
  then show ?thesis using 1 run_shown_same [OF assms(1) r] same_state_trans by auto
qed

lemma make_venv_same: "polite sp sh \<Longrightarrow> make_venv v sh python dir fs = (e, fs') \<Longrightarrow> same_state sp fs fs'"
  by (auto simp: make_venv_def dest: run_shown_same split: sum.splits option.splits prod.splits)

lemma prepare_checkout_same:
  assumes "polite sp sh" "prepare_checkout v sh git python root dir version fs = (e, fs')" "\<not> under dir sp"
  shows "same_state sp fs fs'"
proof -
  obtain e1 fs1 where c: "clone_checkout v sh git root dir version fs = (e1, fs1)" by fastforce
  obtain e2 fs2 where m: "make_venv v sh python dir fs1 = (e2, fs2)" by fastforce
  obtain e3 fs3 where p: "run_shown v sh dir (venvPython dir) [''-m'', ''pip'', ''install'', ''-r'', Join [dir, ''requirements.txt'']] fs2 = (e3, fs3)"
    by fastforce
  obtain e4 fs4 where b: "strata_probe sh dir fs3 = (e4, fs4)" by fastforce
  have "fs' = fs1 \<or> fs' = fs2 \<or> fs' = fs3 \<or> fs' = fs4"
    using assms(2) c m p b by (auto simp: prepare_checkout_def split: option.splits)
  then show ?thesis
    using clone_checkout_same [OF assms(1) c assms(3)] make_venv_same [OF assms(1) m] run_shown_same [OF assms(1) p]
      strata_probe_same [OF assms(1) b] same_state_trans by blast
qed

lemma strata_install_documented:
  assumes "plain_state v root fs s" "calm io2" and root: "base_dir root" and codec: "install_codec_ok (en_codec v)"
    and sh: "polite (state_path root) sh" and own: "resolve_root v own strata_name = Inr root"
  shows "documented v root io2 s fs (strata_install v sh git python own opts fs)"
proof -
  let ?sp = "state_path root"
  obtain r fs' where i: "strata_install v sh git python own opts fs = (r, fs')" by fastforce
  obtain e1 fs1 where mk: "MkdirAll (en_io v) root fs = (e1, fs1)" by fastforce
  have 1: "map_of fs1 ?sp = map_of fs ?sp" by (rule MkdirAll_root [OF mk root])
  have rd: "ReadInstallState (en_codec v) (en_io v) root fs1 = Inr s"
    using plain_state_mkdir [OF mk root assms(1)] by (simp add: plain_state_def)
  let ?version = "cmp_or (io_version opts) strata_ManagedVersion"
  let ?dir = "Join [root, ''src-'' @ ?version]"
  from i consider (fail) e f where "r = Inl e" "fs' = f" "f = fs \<or> f = fs1"
    | (same) x where "r = Inr x" "\<not> rs_changed x" "fs' = fs1"
    | (prep) e fs2 where "slash \<notin> set ?version" "prepare_checkout v sh git python root ?dir ?version fs1 = (Some e, fs2)" "r = Inl e" "fs' = fs2"
    | (rec) fs2 where "slash \<notin> set ?version" "prepare_checkout v sh git python root ?dir ?version fs1 = (None, fs2)"
        "record_install v root s (strata_record v ?dir ?version) (''installed strata '' @ ?version) fs2 = (r, fs')"
    by (auto simp: strata_install_def inspect_def own mk rd Let_def unchanged_install_def contains_any_iff
        split: option.splits if_splits prod.splits)
  then show ?thesis
  proof cases
    case fail
    then show ?thesis using i 1 documented_same by metis
  next
    case same
    then show ?thesis using i 1 documented_unchanged by metis
  next
    case prep
    have pl: "plain_elem (''src-'' @ ?version)" using prep(1) by (auto simp: plain_elem_def slash_def dotdot_def)
    have "\<not> under ?dir ?sp" using not_under_state [OF root, of "''src-'' @ ?version" "[]"] Join_base [OF root pl] by simp
    then show ?thesis using prepare_checkout_same [OF sh prep(2)] prep(3,4) i 1
      by (auto simp: same_state_def intro: documented_same)
  next
    case rec
    have pl: "plain_elem (''src-'' @ ?version)" using rec(1) by (auto simp: plain_elem_def slash_def dotdot_def)
    have "\<not> under ?dir ?sp" using not_under_state [OF root, of "''src-'' @ ?version" "[]"] Join_base [OF root pl] by simp
    then have "map_of fs2 ?sp = map_of fs ?sp" using prepare_checkout_same [OF sh rec(2)] 1 by (simp add: same_state_def)
    then show ?thesis using record_install_documented [OF rec(3) assms(1) _ root codec assms(2)] i by simp
  qed
qed

lemma installPackage_documented:
  assumes "installPackage v sh lock root i fs = (r, fs')" "plain_state v root fs0 (ii_state i)"
    "map_of fs (state_path root) = map_of fs0 (state_path root)" "unlinked (state_path root) fs"
    "Join [ii_dir i, lockFileName] \<noteq> state_path root"
    and root: "base_dir root" and codec: "install_codec_ok (en_codec v)" and calm: "calm io2"
    and sh: "polite (state_path root) sh"
  shows "documented v root io2 (ii_state i) fs0 (r, fs')"
proof -
  let ?sp = "state_path root" and ?f = "Join [ii_dir i, lockFileName]"
  obtain e1 fs1 where w: "os_WriteFile (en_io v) ?f lock 384 fs = (e1, fs1)" by fastforce
  obtain e2 fs2 where p: "run_shown v sh root (ii_python i) [''-m'', ''pip'', ''install'', ''--no-deps'', ''-r'', ?f] fs1 = (e2, fs2)"
    by fastforce
  obtain e3 fs3 where b: "mlx_probe sh (ii_python i) fs2 = (e3, fs3)" by fastforce
  have s: "same_state ?sp fs fs1" "same_state ?sp fs1 fs2" "same_state ?sp fs2 fs3"
    using os_WriteFile_same [OF w assms(4,5)] run_shown_same [OF sh p] mlx_probe_same [OF sh b] by auto
  then have m: "map_of fs1 ?sp = map_of fs0 ?sp" "map_of fs2 ?sp = map_of fs0 ?sp" "map_of fs3 ?sp = map_of fs0 ?sp"
    using assms(3) by (auto simp: same_state_def)
  from assms(1) consider (fail) e where "r = Inl e" "fs' = fs1 \<or> fs' = fs2 \<or> fs' = fs3"
    | (rec) new msg where "record_install v root (ii_state i) new msg fs3 = (r, fs')"
    by (auto simp: installPackage_def Let_def w p b split: option.splits)
  then show ?thesis
  proof cases
    case fail
    then show ?thesis using m by (auto intro: documented_same)
  next
    case rec
    show ?thesis using record_install_documented [OF rec assms(2) m(3) root codec calm] by simp
  qed
qed

lemma mlx_install_documented:
  assumes "plain_state v root fs s" "calm io2" and root: "base_dir root" and codec: "install_codec_ok (en_codec v)"
    and sh: "polite (state_path root) sh" and own: "resolve_root v own mlx_name = Inr root"
  shows "documented v root io2 s fs (mlx_install v sh lock exe own opts fs)"
proof -
  let ?sp = "state_path root" and ?dir = "Join [root, ''venv-'' @ mlx_ManagedVersion]"
  obtain r fs' where i: "mlx_install v sh lock exe own opts fs = (r, fs')" by fastforce
  obtain e1 fs1 where mk: "MkdirAll (en_io v) root fs = (e1, fs1)" by fastforce
  have 1: "map_of fs1 ?sp = map_of fs ?sp" by (rule MkdirAll_root [OF mk root])
  have ps: "plain_state v root fs1 s" by (rule plain_state_mkdir [OF mk root assms(1)])
  then have rd: "ReadInstallState (en_codec v) (en_io v) root fs1 = Inr s" by (simp add: plain_state_def)
  from i consider (fail) e f where "r = Inl e" "fs' = f" "f = fs \<or> f = fs1"
    | (same) x where "r = Inr x" "\<not> rs_changed x" "fs' = fs1"
    | (go) ii where "inspectInstall v root opts fs1 = Inr ii"
        "(case ensureEnvironment v sh exe root (ii_python ii) (ii_stat ii) fs1 of
            (Some e, fs2) \<Rightarrow> (Inl e, fs2) | (None, fs2) \<Rightarrow> installPackage v sh lock root ii fs2) = (r, fs')"
    unfolding mlx_install_def own
    by (cases "validateHost v"; cases e1; cases "inspectInstall v root opts fs1")
      (auto simp: mk unchanged_install_def split: if_splits)
  then consider (fail) e f where "r = Inl e" "fs' = f" "f = fs \<or> f = fs1"
    | (same) x where "r = Inr x" "\<not> rs_changed x" "fs' = fs1"
    | (env) ii :: install_inspection and e fs2 where "ensureEnvironment v sh exe root (ii_python ii) (ii_stat ii) fs1 = (Some e, fs2)" "r = Inl e" "fs' = fs2"
    | (rec) ii fs2 where "inspectInstall v root opts fs1 = Inr ii"
        "ensureEnvironment v sh exe root (ii_python ii) (ii_stat ii) fs1 = (None, fs2)"
        "installPackage v sh lock root ii fs2 = (r, fs')"
  proof cases
    case go
    obtain e fs2 where en: "ensureEnvironment v sh exe root (ii_python ii) (ii_stat ii) fs1 = (e, fs2)" by fastforce
    show ?thesis
    proof (cases e)
      case None
      then show ?thesis using rec [OF go(1), of fs2] go(2) en by simp
    next
      case (Some er)
      then show ?thesis using env [of ii er fs2] go(2) en by simp
    qed
  qed (use fail same in blast)+
  then show ?thesis
  proof cases
    case fail
    then show ?thesis using i 1 documented_same by metis
  next
    case same
    then show ?thesis using i 1 documented_unchanged by metis
  next
    case env
    then show ?thesis using ensureEnvironment_same [OF sh env(1)] i 1 by (auto simp: same_state_def intro: documented_same)
  next
    case rec
    have ii: "ii_state ii = s" "ii_dir ii = ?dir"
      using rec(1) rd by (auto simp: inspectInstall_def Let_def split: if_splits)
    have e: "same_state ?sp fs1 fs2" by (rule ensureEnvironment_same [OF sh rec(2)])
    have "plain_elem (''venv-'' @ mlx_ManagedVersion)" "plain_elem lockFileName" by code_simp+
    then have el: "elems (Join [?dir, lockFileName]) = elems root @ [''venv-'' @ mlx_ManagedVersion, lockFileName]"
      using base_dir_Join [OF root] base_dir_Join by simp
    have ne: "Join [ii_dir ii, lockFileName] \<noteq> ?sp"
    proof
      assume "Join [ii_dir ii, lockFileName] = ?sp"
      then have "elems root @ [''venv-'' @ mlx_ManagedVersion, lockFileName] = elems root @ [''state.json'']"
        using el state_path_elems(2) [OF root] ii(2) by metis
      then show False by simp
    qed
    show ?thesis
      using installPackage_documented [OF rec(3), of fs io2] ii(1) assms(1,2) e 1 ps ne root codec sh i
      by (simp add: same_state_def plain_state_def)
  qed
qed

section \<open>The three engines\<close>

text \<open>
  The settings in which an installer is used: an absolute engine root, a codec that reads back what it writes,
  and commands or a release server that leave the state document alone.
\<close>

definition engine_setting :: "install_env \<Rightarrow> string \<Rightarrow> string \<Rightarrow> string \<Rightarrow> bool" where
  "engine_setting v own name root \<longleftrightarrow>
     resolve_root v own name = Inr root \<and> base_dir root \<and> install_codec_ok (en_codec v)"

interpretation llama_engine: managed_engine "engine_setting v own llama_name root \<and> plain_host v \<and> polite_fetcher fe" v root
    "llama_install v fe works probe own" for v own root fe works probe
  by unfold_locales (auto simp: engine_setting_def intro: llama_install_documented)

interpretation mlx_engine: managed_engine "engine_setting v own mlx_name root \<and> polite (state_path root) sh" v root
    "mlx_install v sh lock exe own" for v own root sh lock exe
  by unfold_locales (auto simp: engine_setting_def intro: mlx_install_documented)

interpretation strata_engine: managed_engine "engine_setting v own strata_name root \<and> polite (state_path root) sh" v root
    "strata_install v sh git python own" for v own root sh git python
  by unfold_locales (auto simp: engine_setting_def intro: strata_install_documented)

inductive engine_installer :: "install_env \<Rightarrow> string \<Rightarrow> (install_options \<Rightarrow> fs \<Rightarrow> (gerr + install_result) \<times> fs) \<Rightarrow> bool" where
  llama: "engine_setting v own llama_name root \<Longrightarrow> plain_host v \<Longrightarrow> polite_fetcher fe \<Longrightarrow>
            engine_installer v root (llama_install v fe works probe own)"
| mlx: "engine_setting v own mlx_name root \<Longrightarrow> polite (state_path root) sh \<Longrightarrow>
          engine_installer v root (mlx_install v sh lock exe own)"
| strata: "engine_setting v own strata_name root \<Longrightarrow> polite (state_path root) sh \<Longrightarrow>
             engine_installer v root (strata_install v sh git python own)"


section \<open>An upgrade, and a forced installation\<close>

definition ex_pair :: "string \<Rightarrow> string \<Rightarrow> install_state" where
  "ex_pair a p = \<lparr>is_active = Some (ex_record a), is_previous = Some (ex_record p)\<rparr>"

text \<open>A codec for the states of these runs: each is written as the two digits of its versions.\<close>

definition ex_texts :: "(install_state \<times> string) list" where
  "ex_texts = [(ex_pair ''b2'' ''b1'', ''21''), (ex_pair ''b3'' ''b2'', ''32''), (ex_pair ''b2'' ''b3'', ''23''), (ex_pair ''b2'' ''b2'', ''22'')]"

definition ex_run_codec :: install_codec where
  "ex_run_codec =
     \<lparr>ic_encode = (\<lambda>s. case map_of ex_texts s of Some t \<Rightarrow> Inr t | None \<Rightarrow> Inl (Errorw (Str []) [])),
      ic_decode = (\<lambda>d. case map_of (map (\<lambda>(s, t). (t @ [newline], s)) ex_texts) d of Some s \<Rightarrow> Inr s | None \<Rightarrow> Inl (Errorw (Str []) []))\<rparr>"

lemma ex_run_codec_ok: "install_codec_ok ex_run_codec"
proof -
  have "\<forall>(s, t)\<in>set ex_texts. ic_decode ex_run_codec (t @ [newline]) = Inr s" by code_simp
  then show ?thesis
    by (fastforce simp: install_codec_ok_def ex_run_codec_def dest: map_of_SomeD split: option.splits)
qed

definition ex_env :: install_env where
  "ex_env = \<lparr>en_io = calm_env, en_codec = ex_run_codec, en_now = [], en_goos = ''linux'', en_goarch = ''amd64'',
             en_home = None, en_progress = (\<lambda>_. None)\<rparr>"

text \<open>A server whose latest release is b3 and that delivers a single executable.\<close>

definition ex_fetcher :: fetcher where
  "ex_fetcher =
     \<lparr>fe_resolve = (\<lambda>acc version. if version = [] \<or> version = ''b3'' then Inr \<lparr>re_version = ''b3'', re_tarball = [], re_assets = []\<rparr>
        else if version = ''b2'' then Inr \<lparr>re_version = ''b2'', re_tarball = [], re_assets = []\<rparr>
        else Inl (Errorw (Str []) [])),
      fe_fetch = (\<lambda>rel acc dir fs. (Inr \<lparr>py_executable = dir @ ''/llama-server'', py_source = [], py_digest = []\<rparr>,
        al_put (dir @ ''/llama-server'') (NFile (re_version rel) 448) fs))\<rparr>"

lemma ex_fetcher_polite: "polite_fetcher ex_fetcher"
proof -
  have "plain_elem ''b3''" "plain_elem ''b2''" by code_simp+
  moreover have "under d (d @ ''/llama-server'')" for d using under_append [of d "''llama-server''"] by (simp add: slash_def)
  ultimately show ?thesis by (auto simp: polite_fetcher_def ex_fetcher_def split: if_splits)
qed

definition ex_install :: "install_options \<Rightarrow> fs \<Rightarrow> (gerr + install_result) \<times> fs" where
  "ex_install = llama_install ex_env ex_fetcher (\<lambda>_. False) (\<lambda>_. None) ''/e''"

lemma ex_installer: "engine_installer ex_env ''/e'' ex_install"
  unfolding ex_install_def
proof (rule engine_installer.llama)
  have "base_dir ''/e''" by code_simp
  then show "engine_setting ex_env ''/e'' llama_name ''/e''"
    using ex_run_codec_ok by (simp add: engine_setting_def resolve_root_def ex_env_def)
  show "plain_host ex_env" by code_simp
qed (rule ex_fetcher_polite)

lemma ex_plain_state: "plain_state ex_env ''/e'' ex_engine_fs (ex_pair ''b2'' ''b1'')"
proof -
  have "ReadInstallState ex_run_codec calm_env ''/e'' ex_engine_fs = Inr (ex_pair ''b2'' ''b1'')"
    "list_all (\<lambda>e. case snd e of NLink _ \<Rightarrow> False | _ \<Rightarrow> True) ex_engine_fs"
    "Clean (ir_directory (ex_record ''b1'')) \<noteq> state_path ''/e''" "Dir (ir_directory (ex_record ''b1'')) \<noteq> state_path ''/e''"
    by code_simp+
  then show ?thesis
    by (auto simp: plain_state_def unlinked_def ex_env_def ex_pair_def list_all_iff dest!: map_of_SomeD)
qed

definition ex_upgrade :: "(gerr + install_result) \<times> fs" where
  "ex_upgrade = ex_install \<lparr>io_version = [], io_upgrade = True, io_force = False\<rparr> ex_engine_fs"


text \<open>
  Installing the active version again by force makes the previous installation the same directory as the active
  one: what a rollback could have returned to is deleted, and a rollback changes nothing but the record.
\<close>

lemma forced_reinstall_loses_previous:
  "let out = ex_install \<lparr>io_version = ''b2'', io_upgrade = False, io_force = True\<rparr> ex_engine_fs
   in (case fst out of Inr x \<Rightarrow> rs_changed x | Inl _ \<Rightarrow> False) \<and>
      ReadInstallState ex_run_codec calm_env ''/e'' (snd out) = Inr (ex_pair ''b2'' ''b2'') \<and>
      map_of (snd out) ''/e/b1/linux-amd64-cpu/llama-server'' = None \<and>
      map_of ex_engine_fs ''/e/b1/linux-amd64-cpu/llama-server'' = Some (NFile ''1'' 448)"
  by code_simp

end
