(* ===== verification/InstallService.thy ===== *)
theory InstallService
  imports Installers Rpc
begin

text \<open>
  The installation handlers of \<^verbatim>\<open>core/rpc/control_service.go\<close>, over the operations of the control manager. The
  generated request and response are the fields a handler reads and sets.
\<close>

record install_request =
  iq_backend :: string
  iq_version :: string
  iq_upgrade :: bool
  iq_force :: bool

definition installResponse :: "gerr + install_result \<Rightarrow> connect_error + install_result" where
  "installResponse r = reply id r"

definition rpc_InstallBackend ::
    "deps \<Rightarrow> (string \<Rightarrow> engine_manager) \<Rightarrow> install_request \<Rightarrow> world \<Rightarrow> (connect_error + install_result) \<times> world" where
  "rpc_InstallBackend e mgrs q w =
     (case requireField (iq_backend q) ''backend'' of
        Some c \<Rightarrow> (Inl c, w)
      | None \<Rightarrow>
          (case InstallBackend e mgrs (iq_backend q)
                  \<lparr>io_version = iq_version q, io_upgrade = iq_upgrade q, io_force = iq_force q\<rparr> w of
             (r, w') \<Rightarrow> (installResponse r, w')))"

definition rpc_RollbackBackend ::
    "deps \<Rightarrow> (string \<Rightarrow> engine_manager) \<Rightarrow> string \<Rightarrow> world \<Rightarrow> (connect_error + install_result) \<times> world" where
  "rpc_RollbackBackend e mgrs name w =
     (case requireField name ''backend'' of
        Some c \<Rightarrow> (Inl c, w)
      | None \<Rightarrow> (case RollbackBackend e mgrs name w of (r, w') \<Rightarrow> (installResponse r, w')))"

definition rpc_GetBackendInstallStatus ::
    "deps \<Rightarrow> (string \<Rightarrow> engine_manager) \<Rightarrow> string \<Rightarrow> world \<Rightarrow> connect_error + install_status" where
  "rpc_GetBackendInstallStatus e mgrs name w =
     (case requireField name ''backend'' of
        Some c \<Rightarrow> Inl c | None \<Rightarrow> reply id (BackendInstallStatus e mgrs name w))"

section \<open>What is recorded of a request\<close>

lemma installAction_audit:
  assumes "installAction e mgrs action name call w = (r, w')"
  shows "\<exists>fs. w' = recording action (err_of r) (set_fs fs w)"
proof -
  have same: "set_fs (w_fs w) w = w" by (simp add: set_fs_def w_fs_def)
  show ?thesis
  proof (cases "mgr_Backend (e_registry e) name")
    case (Inl er)
    then show ?thesis using assms same by (auto simp: installAction_def err_of_def intro!: exI [of _ "w_fs w"])
  next
    case (Inr b)
    obtain q fs where "call (mgrs name) (w_fs w) = (q, fs)" by fastforce
    then show ?thesis using assms Inr by (cases q) (auto simp: installAction_def err_of_def)
  qed
qed

text \<open>
  A complete install or rollback request leaves exactly one event in the audit trail, which says whether it
  succeeded and with what kind of error, and beside it changes nothing but files; an error of the engine reaches
  the client as a runtime error.
\<close>

lemma install_requests_are_audited:
  assumes "iq_backend q \<noteq> []" "rpc_InstallBackend e mgrs q w = (r, w')"
  shows "\<exists>fs err. w' = recording ''backend.install'' err (set_fs fs w) \<and> (err = None \<longleftrightarrow> \<not> isl r)"
proof -
  obtain x v where x: "InstallBackend e mgrs (iq_backend q)
      \<lparr>io_version = iq_version q, io_upgrade = iq_upgrade q, io_force = iq_force q\<rparr> w = (x, v)" by fastforce
  then have r: "r = installResponse x" "w' = v" using assms by (auto simp: rpc_InstallBackend_def requireField_def)
  obtain fs where "v = recording ''backend.install'' (err_of x) (set_fs fs w)"
    using installAction_audit x unfolding InstallBackend_def by blast
  then show ?thesis using r by (cases x) (auto simp: installResponse_def reply_def err_of_def)
qed

end
