(* ===== verification/Archive.thy ===== *)
theory Archive
  imports GoPath Errors "HOL-Library.Word" "HOL-Library.Sublist"
begin

unbundle bit_operations_syntax

text \<open>
  Unpacking a release archive: \<^verbatim>\<open>backends/llamacpp/archive.go\<close>. The archive is untrusted, and what it may
  plant are symlinks, so here the file system follows every link of a path, as the kernel does: a tree maps
  the elements of an absolute path to what is there, and \<open>tr_walk\<close> is the lookup, at most 40 links for a system
  call and 255 for \<^verbatim>\<open>filepath.EvalSymlinks\<close>.

  \<^verbatim>\<open>gzip\<close> and the tar reader are parameters: an archive is the headers with their contents in order, and how
  the reading ends. A system call may fail where \<open>sys_deny\<close> says so, a write after \<open>sys_room\<close> bytes.
\<close>

section \<open>The file system with its links\<close>

datatype anode = ADir | AFile "32 word" string | ALink string

type_synonym tree = "string list \<Rightarrow> anode option"

datatype walk_error = WNotExist | WNotDir | WLoop | WExist | WDenied

definition at_dir :: "tree \<Rightarrow> string list \<Rightarrow> bool" where
  "at_dir t d \<longleftrightarrow> d = [] \<or> t d = Some ADir"

text \<open>\<open>d\<close> is the real directory reached so far; a link's content is walked from there, or from the root.\<close>

fun tr_walk :: "tree \<Rightarrow> nat \<Rightarrow> string list \<Rightarrow> string list \<Rightarrow> walk_error + string list" where
  "tr_walk t n d [] = Inr d"
| "tr_walk t n d (c # cs) =
     (if c = [] \<or> c = ''.'' then tr_walk t n d cs
      else if c = dotdot then tr_walk t n (butlast d) cs
      else case t (d @ [c]) of
          None \<Rightarrow> Inl WNotExist
        | Some ADir \<Rightarrow> tr_walk t n (d @ [c]) cs
        | Some (AFile m b) \<Rightarrow> if cs = [] then Inr (d @ [c]) else Inl WNotDir
        | Some (ALink l) \<Rightarrow>
            (case n of
               0 \<Rightarrow> Inl WLoop
             | Suc k \<Rightarrow> tr_walk t k (if rooted l then [] else d) (split_on slash l @ cs)))"

definition tr_kernel_links :: nat where
  "tr_kernel_links = 40"

definition tr_eval_links :: nat where
  "tr_eval_links = 255"

record sys_env =
  sys_cwd :: string
  sys_umask :: "32 word"
  sys_deny :: "string list \<Rightarrow> bool"
  sys_room :: "string list \<Rightarrow> nat option"

definition tr_Abs :: "sys_env \<Rightarrow> string \<Rightarrow> string" where
  "tr_Abs v p = (if IsAbs p then Clean p else Join [sys_cwd v, p])"

text \<open>Where the kernel creates the last element of a path: its directory is resolved, the element is not.\<close>

definition place :: "tree \<Rightarrow> string list \<Rightarrow> walk_error + string list" where
  "place t p =
     (if p = [] then Inl WExist
      else case tr_walk t tr_kernel_links [] (butlast p) of
          Inl e \<Rightarrow> Inl e
        | Inr d \<Rightarrow> if at_dir t d then Inr (d @ [last p]) else Inl WNotDir)"

definition tr_create :: "sys_env \<Rightarrow> string list \<Rightarrow> anode \<Rightarrow> tree \<Rightarrow> walk_error option \<times> tree" where
  "tr_create v p x t =
     (case place t p of
        Inl e \<Rightarrow> (Some e, t)
      | Inr q \<Rightarrow>
          if t q \<noteq> None then (Some WExist, t)
          else if sys_deny v q then (Some WDenied, t) else (None, t(q \<mapsto> x)))"

definition tr_Lstat :: "tree \<Rightarrow> string list \<Rightarrow> anode option" where
  "tr_Lstat t p =
     (if p = [] then Some ADir else case place t p of Inl _ \<Rightarrow> None | Inr q \<Rightarrow> t q)"

text \<open>\<^verbatim>\<open>os.MkdirAll\<close>: the parent first, and a directory that is already there is fine. The root always is.\<close>

function tr_MkdirAll :: "sys_env \<Rightarrow> string list \<Rightarrow> tree \<Rightarrow> walk_error option \<times> tree" where
  "tr_MkdirAll v p t =
     (case tr_walk t tr_kernel_links [] p of
        Inr d \<Rightarrow> (if at_dir t d then None else Some WNotDir, t)
      | Inl _ \<Rightarrow>
          (if p = [] then (Some WNotExist, t)
           else case tr_MkdirAll v (butlast p) t of
               (Some e, t1) \<Rightarrow> (Some e, t1)
             | (None, t1) \<Rightarrow>
                 (case tr_create v p ADir t1 of
                    (None, t2) \<Rightarrow> (None, t2)
                  | (Some e, t2) \<Rightarrow> (if tr_Lstat t2 p = Some ADir then None else Some e, t2))))"
  by pat_completeness auto
termination by (relation "measure (\<lambda>(v, p, t). length p)") auto

declare tr_MkdirAll.simps [simp del]

section \<open>The entries of an archive\<close>

record tar_entry =
  te_name :: string
  te_linkname :: string
  te_type :: char
  te_mode :: "64 word"
  te_size :: nat
  te_body :: string

definition TypeReg :: char where "TypeReg = CHR ''0''"
definition TypeLink :: char where "TypeLink = CHR ''1''"
definition TypeSymlink :: char where "TypeSymlink = CHR ''2''"
definition TypeDir :: char where "TypeDir = CHR ''5''"

text \<open>\<^verbatim>\<open>entryMode\<close> is 0o755.\<close>

definition entryMode :: "32 word" where
  "entryMode = 493"

definition walk_gerr :: "walk_error \<Rightarrow> gerr" where
  "walk_gerr e =
     (case e of
        WNotExist \<Rightarrow> Errorw (Str ''no such file or directory'') [Sentinel ErrNotExist]
      | WNotDir \<Rightarrow> Errorw (Str ''not a directory'') []
      | WLoop \<Rightarrow> Errorw (Str ''too many levels of symbolic links'') []
      | WExist \<Rightarrow> Errorw (Str ''file exists'') []
      | WDenied \<Rightarrow> Errorw (Str ''permission denied'') [])"

text \<open>\<^verbatim>\<open>filepath.IsLocal\<close> on Unix.\<close>

definition IsLocal :: "string \<Rightarrow> bool" where
  "IsLocal p \<longleftrightarrow>
     \<not> IsAbs p \<and> p \<noteq> [] \<and>
     (let q = (if list_ex (\<lambda>c. c = ''.'' \<or> c = dotdot) (split_on slash p) then Clean p else p)
      in q \<noteq> dotdot \<and> \<not> has_prefix q (dotdot @ ''/''))"

text \<open>The loop climbs from the path to its deepest existing prefix; \<open>missing\<close> is what it left behind.\<close>

function eval_prefix :: "tree \<Rightarrow> string list \<Rightarrow> string list \<Rightarrow> walk_error + string list" where
  "eval_prefix t p missing =
     (case tr_walk t tr_eval_links [] p of
        Inr r \<Rightarrow> Inr (r @ missing)
      | Inl e \<Rightarrow>
          if e \<noteq> WNotExist \<or> p = [] then Inl e
          else eval_prefix t (butlast p) (last p # missing))"
  by pat_completeness auto
termination by (relation "measure (\<lambda>(t, p, m). length p)") auto

declare eval_prefix.simps [simp del]

definition evalExistingPrefix :: "tree \<Rightarrow> string \<Rightarrow> gerr + string" where
  "evalExistingPrefix t p =
     (case eval_prefix t (elems p) [] of Inl e \<Rightarrow> Inl (walk_gerr e) | Inr r \<Rightarrow> Inr (mk_path True r))"

definition escape_error :: "string \<Rightarrow> gerr" where
  "escape_error name = Errorw (Fmt ''entry %q escapes the install directory'' [Str name]) []"

definition entryPath :: "tree \<Rightarrow> string \<Rightarrow> string \<Rightarrow> gerr + string" where
  "entryPath t root name =
     (if \<not> IsLocal (Clean name) then Inl (escape_error name)
      else case evalExistingPrefix t root of
          Inl e \<Rightarrow> Inl e
        | Inr realRoot \<Rightarrow>
            (case evalExistingPrefix t (Join [root, Clean name]) of
               Inl e \<Rightarrow> Inl e
             | Inr realPath \<Rightarrow>
                 if realPath \<noteq> realRoot \<and> \<not> has_prefix realPath (realRoot @ ''/'')
                 then Inl (escape_error name) else Inr (Join [root, Clean name])))"

definition linkTarget :: "tar_entry \<Rightarrow> string" where
  "linkTarget e =
     (if has_prefix (te_linkname e) ''/'' \<or> te_type e = TypeLink then te_linkname e
      else Join [Dir (te_name e), te_linkname e])"

text \<open>
  A mode of the header that \<^verbatim>\<open>FileInfo().Mode()\<close> shows outside the permission bits: setuid, setgid,
  sticky, or a file type in the mode's own bits (directory, pipe, link, block, character device, socket).
\<close>

definition special_mode :: "64 word \<Rightarrow> bool" where
  "special_mode m \<longleftrightarrow>
     m AND 3584 \<noteq> 0 \<or>
     ((ucast m :: 32 word) AND NOT 4095) \<in> {16384, 4096, 40960, 24576, 8192, 49152}"

definition entry_perm :: "sys_env \<Rightarrow> tar_entry \<Rightarrow> 32 word" where
  "entry_perm v e = ((ucast (te_mode e) :: 32 word) AND 511) AND entryMode AND NOT (sys_umask v)"

text \<open>
  \<^verbatim>\<open>O_EXCL\<close> creates the file or fails, and does not follow a link. What is copied is at most the declared
  size, at most the entry's content, and what the disk takes.
\<close>

definition writeEntry :: "sys_env \<Rightarrow> string \<Rightarrow> tar_entry \<Rightarrow> tree \<Rightarrow> gerr option \<times> tree" where
  "writeEntry v target e t =
     (if special_mode (te_mode e) then (Some (Errorw (Fmt ''entry %q has unexpected mode %v'' [Str (te_name e)]) []), t)
      else let data = take (te_size e) (te_body e);
               room = (case sys_room v (elems target) of None \<Rightarrow> length data | Some k \<Rightarrow> k)
           in case tr_create v (elems target) (AFile (entry_perm v e) (take room data)) t of
                (Some w, t1) \<Rightarrow> (Some (walk_gerr w), t1)
              | (None, t1) \<Rightarrow>
                  (if room < length data then Some (Errorw (Str ''no space left on device'') [])
                   else if length data < te_size e then Some (Errorw (Str ''unexpected EOF'') []) else None, t1))"

text \<open>\<^verbatim>\<open>os.Link\<close> gives the file a second name; the source's last element is not followed, and a directory has one name.\<close>

definition tr_Link :: "sys_env \<Rightarrow> string list \<Rightarrow> string list \<Rightarrow> tree \<Rightarrow> walk_error option \<times> tree" where
  "tr_Link v source target t =
     (case tr_Lstat t source of
        None \<Rightarrow> (Some WNotExist, t)
      | Some ADir \<Rightarrow> (Some WDenied, t)
      | Some x \<Rightarrow> tr_create v target x t)"

definition with_parent :: "sys_env \<Rightarrow> string \<Rightarrow> (tree \<Rightarrow> gerr option \<times> tree) \<Rightarrow> tree \<Rightarrow> gerr option \<times> tree" where
  "with_parent v target act t =
     (case tr_MkdirAll v (elems (Dir target)) t of (Some w, t1) \<Rightarrow> (Some (walk_gerr w), t1) | (None, t1) \<Rightarrow> act t1)"

definition os_result :: "walk_error option \<times> tree \<Rightarrow> gerr option \<times> tree" where
  "os_result r = (map_option walk_gerr (fst r), snd r)"

definition link_error :: "tar_entry \<Rightarrow> gerr \<Rightarrow> gerr" where
  "link_error e g = Errorw (Fmt ''link %q: %w'' [Str (te_name e)]) [g]"

definition write_link :: "sys_env \<Rightarrow> string \<Rightarrow> tar_entry \<Rightarrow> string \<Rightarrow> string \<Rightarrow> tree \<Rightarrow> gerr option \<times> tree" where
  "write_link v root e target resolved t =
     (if te_type e = TypeLink
      then (case entryPath t root (te_linkname e) of
              Inl g \<Rightarrow> (Some g, t)
            | Inr source \<Rightarrow> os_result (tr_Link v (elems source) (elems target) t))
      else (case Rel (Dir target) resolved of
              None \<Rightarrow> (Some (link_error e (Errorw (Str ''Rel: cannot make relative'') [])), t)
            | Some l \<Rightarrow> os_result (tr_create v (elems target) (ALink l) t)))"

definition extractEntry :: "sys_env \<Rightarrow> string \<Rightarrow> tar_entry \<Rightarrow> tree \<Rightarrow> gerr option \<times> tree" where
  "extractEntry v root e t =
     (case entryPath t root (te_name e) of
        Inl g \<Rightarrow> (Some g, t)
      | Inr target \<Rightarrow>
          if te_type e = TypeDir then os_result (tr_MkdirAll v (elems target) t)
          else if te_type e = TypeReg then with_parent v target (writeEntry v target e) t
          else if te_type e = TypeSymlink \<or> te_type e = TypeLink
          then (case entryPath t root (linkTarget e) of
                  Inl g \<Rightarrow> (Some (link_error e g), t)
                | Inr resolved \<Rightarrow> with_parent v target (write_link v root e target resolved) t)
          else (Some (Errorw (Fmt ''entry %q has unsupported type %q'' [Str (te_name e)]) []), t))"

section \<open>The archive\<close>

definition extract_error :: "gerr \<Rightarrow> gerr" where
  "extract_error g = Errorw (Fmt ''extract archive: %w'' []) [g]"

text \<open>\<open>ar\<close> is what the readers make of the file: the error of opening it, or the entries and how they end.\<close>

type_synonym tar_archive = "gerr + tar_entry list \<times> gerr option"

fun extract_entries :: "sys_env \<Rightarrow> string \<Rightarrow> tar_entry list \<Rightarrow> gerr option \<Rightarrow> tree \<Rightarrow> gerr option \<times> tree" where
  "extract_entries v root [] end t = (map_option extract_error end, t)"
| "extract_entries v root (e # es) end t =
     (case extractEntry v root e t of
        (Some g, t1) \<Rightarrow> (Some (extract_error g), t1)
      | (None, t1) \<Rightarrow> extract_entries v root es end t1)"

definition extractTarGz :: "sys_env \<Rightarrow> tar_archive \<Rightarrow> string \<Rightarrow> tree \<Rightarrow> gerr option \<times> tree" where
  "extractTarGz v ar destination t =
     (case tr_MkdirAll v (elems (tr_Abs v destination)) t of
        (Some w, t1) \<Rightarrow> (Some (walk_gerr w), t1)
      | (None, t1) \<Rightarrow>
          (case ar of
             Inl g \<Rightarrow> (Some g, t1)
           | Inr (es, end) \<Rightarrow> extract_entries v (tr_Abs v destination) es end t1))"

section \<open>Lookups\<close>

text \<open>A tree in which every node hangs from directories.\<close>

definition real_tree :: "tree \<Rightarrow> bool" where
  "real_tree t \<longleftrightarrow> (\<forall>p c. t (p @ [c]) \<noteq> None \<longrightarrow> at_dir t p)"

lemma at_dir_Nil [simp]: "at_dir t []"
  by (simp add: at_dir_def)

lemma real_treeD: "real_tree t \<Longrightarrow> t (p @ [c]) \<noteq> None \<Longrightarrow> at_dir t p"
  unfolding real_tree_def by blast

lemma at_dir_prefix: "real_tree t \<Longrightarrow> at_dir t (p @ q) \<Longrightarrow> at_dir t p"
proof (induction q rule: rev_induct)
  case (snoc c q)
  then have "t ((p @ q) @ [c]) \<noteq> None" by (auto simp: at_dir_def)
  with snoc show ?case using real_treeD [of t "p @ q" c] by simp
qed simp

lemma at_dir_mono: "at_dir t p \<Longrightarrow> t \<subseteq>\<^sub>m t' \<Longrightarrow> at_dir t' p"
  by (auto simp: at_dir_def map_le_def dom_def)

lemma map_le_Some: "t \<subseteq>\<^sub>m t' \<Longrightarrow> t p = Some x \<Longrightarrow> t' p = Some x"
  by (metis domI map_le_def)

lemma not_dotdot: "[] \<noteq> dotdot" "''.'' \<noteq> dotdot"
  by (simp_all add: dotdot_def)

lemma walk_skip: "c = [] \<or> c = ''.'' \<Longrightarrow> tr_walk t n d (c # cs) = tr_walk t n d cs"
  by simp

lemma walk_up: "tr_walk t n d (dotdot # cs) = tr_walk t n (butlast d) cs"
  using not_dotdot by simp

lemma walk_mono: "tr_walk t n d cs = Inr r \<Longrightarrow> t \<subseteq>\<^sub>m t' \<Longrightarrow> n \<le> m \<Longrightarrow> tr_walk t' m d cs = Inr r"
proof (induction t n d cs arbitrary: m rule: tr_walk.induct)
  case (2 t n d c cs)
  show ?case
  proof (cases "c = [] \<or> c = ''.'' \<or> c = dotdot")
    case True
    then consider "c = [] \<or> c = ''.''" | "c = dotdot" by blast
    then show ?thesis
    proof cases
      case 1
      with "2.prems" show ?thesis using "2.IH"(1) [OF 1] by (simp add: walk_skip)
    next
      case 2
      with "2.prems" not_dotdot show ?thesis using "2.IH"(2) by (simp add: walk_up)
    qed
  next
    case False
    with "2.prems" obtain x where x: "t (d @ [c]) = Some x" by (auto split: option.splits)
    have x': "t' (d @ [c]) = Some x" using "2.prems"(2) x by (rule map_le_Some)
    show ?thesis
    proof (cases x)
      case (ALink l)
      with "2.prems" False x obtain k where k: "n = Suc k" by (auto split: nat.splits)
      with "2.prems"(3) obtain j where j: "m = Suc j" "k \<le> j" by (cases m) auto
      show ?thesis using "2.IH"(4) [of "ALink l" l k j] "2.prems" False x x' ALink k j by simp
    qed (use 2 False x x' in \<open>auto split: if_splits\<close>)
  qed
qed simp

text \<open>A lookup that reached a directory goes on from there with the links it has left.\<close>

lemma walk_then:
  "tr_walk t n d a = Inr s \<Longrightarrow> at_dir t s \<Longrightarrow> \<exists>k\<le>n. \<forall>b. tr_walk t n d (a @ b) = tr_walk t k s b"
proof (induction t n d a rule: tr_walk.induct)
  case (2 t n d c cs)
  show ?case
  proof (cases "c = [] \<or> c = ''.'' \<or> c = dotdot")
    case True
    then consider "c = [] \<or> c = ''.''" | "c = dotdot" by blast
    then show ?thesis
    proof cases
      case 1
      with "2.prems" show ?thesis using "2.IH"(1) [OF 1] by (simp add: walk_skip)
    next
      case 2
      with "2.prems" not_dotdot show ?thesis using "2.IH"(2) by (simp add: walk_up)
    qed
  next
    case False
    with "2.prems" obtain x where x: "t (d @ [c]) = Some x" by (auto split: option.splits)
    show ?thesis
    proof (cases x)
      case (ALink l)
      with "2.prems" False x obtain k where k: "n = Suc k" by (auto split: nat.splits)
      then obtain j where "j \<le> k" "\<forall>b. tr_walk t k (if rooted l then [] else d) ((split_on slash l @ cs) @ b) = tr_walk t j s b"
        using "2.IH"(4) [of "ALink l" l k] "2.prems" False x ALink by auto
      then show ?thesis using False x ALink k by (intro exI [of _ j]) auto
    qed (use 2 False x in \<open>auto simp: at_dir_def split: if_splits\<close>)
  qed
qed auto

lemma walk_fails: "tr_walk t n d a = Inl e \<Longrightarrow> tr_walk t n d (a @ b) = Inl e"
proof (induction t n d a rule: tr_walk.induct)
  case (2 t n d c cs)
  show ?case
  proof (cases "\<exists>l k. t (d @ [c]) = Some (ALink l) \<and> n = Suc k \<and> c \<noteq> [] \<and> c \<noteq> ''.'' \<and> c \<noteq> dotdot")
    case True
    then obtain l k where k: "t (d @ [c]) = Some (ALink l)" "n = Suc k" "c \<noteq> []" "c \<noteq> ''.''" "c \<noteq> dotdot" by blast
    with "2.prems" have "tr_walk t k (if rooted l then [] else d) ((split_on slash l @ cs) @ b) = Inl e"
      by (intro "2.IH"(4) [of "ALink l" l k]) auto
    with k show ?thesis by simp
  qed (use 2 not_dotdot in \<open>auto split: if_splits option.splits anode.splits nat.splits\<close>)
qed simp

lemma walk_snoc:
  assumes "tr_walk t n d a = Inr s" and "at_dir t s" and "plain_elem c"
  shows "t (s @ [c]) = None \<Longrightarrow> tr_walk t n d (a @ [c]) = Inl WNotExist"
    and "t (s @ [c]) = Some ADir \<Longrightarrow> tr_walk t n d (a @ [c]) = Inr (s @ [c])"
proof -
  obtain k where "tr_walk t n d (a @ [c]) = tr_walk t k s [c]" using walk_then [OF assms(1,2)] by blast
  then show "t (s @ [c]) = None \<Longrightarrow> tr_walk t n d (a @ [c]) = Inl WNotExist"
    and "t (s @ [c]) = Some ADir \<Longrightarrow> tr_walk t n d (a @ [c]) = Inr (s @ [c])"
    using assms(3) by (simp_all add: plain_elem_def)
qed

lemma kernel_within_eval: "tr_walk t tr_kernel_links d cs = Inr r \<Longrightarrow> tr_walk t tr_eval_links d cs = Inr r"
  by (rule walk_mono) (auto simp: tr_kernel_links_def tr_eval_links_def)

section \<open>Creating below a checked path\<close>

lemma create_grows:
  assumes "tr_create v p x t = (e, t1)" and "real_tree t"
  shows "t \<subseteq>\<^sub>m t1" and "real_tree t1" and "t1 = t \<or> (\<exists>q. place t p = Inr q \<and> t q = None \<and> t1 = t(q \<mapsto> x))"
proof -
  have c: "t1 = t \<or> (\<exists>q. place t p = Inr q \<and> t q = None \<and> t1 = t(q \<mapsto> x))"
    using assms(1) by (auto simp: tr_create_def split: sum.splits if_splits)
  then show "t1 = t \<or> (\<exists>q. place t p = Inr q \<and> t q = None \<and> t1 = t(q \<mapsto> x))" .
  show le: "t \<subseteq>\<^sub>m t1" using c by (auto simp: map_le_def)
  from c show "real_tree t1"
  proof
    assume "\<exists>q. place t p = Inr q \<and> t q = None \<and> t1 = t(q \<mapsto> x)"
    then obtain d q where q: "q = d @ [last p]" "at_dir t d" "t1 = t(q \<mapsto> x)"
      by (auto simp: place_def split: if_splits sum.splits)
    show ?thesis unfolding real_tree_def
    proof (intro allI impI)
      fix a c assume "t1 (a @ [c]) \<noteq> None"
      then have "at_dir t a" using q assms(2) real_treeD by (auto split: if_splits)
      then show "at_dir t1 a" using le by (rule at_dir_mono)
    qed
  qed (use assms(2) in simp)
qed

text \<open>A path that exists: nothing can be created at it, nor at a directory on its way.\<close>

lemma exists_not_placed:
  assumes "tr_walk t tr_eval_links [] (q @ [c]) = Inr r" and "plain_elem c" and "place t (q @ [c]) = Inr x"
  shows "t x \<noteq> None"
proof -
  obtain d where d: "tr_walk t tr_kernel_links [] q = Inr d" "at_dir t d" "x = d @ [c]"
    using assms(3) by (auto simp: place_def split: sum.splits if_splits)
  with walk_snoc(1) [OF kernel_within_eval [OF d(1)] d(2) assms(2)] assms(1) show ?thesis by auto
qed

lemma create_existing:
  assumes "tr_walk t tr_eval_links [] p = Inr r" and "\<forall>c\<in>set p. plain_elem c"
  shows "snd (tr_create v p x t) = t"
proof (cases p rule: rev_cases)
  case (snoc q c)
  then show ?thesis using exists_not_placed [of t q c r] assms
    by (auto simp: tr_create_def split: sum.splits)
qed (simp add: tr_create_def place_def)

lemma walk_prefix_exists: "tr_walk t n d (a @ b) = Inr r \<Longrightarrow> \<exists>s. tr_walk t n d a = Inr s"
  using walk_fails [of t n d a _ b] by (cases "tr_walk t n d a") auto

lemma mkdir_existing:
  "tr_walk t tr_eval_links [] p = Inr r \<Longrightarrow> \<forall>c\<in>set p. plain_elem c \<Longrightarrow> snd (tr_MkdirAll v p t) = t"
proof (induction p arbitrary: r rule: rev_induct)
  case (snoc c q)
  from snoc.prems(1) obtain s where "tr_walk t tr_eval_links [] q = Inr s" by (blast dest: walk_prefix_exists)
  with snoc have "snd (tr_MkdirAll v q t) = t" by simp
  moreover from create_existing [OF snoc.prems] have "snd (tr_create v (q @ [c]) ADir t) = t" .
  ultimately show ?case
    by (cases "tr_MkdirAll v q t"; cases "tr_create v (q @ [c]) ADir t")
      (simp add: tr_MkdirAll.simps [of v "q @ [c]"] split: sum.split option.split)
qed (simp add: tr_MkdirAll.simps)


lemma mkdir_missing:
  assumes "real_tree t" and "tr_walk t tr_eval_links [] ex = Inr r"
    and "u \<noteq> [] \<Longrightarrow> tr_walk t tr_eval_links [] (ex @ [hd u]) = Inl WNotExist"
    and "\<forall>c\<in>set (ex @ u). plain_elem c" and "tr_MkdirAll v (ex @ u) t = (e, t1)"
  shows "t \<subseteq>\<^sub>m t1 \<and> real_tree t1 \<and> (\<forall>x. t x = None \<and> t1 x \<noteq> None \<longrightarrow> (\<exists>w z. w \<noteq> [] \<and> u = w @ z \<and> x = r @ w)) \<and>
         (e = None \<longrightarrow> tr_walk t1 tr_eval_links [] (ex @ u) = Inr (r @ u))"
  using assms(3-5)
proof (induction u arbitrary: e t1 rule: rev_induct)
  case Nil
  then have "t1 = t" using mkdir_existing [OF assms(2), of v] by simp
  with assms(1,2) show ?case by auto
next
  case (snoc c u)
  have hd: "tr_walk t tr_eval_links [] (ex @ [hd (u @ [c])]) = Inl WNotExist" using snoc.prems(1) by simp
  have "tr_walk t tr_eval_links [] (ex @ u @ [c]) = Inl WNotExist"
    using walk_fails [OF hd, of "tl (u @ [c])"] by simp
  then obtain w where w: "tr_walk t tr_kernel_links [] (ex @ u @ [c]) = Inl w"
    using kernel_within_eval [of t "[]" "ex @ u @ [c]"] by (cases "tr_walk t tr_kernel_links [] (ex @ u @ [c])") auto
  obtain e0 t0 where m: "tr_MkdirAll v (ex @ u) t = (e0, t0)" by fastforce
  obtain e2 t2 where k: "tr_create v (ex @ u @ [c]) ADir t0 = (e2, t2)" by fastforce
  have "u \<noteq> [] \<Longrightarrow> tr_walk t tr_eval_links [] (ex @ [hd u]) = Inl WNotExist" using hd by (cases u) auto
  from snoc.IH [OF this _ m] snoc.prems(2)
  have ih: "t \<subseteq>\<^sub>m t0" "real_tree t0" "e0 = None \<Longrightarrow> tr_walk t0 tr_eval_links [] (ex @ u) = Inr (r @ u)"
    "\<And>x. t x = None \<Longrightarrow> t0 x \<noteq> None \<Longrightarrow> \<exists>w z. w \<noteq> [] \<and> u = w @ z \<and> x = r @ w"
    by auto
  have "tr_MkdirAll v (ex @ u @ [c]) t = (case e0 of Some g \<Rightarrow> (Some g, t0)
      | None \<Rightarrow> (case e2 of None \<Rightarrow> (None, t2) | Some g \<Rightarrow> (if tr_Lstat t2 (ex @ u @ [c]) = Some ADir then None else Some g, t2)))"
    by (cases e0; cases e2) (simp_all add: tr_MkdirAll.simps [of v "ex @ u @ [c]"] w m k butlast_append)
  note step = this [unfolded snoc.prems(3) [simplified]]
  show ?case
  proof (cases e0)
    case (Some g)
    then have e: "e = Some g" "t1 = t0" using step by simp_all
    have "\<exists>w z. w \<noteq> [] \<and> u @ [c] = w @ z \<and> x = r @ w" if "t x = None" "t0 x \<noteq> None" for x
    proof -
      from ih(4) [OF that] obtain w z where "w \<noteq> []" "u = w @ z" "x = r @ w" by blast
      then show ?thesis by (intro exI [of _ w] exI [of _ "z @ [c]"]) simp
    qed
    then show ?thesis using e ih(1,2) by simp
  next
    case None
    note here = ih(3) [OF None]
    have at: "q = r @ u @ [c] \<and> at_dir t0 (r @ u)" if pl: "place t0 (ex @ u @ [c]) = Inr q" for q
    proof -
      obtain d where d: "tr_walk t0 tr_kernel_links [] (ex @ u) = Inr d" "at_dir t0 d" "q = d @ [c]"
        using pl by (auto simp: place_def butlast_append split: if_splits sum.splits)
      from kernel_within_eval [OF d(1)] here have "d = r @ u" by simp
      with d show ?thesis by simp
    qed
    have t1: "t1 = t2" using step None by (auto split: option.splits)
    note g = create_grows [OF k ih(2)]
    have new: "x = r @ u @ [c]" if "t0 x = None" "t2 x \<noteq> None" for x
      using g(3) at that by (auto split: if_splits)
    have found: "t2 (r @ u @ [c]) = Some ADir \<and> at_dir t0 (r @ u)" if "e = None"
    proof (cases e2)
      case None
      then show ?thesis using k at by (auto simp: tr_create_def split: sum.splits if_splits)
    next
      case (Some g)
      then have same: "t2 = t0" using k by (auto simp: tr_create_def split: sum.splits if_splits)
      have "tr_Lstat t2 (ex @ u @ [c]) = Some ADir" using step None Some that by (auto split: if_splits)
      then show ?thesis using at same by (auto simp: tr_Lstat_def split: sum.splits if_splits)
    qed
    have "tr_walk t1 tr_eval_links [] (ex @ u @ [c]) = Inr (r @ u @ [c])" if "e = None"
    proof -
      have w2: "tr_walk t2 tr_eval_links [] (ex @ u) = Inr (r @ u)" using walk_mono [OF here g(1)] by simp
      have "plain_elem c" using snoc.prems(2) by simp
      with walk_snoc(2) [OF w2 at_dir_mono [OF _ g(1)] this] found [OF that] t1 show ?thesis by simp
    qed
    moreover have "\<exists>w z. w \<noteq> [] \<and> u @ [c] = w @ z \<and> x = r @ w" if "t x = None" "t1 x \<noteq> None" for x
    proof (cases "t0 x = None")
      case True
      with new that t1 have "x = r @ u @ [c]" by simp
      then show ?thesis by (intro exI [of _ "u @ [c]"] exI [of _ "[]"]) simp
    next
      case False
      from ih(4) [OF that(1) False] obtain w z where "w \<noteq> []" "u = w @ z" "x = r @ w" by blast
      then show ?thesis by (intro exI [of _ w] exI [of _ "z @ [c]"]) simp
    qed
    moreover have "t \<subseteq>\<^sub>m t1" using map_le_trans [OF ih(1) g(1)] t1 by simp
    ultimately show ?thesis using g(2) t1 by auto
  qed
qed

text \<open>What an extraction may do to a tree: nothing that is there changes, what is new lies below \<open>rr\<close>.\<close>

definition tree_grows :: "string list \<Rightarrow> tree \<Rightarrow> tree \<Rightarrow> bool" where
  "tree_grows rr t t' \<longleftrightarrow>
     t \<subseteq>\<^sub>m t' \<and> real_tree t' \<and> (\<forall>q. t q = None \<and> t' q \<noteq> None \<longrightarrow> strict_prefix rr q)"

lemma grows_refl: "real_tree t \<Longrightarrow> tree_grows rr t t"
  by (auto simp: tree_grows_def)

lemma grows_trans: "tree_grows rr t t1 \<Longrightarrow> tree_grows rr t1 t2 \<Longrightarrow> tree_grows rr t t2"
  unfolding tree_grows_def by (metis map_le_trans)

text \<open>A path whose missing elements hang from an existing directory at or below \<open>rr\<close>.\<close>

definition checked :: "string list \<Rightarrow> tree \<Rightarrow> string list \<Rightarrow> bool" where
  "checked rr t p \<longleftrightarrow>
     (\<forall>c\<in>set p. plain_elem c) \<and>
     (\<exists>ex ms r. p = ex @ ms \<and> tr_walk t tr_eval_links [] ex = Inr r \<and>
        (ms \<noteq> [] \<longrightarrow> tr_walk t tr_eval_links [] (ex @ [hd ms]) = Inl WNotExist \<and> prefix rr r))"

lemma checkedI:
  "\<forall>c\<in>set (ex @ ms). plain_elem c \<Longrightarrow> tr_walk t tr_eval_links [] ex = Inr r \<Longrightarrow>
   (ms \<noteq> [] \<Longrightarrow> tr_walk t tr_eval_links [] (ex @ [hd ms]) = Inl WNotExist \<and> prefix rr r) \<Longrightarrow> checked rr t (ex @ ms)"
  unfolding checked_def by blast

lemma eval_prefix_split:
  "eval_prefix t p missing = Inr rp \<Longrightarrow>
   \<exists>ex ms r. p = ex @ ms \<and> tr_walk t tr_eval_links [] ex = Inr r \<and> rp = r @ ms @ missing \<and>
     (ms \<noteq> [] \<longrightarrow> tr_walk t tr_eval_links [] (ex @ [hd ms]) = Inl WNotExist)"
proof (induction t p missing rule: eval_prefix.induct)
  case (1 t p missing)
  show ?case
  proof (cases "tr_walk t tr_eval_links [] p")
    case (Inr r)
    with 1(2) show ?thesis by (intro exI [of _ p] exI [of _ "[]"] exI [of _ r]) (simp add: eval_prefix.simps [of t p])
  next
    case (Inl e)
    with 1(2) have e: "e = WNotExist" "p \<noteq> []" "eval_prefix t (butlast p) (last p # missing) = Inr rp"
      by (auto simp: eval_prefix.simps [of t p] split: if_splits)
    with 1(1) [OF Inl] obtain ex ms r where
      i: "butlast p = ex @ ms" "tr_walk t tr_eval_links [] ex = Inr r" "rp = r @ ms @ last p # missing"
        "ms \<noteq> [] \<longrightarrow> tr_walk t tr_eval_links [] (ex @ [hd ms]) = Inl WNotExist" by auto
    have p: "p = ex @ ms @ [last p]" using i(1) e(2) append_butlast_last_id [of p] by simp
    show ?thesis
    proof (intro exI conjI)
      show "p = ex @ (ms @ [last p])" using p by simp
      show "ms @ [last p] \<noteq> [] \<longrightarrow> tr_walk t tr_eval_links [] (ex @ [hd (ms @ [last p])]) = Inl WNotExist"
        using i(4) p Inl e(1) by (cases ms) auto
    qed (use i in simp_all)
  qed
qed

lemma prefix_is_checked:
  assumes "eval_prefix t p [] = Inr rp" and "prefix rr rp" and "real_tree t" and "at_dir t rr"
    and plain: "\<forall>c\<in>set p. plain_elem c"
  shows "checked rr t p"
proof -
  obtain ex ms r where s: "p = ex @ ms" "tr_walk t tr_eval_links [] ex = Inr r" "rp = r @ ms"
    "ms \<noteq> [] \<longrightarrow> tr_walk t tr_eval_links [] (ex @ [hd ms]) = Inl WNotExist"
    using eval_prefix_split [OF assms(1)] by auto
  have "prefix rr r" if ms: "ms \<noteq> []"
  proof (rule ccontr)
    assume "\<not> prefix rr r"
    with assms(2) s(3) ms obtain z where "rr = (r @ [hd ms]) @ z"
      by (cases ms) (auto simp: prefix_append prefix_Cons elim: prefixE)
    with assms(3,4) have d: "at_dir t (r @ [hd ms])" by (blast intro: at_dir_prefix)
    then have "at_dir t r" by (rule at_dir_prefix [OF assms(3)])
    moreover have "plain_elem (hd ms)" using plain s(1) ms by (cases ms) auto
    ultimately show False using walk_snoc(2) [OF s(2)] d s(4) ms by (simp add: at_dir_def)
  qed
  with s plain show ?thesis unfolding checked_def by blast
qed

lemma missing_grows:
  assumes "t \<subseteq>\<^sub>m t1" and "real_tree t1" and "prefix rr r"
    and "\<And>x. t x = None \<Longrightarrow> t1 x \<noteq> None \<Longrightarrow> \<exists>w z. w \<noteq> [] \<and> u = w @ z \<and> x = r @ w"
  shows "tree_grows rr t t1"
proof -
  have "strict_prefix rr x" if "t x = None" "t1 x \<noteq> None" for x
    using assms(3) assms(4) [OF that] by (auto elim!: prefixE simp: strict_prefix_def)
  with assms(1,2) show ?thesis by (simp add: tree_grows_def)
qed

lemma checked_mkdir:
  assumes "checked rr t p" and "real_tree t" and "tr_MkdirAll v p t = (e, t1)"
  shows "tree_grows rr t t1"
proof -
  obtain ex ms r where s: "p = ex @ ms" "tr_walk t tr_eval_links [] ex = Inr r"
    "ms \<noteq> [] \<Longrightarrow> tr_walk t tr_eval_links [] (ex @ [hd ms]) = Inl WNotExist" "ms \<noteq> [] \<Longrightarrow> prefix rr r"
    using assms(1) unfolding checked_def by auto
  have plain: "\<forall>c\<in>set (ex @ ms). plain_elem c" using assms(1) s(1) by (simp add: checked_def)
  show ?thesis
  proof (cases "ms = []")
    case True
    with s plain assms(3) have "t1 = t" using mkdir_existing [of t ex r v] by simp
    then show ?thesis using assms(2) by (simp add: grows_refl)
  next
    case False
    from mkdir_missing [OF assms(2) s(2,3) plain, of v e t1] s assms(3) False
    show ?thesis by (intro missing_grows [where r = r and u = ms]) auto
  qed
qed

lemma checked_create:
  assumes "checked rr t p" and "real_tree t" and "tr_MkdirAll v (butlast p) t = (None, t1)" and "tr_create v p x t1 = (e, t2)"
  shows "tree_grows rr t t2"
proof -
  obtain ex ms r where s: "p = ex @ ms" "tr_walk t tr_eval_links [] ex = Inr r"
    "ms \<noteq> [] \<Longrightarrow> tr_walk t tr_eval_links [] (ex @ [hd ms]) = Inl WNotExist" "ms \<noteq> [] \<Longrightarrow> prefix rr r"
    using assms(1) unfolding checked_def by auto
  have plain: "\<forall>c\<in>set p. plain_elem c" using assms(1) by (simp add: checked_def)
  show ?thesis
  proof (cases ms rule: rev_cases)
    case Nil
    with s plain have "snd (tr_MkdirAll v (butlast p) t) = t"
      by (cases p rule: rev_cases) (auto simp: tr_MkdirAll.simps [of v "[]"] dest!: walk_prefix_exists intro: mkdir_existing)
    with assms(3) have "t1 = t" by simp
    moreover from this have "t2 = t" using create_existing [of t p r v x] s Nil plain assms(4) by simp
    ultimately show ?thesis using assms(2) by (simp add: grows_refl)
  next
    case (snoc u c)
    have m: "tr_MkdirAll v (ex @ u) t = (None, t1)" using assms(3) s(1) snoc by (simp add: butlast_append)
    have "u \<noteq> [] \<Longrightarrow> tr_walk t tr_eval_links [] (ex @ [hd u]) = Inl WNotExist" using s(3) snoc by (cases u) auto
    from mkdir_missing [OF assms(2) s(2) this _ m] plain s(1) snoc
    have t1: "t \<subseteq>\<^sub>m t1" "real_tree t1" "tr_walk t1 tr_eval_links [] (ex @ u) = Inr (r @ u)"
      "\<And>x. t x = None \<Longrightarrow> t1 x \<noteq> None \<Longrightarrow> \<exists>w z. w \<noteq> [] \<and> u = w @ z \<and> x = r @ w"
      by auto
    have pr: "prefix rr r" using s(4) snoc by simp
    have "strict_prefix rr q" if pl: "place t1 p = Inr q" for q
    proof -
      obtain d where d: "tr_walk t1 tr_kernel_links [] (ex @ u) = Inr d" "q = d @ [c]"
        using pl unfolding s(1) snoc by (auto simp: place_def butlast_append split: if_splits sum.splits)
      from kernel_within_eval [OF d(1)] t1(3) have "d = r @ u" by simp
      with d pr show ?thesis by (auto elim!: prefixE simp: strict_prefix_def)
    qed
    with create_grows [OF assms(4) t1(2)] have "tree_grows rr t1 t2" by (auto simp: tree_grows_def split: if_splits)
    moreover have "tree_grows rr t t1" using missing_grows [OF t1(1,2) pr t1(4)] .
    ultimately show ?thesis by (blast intro: grows_trans)
  qed
qed

section \<open>The check of an entry's path\<close>

definition solid :: "string list \<Rightarrow> bool" where
  "solid cs \<longleftrightarrow> (\<forall>c\<in>set cs. c \<noteq> [] \<and> slash \<notin> set c)"

lemma solid_plain: "\<forall>c\<in>set cs. plain_elem c \<Longrightarrow> solid cs"
  using plain_elemD by (auto simp: solid_def)

lemma solid_append [simp]: "solid (a @ b) \<longleftrightarrow> solid a \<and> solid b"
  by (auto simp: solid_def)

lemma solid_single [simp]: "solid [c] \<longleftrightarrow> c \<noteq> [] \<and> slash \<notin> set c" "solid []"
  by (simp_all add: solid_def)

lemma walk_solid:
  "tr_walk t n d cs = Inr r \<Longrightarrow> solid d \<Longrightarrow> \<forall>c\<in>set cs. slash \<notin> set c \<Longrightarrow> solid r"
proof (induction t n d cs rule: tr_walk.induct)
  case (2 t n d c cs)
  have up: "solid (butlast d)" using "2.prems"(2) by (auto simp: solid_def dest: in_set_butlastD)
  have cs: "slash \<notin> set c" "\<forall>c\<in>set cs. slash \<notin> set c" using "2.prems"(3) by auto
  show ?case
  proof (cases "\<exists>l k. t (d @ [c]) = Some (ALink l) \<and> n = Suc k \<and> c \<noteq> [] \<and> c \<noteq> ''.'' \<and> c \<noteq> dotdot")
    case True
    then obtain l k where k: "t (d @ [c]) = Some (ALink l)" "n = Suc k" "c \<noteq> []" "c \<noteq> ''.''" "c \<noteq> dotdot" by blast
    have "solid (if rooted l then [] else d)" "\<forall>x\<in>set (split_on slash l @ cs). slash \<notin> set x"
      using "2.prems"(2) cs split_on_clean [of _ slash l] by auto
    then show ?thesis using "2.IH"(4) [of "ALink l" l k] "2.prems"(1) k by simp
  next
    case False
    consider "c = [] \<or> c = ''.''" | "c = dotdot" | "c \<noteq> []" "c \<noteq> ''.''" "c \<noteq> dotdot" by blast
    then show ?thesis
    proof cases
      case 1
      with "2.prems"(1) show ?thesis using "2.IH"(1) [OF 1 _ "2.prems"(2) cs(2)] by (simp add: walk_skip)
    next
      case 2
      with "2.prems"(1) not_dotdot show ?thesis using "2.IH"(2) [OF _ _ _ up cs(2)] by (simp add: walk_up)
    next
      case 3
      with "2.prems"(1) obtain x where x: "t (d @ [c]) = Some x" by (auto split: option.splits)
      have dc: "solid (d @ [c])" using "2.prems"(2) 3 cs by simp
      show ?thesis
      proof (cases x)
        case ADir
        with "2.prems"(1) 3 x show ?thesis using "2.IH"(3) [OF _ _ x ADir _ dc cs(2)] by simp
      qed (use "2.prems"(1) 3 x False dc in \<open>auto split: if_splits nat.splits\<close>)
    qed
  qed
qed simp

lemma split_mk_path: "solid cs \<Longrightarrow> cs \<noteq> [] \<Longrightarrow> split_on slash (mk_path True cs) = [] # cs"
  by (simp add: mk_path_def split_on_join solid_def)

lemma mk_path_slash:
  assumes "solid cs"
  shows "mk_path True cs = [slash] \<longleftrightarrow> cs = []"
proof (cases cs)
  case (Cons x xs)
  with assms show ?thesis by (cases xs) (auto simp: mk_path_def solid_def)
qed (simp add: mk_path_def)

text \<open>The comparison of the two strings is the comparison of their elements.\<close>

lemma string_prefix:
  assumes "mk_path True b = mk_path True a \<or> has_prefix (mk_path True b) (mk_path True a @ ''/'')"
    and "solid a" and "solid b"
  shows "prefix a b"
proof (cases "a = []")
  case False
  obtain z where z: "mk_path True b = mk_path True a \<or> mk_path True b = mk_path True a @ slash # z"
    using assms(1) by (auto simp: has_prefix_iff slash_def)
  have "b \<noteq> []"
  proof
    assume "b = []"
    then have "mk_path True b = [slash]" by (simp add: mk_path_def)
    moreover obtain y where y: "mk_path True a = slash # y" by (simp add: mk_path_def)
    ultimately have "y = []" using z by simp
    with y have "mk_path True a = [slash]" by simp
    with False assms(2) show False by (simp add: mk_path_slash)
  qed
  from split_mk_path [OF assms(3) this] split_mk_path [OF assms(2) False]
  have sp: "split_on slash (mk_path True b) = [] # b" "split_on slash (mk_path True a) = [] # a" .
  from z show ?thesis
  proof
    assume "mk_path True b = mk_path True a"
    then have "[] # b = [] # a" using sp by metis
    then show ?thesis by blast
  next
    assume "mk_path True b = mk_path True a @ slash # z"
    then have "[] # b = ([] # a) @ split_on slash z" using sp split_on_join_slash by metis
    then show ?thesis by simp
  qed
qed simp

lemma elems_trailing: "a \<noteq> [] \<Longrightarrow> elems (a @ [slash]) = elems a"
  using split_on_snoc_sep [of "[]" a] by (simp add: elems_def rooted_append clean_elems_append)

lemma elems_Dir_path:
  assumes "p = mk_path True cs" and "\<forall>c\<in>set cs. plain_elem c"
  shows "elems (Dir p) = butlast cs"
proof (cases cs rule: rev_cases)
  case Nil
  then have "p = [slash]" using assms(1) by (simp add: mk_path_def)
  moreover have "elems [slash] = []" by (simp add: elems_def)
  ultimately show ?thesis using Nil by (simp add: Dir_def)
next
  case (snoc d c)
  have c: "c \<noteq> []" "slash \<notin> set c" using assms(2) snoc plain_elemD by auto
  define a where "a = (if d = [] then [] else mk_path True d)"
  have p: "p = a @ slash # c" using assms(1) snoc by (simp add: a_def mk_path_def join_with_snoc)
  have "dropWhile (\<lambda>x. x \<noteq> slash) (rev c @ slash # rev a) = slash # rev a"
    using c(2) by (subst dropWhile_append2) auto
  then have D: "Dir p = Clean (a @ [slash])" using p by (simp add: Dir_def)
  have d: "clean_list True d" using assms(2) snoc by (simp add: clean_list_rooted)
  have "elems (a @ [slash]) = d"
  proof (cases "d = []")
    case False
    then have "a \<noteq> []" by (simp add: a_def mk_path_def)
    then show ?thesis using False d by (simp add: elems_trailing) (simp add: a_def)
  qed (simp add: a_def elems_def)
  then show ?thesis using D snoc by simp
qed

lemma entryPath_checked:
  assumes "entryPath t root name = Inr target" and "rooted root"
    and "tr_walk t tr_eval_links [] (elems root) = Inr rr" and "real_tree t" and "at_dir t rr"
  shows "checked rr t (elems target)" and "elems (Dir target) = butlast (elems target)" and "rooted target"
proof -
  have root: "root \<noteq> []" using assms(2) by (auto simp: rooted_def)
  have pl: "\<forall>c\<in>set (elems root). plain_elem c" using assms(2) rooted_elems_plain by blast
  have "eval_prefix t (elems root) [] = Inr rr" using assms(3) by (simp add: eval_prefix.simps [of t "elems root"])
  then have ev: "evalExistingPrefix t root = Inr (mk_path True rr)" by (simp add: evalExistingPrefix_def)
  define j where "j = Join [root, Clean name]"
  obtain rp where
    rp: "eval_prefix t (elems target) [] = Inr rp" "target = j"
      "mk_path True rp = mk_path True rr \<or> has_prefix (mk_path True rp) (mk_path True rr @ ''/'')"
    using assms(1) unfolding entryPath_def ev j_def [symmetric]
    by (cases "eval_prefix t (elems j) []") (auto simp: evalExistingPrefix_def split: if_splits)
  have "rooted (Join [root, Clean name])" using root assms(2) by (simp add: Join_def rooted_append)
  then show r: "rooted target" using rp(2) by (simp add: j_def)
  have plain: "\<forall>c\<in>set (elems target). plain_elem c" using r rooted_elems_plain by blast
  have "\<exists>q. q \<noteq> [] \<and> target = Clean q" using root rp(2) by (auto simp: j_def Join_def)
  then have "Clean target = target" by auto
  then have t: "target = mk_path True (elems target)" using r unfolding Clean_def by metis
  then show "elems (Dir target) = butlast (elems target)" using plain by (rule elems_Dir_path)
  have a: "solid rr" using walk_solid [OF assms(3)] pl plain_elemD by (simp add: solid_def)
  obtain ex ms s where s: "elems target = ex @ ms" "tr_walk t tr_eval_links [] ex = Inr s" "rp = s @ ms"
    using eval_prefix_split [OF rp(1)] by auto
  have em: "solid ex" "solid ms" using solid_plain [OF plain] s(1) by simp_all
  then have "solid s" using walk_solid [OF s(2)] by (simp add: solid_def [of ex])
  with em(2) s(3) have b: "solid rp" by simp
  have "prefix rr rp" using string_prefix [OF rp(3) a b] .
  from prefix_is_checked [OF rp(1) this assms(4,5) plain] show "checked rr t (elems target)" .
qed

section \<open>Extraction stays in the directory\<close>

text \<open>What every step of an extraction keeps: the tree grew below the real root.\<close>

lemma root_stays:
  assumes "tr_walk t n [] root = Inr rr" and "at_dir t rr" and "tree_grows rr t t1"
  shows "tr_walk t1 n [] root = Inr rr" and "at_dir t1 rr" and "real_tree t1"
  using assms walk_mono [of t n "[]" root rr t1 n] at_dir_mono [of t rr t1] by (auto simp: tree_grows_def)

lemma with_parent_grows:
  assumes "checked rr t (elems target)" and "elems (Dir target) = butlast (elems target)" and "real_tree t"
    and "with_parent v target act t = (e, t2)"
    and act: "\<And>t1. tree_grows rr t t1 \<Longrightarrow> act t1 = (e, t2) \<Longrightarrow>
      t2 = t1 \<or> (\<exists>x w. tr_create v (elems target) x t1 = (w, t2))"
  shows "tree_grows rr t t2"
proof (cases "tr_MkdirAll v (butlast (elems target)) t")
  case (Pair w t1)
  have plain: "\<forall>c\<in>set (elems target). plain_elem c" using assms(1) by (simp add: checked_def)
  have up: "checked rr t (butlast (elems target))"
  proof -
    obtain ex ms r where s: "elems target = ex @ ms" "tr_walk t tr_eval_links [] ex = Inr r"
      "ms \<noteq> [] \<longrightarrow> tr_walk t tr_eval_links [] (ex @ [hd ms]) = Inl WNotExist \<and> prefix rr r"
      using assms(1) unfolding checked_def by auto
    have bp: "\<forall>c\<in>set (butlast (elems target)). plain_elem c" using plain by (auto dest: in_set_butlastD)
    show ?thesis
    proof (cases ms rule: rev_cases)
      case Nil
      then obtain q where "tr_walk t tr_eval_links [] (butlast ex) = Inr q"
        using s(2) walk_prefix_exists [of t tr_eval_links "[]" "butlast ex" "[last ex]"] by (cases ex rule: rev_cases) auto
      then show ?thesis using checkedI [of "butlast ex" "[]" t q] bp s(1) Nil by simp
    next
      case (snoc u c)
      have "u \<noteq> [] \<longrightarrow> tr_walk t tr_eval_links [] (ex @ [hd u]) = Inl WNotExist \<and> prefix rr r"
        using s(3) snoc by (cases u) auto
      then show ?thesis using checkedI [of ex u t r rr] bp s(1,2) snoc by (simp add: butlast_append)
    qed
  qed
  have g1: "tree_grows rr t t1" using checked_mkdir [OF up assms(3) Pair] .
  show ?thesis
  proof (cases w)
    case (Some g)
    with assms(4) Pair assms(2) have "t2 = t1" by (simp add: with_parent_def)
    with g1 show ?thesis by simp
  next
    case None
    with assms(2,4) Pair have "act t1 = (e, t2)" by (simp add: with_parent_def)
    from act [OF g1 this] show ?thesis
      using g1 checked_create [OF assms(1,3), of v t1] Pair None by blast
  qed
qed

lemma writeEntry_creates:
  "writeEntry v target e t = (g, t2) \<Longrightarrow>
   t2 = t \<or> (\<exists>data w. tr_create v (elems target) (AFile (entry_perm v e) data) t = (w, t2))"
  by (auto simp: writeEntry_def Let_def split: if_splits prod.splits option.splits)

lemma write_link_creates:
  "write_link v root e target resolved t = (g, t2) \<Longrightarrow>
   t2 = t \<or> (\<exists>x w. tr_create v (elems target) x t = (w, t2) \<and>
     ((\<exists>l. x = ALink l) \<or> (\<exists>q. t q = Some x)))"
proof -
  assume w: "write_link v root e target resolved t = (g, t2)"
  have src: "\<exists>q. t q = Some x" if "tr_Lstat t p = Some x" "x \<noteq> ADir" for p x
    using that by (auto simp: tr_Lstat_def split: if_splits sum.splits)
  show ?thesis
  proof (cases "te_type e = TypeLink")
    case True
    with w show ?thesis
      by (auto simp: write_link_def os_result_def tr_Link_def split: sum.splits option.splits anode.splits
          intro!: src) (metis anode.distinct(1,3) prod.collapse src)+
  next
    case False
    with w show ?thesis
      by (auto simp: write_link_def os_result_def split: option.splits) (metis prod.collapse)
  qed
qed

lemma extractEntry_grows:
  assumes "extractEntry v root e t = (g, t2)" and "rooted root"
    and "tr_walk t tr_eval_links [] (elems root) = Inr rr" and "real_tree t" and "at_dir t rr"
  shows "tree_grows rr t t2"
proof (cases "entryPath t root (te_name e)")
  case (Inl w)
  with assms(1) have "t2 = t" by (simp add: extractEntry_def)
  then show ?thesis using assms(4) by (simp add: grows_refl)
next
  case (Inr target)
  note c = entryPath_checked [OF Inr assms(2-5)]
  consider (dir) w where "tr_MkdirAll v (elems target) t = (w, t2)"
    | (reg) "with_parent v target (writeEntry v target e) t = (g, t2)"
    | (link) resolved where "with_parent v target (write_link v root e target resolved) t = (g, t2)"
    | (none) "t2 = t"
    using assms(1) Inr by (auto simp: extractEntry_def os_result_def split: if_splits sum.splits) (metis prod.collapse)
  then show ?thesis
  proof cases
    case dir
    then show ?thesis by (rule checked_mkdir [OF c(1) assms(4)])
  next
    case reg
    then show ?thesis
      by (rule with_parent_grows [OF c(1,2) assms(4)]) (blast dest: writeEntry_creates)
  next
    case link
    then show ?thesis
      by (rule with_parent_grows [OF c(1,2) assms(4)]) (blast dest: write_link_creates)
  next
    case none
    then show ?thesis using assms(4) by (simp add: grows_refl)
  qed
qed

lemma extract_entries_grows:
  "extract_entries v root es end t = (g, t2) \<Longrightarrow> rooted root \<Longrightarrow>
   tr_walk t tr_eval_links [] (elems root) = Inr rr \<Longrightarrow> real_tree t \<Longrightarrow> at_dir t rr \<Longrightarrow> tree_grows rr t t2"
proof (induction v root es "end" t rule: extract_entries.induct)
  case (2 v root e es "end" t)
  obtain w t1 where e: "extractEntry v root e t = (w, t1)" by fastforce
  have g: "tree_grows rr t t1" using extractEntry_grows [OF e] "2.prems" by simp
  show ?case
  proof (cases w)
    case (Some x)
    with e "2.prems"(1) g show ?thesis by simp
  next
    case None
    from root_stays [OF "2.prems"(3,5) g] "2.IH" [OF e [symmetric] None] "2.prems"(1,2) e None
    have "tree_grows rr t1 t2" by simp
    with g show ?thesis by (rule grows_trans)
  qed
qed (simp add: grows_refl)

text \<open>
  C32: Unpacking an archive, whatever it holds and however it ends, changes nothing that was there and
  creates files, directories and links only below the real directory it unpacks into: links planted by earlier
  entries included.
\<close>

theorem extraction_stays_inside:
  assumes "real_tree t" and "rooted (tr_Abs v destination)"
    and "tr_walk t tr_eval_links [] (elems (tr_Abs v destination)) = Inr rr" and "at_dir t rr"
    and "extractTarGz v ar destination t = (res, t')"
  shows "(\<forall>p x. t p = Some x \<longrightarrow> t' p = Some x) \<and> (\<forall>p. t p = None \<and> t' p \<noteq> None \<longrightarrow> strict_prefix rr p)"
proof -
  have "\<forall>c\<in>set (elems (tr_Abs v destination)). plain_elem c" using assms(2) rooted_elems_plain by blast
  with assms(3) have m: "snd (tr_MkdirAll v (elems (tr_Abs v destination)) t) = t" by (blast intro: mkdir_existing)
  obtain w where mk: "tr_MkdirAll v (elems (tr_Abs v destination)) t = (w, t)" using m by (metis prod.collapse)
  have "t' = t \<or> (\<exists>es end g. extract_entries v (tr_Abs v destination) es end t = (g, t'))"
    using assms(5) mk by (auto simp: extractTarGz_def split: option.splits sum.splits prod.splits)
  then have "tree_grows rr t t'"
    using extract_entries_grows assms(1-4) by (blast intro: grows_refl)
  then show ?thesis by (auto simp: tree_grows_def map_le_def dom_def)
qed

definition modest :: "tree \<Rightarrow> anode \<Rightarrow> bool" where
  "modest t x \<longleftrightarrow> (\<forall>m b. x = AFile m b \<longrightarrow> m AND NOT entryMode = 0 \<or> (\<exists>q. t q = Some x))"

lemma entry_perm_modest: "modest t (AFile (entry_perm v e) b)"
proof -
  have "entry_perm v e AND NOT entryMode = 0" unfolding entry_perm_def by (rule bit_word_eqI) (simp add: bit_simps)
  then show ?thesis by (simp add: modest_def)
qed

lemma mkdir_makes_dirs:
  "tr_MkdirAll v p t = (e, t1) \<Longrightarrow> t1 q = Some x \<Longrightarrow> t q = Some x \<or> x = ADir"
proof (induction v p t arbitrary: e t1 rule: tr_MkdirAll.induct)
  case (1 v p t)
  show ?case
  proof (cases "tr_walk t tr_kernel_links [] p")
    case (Inl w)
    show ?thesis
    proof (cases "p = []")
      case False
      obtain e0 t0 where m: "tr_MkdirAll v (butlast p) t = (e0, t0)" by fastforce
      obtain e2 t2 where k: "tr_create v p ADir t0 = (e2, t2)" by fastforce
      have ih: "t0 q = Some x \<Longrightarrow> t q = Some x \<or> x = ADir" using "1.IH" [OF Inl False m] .
      have "t1 = t0 \<or> t1 = t2"
        using "1.prems"(1) Inl False m k by (cases e0; cases e2) (simp_all add: tr_MkdirAll.simps [of v p])
      moreover have "t2 q = Some x \<Longrightarrow> t0 q = Some x \<or> x = ADir"
        using k by (auto simp: tr_create_def split: sum.splits if_splits)
      ultimately show ?thesis using ih "1.prems"(2) by blast
    qed (use "1.prems" Inl in \<open>simp add: tr_MkdirAll.simps [of v p]\<close>)
  qed (use "1.prems" in \<open>simp add: tr_MkdirAll.simps [of v p]\<close>)
qed

lemma create_makes:
  "tr_create v p x t = (w, t1) \<Longrightarrow> t1 q = Some y \<Longrightarrow> t q = Some y \<or> y = x"
  by (auto simp: tr_create_def split: sum.splits if_splits)

definition all_modest :: "tree \<Rightarrow> tree \<Rightarrow> bool" where
  "all_modest t t1 \<longleftrightarrow> (\<forall>q x. t1 q = Some x \<longrightarrow> modest t x)"

lemma mkdir_modest: "all_modest t t1 \<Longrightarrow> tr_MkdirAll v p t1 = (e, t2) \<Longrightarrow> all_modest t t2"
  unfolding all_modest_def by (metis anode.distinct(1) mkdir_makes_dirs modest_def)

lemma create_modest: "all_modest t t1 \<Longrightarrow> modest t x \<Longrightarrow> tr_create v p x t1 = (e, t2) \<Longrightarrow> all_modest t t2"
  unfolding all_modest_def by (metis create_makes)

lemma with_parent_modest:
  assumes "all_modest t t1" and "with_parent v target act t1 = (g, t2)"
    and "\<And>t0. all_modest t t0 \<Longrightarrow> act t0 = (g, t2) \<Longrightarrow> all_modest t t2"
  shows "all_modest t t2"
proof -
  obtain w t0 where m: "tr_MkdirAll v (elems (Dir target)) t1 = (w, t0)" by fastforce
  from mkdir_modest [OF assms(1) m] assms(2,3) m show ?thesis
    by (cases w) (auto simp: with_parent_def)
qed

lemma writeEntry_modest:
  "all_modest t t0 \<Longrightarrow> writeEntry v target e t0 = (g, t2) \<Longrightarrow> all_modest t t2"
  using writeEntry_creates create_modest entry_perm_modest by blast

lemma write_link_modest:
  assumes "all_modest t t0" and "write_link v root e target resolved t0 = (g, t2)"
  shows "all_modest t t2"
proof -
  have l: "modest t (ALink l)" for l by (simp add: modest_def)
  from write_link_creates [OF assms(2)] show ?thesis
  proof
    assume "\<exists>x w. tr_create v (elems target) x t0 = (w, t2) \<and> ((\<exists>l. x = ALink l) \<or> (\<exists>q. t0 q = Some x))"
    then obtain x w where x: "tr_create v (elems target) x t0 = (w, t2)" "(\<exists>l. x = ALink l) \<or> (\<exists>q. t0 q = Some x)" by blast
    then have "modest t x" using l assms(1) by (auto simp: all_modest_def)
    with assms(1) x(1) show ?thesis by (blast intro: create_modest)
  qed (use assms(1) in simp)
qed

lemma extractEntry_modest:
  assumes "all_modest t t1" and "extractEntry v root e t1 = (g, t2)"
  shows "all_modest t t2"
proof (cases "entryPath t1 root (te_name e)")
  case (Inr target)
  consider (dir) w where "tr_MkdirAll v (elems target) t1 = (w, t2)"
    | (reg) "with_parent v target (writeEntry v target e) t1 = (g, t2)"
    | (link) resolved where "with_parent v target (write_link v root e target resolved) t1 = (g, t2)"
    | (none) "t2 = t1"
    using assms(2) Inr by (auto simp: extractEntry_def os_result_def split: if_splits sum.splits) (metis prod.collapse)
  then show ?thesis
  proof cases
    case dir
    with assms(1) show ?thesis by (rule mkdir_modest)
  next
    case reg
    with assms(1) show ?thesis by (rule with_parent_modest) (rule writeEntry_modest)
  next
    case link
    with assms(1) show ?thesis by (rule with_parent_modest) (rule write_link_modest)
  qed (use assms(1) in simp)
qed (use assms in \<open>simp add: extractEntry_def\<close>)

lemma extract_entries_modest:
  "extract_entries v root es end t1 = (g, t2) \<Longrightarrow> all_modest t t1 \<Longrightarrow> all_modest t t2"
proof (induction v root es "end" t1 rule: extract_entries.induct)
  case (2 v root e es "end" t1)
  obtain w t0 where e: "extractEntry v root e t1 = (w, t0)" by fastforce
  note m = extractEntry_modest [OF "2.prems"(2) e]
  show ?case using "2.IH" [OF e [symmetric]] "2.prems"(1) e m by (cases w) auto
qed simp

text \<open>
  A file found after an extraction has at most the permissions 0755, or is a file that was there
  before (a hard link gives it a second name): no archive can plant a setuid or a world-writable file.
\<close>

theorem extracted_modes_are_masked:
  assumes "extractTarGz v ar destination t = (res, t')" and "t' p = Some (AFile m b)"
  shows "m AND NOT entryMode = 0 \<or> (\<exists>q. t q = Some (AFile m b))"
proof -
  have "all_modest t t" by (auto simp: all_modest_def modest_def)
  moreover obtain w t1 where m: "tr_MkdirAll v (elems (tr_Abs v destination)) t = (w, t1)" by fastforce
  ultimately have t1: "all_modest t t1" by (rule mkdir_modest)
  have "t' = t1 \<or> (\<exists>es end g. extract_entries v (tr_Abs v destination) es end t1 = (g, t'))"
    using assms(1) m by (auto simp: extractTarGz_def split: option.splits sum.splits prod.splits)
  with t1 have "all_modest t t'" by (blast intro: extract_entries_modest)
  with assms(2) show ?thesis by (auto simp: all_modest_def modest_def)
qed

section \<open>Concrete archives\<close>

definition ex_sys :: sys_env where
  "ex_sys = \<lparr>sys_cwd = ''/'', sys_umask = 18, sys_deny = (\<lambda>_. False), sys_room = (\<lambda>_. None)\<rparr>"

definition ex_tree :: tree where
  "ex_tree = map_of [([''srv''], ADir), ([''srv'', ''st''], ADir), ([''etc''], ADir), ([''etc'', ''key''], AFile 384 ''k'')]"

definition ex_file :: tar_entry where
  "ex_file = \<lparr>te_name = ''b/s'', te_linkname = [], te_type = TypeReg, te_mode = 511, te_size = 2, te_body = ''ok''\<rparr>"

definition ex_link :: "string \<Rightarrow> string \<Rightarrow> tar_entry" where
  "ex_link name target = \<lparr>te_name = name, te_linkname = target, te_type = TypeSymlink, te_mode = 511, te_size = 0, te_body = []\<rparr>"

lemma ex_tree_real: "real_tree ex_tree"
  by (auto simp: real_tree_def ex_tree_def at_dir_def append_eq_Cons_conv split: if_splits)

definition ex_extracted :: "gerr option \<times> tree" where
  "ex_extracted = extractTarGz ex_sys (Inr ([ex_file], None)) ''/srv/st'' ex_tree"

lemma ex_extracted_shape:
  "fst ex_extracted = None" "snd ex_extracted [''srv'', ''st'', ''b'', ''s''] = Some (AFile 493 ''ok'')"
  "rooted (tr_Abs ex_sys ''/srv/st'')" "at_dir ex_tree [''srv'', ''st'']"
  "tr_walk ex_tree tr_eval_links [] (elems (tr_Abs ex_sys ''/srv/st'')) = Inr [''srv'', ''st'']"
  "ex_tree [''srv'', ''st'', ''b'', ''s''] = None" "ex_tree [''etc'', ''key''] = Some (AFile 384 ''k'')"
  by code_simp+

theorem extraction_stays_inside_witness:
  "snd ex_extracted [''srv'', ''st'', ''b'', ''s''] = Some (AFile 493 ''ok'') \<and>
   strict_prefix [''srv'', ''st''] [''srv'', ''st'', ''b'', ''s''] \<and>
   snd ex_extracted [''etc'', ''key''] = Some (AFile 384 ''k'')"
proof -
  have "extractTarGz ex_sys (Inr ([ex_file], None)) ''/srv/st'' ex_tree = (None, snd ex_extracted)"
    using ex_extracted_shape(1) by (simp add: ex_extracted_def prod_eq_iff)
  from extraction_stays_inside [OF ex_tree_real ex_extracted_shape(3,5,4) this] ex_extracted_shape
  show ?thesis by simp
qed

theorem extracted_modes_are_masked_witness: "(493 :: 32 word) AND NOT entryMode = 0"
proof -
  have "extractTarGz ex_sys (Inr ([ex_file], None)) ''/srv/st'' ex_tree = (None, snd ex_extracted)"
    using ex_extracted_shape(1) by (simp add: ex_extracted_def prod_eq_iff)
  moreover have "ex_tree q \<noteq> Some (AFile 493 ''ok'')" for q
    by (simp add: ex_tree_def)
  ultimately show ?thesis using extracted_modes_are_masked ex_extracted_shape(2) by blast
qed

text \<open>
  The content of a link is computed from the entry's path as it is written, while the kernel puts the link
  where that path really leads. Two links suffice: the first leads from a deep directory back to the
  root, the second is written through it, and climbs out of the directory the extraction promises not to leave.
\<close>

definition ex_planted :: "gerr option \<times> tree" where
  "ex_planted = extractTarGz ex_sys (Inr ([ex_link ''a/b/c'' ''../..'', ex_link ''a/b/c/l'' ''../../../etc/key''], None)) ''/srv/st'' ex_tree"

theorem planted_link_escapes:
  "fst ex_planted = None \<and> snd ex_planted [''srv'', ''st'', ''l''] = Some (ALink ''../../../etc/key'') \<and>
   tr_walk (snd ex_planted) tr_kernel_links [] [''srv'', ''st'', ''l''] = Inr [''etc'', ''key'']"
  by code_simp

end
