(* ===== verification/Releases.thy ===== *)
theory Releases
  imports Installers Archive
begin

text \<open>
  The release server of llama.cpp: \<^verbatim>\<open>backends/llamacpp/github_fetcher.go\<close>, from the release's metadata over the choice
  of its asset to the unpacked payload. HTTP, the JSON decoder, SHA-256, \<^verbatim>\<open>gzip\<close> with the tar reader and
  the directory walk are fields of \<open>release_env\<close>; the file system is the one of theory Archive.
\<close>

section \<open>The environment\<close>

text \<open>An answer: its status code and text, the body, and the error reading it ended with, if any.\<close>

record http_answer =
  ha_code :: nat
  ha_status :: string
  ha_body :: string
  ha_error :: "gerr option"

record raw_asset =
  rw_name :: string
  rw_url :: string
  rw_digest :: string
  rw_size :: int

record raw_release =
  rw_tag :: string
  rw_tarball :: string
  rw_assets :: "raw_asset list"

text \<open>\<open>rv_list\<close> is \<^verbatim>\<open>filepath.WalkDir\<close>: each path below a directory with whether it is a directory.\<close>

record release_env =
  rv_sys :: sys_env
  rv_get :: "string \<Rightarrow> gerr + http_answer"
  rv_decode :: "http_answer \<Rightarrow> gerr + raw_release"
  rv_sha :: "string \<Rightarrow> string"
  rv_untar :: "string \<Rightarrow> tar_archive"
  rv_list :: "string \<Rightarrow> tree \<Rightarrow> gerr + (string \<times> bool) list"
  rv_progress :: "string \<Rightarrow> gerr option"

record github_fetcher =
  gf_goos :: string
  gf_goarch :: string
  gf_apiBase :: string

section \<open>The release\<close>

definition defaultReleaseAPI :: string where
  "defaultReleaseAPI = ''https://api.github.com/repos/ggml-org/llama.cpp/releases''"

definition gf_base :: "github_fetcher \<Rightarrow> string" where
  "gf_base f = (if gf_apiBase f \<noteq> [] then gf_apiBase f else defaultReleaseAPI)"

definition asset_of :: "raw_asset \<Rightarrow> release_asset" where
  "asset_of a = \<lparr>ra_name = rw_name a, ra_url = rw_url a, ra_digest = rw_digest a, ra_size = rw_size a\<rparr>"

definition decodeRelease :: "release_env \<Rightarrow> http_answer \<Rightarrow> gerr + release" where
  "decodeRelease v r =
     (case rv_decode v r of
        Inl e \<Rightarrow> Inl e
      | Inr raw \<Rightarrow>
          if rw_tag raw = [] then Inl (Errorw (Str ''llama.cpp release metadata is incomplete'') [])
          else Inr \<lparr>re_version = rw_tag raw, re_tarball = rw_tarball raw, re_assets = map asset_of (rw_assets raw)\<rparr>)"

definition gf_Resolve :: "release_env \<Rightarrow> github_fetcher \<Rightarrow> accel \<Rightarrow> string \<Rightarrow> gerr + release" where
  "gf_Resolve v f acc version =
     (let endpoint = (if version \<noteq> [] then gf_base f @ ''/tags/'' @ version else gf_base f @ ''/latest'')
      in case rv_get v endpoint of
          Inl e \<Rightarrow> Inl (Errorw (Fmt ''resolve llama.cpp release: %w'' []) [e])
        | Inr r \<Rightarrow>
            if ha_code r \<noteq> 200 then Inl (Errorw (Fmt ''resolve llama.cpp release: %s'' [Str (ha_status r)]) [])
            else decodeRelease v r)"

section \<open>The asset for a host\<close>

definition trim_suffix :: "string \<Rightarrow> string \<Rightarrow> string" where
  "trim_suffix s suf = (if has_suffix s suf then take (length s - length suf) s else s)"

definition asset_arch :: "github_fetcher \<Rightarrow> string" where
  "asset_arch f = (if gf_goarch f = ''amd64'' then ''x64'' else if gf_goarch f = ''arm64'' then ''arm64'' else [])"

definition asset_name :: "github_fetcher \<Rightarrow> string \<Rightarrow> accel \<Rightarrow> string" where
  "asset_name f version acc =
     ''llama-'' @ version @ ''-bin-'' @ (if gf_goos f = ''darwin'' then ''macos'' else ''ubuntu'') @
     (if acc \<noteq> AccelCPU \<and> acc \<noteq> AccelMetal then ''-'' @ accel_text acc else []) @ ''-'' @ asset_arch f @ ''.tar.gz''"

definition asset_matches :: "github_fetcher \<Rightarrow> string \<Rightarrow> accel \<Rightarrow> string \<Rightarrow> bool" where
  "asset_matches f version acc candidate \<longleftrightarrow>
     candidate = asset_name f version acc \<or>
     acc = AccelROCm \<and>
       has_prefix candidate (trim_suffix (asset_name f version acc) (asset_arch f @ ''.tar.gz'')) \<and>
       has_suffix candidate (''-'' @ asset_arch f @ ''.tar.gz'')"

definition ErrNoPrebuilt :: gerr where
  "ErrNoPrebuilt = Sentinel (OtherSentinel ''no matching llama.cpp prebuilt'')"

definition selectAsset :: "github_fetcher \<Rightarrow> release \<Rightarrow> accel \<Rightarrow> gerr + release_asset" where
  "selectAsset f rel acc =
     (case filter (\<lambda>a. asset_matches f (re_version rel) acc (ra_name a)) (re_assets rel) of
        a # _ \<Rightarrow> Inr a
      | [] \<Rightarrow> Inl (Errorw (Fmt ''%w for %s/%s/%s'' [Str (gf_goos f), Str (gf_goarch f), Str (accel_text acc)]) [ErrNoPrebuilt]))"

section \<open>Downloading and unpacking\<close>

text \<open>The digest and the length are those of what was read; a body that ends with an error is no download.\<close>

definition download :: "release_env \<Rightarrow> string \<Rightarrow> string \<Rightarrow> tree \<Rightarrow> (gerr + string \<times> string) \<times> tree" where
  "download v url destination t =
     (case rv_get v url of
        Inl e \<Rightarrow> (Inl e, t)
      | Inr r \<Rightarrow>
          if ha_code r \<noteq> 200 then (Inl (Errorw (Fmt ''download %s: %s'' [Str url, Str (ha_status r)]) []), t)
          else let p = elems destination;
                   room = (case sys_room (rv_sys v) p of None \<Rightarrow> length (ha_body r) | Some k \<Rightarrow> k)
               in case tr_create (rv_sys v) p (AFile (384 AND NOT (sys_umask (rv_sys v))) (take room (ha_body r))) t of
                    (Some w, t1) \<Rightarrow> (Inl (walk_gerr w), t1)
                  | (None, t1) \<Rightarrow>
                      (if room < length (ha_body r) then Inl (Errorw (Str ''no space left on device'') [])
                       else case ha_error r of Some e \<Rightarrow> Inl e | None \<Rightarrow> Inr (rv_sha v (ha_body r), ha_body r), t1))"

text \<open>\<^verbatim>\<open>os.Remove\<close> of a file.\<close>

definition tr_Remove :: "sys_env \<Rightarrow> string list \<Rightarrow> tree \<Rightarrow> walk_error option \<times> tree" where
  "tr_Remove v p t =
     (case place t p of
        Inl e \<Rightarrow> (Some e, t)
      | Inr q \<Rightarrow>
          (case t q of
             None \<Rightarrow> (Some WNotExist, t)
           | Some ADir \<Rightarrow> (Some WExist, t)
           | Some _ \<Rightarrow> if sys_deny v q then (Some WDenied, t) else (None, t(q := None))))"

definition findExecutable :: "release_env \<Rightarrow> string \<Rightarrow> tree \<Rightarrow> gerr + string" where
  "findExecutable v root t =
     (case rv_list v root t of
        Inl e \<Rightarrow> Inl e
      | Inr es \<Rightarrow>
          (case filter (\<lambda>(p, d). \<not> d \<and> Base p = ''llama-server'') es of
             [(p, _)] \<Rightarrow> Inr p
           | ms \<Rightarrow> Inl (Errorw (Fmt ''expected one %s, found %d'' [Str ''llama-server'', Str (itoa (length ms))]) [])))"

definition unpack :: "release_env \<Rightarrow> release_asset \<Rightarrow> string \<Rightarrow> string \<Rightarrow> string \<Rightarrow> string \<Rightarrow> tree \<Rightarrow> (gerr + payload) \<times> tree" where
  "unpack v asset dir arch hash data t =
     (case rv_progress v (''extract prebuilt...'' @ [newline]) of
        Some e \<Rightarrow> (Inl e, t)
      | None \<Rightarrow>
          (case extractTarGz (rv_sys v) (rv_untar v data) dir t of
             (Some e, t1) \<Rightarrow> (Inl e, t1)
           | (None, t1) \<Rightarrow>
               (case tr_Remove (rv_sys v) (elems arch) t1 of
                  (Some w, t2) \<Rightarrow> (Inl (walk_gerr w), t2)
                | (None, t2) \<Rightarrow>
                    (case findExecutable v dir t2 of
                       Inl e \<Rightarrow> (Inl e, t2)
                     | Inr exe \<Rightarrow>
                         (Inr \<lparr>py_executable = exe, py_source = ra_url asset, py_digest = ''sha256:'' @ hash\<rparr>, t2)))))"

text \<open>What the archive holds is read back from its file: the bytes that were hashed.\<close>

definition gf_Fetch :: "release_env \<Rightarrow> github_fetcher \<Rightarrow> release \<Rightarrow> accel \<Rightarrow> string \<Rightarrow> tree \<Rightarrow> (gerr + payload) \<times> tree" where
  "gf_Fetch v f rel acc dir t =
     (case selectAsset f rel acc of
        Inl e \<Rightarrow> (Inl e, t)
      | Inr asset \<Rightarrow>
          if ra_size asset \<le> 0 \<or> \<not> has_prefix (ra_digest asset) ''sha256:''
          then (Inl (Errorw (Fmt ''release asset %s lacks a SHA256 digest or size'' [Str (ra_name asset)]) []), t)
          else (case rv_progress v (''download '' @ ra_name asset @ ''...'' @ [newline]) of
             Some e \<Rightarrow> (Inl e, t)
           | None \<Rightarrow>
               (case download v (ra_url asset) (Join [dir, ''release.tar.gz'']) t of
                  (Inl e, t1) \<Rightarrow> (Inl e, t1)
                | (Inr (hash, data), t1) \<Rightarrow>
                    if int (length data) \<noteq> ra_size asset \<or> \<not> equal_fold hash (trim_prefix (ra_digest asset) ''sha256:'')
                    then (Inl (Errorw (Str ''release asset integrity check failed'') []), t1)
                    else unpack v asset dir (Join [dir, ''release.tar.gz'']) hash data t1)))"

section \<open>A payload is what the release names\<close>

lemma selectAsset_matches:
  "selectAsset f rel acc = Inr a \<Longrightarrow> a \<in> set (re_assets rel) \<and> asset_matches f (re_version rel) acc (ra_name a)"
  by (auto simp: selectAsset_def split: list.splits dest: filter_eq_ConsD)

lemma download_reads:
  "download v url dest t = (Inr (hash, data), t1) \<Longrightarrow>
   \<exists>r. rv_get v url = Inr r \<and> ha_code r = 200 \<and> ha_error r = None \<and> data = ha_body r \<and> hash = rv_sha v data"
  by (auto simp: download_def Let_def split: sum.splits if_splits prod.splits option.splits)

lemma findExecutable_only:
  assumes "findExecutable v dir t = Inr exe"
  shows "\<exists>es. rv_list v dir t = Inr es \<and> [e \<leftarrow> es. \<not> snd e \<and> Base (fst e) = ''llama-server''] = [(exe, False)]"
proof -
  obtain es where es: "rv_list v dir t = Inr es" using assms by (auto simp: findExecutable_def split: sum.splits)
  have f: "(\<lambda>(p, d). \<not> d \<and> Base p = ''llama-server'') = (\<lambda>e. \<not> snd e \<and> Base (fst e) = ''llama-server'')" by auto
  obtain p d where "[e \<leftarrow> es. \<not> snd e \<and> Base (fst e) = ''llama-server''] = [(p, d)]" "exe = p"
    using assms es unfolding findExecutable_def f by (auto split: list.splits)
  moreover from this have "(p, d) \<in> set [e \<leftarrow> es. \<not> snd e \<and> Base (fst e) = ''llama-server'']" by simp
  then have "\<not> d" by simp
  ultimately show ?thesis using es by auto
qed

lemma unpack_payload:
  "unpack v asset dir arch hash data t = (Inr py, t') \<Longrightarrow>
   py_source py = ra_url asset \<and> py_digest py = ''sha256:'' @ hash \<and>
   (\<exists>es. rv_list v dir t' = Inr es \<and> [e \<leftarrow> es. \<not> snd e \<and> Base (fst e) = ''llama-server''] = [(py_executable py, False)])"
  by (auto simp: unpack_def split: option.splits prod.splits sum.splits dest: findExecutable_only)

text \<open>
  C40: A payload comes from an asset of the release that matches the host: its download was complete and answered
  with 200, has the asset's size and SHA-256, and its digest is what the payload records; the executable is
  the only \<^verbatim>\<open>llama-server\<close> of the unpacked directory.
\<close>

theorem payload_is_verified:
  assumes "gf_Fetch v f rel acc dir t = (Inr py, t')"
  shows "\<exists>asset r. asset \<in> set (re_assets rel) \<and> asset_matches f (re_version rel) acc (ra_name asset) \<and>
           rv_get v (ra_url asset) = Inr r \<and> ha_code r = 200 \<and> ha_error r = None \<and>
           int (length (ha_body r)) = ra_size asset \<and> 0 < ra_size asset \<and>
           equal_fold (''sha256:'' @ rv_sha v (ha_body r)) (ra_digest asset) \<and>
           py_source py = ra_url asset \<and> py_digest py = ''sha256:'' @ rv_sha v (ha_body r) \<and>
           (\<exists>es. rv_list v dir t' = Inr es \<and>
              [e \<leftarrow> es. \<not> snd e \<and> Base (fst e) = ''llama-server''] = [(py_executable py, False)])"
proof -
  obtain asset where a: "selectAsset f rel acc = Inr asset" "0 < ra_size asset" "has_prefix (ra_digest asset) ''sha256:''"
    using assms by (auto simp: gf_Fetch_def split: sum.splits if_splits)
  then obtain hash data t1 where d: "download v (ra_url asset) (Join [dir, ''release.tar.gz'']) t = (Inr (hash, data), t1)"
      "int (length data) = ra_size asset" "equal_fold hash (trim_prefix (ra_digest asset) ''sha256:'')"
      "unpack v asset dir (Join [dir, ''release.tar.gz'']) hash data t1 = (Inr py, t')"
    using assms by (auto simp: gf_Fetch_def split: option.splits prod.splits sum.splits if_splits)
  obtain w where w: "ra_digest asset = ''sha256:'' @ w" using a(3) by (auto simp: has_prefix_iff)
  then have "trim_prefix (ra_digest asset) ''sha256:'' = w" by (simp add: trim_prefix_def has_prefix_iff)
  with d(3) w have e: "equal_fold (''sha256:'' @ hash) (ra_digest asset)" by (simp add: equal_fold_def to_lower_def)
  from selectAsset_matches [OF a(1)] download_reads [OF d(1)] unpack_payload [OF d(4)] a(2) d(2) e
  show ?thesis by blast
qed

text \<open>
  Whatever the release and the server send, and wherever the fetch stops, it leaves what was there as it was
  and everything it adds lies in the staging directory.
\<close>

lemma removing_new:
  assumes "t \<subseteq>\<^sub>m t1" and "t q = None"
  shows "t \<subseteq>\<^sub>m t1(q := None)"
  using assms by (auto simp: map_le_def dom_def)

lemma Join_release:
  assumes "rooted dir"
  shows "elems (Join [dir, ''release.tar.gz'']) = elems dir @ [''release.tar.gz'']"
  using assms by (intro elems_Join_plain) (auto simp: rooted_def plain_elem_def dotdot_def slash_def)

lemma place_below:
  assumes "tr_walk t tr_eval_links [] p = Inr rr" and "place t (p @ [c]) = Inr q"
  shows "q = rr @ [c]"
proof -
  obtain d where "tr_walk t tr_kernel_links [] p = Inr d" "q = d @ [c]"
    using assms(2) by (auto simp: place_def split: sum.splits if_splits)
  with kernel_within_eval [of t "[]" p d] assms(1) show ?thesis by simp
qed

lemma extract_grows:
  assumes "extractTarGz v ar dir t = (g, t')" and "rooted dir" and "Clean dir = dir"
    and "tr_walk t tr_eval_links [] (elems dir) = Inr rr" and "real_tree t" and "at_dir t rr"
  shows "tree_grows rr t t'"
proof -
  have A: "tr_Abs v dir = dir" using assms(2,3) by (simp add: tr_Abs_def IsAbs_def)
  have "\<forall>c\<in>set (elems dir). plain_elem c" using assms(2) rooted_elems_plain by blast
  with assms(4) have m: "snd (tr_MkdirAll v (elems dir) t) = t" by (blast intro: mkdir_existing)
  obtain w where mk: "tr_MkdirAll v (elems dir) t = (w, t)" using m by (metis prod.collapse)
  have "t' = t \<or> (\<exists>es end g. extract_entries v dir es end t = (g, t'))"
    using assms(1) mk A by (auto simp: extractTarGz_def split: option.splits sum.splits prod.splits)
  then show ?thesis using extract_entries_grows assms by (blast intro: grows_refl)
qed

theorem fetch_stays_in_staging:
  assumes "real_tree t" and "rooted dir" and "Clean dir = dir"
    and "tr_walk t tr_eval_links [] (elems dir) = Inr rr" and "at_dir t rr"
    and "gf_Fetch v f rel acc dir t = (res, t')"
  shows "(\<forall>p x. t p = Some x \<longrightarrow> t' p = Some x) \<and> (\<forall>p. t p = None \<and> t' p \<noteq> None \<longrightarrow> strict_prefix rr p)"
proof -
  define arch where "arch = elems dir @ [''release.tar.gz'']"
  have ar: "elems (Join [dir, ''release.tar.gz'']) = arch" using Join_release [OF assms(2)] by (simp add: arch_def)
  have dl: "t1 = t \<or> (\<exists>x w. tr_create (rv_sys v) arch x t = (w, t1))"
    if "download v url (Join [dir, ''release.tar.gz'']) t = (r, t1)" for url r t1
    using that by (auto simp: download_def Let_def ar split: sum.splits if_splits prod.splits option.splits)
  have g1: "tree_grows rr t t1 \<and> (t1 = t \<or> t (rr @ [''release.tar.gz'']) = None)"
    if "download v url (Join [dir, ''release.tar.gz'']) t = (r, t1)" for url r t1
    using dl [OF that]
  proof
    assume "\<exists>x w. tr_create (rv_sys v) arch x t = (w, t1)"
    then obtain x w where c: "tr_create (rv_sys v) arch x t = (w, t1)" by blast
    from create_grows [OF c assms(1)] place_below [OF assms(4), of "''release.tar.gz''"]
    show ?thesis by (auto simp: tree_grows_def arch_def strict_prefix_def split: if_splits)
  qed (simp add: grows_refl [OF assms(1)])
  have "t \<subseteq>\<^sub>m t' \<and> (\<forall>p. t p = None \<and> t' p \<noteq> None \<longrightarrow> strict_prefix rr p)"
  proof (cases "\<exists>asset r t1. download v (ra_url asset) (Join [dir, ''release.tar.gz'']) t = (r, t1) \<and>
      (t' = t1 \<or> (\<exists>hash data. r = Inr (hash, data) \<and> unpack v asset dir (Join [dir, ''release.tar.gz'']) hash data t1 = (res, t')))")
    case False
    then have "t' = t" using assms(6)
      by (auto simp: gf_Fetch_def split: sum.splits if_splits option.splits prod.splits)
    then show ?thesis by auto
  next
    case True
    then obtain asset r t1 where d: "download v (ra_url asset) (Join [dir, ''release.tar.gz'']) t = (r, t1)"
        "t' = t1 \<or> (\<exists>hash data. r = Inr (hash, data) \<and> unpack v asset dir (Join [dir, ''release.tar.gz'']) hash data t1 = (res, t'))" by blast
    note g = g1 [OF d(1)]
    note st = root_stays [OF assms(4,5) conjunct1 [OF g]]
    from d(2) show ?thesis
    proof
      assume "\<exists>hash data. r = Inr (hash, data) \<and> unpack v asset dir (Join [dir, ''release.tar.gz'']) hash data t1 = (res, t')"
      then obtain hash data where u: "r = Inr (hash, data)" "unpack v asset dir (Join [dir, ''release.tar.gz'']) hash data t1 = (res, t')" by blast
      have new: "t (rr @ [''release.tar.gz'']) = None" using g d(1) u(1) assms(1)
        by (auto simp: download_def Let_def ar tr_create_def split: sum.splits if_splits prod.splits option.splits)
           (metis place_below [OF assms(4)] arch_def)+
      obtain w t2 where x: "extractTarGz (rv_sys v) (rv_untar v data) dir t1 = (w, t2)" by fastforce
      have g2: "tree_grows rr t t2"
        using grows_trans [OF conjunct1 [OF g] extract_grows [OF x assms(2,3) st(1,3,2)]] .
      note s2 = root_stays [OF assms(4,5) g2]
      have "t' = t1 \<or> t' = t2 \<or> t' = t2(rr @ [''release.tar.gz''] := None)"
        using u(2) x place_below [OF s2(1), of "''release.tar.gz''"]
        by (auto simp: unpack_def ar tr_Remove_def arch_def split: option.splits prod.splits sum.splits anode.splits if_splits)
      moreover have "t \<subseteq>\<^sub>m t2(rr @ [''release.tar.gz''] := None)"
        using g2 new by (intro removing_new) (simp_all add: tree_grows_def)
      ultimately show ?thesis using conjunct1 [OF g] g2 by (auto simp: tree_grows_def split: if_splits)
    qed (use g in \<open>simp add: tree_grows_def\<close>)
  qed
  then show ?thesis by (auto simp: map_le_def dom_def)
qed

section \<open>A concrete release\<close>

definition ex_host_fetcher :: github_fetcher where
  "ex_host_fetcher = \<lparr>gf_goos = ''linux'', gf_goarch = ''amd64'', gf_apiBase = []\<rparr>"

definition ex_rocm_asset :: release_asset where
  "ex_rocm_asset =
     \<lparr>ra_name = ''llama-b1-bin-ubuntu-rocm-7.2-x64.tar.gz'', ra_url = ''u'', ra_digest = ''sha256:0F'', ra_size = 2\<rparr>"

definition ex_release :: release where
  "ex_release =
     \<lparr>re_version = ''b1'', re_tarball = [],
      re_assets = [ex_rocm_asset\<lparr>ra_name := ''llama-b1-bin-ubuntu-x64.tar.gz''\<rparr>, ex_rocm_asset]\<rparr>"

definition ex_binary :: tar_entry where
  "ex_binary = ex_file\<lparr>te_name := ''bin/llama-server''\<rparr>"

definition ex_release_env :: release_env where
  "ex_release_env =
     \<lparr>rv_sys = ex_sys,
      rv_get = (\<lambda>_. Inr \<lparr>ha_code = 200, ha_status = ''200 OK'', ha_body = ''gz'', ha_error = None\<rparr>),
      rv_decode = (\<lambda>_. Inl (Errorw (Str ''unused'') [])), rv_sha = (\<lambda>_. ''0f''), rv_untar = (\<lambda>_. Inr ([ex_binary], None)),
      rv_list = (\<lambda>dir _. Inr [(dir, True), (Join [dir, ''bin''], True), (Join [dir, ''bin/llama-server''], False)]),
      rv_progress = (\<lambda>_. None)\<rparr>"

definition ex_fetch :: "(gerr + payload) \<times> tree" where
  "ex_fetch = gf_Fetch ex_release_env ex_host_fetcher ex_release AccelROCm ''/srv/st'' ex_tree"

definition ex_payload :: payload where
  "ex_payload = \<lparr>py_executable = ''/srv/st/bin/llama-server'', py_source = ''u'', py_digest = ''sha256:0f''\<rparr>"

lemma ex_fetch_shape:
  "fst ex_fetch = Inr ex_payload" "snd ex_fetch [''srv'', ''st'', ''bin'', ''llama-server''] = Some (AFile 493 ''ok'')"
  "snd ex_fetch [''srv'', ''st'', ''release.tar.gz''] = None"
  "rooted ''/srv/st''" "Clean ''/srv/st'' = ''/srv/st''" "at_dir ex_tree [''srv'', ''st'']"
  "tr_walk ex_tree tr_eval_links [] (elems ''/srv/st'') = Inr [''srv'', ''st'']"
  "ex_tree [''srv'', ''st'', ''bin'', ''llama-server''] = None" "ex_tree [''etc'', ''key''] = Some (AFile 384 ''k'')"
  by code_simp+

lemma ex_fetch_run:
  "gf_Fetch ex_release_env ex_host_fetcher ex_release AccelROCm ''/srv/st'' ex_tree = (Inr ex_payload, snd ex_fetch)"
  using ex_fetch_shape(1) by (simp add: ex_fetch_def prod_eq_iff)

theorem payload_is_verified_witness:
  "\<exists>asset. asset \<in> set (re_assets ex_release) \<and>
     asset_matches ex_host_fetcher (re_version ex_release) AccelROCm (ra_name asset) \<and>
     equal_fold ''sha256:0f'' (ra_digest asset) \<and> py_source ex_payload = ra_url asset"
  using payload_is_verified [OF ex_fetch_run] by (auto simp: ex_release_env_def)

theorem fetch_stays_in_staging_witness:
  "snd ex_fetch [''etc'', ''key''] = Some (AFile 384 ''k'') \<and>
   strict_prefix [''srv'', ''st''] [''srv'', ''st'', ''bin'', ''llama-server''] \<and>
   snd ex_fetch [''srv'', ''st'', ''bin'', ''llama-server''] = Some (AFile 493 ''ok'')"
  using fetch_stays_in_staging [OF ex_tree_real ex_fetch_shape(4,5,7,6) ex_fetch_run] ex_fetch_shape(2,8,9) by simp

end
