(* ===== verification/Spec2Isabelle.thy ===== *)
theory Spec2Isabelle
  imports Handlers Reconcile LogService InstallService Releases
begin

text \<open>
  A model of inferencerig, a daemon that runs inference engines on one machine: profiles say which model a
  backend is to serve and where, and a control plane starts, stops and recovers the engine processes,
  downloads the models, and keeps the configuration. The Go sources are under \<^verbatim>\<open>src/\<close>.

  \<^bold>\<open>The program and its model.\<close> Every operation is a function of the state it reads that returns its result
  and the state it leaves; an error is a value (\<open>gerr\<close>), so every early return is a branch. The state of
  the daemon is the record \<open>world\<close> (theory \<open>Manager\<close>): the manager with its one runtime slot and its audit
  trail, the process objects its factory made, the machine (\<open>host\<close>: processes and files), and the table of
  downloads. What the world answers to a call is an argument: \<open>io_env\<close> says which system calls fail,
  \<open>outcome\<close> what happens to one process (spawned or not, its ticks until it is ready, whether it dies when
  asked), \<open>answers\<close> collects them for one request, \<open>net\<close> is the HTTP server of a download. A theorem
  without a hypothesis on them holds for every machine.

  \<^bold>\<open>Theories, from the bottom.\<close>
  \<^item> \<open>Prelude\<close>: Go's string functions, decimal numbers, maps as association lists, and the locales
    \<open>inv_system\<close> (an invariant of a step relation) and \<open>simulation\<close> (refinement of a specification).
  \<^item> \<open>GoPath\<close>: \<^verbatim>\<open>path/filepath\<close> on cleaned element lists; \<open>NetAddr\<close>: \<^verbatim>\<open>net.SplitHostPort\<close>, \<^verbatim>\<open>JoinHostPort\<close>.
  \<^item> \<open>Errors\<close>: \<^verbatim>\<open>core/control/errors.go\<close> and the mapping of each layer's errors to kinds.
  \<^item> \<open>Files\<close>: a file system with symlinks, and \<^verbatim>\<open>platform/filedoc\<close>: atomic replacement under any failing
    call, backups. \<open>Profiles\<close>, \<open>Yaml\<close>: \<^verbatim>\<open>core/profiles\<close>, the store and the merge of a document into the
    YAML the user wrote. \<open>Config\<close>, \<open>ConfigStore\<close>: \<^verbatim>\<open>config\<close> and \<^verbatim>\<open>core/configstore\<close>.
  \<^item> \<open>Events\<close>: \<^verbatim>\<open>core/control/events.go\<close> and \<^verbatim>\<open>journal.go\<close>, bounded logs with subscribers.
  \<^item> \<open>Backend\<close>: \<^verbatim>\<open>backends\<close>, a backend as the record of its methods, and the registry.
  \<^item> \<open>Slot\<close>: \<^verbatim>\<open>core/control/slot.go\<close>, the critical sections of the manager. \<open>Lifecycle\<close>: their interleaving,
    a step relation whose tasks are operations in flight.
  \<^item> \<open>Supervisor\<close>: \<^verbatim>\<open>core/runtime/supervisor.go\<close> and \<^verbatim>\<open>platform/pidfile\<close>, one process from spawn to stop, and
    its adoption by the next daemon.
  \<^item> \<open>Download\<close>: \<^verbatim>\<open>core/modeldownload\<close>, transfer, verification and publication of one model, the table of jobs
    with its goroutines as a step relation, persistence and recovery. \<open>LocalModels\<close>: \<^verbatim>\<open>core/modelcatalog/local.go\<close>.
  \<^item> \<open>Manager\<close>, \<open>Operations\<close>, \<open>Recovery\<close>: the handlers of \<^verbatim>\<open>core/control\<close>, each run to its end and composed as
    the code composes them: \<^verbatim>\<open>manager.go\<close> and \<^verbatim>\<open>reload.go\<close>; \<^verbatim>\<open>operations.go\<close>, \<^verbatim>\<open>localmodels.go\<close> and
    \<^verbatim>\<open>autostart.go\<close>; \<^verbatim>\<open>recovery.go\<close>.
  \<^item> \<open>Active\<close>: the specification of the runtime (idle, serving, stuck) and the proof that the handlers refine
    it. \<open>Handlers\<close>, \<open>Reconcile\<close>: what single requests and the reconciliation at startup guarantee.
  \<^item> The engines. \<open>ModelsIni\<close>, \<open>Quant\<close>, \<open>LlamaCpp\<close>, \<open>LlamaImport\<close>: \<^verbatim>\<open>backends/llamacpp\<close>, its preset file, quantization
    names, validation, resolution and launch, and the three-way import of edits. \<open>Mlx\<close>, \<open>Strata\<close>: \<^verbatim>\<open>backends/mlx\<close>
    and \<^verbatim>\<open>backends/strata\<close>. \<open>Fit\<close>: \<^verbatim>\<open>core/modelcatalog/fit.go\<close>, each engine's \<^verbatim>\<open>fit.go\<close> and \<^verbatim>\<open>host.go\<close>. \<open>Engines\<close>: the
    three as registered backends, each an instance of the contract.
  \<^item> \<open>InstallState\<close>, \<open>Installers\<close>: \<^verbatim>\<open>backends/installstate.go\<close> and the three \<^verbatim>\<open>install.go\<close>, with the operations of the
    control manager over them; the locale \<open>managed_engine\<close> is what the three installers share. \<open>Archive\<close>, \<open>Releases\<close>:
    \<^verbatim>\<open>backends/llamacpp/archive.go\<close> and \<^verbatim>\<open>github_fetcher.go\<close>, the choice, download and unpacking of a release, over a
    file system (\<open>tree\<close>) whose lookups follow every link of a path.
  \<^item> \<open>Catalog\<close>: \<^verbatim>\<open>core/modelcatalog/catalog.go\<close>, search, cache and refresh. \<open>HostFit\<close>: \<^verbatim>\<open>core/control/fit.go\<close> and
    \<^verbatim>\<open>core/rpc/fit.go\<close>, which variants a host can serve.
  \<^item> \<open>AuditLogs\<close>: \<^verbatim>\<open>platform/audit/logs.go\<close>, log files, archives, tails and followers.
  \<^item> \<open>Rpc\<close>, \<open>LogService\<close>, \<open>InstallService\<close>: the handlers of \<^verbatim>\<open>core/rpc\<close> with their errors and messages.

  \<^bold>\<open>What is shown.\<close> Of the runtime: at most one engine lives under any interleaving, operations exclude one
  another and end, and every handler moves the abstract runtime as its request allows and leaves the slot free
  for the next. Of processes: a start ends none, a stop ends at most its own, a start leaves a recorded process
  or none, recovery touches none and adopts only the recorded engine. Of data: what is stored is read back, a
  replacement is atomic, edits of the configuration leave a file that loads, a configuration that loads is not
  exposed without the explicit key, merges say what was asked. Of models: a download
  is published only verified and by one writer, a model in use or shared is not deleted, a removal stays below
  the root. Of engines: validated profiles render, the rendered file parses back, edits of it are adopted or
  reported, all backends keep the contract, an installation is recorded whole or not at all and a rollback
  undoes it; a payload is the verified asset of its release, and unpacking it changes nothing outside its
  directory, whatever links the archive plants. Of the catalog: one refresh per entry at a time, and a listing filtered by fit names only models that
  fit by the exact value of the float arithmetic. Of the edges: error kinds and structured profiles survive the
  wire, a follower of a log misses no line, log requests stay in their directories. Of errors: missing profiles are
  reported as such with nothing changed, and autostart accounts for every profile. The theorems that pin down where
  the code falls short of its purpose are stated the same way (leaks at shutdown and after a failed stop, digests
  recorded beside the staging file, partial downloads lost or stuck, a forced download taken as complete, a forced
  installation that loses what a rollback returns to, a tail that cuts its first line, a link of an archive that
  points out of the directory).

  \<^bold>\<open>Bounds.\<close> Following a symlink takes fuel 40, the limit of the kernel: more links are an error there too
  (\<^verbatim>\<open>filepath.EvalSymlinks\<close> follows 255, \<open>eval_links\<close>).
  \<^verbatim>\<open>m.ops\<close> is a \<^verbatim>\<open>uint64\<close> and wraps at \<open>2 ^ 64\<close> (\<open>next_op\<close>); the bytes of a fit estimate are \<^verbatim>\<open>int64\<close> and wrap
  (\<open>wrap64\<close>), and the ninety percent limit is the rounding of \<^verbatim>\<open>float64\<close> written out (\<open>ninety_percent\<close>); the conversion of a
  float out of range is that of amd64. A structured message rounds integers to 53 bits (\<open>round53\<close>). Other sizes and
  ports are unbounded integers, with the range checks the code makes. Other recursions are structural or have a
  measure; a loop that waits takes the list of its ticks, which a context ends.

  \<^bold>\<open>Parameters.\<close> Parsing and printing YAML (\<^verbatim>\<open>gopkg.in/yaml.v3\<close>) and JSON texts (codecs, with the hypothesis that
  what was written is read back), SHA-256, \<^verbatim>\<open>url.Parse\<close>, the network and the hub, the GGUF library, the tools that
  probe a host and the commands of an installer, HTTP, gzip and the tar reader, the clock, and the operating system's answers.
  Durations, log lines of the daemon itself and contexts that are cancelled in the middle of a file operation are left
  out; an audit event has no timestamp. A YAML mapping nested in engine arguments is kept as its text.

  \<^bold>\<open>Not modelled.\<close> The environment of a child process and the attachment of its log. The doctor, whose
  checks read what the other parts say and print it. The streaming handlers of the RPC service other than the log
  stream, its socket, and the generated messages. The adapters (\<^verbatim>\<open>cli\<close>, \<^verbatim>\<open>tui\<close>, \<^verbatim>\<open>mcp\<close>, \<^verbatim>\<open>public_http\<close>), commands,
  setup wizard, bootstrap and signal collector are input, output and wiring; \<^verbatim>\<open>webui\<close> is not Go. A panic of the import of
  edits is an error in the backend record, which has no panics.
\<close>

end
